(* ===== verification/Prelude.thy ===== *)
theory Prelude
  imports Main
begin

section \<open>Prelude: errors as values, state passing, association lists\<close>

text \<open>
  What every component of the development shares.

  \<^item> Python exceptions are values: a computation that may raise has type \<open>'e + 'a\<close>, with
    \<open>Inl\<close> the exception raised and \<open>Inr\<close> the value returned.
  \<^item> A computation that also changes something (a log of warnings, a summary record, the
    state of a server) has type \<open>'s \<Rightarrow> ('e + 'a) \<times> 's\<close>: the state is returned also when an
    exception is raised, as Python keeps the effects done before the \<open>raise\<close>.
  \<^item> A Python dict with keys in insertion order is an association list.

  The collection \<open>monad_simps\<close> holds the evaluation rules of the combinators.
\<close>

named_theorems monad_simps \<open>evaluation rules of the result and state combinators\<close>

subsection \<open>Results\<close>

definition rbind :: "'e + 'a \<Rightarrow> ('a \<Rightarrow> 'e + 'b) \<Rightarrow> 'e + 'b" where
  "rbind m f = (case m of Inl e \<Rightarrow> Inl e | Inr a \<Rightarrow> f a)"

lemma rbind_simps [simp, monad_simps]:
  "rbind (Inl e) f = Inl e"
  "rbind (Inr a) f = f a"
  by (simp_all add: rbind_def)

lemma rbind_eq_Inl: "rbind r k = Inl e \<longleftrightarrow> r = Inl e \<or> (\<exists>a. r = Inr a \<and> k a = Inl e)"
  by (cases r) auto

lemma rbind_eq_Inr: "rbind m f = Inr b \<longleftrightarrow> (\<exists>a. m = Inr a \<and> f a = Inr b)"
  by (cases m) auto

lemma rbind_InrE [elim!]:
  assumes "rbind m f = Inr b"
  obtains a where "m = Inr a" and "f a = Inr b"
  using assms by (auto simp: rbind_eq_Inr)

fun rmapM :: "('a \<Rightarrow> 'e + 'b) \<Rightarrow> 'a list \<Rightarrow> 'e + 'b list" where
  "rmapM f [] = Inr []"
| "rmapM f (x # xs) = rbind (f x) (\<lambda>y. rbind (rmapM f xs) (\<lambda>ys. Inr (y # ys)))"

lemma rmapM_cong [fundef_cong]:
  "xs = ys \<Longrightarrow> (\<And>x. x \<in> set ys \<Longrightarrow> f x = g x) \<Longrightarrow> rmapM f xs = rmapM g ys"
  by (induction ys arbitrary: xs) auto

lemma rmapM_Inr_map: "(\<And>x. x \<in> set xs \<Longrightarrow> f x = Inr (g x)) \<Longrightarrow> rmapM f xs = Inr (map g xs)"
  by (induction xs) auto

lemma rmapM_length: "rmapM f xs = Inr ys \<Longrightarrow> length ys = length xs"
  by (induction xs arbitrary: ys) auto

lemma rmapM_Inr: "(\<And>x. x \<in> set xs \<Longrightarrow> f x = Inr (g x)) \<Longrightarrow> rmapM f xs = Inr (map g xs)"
  by (induction xs) auto

lemma rmapM_set:
  "rmapM f xs = Inr ys \<Longrightarrow> y \<in> set ys \<Longrightarrow> \<exists>x \<in> set xs. f x = Inr y"
  by (induction xs arbitrary: ys) auto

lemma rmapM_nth:
  "rmapM f xs = Inr ys \<Longrightarrow> i < length xs \<Longrightarrow> f (xs ! i) = Inr (ys ! i)"
  by (induction xs arbitrary: ys i) (auto simp: nth_Cons split: nat.splits)

subsection \<open>State with exceptions\<close>

type_synonym ('e, 's, 'a) st = "'s \<Rightarrow> ('e + 'a) \<times> 's"

definition ret :: "'a \<Rightarrow> ('e, 's, 'a) st" where
  "ret a = (\<lambda>s. (Inr a, s))"

definition raise :: "'e \<Rightarrow> ('e, 's, 'a) st" where
  "raise e = (\<lambda>s. (Inl e, s))"

definition bindM :: "('e, 's, 'a) st \<Rightarrow> ('a \<Rightarrow> ('e, 's, 'b) st) \<Rightarrow> ('e, 's, 'b) st" where
  "bindM m f = (\<lambda>s. case m s of (Inl e, t) \<Rightarrow> (Inl e, t) | (Inr a, t) \<Rightarrow> f a t)"

definition lift :: "'e + 'a \<Rightarrow> ('e, 's, 'a) st" where
  "lift r = (\<lambda>s. (r, s))"

definition modifyM :: "('s \<Rightarrow> 's) \<Rightarrow> ('e, 's, unit) st" where
  "modifyM f = (\<lambda>s. (Inr (), f s))"

definition getM :: "('e, 's, 's) st" where
  "getM = (\<lambda>s. (Inr s, s))"

definition catchM :: "('e, 's, 'a) st \<Rightarrow> ('e \<Rightarrow> ('e, 's, 'a) st option) \<Rightarrow> ('e, 's, 'a) st" where
  \<comment> \<open>\<open>try m except\<close>: the handler is chosen by the exception, \<open>None\<close> re-raises it.\<close>
  "catchM m h = (\<lambda>s. case m s of
     (Inl e, t) \<Rightarrow> (case h e of None \<Rightarrow> (Inl e, t) | Some k \<Rightarrow> k t)
   | (Inr a, t) \<Rightarrow> (Inr a, t))"

lemma st_simps [simp, monad_simps]:
  "ret a s = (Inr a, s)"
  "raise e s = (Inl e, s)"
  "lift r s = (r, s)"
  "modifyM f s = (Inr (), f s)"
  "getM s = (Inr s, s)"
  by (simp_all add: ret_def raise_def lift_def modifyM_def getM_def)

lemma bindM_eq [monad_simps]:
  "bindM m f s = (case m s of (Inl e, t) \<Rightarrow> (Inl e, t) | (Inr a, t) \<Rightarrow> f a t)"
  by (simp add: bindM_def)

lemma bindM_simps [simp, monad_simps]:
  "bindM (ret a) f = f a"
  "bindM (raise e) f = raise e"
  "bindM (lift (Inr a)) f = f a"
  "bindM (lift (Inl e)) f = raise e"
  by (auto simp: bindM_def ret_def raise_def lift_def)

lemma bindM_step [simp]:
  "m s = (Inr a, t) \<Longrightarrow> bindM m f s = f a t"
  "m s = (Inl e, t) \<Longrightarrow> bindM m f s = (Inl e, t)"
  by (simp_all add: bindM_def)

lemma bindM_InrE:
  assumes "bindM m f s = (Inr b, t)"
  obtains a u where "m s = (Inr a, u)" and "f a u = (Inr b, t)"
  using assms by (auto simp: bindM_def split: prod.splits sum.splits)

lemma bindM_InlE:
  assumes "bindM m f s = (Inl e, t)"
  obtains (first) "m s = (Inl e, t)"
    | (second) a u where "m s = (Inr a, u)" and "f a u = (Inl e, t)"
  using assms by (auto simp: bindM_def split: prod.splits sum.splits)

lemma bindM_assoc: "bindM (bindM m f) g = bindM m (\<lambda>a. bindM (f a) g)"
  by (auto simp: bindM_def fun_eq_iff split: prod.splits sum.splits)

fun mapM :: "('a \<Rightarrow> ('e, 's, 'b) st) \<Rightarrow> 'a list \<Rightarrow> ('e, 's, 'b list) st" where
  "mapM f [] = ret []"
| "mapM f (x # xs) = bindM (f x) (\<lambda>y. bindM (mapM f xs) (\<lambda>ys. ret (y # ys)))"

fun foldM :: "('a \<Rightarrow> 'b \<Rightarrow> ('e, 's, 'b) st) \<Rightarrow> 'a list \<Rightarrow> 'b \<Rightarrow> ('e, 's, 'b) st" where
  "foldM f [] b = ret b"
| "foldM f (x # xs) b = bindM (f x b) (foldM f xs)"

fun forM :: "('a \<Rightarrow> ('e, 's, unit) st) \<Rightarrow> 'a list \<Rightarrow> ('e, 's, unit) st" where
  "forM f [] = ret ()"
| "forM f (x # xs) = bindM (f x) (\<lambda>_. forM f xs)"

lemma foldM_append: "foldM f (xs @ ys) b = bindM (foldM f xs b) (foldM f ys)"
proof (induction xs arbitrary: b)
  case Nil
  show ?case by simp
next
  case (Cons x xs)
  then have "foldM f (xs @ ys) = (\<lambda>c. bindM (foldM f xs c) (foldM f ys))" by blast
  then show ?case by (simp add: bindM_assoc)
qed

text \<open>
  An invariant of a loop: if every iteration keeps \<open>P\<close> of accumulator and state whenever it
  returns, the loop does.
\<close>

lemma foldM_invariant:
  assumes "foldM f xs b s = (Inr b', s')" and "P b s"
    and "\<And>x b s b' s'. x \<in> set xs \<Longrightarrow> P b s \<Longrightarrow> f x b s = (Inr b', s') \<Longrightarrow> P b' s'"
  shows "P b' s'"
  using assms
proof (induction xs arbitrary: b s)
  case Nil
  then show ?case by simp
next
  case (Cons x xs)
  from Cons.prems(1) obtain a u where step: "f x b s = (Inr a, u)"
    and rest: "foldM f xs a u = (Inr b', s')"
    by (auto elim: bindM_InrE)
  have "P a u" using Cons.prems(3)[OF _ Cons.prems(2) step] by simp
  then show ?case using Cons.IH[OF rest] Cons.prems(3) by (meson list.set_intros(2))
qed

subsection \<open>What a computation returns\<close>

text \<open>
  \<open>returns m P\<close>: whatever state it starts in, if \<open>m\<close> does not raise then its value satisfies \<open>P\<close>.
  The rules in \<open>returns_intros\<close> follow the structure of a computation.
\<close>

named_theorems returns_intros \<open>rules for the values a computation returns\<close>

definition returns :: "('e, 's, 'a) st \<Rightarrow> ('a \<Rightarrow> bool) \<Rightarrow> bool" where
  "returns m P \<longleftrightarrow> (\<forall>s a t. m s = (Inr a, t) \<longrightarrow> P a)"

lemma returnsD: "returns m P \<Longrightarrow> m s = (Inr a, t) \<Longrightarrow> P a"
  by (auto simp: returns_def)

lemma returns_ret [returns_intros]: "P a \<Longrightarrow> returns (ret a) P"
  by (simp add: returns_def)

lemma returns_raise [returns_intros]: "returns (raise e) P"
  by (simp add: returns_def)

lemma returns_lift [returns_intros]: "(\<And>a. r = Inr a \<Longrightarrow> P a) \<Longrightarrow> returns (lift r) P"
  by (simp add: returns_def)

lemma returns_True: "returns m (\<lambda>_. True)"
  by (simp add: returns_def)

lemma returns_bind:
  assumes "returns m Q" and "\<And>a. Q a \<Longrightarrow> returns (f a) P"
  shows "returns (bindM m f) P"
  using assms unfolding returns_def by (metis bindM_InrE)

lemma returns_bind_any: "(\<And>a. returns (f a) P) \<Longrightarrow> returns (bindM m f) P"
  by (rule returns_bind[of m "\<lambda>_. True"]) (simp_all add: returns_True)

lemma returns_foldM:
  assumes "\<And>x b. x \<in> set xs \<Longrightarrow> P b \<Longrightarrow> returns (f x b) P" and "P b"
  shows "returns (foldM f xs b) P"
  using assms
proof (induction xs arbitrary: b)
  case Nil
  then show ?case by (simp add: returns_def)
next
  case (Cons x xs)
  have "returns (f x b) P" using Cons.prems by simp
  then show ?case using Cons by (auto intro!: returns_bind[of _ P])
qed

subsection \<open>Association lists as dicts\<close>

text \<open>
  \<open>adict_set d k v\<close> is \<open>d[k] = v\<close>: an existing key keeps its place, a new one goes last.
\<close>

fun adict_set :: "('k \<times> 'v) list \<Rightarrow> 'k \<Rightarrow> 'v \<Rightarrow> ('k \<times> 'v) list" where
  "adict_set [] k v = [(k, v)]"
| "adict_set ((k', v') # d) k v =
     (if k' = k then (k, v) # d else (k', v') # adict_set d k v)"

definition adict_pop :: "('k \<times> 'v) list \<Rightarrow> 'k \<Rightarrow> ('k \<times> 'v) list" where
  "adict_pop d k = filter (\<lambda>p. fst p \<noteq> k) d"

definition adict_merge :: "('k \<times> 'v) list \<Rightarrow> ('k \<times> 'v) list \<Rightarrow> ('k \<times> 'v) list" where
  \<comment> \<open>\<open>{**d, **e}\<close>\<close>
  "adict_merge d e = foldl (\<lambda>acc p. adict_set acc (fst p) (snd p)) d e"

lemma map_of_adict_set: "map_of (adict_set d k v) = (map_of d)(k \<mapsto> v)"
  by (induction d) auto

lemma map_of_adict_set_same [simp]: "map_of (adict_set d k v) k = Some v"
  by (simp add: map_of_adict_set)

lemma map_of_adict_set_other [simp]: "k' \<noteq> k \<Longrightarrow> map_of (adict_set d k v) k' = map_of d k'"
  by (simp add: map_of_adict_set)

lemma keys_adict_set: "fst ` set (adict_set d k v) = insert k (fst ` set d)"
proof (induction d)
  case Nil
  then show ?case by simp
next
  case (Cons p d)
  show ?case
  proof (cases "fst p = k")
    case True
    then show ?thesis by (cases p) auto
  next
    case False
    then have "adict_set (p # d) k v = p # adict_set d k v" by (cases p) simp
    then have "fst ` set (adict_set (p # d) k v) = insert (fst p) (fst ` set (adict_set d k v))"
      by simp
    then show ?thesis by (simp add: Cons.IH insert_commute)
  qed
qed

lemma distinct_adict_set:
  "distinct (map fst d) \<Longrightarrow> distinct (map fst (adict_set d k v))"
proof (induction d)
  case Nil
  then show ?case by simp
next
  case (Cons p d)
  show ?case
  proof (cases "fst p = k")
    case True
    with Cons.prems show ?thesis by (cases p) auto
  next
    case False
    then have eq: "adict_set (p # d) k v = p # adict_set d k v" by (cases p) simp
    from Cons.prems False have "fst p \<notin> fst ` set (adict_set d k v)"
      by (simp add: keys_adict_set)
    with Cons show ?thesis by (simp add: eq)
  qed
qed

lemma map_of_adict_pop: "map_of (adict_pop d k) = (map_of d)(k := None)"
  by (induction d) (auto simp: adict_pop_def fun_eq_iff)

lemma map_of_adict_merge: "map_of (adict_merge d e) k =
   (case map_of (rev e) k of None \<Rightarrow> map_of d k | Some v \<Rightarrow> Some v)"
proof (induction e arbitrary: d)
  case Nil
  then show ?case by (simp add: adict_merge_def)
next
  case (Cons p e)
  have "adict_merge d (p # e) = adict_merge (adict_set d (fst p) (snd p)) e"
    by (simp add: adict_merge_def)
  then show ?case using Cons.IH[of "adict_set d (fst p) (snd p)"]
    by (auto simp: map_of_adict_set map_add_def split: option.splits)
qed

lemma distinct_adict_merge:
  "distinct (map fst d) \<Longrightarrow> distinct (map fst (adict_merge d e))"
  by (induction e arbitrary: d) (simp_all add: adict_merge_def distinct_adict_set)

lemma adict_set_new: "map_of d k = None \<Longrightarrow> adict_set d k v = d @ [(k, v)]"
  by (induction d) (auto split: if_splits)

lemma adict_merge_distinct: "distinct (map fst (d @ e)) \<Longrightarrow> adict_merge d e = d @ e"
proof (induction e arbitrary: d)
  case (Cons p e)
  have "adict_merge d (p # e) = adict_merge (adict_set d (fst p) (snd p)) e" by (simp add: adict_merge_def)
  then show ?case using Cons.IH[of "d @ [p]"] Cons.prems adict_set_new[of d "fst p" "snd p"]
    by (auto simp: map_of_eq_None_iff)
qed (simp add: adict_merge_def)

lemma set_adict_merge: "set (adict_merge d e) \<subseteq> set d \<union> set e"
proof (induction e arbitrary: d)
  case (Cons p e)
  have "set (adict_set d k v) \<subseteq> insert (k, v) (set d)" for k v by (induction d) (auto split: if_splits)
  then have "set (adict_set d (fst p) (snd p)) \<subseteq> insert p (set d)" by (metis prod.collapse)
  moreover have "adict_merge d (p # e) = adict_merge (adict_set d (fst p) (snd p)) e" by (simp add: adict_merge_def)
  ultimately show ?case using Cons.IH[of "adict_set d (fst p) (snd p)"] by auto
qed (simp add: adict_merge_def)

subsection \<open>Slicing a list into chunks\<close>

text \<open>\<open>[xs[i:i+n] for i in range(0, len(xs), n)]\<close>, for a positive step \<open>n\<close>.\<close>

function chunks :: "nat \<Rightarrow> 'a list \<Rightarrow> 'a list list" where
  "chunks n xs = (if xs = [] \<or> n = 0 then [] else take n xs # chunks n (drop n xs))"
  by pat_completeness auto
termination
  by (relation "measure (\<lambda>(n, xs). length xs)") auto

declare chunks.simps [simp del]

lemma chunks_Nil [simp]: "chunks n [] = []"
  by (simp add: chunks.simps)

lemma concat_chunks [simp]: "0 < n \<Longrightarrow> concat (chunks n xs) = xs"
proof (induction n xs rule: chunks.induct)
  case (1 n xs)
  then show ?case by (subst chunks.simps) auto
qed

lemma chunks_bounds: "c \<in> set (chunks n xs) \<Longrightarrow> 0 < length c \<and> length c \<le> n"
proof (induction n xs rule: chunks.induct)
  case (1 n xs)
  then show ?case by (subst (asm) (2) chunks.simps) (auto split: if_splits)
qed

lemma chunks_small: "xs \<noteq> [] \<Longrightarrow> length xs \<le> n \<Longrightarrow> chunks n xs = [xs]"
  by (subst chunks.simps) (cases xs, auto)

lemma chunks_one: "chunks 1 xs = map (\<lambda>x. [x]) xs"
  by (induction xs) (subst chunks.simps, simp)+

lemma chunks_single_iff: "0 < n \<Longrightarrow> length (chunks n xs) = 1 \<longleftrightarrow> xs \<noteq> [] \<and> length xs \<le> n"
  by (subst chunks.simps, subst chunks.simps) auto

end
