(* ===== verification/PyFloat.thy ===== *)
theory PyFloat
  imports Complex_Main Prelude
begin

section \<open>Python floats\<close>

text \<open>
  IEEE 754 binary64, the float of CPython, over exact rationals: a finite float is the rational
  it denotes, with the negative zero, the infinities and NaN apart. An operation computes the
  exact result and rounds it (\<open>rnd\<close>, round half to even with 53 significant bits, the
  subnormal range and overflow included). Everything computes, so a component can be evaluated
  on concrete inputs. The lemmas are what the percentage collectors need: rounding is monotone,
  so a ratio between 0 and 1 stays between 0 and 1 through every step.
\<close>

datatype pyfloat = Fin rat | NegZero | PInf | NInf | NaN

subsection \<open>Integer logarithm\<close>

text \<open>The number of base-\<open>b\<close> digits of a non-negative integer.\<close>

function ndigits :: "int \<Rightarrow> int \<Rightarrow> nat" where
  "ndigits b n = (if n \<le> 0 \<or> b < 2 then 0 else Suc (ndigits b (n div b)))"
  by pat_completeness auto
termination
proof (relation "measure (\<lambda>(b, n). nat n)")
  fix b n :: int
  assume "\<not> (n \<le> 0 \<or> b < 2)"
  then have "n div b < n" by (intro int_div_less_self) auto
  then show "((b, n div b), b, n) \<in> measure (\<lambda>(b, n). nat n)"
    using \<open>\<not> (n \<le> 0 \<or> b < 2)\<close> by simp
qed simp

declare ndigits.simps [simp del]

lemma ndigits_0 [simp]: "ndigits b 0 = 0"
  by (simp add: ndigits.simps)

lemma ndigits_pos: "2 \<le> b \<Longrightarrow> 0 < n \<Longrightarrow> \<exists>k. ndigits b n = Suc k"
  by (simp add: ndigits.simps[of b n])

lemma ndigits_upper: "2 \<le> b \<Longrightarrow> 0 \<le> n \<Longrightarrow> n < b ^ ndigits b n"
proof (induction b n rule: ndigits.induct)
  case (1 b n)
  show ?case
  proof (cases "n = 0")
    case True
    with "1.prems" show ?thesis by simp
  next
    case False
    with 1 have "n div b < b ^ ndigits b (n div b)" by (simp add: pos_imp_zdiv_nonneg_iff)
    then have "n div b + 1 \<le> b ^ ndigits b (n div b)" by simp
    then have up: "b * (n div b + 1) \<le> b * b ^ ndigits b (n div b)"
      using "1.prems" by (intro mult_left_mono) auto
    have "n < b * (n div b + 1)"
      using "1.prems" pos_mod_bound[of b n] mult_div_mod_eq[of b n]
      unfolding distrib_left by linarith
    then have "n < b * b ^ ndigits b (n div b)" using up by (rule less_le_trans)
    then show ?thesis using False "1.prems" by (simp add: ndigits.simps[of b n])
  qed
qed

lemma ndigits_lower: "2 \<le> b \<Longrightarrow> 0 < n \<Longrightarrow> b ^ (ndigits b n - 1) \<le> n"
proof (induction b n rule: ndigits.induct)
  case (1 b n)
  show ?case
  proof (cases "n div b = 0")
    case True
    with "1.prems" show ?thesis by (simp add: ndigits.simps[of b n])
  next
    case False
    then have q: "0 < n div b" using "1.prems" by (simp add: pos_imp_zdiv_nonneg_iff order_less_le)
    with 1 have IH: "b ^ (ndigits b (n div b) - 1) \<le> n div b" by simp
    from q "1.prems" obtain k where k: "ndigits b (n div b) = Suc k"
      using ndigits_pos by blast
    have "b * b ^ k \<le> b * (n div b)" using IH k "1.prems" by (intro mult_left_mono) auto
    also have "\<dots> \<le> n"
      using "1.prems" pos_mod_sign[of b n] mult_div_mod_eq[of b n] by linarith
    finally show ?thesis using k "1.prems" by (simp add: ndigits.simps[of b n])
  qed
qed

text \<open>\<open>ilog b a\<close> is the greatest \<open>k\<close> with \<open>b\<^sup>k \<le> a\<close>, for a positive rational \<open>a\<close>.\<close>

definition ilog :: "int \<Rightarrow> rat \<Rightarrow> int" where
  "ilog b a = (if 1 \<le> a then int (ndigits b \<lfloor>a\<rfloor>) - 1
               else - int (ndigits b (\<lceil>1 / a\<rceil> - 1)))"

lemma ilog_bounds_ge1:
  assumes "2 \<le> b" and "1 \<le> a"
  shows "of_int b powi ilog b a \<le> a" and "a < of_int b powi (ilog b a + 1)"
proof -
  let ?n = "\<lfloor>a\<rfloor>"
  have n: "0 < ?n" using assms by simp
  obtain k where k: "ndigits b ?n = Suc k" using ndigits_pos[OF assms(1) n] by blast
  have e: "ilog b a = int k" using assms k by (simp add: ilog_def)
  have "b ^ k \<le> ?n" using ndigits_lower[OF assms(1) n] k by simp
  then have "of_int (b ^ k) \<le> a" by (simp add: le_floor_iff)
  then show "of_int b powi ilog b a \<le> a" by (simp add: e)
  have "?n < b ^ Suc k" using ndigits_upper[OF assms(1), of ?n] n k by simp
  then have "a < of_int (b ^ Suc k)" by (simp only: floor_less_iff)
  moreover have "of_int b powi (ilog b a + 1) = (of_int (b ^ Suc k) :: rat)"
    by (simp add: e power_int_def nat_add_distrib)
  ultimately show "a < of_int b powi (ilog b a + 1)" by simp
qed

lemma ilog_bounds_lt1:
  assumes "2 \<le> b" and "0 < a" and "a < 1"
  shows "of_int b powi ilog b a \<le> a" and "a < of_int b powi (ilog b a + 1)"
proof -
  let ?c = "\<lceil>1 / a\<rceil>"
  have "1 < 1 / a" using assms by simp
  then have c2: "0 < ?c - 1" by linarith
  obtain k where k: "ndigits b (?c - 1) = Suc k" using ndigits_pos[OF assms(1) c2] by blast
  have e: "ilog b a = - int (Suc k)" using assms k by (simp add: ilog_def)
  have "?c - 1 < b ^ Suc k" using ndigits_upper[OF assms(1) less_imp_le[OF c2]] k by simp
  then have "?c \<le> b ^ Suc k" by simp
  then have "1 / a \<le> of_int (b ^ Suc k)" by (simp only: ceiling_le_iff)
  moreover have "0 < (of_int (b ^ Suc k) :: rat)" using assms by simp
  ultimately have "1 / of_int (b ^ Suc k) \<le> a" using assms by (simp add: field_simps)
  moreover have "of_int b powi ilog b a = 1 / (of_int (b ^ Suc k) :: rat)"
    by (simp only: e power_int_minus power_int_of_nat of_int_power inverse_eq_divide)
  ultimately show "of_int b powi ilog b a \<le> a" by simp
  have "b ^ k \<le> ?c - 1" using ndigits_lower[OF assms(1) c2] k by simp
  then have "b ^ k < ?c" by simp
  then have "of_int (b ^ k) < 1 / a" by (simp only: less_ceiling_iff)
  moreover have "0 < (of_int (b ^ k) :: rat)" using assms by simp
  ultimately have "a < 1 / of_int (b ^ k)" using assms by (simp add: field_simps)
  moreover have "of_int b powi (ilog b a + 1) = 1 / (of_int (b ^ k) :: rat)"
    by (simp add: e power_int_minus divide_inverse)
  ultimately show "a < of_int b powi (ilog b a + 1)" by simp
qed

lemma ilog_le: "2 \<le> b \<Longrightarrow> 0 < a \<Longrightarrow> of_int b powi ilog b a \<le> a"
  by (cases "1 \<le> a") (simp_all add: ilog_bounds_ge1 ilog_bounds_lt1)

lemma ilog_gt: "2 \<le> b \<Longrightarrow> 0 < a \<Longrightarrow> a < of_int b powi (ilog b a + 1)"
  by (cases "1 \<le> a") (simp_all add: ilog_bounds_ge1 ilog_bounds_lt1)

subsection \<open>Rounding to an integer, half to even\<close>

definition rhe :: "rat \<Rightarrow> int" where
  "rhe x = (let f = \<lfloor>x\<rfloor>; r = x - of_int f in
     if r < 1/2 then f else if 1/2 < r then f + 1 else if even f then f else f + 1)"

lemma rhe_of_int [simp]: "rhe (of_int k) = k"
  by (simp add: rhe_def)

lemma rhe_bounds: "\<lfloor>x\<rfloor> \<le> rhe x" "rhe x \<le> \<lfloor>x\<rfloor> + 1"
  by (simp_all add: rhe_def Let_def)

lemma rhe_mono:
  assumes "x \<le> y"
  shows "rhe x \<le> rhe y"
proof (cases "\<lfloor>x\<rfloor> = \<lfloor>y\<rfloor>")
  case True
  with assms show ?thesis by (auto simp: rhe_def Let_def)
next
  case False
  with assms have "\<lfloor>x\<rfloor> + 1 \<le> \<lfloor>y\<rfloor>" using floor_mono[OF assms] by simp
  then show ?thesis using rhe_bounds[of x] rhe_bounds[of y] by linarith
qed

lemma rhe_le_int: "x \<le> of_int k \<Longrightarrow> rhe x \<le> k"
  using rhe_mono[of x "of_int k"] by simp

lemma rhe_ge_int: "of_int k \<le> x \<Longrightarrow> k \<le> rhe x"
  using rhe_mono[of "of_int k" x] by simp

subsection \<open>Rounding to a double\<close>

definition dbl_exp :: "rat \<Rightarrow> int" where
  "dbl_exp a = max (ilog 2 a - 52) (- 1074)"

definition dbl_mag :: "rat \<Rightarrow> rat" where
  "dbl_mag a = (if a \<le> 0 then 0
     else of_int (rhe (a / 2 powi dbl_exp a)) * 2 powi dbl_exp a)"

definition rnd :: "rat \<Rightarrow> pyfloat" where
  "rnd x = (let m = dbl_mag \<bar>x\<bar> in
     if 2 ^ 1024 \<le> m then (if x < 0 then NInf else PInf)
     else if m = 0 then (if x < 0 then NegZero else Fin 0)
     else Fin (if x < 0 then - m else m))"

lemma dbl_mag_0 [simp]: "dbl_mag 0 = 0"
  by (simp add: dbl_mag_def)

lemma dbl_mag_nonneg: "0 \<le> dbl_mag a"
proof (cases "a \<le> 0")
  case False
  then have "0 \<le> rhe (a / 2 powi dbl_exp a)" by (intro rhe_ge_int) simp
  with False show ?thesis by (simp add: dbl_mag_def)
qed (simp add: dbl_mag_def)

lemma powi_split: "2 powi (a::int) = 2 powi b * (2 powi (a - b) :: rat)"
  by (simp add: power_int_diff)

lemma powi_less_imp: "2 powi (a::int) < (2 powi b :: rat) \<Longrightarrow> a < b"
  using power_int_increasing[of b a "2::rat"] by (cases "a < b") (auto simp: not_less)

lemma powi_ge_int: "0 \<le> k \<Longrightarrow> (2 powi (k::int) :: rat) = of_int (2 ^ nat k)"
  by (simp add: power_int_def)

text \<open>A power of two at or above the spacing separates the two exponents' ranges.\<close>

lemma dbl_mag_le_pow:
  assumes "0 < a" and "a \<le> 2 powi L" and "dbl_exp a \<le> L"
  shows "dbl_mag a \<le> 2 powi L"
proof -
  let ?e = "dbl_exp a"
  have "a / 2 powi ?e \<le> 2 powi (L - ?e)"
    using assms(2) by (simp add: divide_le_eq powi_split[of L ?e] mult.commute)
  also have "\<dots> = of_int (2 ^ nat (L - ?e))" using assms(3) by (simp add: powi_ge_int)
  finally have "rhe (a / 2 powi ?e) \<le> 2 ^ nat (L - ?e)" by (rule rhe_le_int)
  then have "of_int (rhe (a / 2 powi ?e)) \<le> (of_int (2 ^ nat (L - ?e)) :: rat)"
    by (rule of_int_le_iff[THEN iffD2])
  also have "\<dots> = 2 powi (L - ?e)" using assms(3) by (simp add: powi_ge_int)
  finally have "of_int (rhe (a / 2 powi ?e)) * 2 powi ?e \<le> (2 powi (L - ?e) :: rat) * 2 powi ?e"
    by (rule mult_right_mono) simp
  then show ?thesis using assms(1) by (simp add: dbl_mag_def powi_split[of L ?e] mult.commute)
qed

lemma dbl_mag_ge_pow:
  assumes "2 powi L \<le> a" and "dbl_exp a \<le> L"
  shows "2 powi L \<le> dbl_mag a"
proof -
  let ?e = "dbl_exp a"
  have pos: "0 < a" using assms(1) by (rule less_le_trans[rotated]) simp
  have "of_int (2 ^ nat (L - ?e)) = (2 powi (L - ?e) :: rat)"
    using assms(2) by (simp add: powi_ge_int)
  also have "\<dots> \<le> a / 2 powi ?e"
    using assms(1) by (simp add: le_divide_eq powi_split[of L ?e] mult.commute)
  finally have "2 ^ nat (L - ?e) \<le> rhe (a / 2 powi ?e)" by (rule rhe_ge_int)
  then have "(of_int (2 ^ nat (L - ?e)) :: rat) \<le> of_int (rhe (a / 2 powi ?e))"
    by (rule of_int_le_iff[THEN iffD2])
  then have "(2 powi (L - ?e) :: rat) * 2 powi ?e \<le> of_int (rhe (a / 2 powi ?e)) * 2 powi ?e"
    using assms(2) by (intro mult_right_mono) (simp_all add: powi_ge_int)
  then show ?thesis using pos by (simp add: dbl_mag_def powi_split[of L ?e] mult.commute)
qed

lemma dbl_exp_mono:
  assumes "0 < a" and "a \<le> b"
  shows "dbl_exp a \<le> dbl_exp b"
proof -
  have "(2::rat) powi ilog 2 a \<le> a" using ilog_le[of 2 a] assms by simp
  also have "\<dots> \<le> b" by (rule assms)
  also have "b < 2 powi (ilog 2 b + 1)" using ilog_gt[of 2 b] assms by simp
  finally have "ilog 2 a < ilog 2 b + 1" by (rule powi_less_imp)
  then show ?thesis by (simp add: dbl_exp_def)
qed

lemma dbl_mag_mono:
  assumes "a \<le> b"
  shows "dbl_mag a \<le> dbl_mag b"
proof (cases "a \<le> 0")
  case True
  then show ?thesis using dbl_mag_nonneg[of b] by (simp add: dbl_mag_def)
next
  case False
  with assms have pos: "0 < a" "0 < b" by simp_all
  have le: "dbl_exp a \<le> dbl_exp b" using pos assms by (intro dbl_exp_mono)
  show ?thesis
  proof (cases "dbl_exp a = dbl_exp b")
    case True
    have "rhe (a / 2 powi dbl_exp b) \<le> rhe (b / 2 powi dbl_exp b)"
      using assms by (intro rhe_mono divide_right_mono) simp_all
    then show ?thesis using pos True by (simp add: dbl_mag_def)
  next
    case False
    with le have lt: "dbl_exp a < dbl_exp b" by simp
    let ?L = "ilog 2 b"
    have L: "dbl_exp b = ?L - 52" using lt unfolding dbl_exp_def by linarith
    have "ilog 2 a < ?L" using lt L by (simp add: dbl_exp_def)
    then have "(2::rat) powi (ilog 2 a + 1) \<le> 2 powi ?L" by (intro power_int_increasing) simp_all
    with ilog_gt[of 2 a] pos have "a \<le> 2 powi ?L" by simp
    then have "dbl_mag a \<le> 2 powi ?L" using pos lt L by (intro dbl_mag_le_pow) simp_all
    also have "\<dots> \<le> dbl_mag b" using pos L ilog_le[of 2 b] by (intro dbl_mag_ge_pow) simp_all
    finally show ?thesis .
  qed
qed

text \<open>Integers below \<open>2\<^sup>5\<^sup>3\<close> are representable.\<close>

lemma dbl_mag_of_int:
  assumes "0 \<le> k" and "k < 2 ^ 53"
  shows "dbl_mag (of_int k) = of_int k"
proof (cases "k = 0")
  case False
  with assms have pos: "0 < (of_int k :: rat)" by simp
  let ?e = "dbl_exp (of_int k)"
  have "(2::rat) powi ilog 2 (of_int k) \<le> of_int k" using ilog_le[of 2 "of_int k"] pos by simp
  also have "\<dots> < of_int (2 ^ 53)" using assms(2) by (subst of_int_less_iff)
  also have "\<dots> = 2 powi 53" by (simp add: power_int_def)
  finally have "ilog 2 (of_int k) < 53" by (rule powi_less_imp)
  then have e: "?e \<le> 0" by (simp add: dbl_exp_def)
  have "of_int k / 2 powi ?e = (of_int k * 2 powi (- ?e) :: rat)"
    by (simp add: power_int_minus divide_inverse)
  also have "\<dots> = of_int (k * 2 ^ nat (- ?e))" using e by (simp add: powi_ge_int)
  finally have "rhe (of_int k / 2 powi ?e) = k * 2 ^ nat (- ?e)" by (simp only: rhe_of_int)
  then have "dbl_mag (of_int k) = of_int k * of_int (2 ^ nat (- ?e)) * 2 powi ?e"
    using pos by (simp add: dbl_mag_def)
  also have "of_int (2 ^ nat (- ?e)) = (2 powi (- ?e) :: rat)" using e by (simp add: powi_ge_int)
  finally show ?thesis by (simp add: power_int_minus)
qed simp


lemma rnd_range:
  assumes "of_int a \<le> x" and "x \<le> of_int b" and "0 \<le> a" and "b < 2 ^ 53"
  shows "\<exists>y. rnd x = Fin y \<and> of_int a \<le> y \<and> y \<le> of_int b"
proof -
  have x0: "0 \<le> x" using assms(1,3) by (meson of_int_0_le_iff order_trans)
  have ab: "a \<le> b" using assms(1,2) by (meson of_int_le_iff order_trans)
  have lo: "of_int a \<le> dbl_mag x"
    using dbl_mag_mono[OF assms(1)] dbl_mag_of_int[of a] assms(3,4) ab by simp
  have hi: "dbl_mag x \<le> of_int b"
    using dbl_mag_mono[OF assms(2)] dbl_mag_of_int[of b] assms(3,4) ab by simp
  have "(of_int b :: rat) < of_int (2 ^ 53)" using assms(4) by (subst of_int_less_iff)
  also have "\<dots> \<le> 2 ^ 1024" by simp
  finally have "dbl_mag x < 2 ^ 1024" using hi by simp
  then show ?thesis using x0 lo hi by (auto simp: rnd_def Let_def)
qed

lemma rnd_0 [simp]: "rnd 0 = Fin 0"
  by (simp add: rnd_def)

subsection \<open>Arithmetic and comparison\<close>

definition int_quot :: "int \<Rightarrow> int \<Rightarrow> pyfloat" where
  \<comment> \<open>\<open>a / b\<close> on ints, correctly rounded; \<open>b\<close> is not zero\<close>
  "int_quot a b = (if a = 0 then (if b < 0 then NegZero else Fin 0)
                   else rnd (of_int a / of_int b))"

fun f_neg :: "pyfloat \<Rightarrow> pyfloat" where
  "f_neg (Fin x) = (if x = 0 then NegZero else Fin (- x))"
| "f_neg NegZero = Fin 0"
| "f_neg PInf = NInf"
| "f_neg NInf = PInf"
| "f_neg NaN = NaN"

fun f_add :: "pyfloat \<Rightarrow> pyfloat \<Rightarrow> pyfloat" where
  "f_add (Fin x) (Fin y) = rnd (x + y)"
| "f_add NegZero y = y"
| "f_add x NegZero = x"
| "f_add NaN y = NaN"
| "f_add x NaN = NaN"
| "f_add PInf NInf = NaN"
| "f_add NInf PInf = NaN"
| "f_add PInf y = PInf"
| "f_add x PInf = PInf"
| "f_add NInf y = NInf"
| "f_add x NInf = NInf"

definition f_sub :: "pyfloat \<Rightarrow> pyfloat \<Rightarrow> pyfloat" where
  "f_sub x y = f_add x (f_neg y)"

fun f_negative :: "pyfloat \<Rightarrow> bool" where
  "f_negative (Fin x) = (x < 0)"
| "f_negative NegZero = True"
| "f_negative PInf = False"
| "f_negative NInf = True"
| "f_negative NaN = False"

fun f_rat :: "pyfloat \<Rightarrow> rat option" where
  "f_rat (Fin x) = Some x"
| "f_rat NegZero = Some 0"
| "f_rat _ = None"

definition f_mul :: "pyfloat \<Rightarrow> pyfloat \<Rightarrow> pyfloat" where
  "f_mul a b = (case (f_rat a, f_rat b) of
     (Some x, Some y) \<Rightarrow>
       if x * y = 0 then (if f_negative a = f_negative b then Fin 0 else NegZero) else rnd (x * y)
   | (x, y) \<Rightarrow>
       if a = NaN \<or> b = NaN \<or> x = Some 0 \<or> y = Some 0 then NaN
       else if f_negative a = f_negative b then PInf else NInf)"

text \<open>Comparisons: false as soon as one side is NaN, and the two zeros are equal.\<close>

fun f_lt :: "pyfloat \<Rightarrow> pyfloat \<Rightarrow> bool" where
  "f_lt NaN b = False"
| "f_lt a NaN = False"
| "f_lt PInf b = False"
| "f_lt a NInf = False"
| "f_lt NInf b = True"
| "f_lt a PInf = True"
| "f_lt a b = (the (f_rat a) < the (f_rat b))"

definition f_eq :: "pyfloat \<Rightarrow> pyfloat \<Rightarrow> bool" where
  "f_eq a b = (case (f_rat a, f_rat b) of (Some x, Some y) \<Rightarrow> x = y | _ \<Rightarrow> a = b \<and> a \<noteq> NaN)"

definition f_le :: "pyfloat \<Rightarrow> pyfloat \<Rightarrow> bool" where
  "f_le a b = (f_lt a b \<or> f_eq a b)"

lemma f_lt_irrefl [simp]: "\<not> f_lt a a"
  by (cases a) simp_all

lemma f_lt_trans: "f_lt a b \<Longrightarrow> f_lt b c \<Longrightarrow> f_lt a c"
  by (cases a; cases b; cases c) simp_all

lemma f_lt_NaN [simp]: "\<not> f_lt a NaN"
  by (cases a) simp_all

lemma f_not_lt: "a \<noteq> NaN \<Longrightarrow> b \<noteq> NaN \<Longrightarrow> \<not> f_lt a b \<longleftrightarrow> f_le b a"
  by (cases a; cases b) (auto simp: f_le_def f_eq_def)

lemma f_le_trans: "f_le a b \<Longrightarrow> f_le b c \<Longrightarrow> f_le a c"
  by (cases a; cases b; cases c) (auto simp: f_le_def f_eq_def)

subsection \<open>\<open>round(x, n)\<close>\<close>

fun f_round :: "pyfloat \<Rightarrow> nat \<Rightarrow> pyfloat" where
  "f_round (Fin x) n = (let m = rhe (x * 10 ^ n) in
     if m = 0 then (if x < 0 then NegZero else Fin 0) else rnd (of_int m / 10 ^ n))"
| "f_round f n = f"

lemma f_round_range:
  assumes "of_int a \<le> x" and "x \<le> of_int b" and "0 \<le> a" and "b < 2 ^ 53"
  shows "\<exists>y. f_round (Fin x) n = Fin y \<and> of_int a \<le> y \<and> y \<le> of_int b"
proof -
  have x0: "0 \<le> x" using assms(1,3) by (meson of_int_0_le_iff order_trans)
  let ?m = "rhe (x * 10 ^ n)"
  have "of_int (a * 10 ^ n) \<le> x * 10 ^ n" using assms(1) by simp
  then have lo: "a * 10 ^ n \<le> ?m" by (rule rhe_ge_int)
  have "x * 10 ^ n \<le> of_int (b * 10 ^ n)" using assms(2) by simp
  then have hi: "?m \<le> b * 10 ^ n" by (rule rhe_le_int)
  have lo': "of_int a \<le> (of_int ?m / 10 ^ n :: rat)"
    using lo of_int_le_iff[of "a * 10 ^ n" ?m, where 'a = rat] by (simp add: le_divide_eq)
  have hi': "(of_int ?m / 10 ^ n :: rat) \<le> of_int b"
    using hi of_int_le_iff[of ?m "b * 10 ^ n", where 'a = rat] by (simp add: divide_le_eq)
  show ?thesis
  proof (cases "?m = 0")
    case True
    then show ?thesis using x0 lo' hi' by simp
  next
    case False
    then show ?thesis using rnd_range[OF lo' hi' assms(3,4)] by (simp add: Let_def)
  qed
qed

subsection \<open>Largest and smallest of a list\<close>

text \<open>
  \<open>max(xs, key=...)\<close> keeps the first of the largest elements: a later one replaces it only when
  it compares greater. \<open>min\<close> is the mirror image.
\<close>

fun pick_by :: "('a \<Rightarrow> 'a \<Rightarrow> bool) \<Rightarrow> 'a \<Rightarrow> 'a list \<Rightarrow> 'a" where
  "pick_by better m [] = m"
| "pick_by better m (x # xs) = pick_by better (if better x m then x else m) xs"

lemma pick_by_mem: "pick_by better m xs \<in> set (m # xs)"
  by (induction xs arbitrary: m) auto

lemma pick_by_best:
  assumes "\<And>a b c. le a b \<Longrightarrow> le b c \<Longrightarrow> le a c"
    and "\<And>a b. a \<in> S \<Longrightarrow> b \<in> S \<Longrightarrow> \<not> better a b \<Longrightarrow> le a b"
    and "\<And>a b. a \<in> S \<Longrightarrow> b \<in> S \<Longrightarrow> better a b \<Longrightarrow> le b a"
    and "\<And>a. a \<in> S \<Longrightarrow> le a a"
    and "set (m # xs) \<subseteq> S"
  shows "\<forall>y \<in> set (m # xs). le y (pick_by better m xs)"
  using assms(5)
proof (induction xs arbitrary: m)
  case Nil
  then show ?case using assms(4) by simp
next
  case (Cons x xs)
  let ?n = "if better x m then x else m"
  have IH: "\<forall>y \<in> set (?n # xs). le y (pick_by better ?n xs)"
    using Cons.prems by (intro Cons.IH) auto
  have "le x ?n" "le m ?n" using Cons.prems assms(2-4) by auto
  then show ?case using IH assms(1) by (metis list.set_intros(1) pick_by.simps(2) set_ConsD
        list.set_intros(2))
qed

end
