(* ===== verification/PyString.thy ===== *)
theory PyString
  imports PyFloat
begin

section \<open>Python strings, numbers in text\<close>

text \<open>
  A Python \<open>str\<close> is a \<open>string\<close>, a list of characters read as the code points 0 to 255
  (Latin-1); the string methods are modelled on that range. \<open>upper\<close> and \<open>lower\<close> change the
  ASCII letters only. \<open>str\<close> and \<open>int\<close>, \<open>repr\<close> and \<open>float\<close> are the conversions between numbers
  and their text.
\<close>

abbreviation code :: "char \<Rightarrow> nat" where
  "code c \<equiv> of_char c"

definition py_isspace :: "char \<Rightarrow> bool" where
  "py_isspace c = (let n = code c in (9 \<le> n \<and> n \<le> 13) \<or> (28 \<le> n \<and> n \<le> 32) \<or> n = 133 \<or> n = 160)"

definition is_dec :: "char \<Rightarrow> bool" where
  "is_dec c = (48 \<le> code c \<and> code c \<le> 57)"

definition py_isdigit_char :: "char \<Rightarrow> bool" where
  \<comment> \<open>\<open>str.isdigit\<close> also accepts the superscripts two, three and one\<close>
  "py_isdigit_char c = (is_dec c \<or> code c = 178 \<or> code c = 179 \<or> code c = 185)"

definition py_isdigit :: "string \<Rightarrow> bool" where
  "py_isdigit s = (s \<noteq> [] \<and> list_all py_isdigit_char s)"

definition py_lstrip :: "string \<Rightarrow> string" where
  "py_lstrip s = dropWhile py_isspace s"

definition rstrip_by :: "(char \<Rightarrow> bool) \<Rightarrow> string \<Rightarrow> string" where
  "rstrip_by P s = rev (dropWhile P (rev s))"

definition py_strip :: "string \<Rightarrow> string" where
  "py_strip s = rstrip_by py_isspace (py_lstrip s)"

definition upper_char :: "char \<Rightarrow> char" where
  "upper_char c = (if 97 \<le> code c \<and> code c \<le> 122 then char_of (code c - 32) else c)"

definition lower_char :: "char \<Rightarrow> char" where
  "lower_char c = (if 65 \<le> code c \<and> code c \<le> 90 then char_of (code c + 32) else c)"

definition py_upper :: "string \<Rightarrow> string" where
  "py_upper s = map upper_char s"

definition py_lower :: "string \<Rightarrow> string" where
  "py_lower s = map lower_char s"

definition startswith :: "string \<Rightarrow> string \<Rightarrow> bool" where
  "startswith s p = (take (length p) s = p)"

definition endswith :: "string \<Rightarrow> string \<Rightarrow> bool" where
  "endswith s p = startswith (rev s) (rev p)"

text \<open>\<open>s.split()\<close>: the maximal runs of non-blank characters.\<close>

fun split_ws :: "string \<Rightarrow> string \<Rightarrow> string list" where
  "split_ws w [] = (if w = [] then [] else [rev w])"
| "split_ws w (c # cs) =
     (if py_isspace c then (if w = [] then split_ws [] cs else rev w # split_ws [] cs)
      else split_ws (c # w) cs)"

definition py_split :: "string \<Rightarrow> string list" where
  "py_split s = split_ws [] s"

text \<open>\<open>s.splitlines()\<close>: at every line boundary, a carriage return before a newline counting as one.\<close>

definition is_linebreak :: "char \<Rightarrow> bool" where
  "is_linebreak c = (let n = code c in (10 \<le> n \<and> n \<le> 13) \<or> (28 \<le> n \<and> n \<le> 30) \<or> n = 133)"

fun split_lines :: "string \<Rightarrow> string \<Rightarrow> string list" where
  "split_lines w [] = (if w = [] then [] else [rev w])"
| "split_lines w [c] = (if is_linebreak c then [rev w] else [rev (c # w)])"
| "split_lines w (c # d # cs) =
     (if code c = 13 \<and> code d = 10 then rev w # split_lines [] cs
      else if is_linebreak c then rev w # split_lines [] (d # cs)
      else split_lines (c # w) (d # cs))"

definition py_splitlines :: "string \<Rightarrow> string list" where
  "py_splitlines s = split_lines [] s"

text \<open>\<open>s.partition(ch)\<close>: before and after the first occurrence.\<close>

definition py_partition :: "char \<Rightarrow> string \<Rightarrow> string \<times> bool \<times> string" where
  "py_partition ch s = (takeWhile (\<lambda>c. c \<noteq> ch) s, ch \<in> set s, drop 1 (dropWhile (\<lambda>c. c \<noteq> ch) s))"

text \<open>\<open>s.replace(old, new)\<close>: every non-overlapping occurrence from the left.\<close>

function str_replace :: "string \<Rightarrow> string \<Rightarrow> string \<Rightarrow> string" where
  "str_replace old new [] = (if old = [] then new else [])"
| "str_replace old new (c # cs) =
     (if old = [] then new @ c # str_replace old new cs
      else if startswith (c # cs) old
           then new @ (if drop (length old) (c # cs) = [] then []
                       else str_replace old new (drop (length old) (c # cs)))
           else c # str_replace old new cs)"
  by pat_completeness auto
termination
  by (relation "measure (\<lambda>(o', n, s). length s)") (auto simp: neq_Nil_conv)

text \<open>\<open>s.zfill(n)\<close>: zeros after a leading sign.\<close>

definition zfill :: "nat \<Rightarrow> string \<Rightarrow> string" where
  "zfill n s = (let z = replicate (n - length s) CHR ''0'' in
     case s of c # cs \<Rightarrow> if c = CHR ''+'' \<or> c = CHR ''-'' then c # z @ cs else z @ s
             | [] \<Rightarrow> z)"

fun join_with :: "string \<Rightarrow> string list \<Rightarrow> string" where
  "join_with sep [] = []"
| "join_with sep [x] = x"
| "join_with sep (x # y # xs) = x @ sep @ join_with sep (y # xs)"

subsection \<open>Integers\<close>

definition digit_char :: "int \<Rightarrow> char" where
  "digit_char d = char_of (nat (48 + d))"

definition dec_val :: "char \<Rightarrow> int" where
  "dec_val c = int (code c) - 48"

function str_nat :: "int \<Rightarrow> string" where
  "str_nat n = (if n < 10 then [digit_char n] else str_nat (n div 10) @ [digit_char (n mod 10)])"
  by pat_completeness auto
termination
  by (relation "measure nat") auto

declare str_nat.simps [simp del]

definition str_int :: "int \<Rightarrow> string" where
  "str_int i = (if i < 0 then CHR ''-'' # str_nat (- i) else str_nat i)"

text \<open>
  Digits with single underscores between them, as \<open>int\<close> and \<open>float\<close> accept them: the number read
  and how many digits it had.
\<close>

fun scan_digits :: "int \<Rightarrow> nat \<Rightarrow> bool \<Rightarrow> string \<Rightarrow> (int \<times> nat) option" where
  "scan_digits v n ok [] = (if ok then Some (v, n) else None)"
| "scan_digits v n ok (c # cs) =
     (if is_dec c then scan_digits (10 * v + dec_val c) (Suc n) True cs
      else if c = CHR ''_'' \<and> ok then scan_digits v n False cs else None)"

definition parse_nat :: "string \<Rightarrow> int option" where
  "parse_nat s = map_option fst (scan_digits 0 0 False s)"

definition split_sign :: "string \<Rightarrow> bool \<times> string" where
  "split_sign s = (case s of c # cs \<Rightarrow> if c = CHR ''-'' then (True, cs)
     else if c = CHR ''+'' then (False, cs) else (False, s) | [] \<Rightarrow> (False, s))"

definition parse_int :: "string \<Rightarrow> int option" where
  "parse_int s = (let (neg, t) = split_sign (py_strip s) in
     map_option (\<lambda>n. if neg then - n else n) (parse_nat t))"

lemma digit_char_simps [simp]:
  assumes "0 \<le> d" and "d < 10"
  shows "code (digit_char d) = 48 + nat d" "is_dec (digit_char d)" "dec_val (digit_char d) = d"
    "py_isspace (digit_char d) = False"
proof -
  define n where "n = nat d"
  have d: "d = int n" "n < 10" using assms by (simp_all add: n_def)
  show c: "code (digit_char d) = 48 + nat d"
    using d by (simp add: digit_char_def nat_add_distrib)
  then show "is_dec (digit_char d)" "dec_val (digit_char d) = d" "py_isspace (digit_char d) = False"
    using d by (simp_all add: is_dec_def dec_val_def py_isspace_def Let_def)
qed

lemma str_nat_nonempty [simp]: "str_nat n \<noteq> []"
  by (subst str_nat.simps) simp

lemma str_nat_dec: "0 \<le> n \<Longrightarrow> list_all is_dec (str_nat n)"
proof (induction n rule: str_nat.induct)
  case (1 n)
  show ?case
  proof (cases "n < 10")
    case True
    with "1.prems" show ?thesis by (simp add: str_nat.simps[of n])
  next
    case False
    with 1 show ?thesis by (simp add: str_nat.simps[of n])
  qed
qed

lemma scan_digits_append:
  "list_all is_dec s \<Longrightarrow> scan_digits v n ok (s @ t) =
     scan_digits (foldl (\<lambda>a c. 10 * a + dec_val c) v s) (n + length s) (ok \<or> s \<noteq> []) t"
  by (induction s arbitrary: v n ok) auto

lemma foldl_str_nat: "0 \<le> n \<Longrightarrow> foldl (\<lambda>a c. 10 * a + dec_val c) 0 (str_nat n) = n"
proof (induction n rule: str_nat.induct)
  case (1 n)
  show ?case
  proof (cases "n < 10")
    case True
    with "1.prems" show ?thesis by (simp add: str_nat.simps[of n])
  next
    case False
    with 1 show ?thesis by (simp add: str_nat.simps[of n])
  qed
qed

lemma parse_nat_str_nat [simp]: "0 \<le> n \<Longrightarrow> parse_nat (str_nat n) = Some n"
  using scan_digits_append[OF str_nat_dec[of n], of 0 0 False "[]"]
  by (simp add: parse_nat_def foldl_str_nat)

lemma dec_not_space: "is_dec c \<Longrightarrow> \<not> py_isspace c"
  by (auto simp: is_dec_def py_isspace_def Let_def)

lemma strip_no_space:
  assumes "list_all (\<lambda>c. \<not> py_isspace c) s"
  shows "py_strip s = s"
proof -
  have *: "dropWhile py_isspace t = t" if "list_all (\<lambda>c. \<not> py_isspace c) t" for t
    using that by (cases t) simp_all
  have "list_all (\<lambda>c. \<not> py_isspace c) (rev s)" using assms by simp
  then show ?thesis using assms by (simp add: py_strip_def rstrip_by_def py_lstrip_def *)
qed

lemma split_sign_dec: "list_all is_dec s \<Longrightarrow> split_sign s = (False, s)"
  by (auto simp: split_sign_def is_dec_def split: list.splits)

lemma parse_int_str_int: "parse_int (str_int i) = Some i"
proof -
  have ns: "list_all (\<lambda>c. \<not> py_isspace c) (str_nat n)" if "0 \<le> n" for n
    using str_nat_dec[OF that] by (auto simp: list_all_iff dest: dec_not_space)
  have "\<not> py_isspace CHR ''-''" by (simp add: py_isspace_def)
  then show ?thesis
    using ns by (simp add: parse_int_def str_int_def strip_no_space split_sign_dec str_nat_dec)
      (simp add: split_sign_def)
qed

lemma parse_int_dec:
  assumes "list_all is_dec s" and "s \<noteq> []"
  shows "parse_int s = Some (foldl (\<lambda>a c. 10 * a + dec_val c) 0 s)"
proof -
  have "list_all (\<lambda>c. \<not> py_isspace c) s"
    using assms(1) by (auto simp: list_all_iff dest: dec_not_space)
  then have "py_strip s = s" by (rule strip_no_space)
  moreover have "scan_digits 0 0 False s = Some (foldl (\<lambda>a c. 10 * a + dec_val c) 0 s, length s)"
    using scan_digits_append[OF assms(1), of 0 0 False "[]"] assms(2) by simp
  ultimately show ?thesis
    using assms by (simp add: parse_int_def split_sign_dec parse_nat_def)
qed

lemma dec_val_bounds: "is_dec c \<Longrightarrow> 0 \<le> dec_val c \<and> dec_val c \<le> 9"
  by (simp add: is_dec_def dec_val_def)

lemma str_nat_not_space: "0 \<le> n \<Longrightarrow> c \<in> set (str_nat n) \<Longrightarrow> \<not> py_isspace c"
  using str_nat_dec[of n] by (auto simp: list_all_iff dest: dec_not_space)

lemma py_strip_str_int [simp]: "py_strip (str_int i) = str_int i"
proof (rule strip_no_space)
  have "\<not> py_isspace CHR ''-''" by (simp add: py_isspace_def)
  then show "list_all (\<lambda>c. \<not> py_isspace c) (str_int i)"
    using str_nat_not_space[of "- i"] str_nat_not_space[of i]
    by (cases "i < 0") (auto simp: str_int_def list_all_iff)
qed

subsection \<open>Floats\<close>

text \<open>\<open>float(text)\<close>: \<open>None\<close> is the \<open>ValueError\<close>.\<close>

definition parse_opt_digits :: "string \<Rightarrow> (int \<times> nat) option" where
  "parse_opt_digits s = (if s = [] then Some (0, 0) else scan_digits 0 0 False s)"

definition parse_exponent :: "string \<Rightarrow> int option" where
  "parse_exponent s = (let (neg, t) = split_sign s in
     map_option (\<lambda>n. if neg then - n else n) (parse_nat t))"

definition signed_rat :: "bool \<Rightarrow> rat \<Rightarrow> pyfloat" where
  "signed_rat neg x = (if x = 0 then (if neg then NegZero else Fin 0)
                       else rnd (if neg then - x else x))"

definition parse_decimal :: "bool \<Rightarrow> string \<Rightarrow> pyfloat option" where
  "parse_decimal neg s = (let
     m = takeWhile (\<lambda>c. c \<noteq> CHR ''e'' \<and> c \<noteq> CHR ''E'') s;
     rest = drop (length m) s;
     (ip, dot, fp) = py_partition CHR ''.'' m
   in case (parse_opt_digits ip, parse_opt_digits fp,
            if rest = [] then Some 0 else parse_exponent (tl rest)) of
        (Some (a, n), Some (b, k), Some e) \<Rightarrow>
          if n + k = 0 then None
          else Some (signed_rat neg (of_int (a * 10 ^ k + b) / 10 ^ k * 10 powi e))
      | _ \<Rightarrow> None)"

definition parse_float :: "string \<Rightarrow> pyfloat option" where
  "parse_float s = (let (neg, t) = split_sign (py_strip s); l = py_lower t in
     if l = ''inf'' \<or> l = ''infinity'' then Some (if neg then NInf else PInf)
     else if l = ''nan'' then Some NaN
     else parse_decimal neg t)"

text \<open>
  \<open>repr(float)\<close>: the fewest digits that read back as the same float, the nearest of them to the
  exact value; positional notation for exponents from -4 to 15, scientific otherwise.
\<close>

definition repr_candidates :: "rat \<Rightarrow> nat \<Rightarrow> (int \<times> int) list" where
  "repr_candidates a n = (let s = ilog 10 a - int n + 1; q = a / 10 powi s in
     [(rhe q, s), (\<lfloor>q\<rfloor>, s), (\<lfloor>q\<rfloor> + 1, s)])"

definition reads_back :: "rat \<Rightarrow> int \<times> int \<Rightarrow> bool" where
  "reads_back a p = (0 < fst p \<and> dbl_mag (of_int (fst p) * 10 powi snd p) = a)"

definition shortest_decimal :: "rat \<Rightarrow> int \<times> int" where
  "shortest_decimal a =
     (case List.find (reads_back a) (concat (map (repr_candidates a) [1..<18])) of
        Some p \<Rightarrow> p | None \<Rightarrow> hd (repr_candidates a 17))"

definition strip_zeros :: "string \<Rightarrow> string" where
  "strip_zeros s = rstrip_by (\<lambda>c. c = CHR ''0'') s"

definition str_exponent :: "int \<Rightarrow> string" where
  "str_exponent e = (if e < 0 then ''e-'' else ''e+'') @ zfill 2 (str_nat \<bar>e\<bar>)"

definition repr_mag :: "rat \<Rightarrow> string" where
  "repr_mag a = (let
     (m, s) = shortest_decimal a;
     full = str_nat m;
     p = int (length full) + s;
     ds = strip_zeros full;
     n = int (length ds)
   in if - 4 < p \<and> p \<le> 16 then
        (if p \<le> 0 then ''0.'' @ replicate (nat (- p)) CHR ''0'' @ ds
         else if n \<le> p then ds @ replicate (nat (p - n)) CHR ''0'' @ ''.0''
         else take (nat p) ds @ ''.'' @ drop (nat p) ds)
      else take 1 ds @ (if n = 1 then [] else ''.'' @ drop 1 ds) @ str_exponent (p - 1))"

fun str_float :: "pyfloat \<Rightarrow> string" where
  "str_float (Fin x) = (if x = 0 then ''0.0'' else if x < 0 then CHR ''-'' # repr_mag (- x)
                        else repr_mag x)"
| "str_float NegZero = ''-0.0''"
| "str_float PInf = ''inf''"
| "str_float NInf = ''-inf''"
| "str_float NaN = ''nan''"

end
