(* ===== verification/PyValue.thy ===== *)
theory PyValue
  imports PyString
begin

section \<open>Python values, exceptions and conversions\<close>

text \<open>
  The dynamically typed values that come out of YAML and JSON and travel through the client:
  \<open>pyval\<close>. A dict is the list of its entries in insertion order, keys distinct. \<open>VRef n\<close> is a
  mutable object known by its identity (the shared connection cache); \<open>VOpaque\<close> is any other
  object, known by its \<open>str\<close> and \<open>repr\<close> texts (a YAML timestamp, for instance). \<open>exn\<close> is the
  exceptions the code raises or catches; an \<open>issue\<close> is a message, as a label for the call site and
  the values interpolated into it.
\<close>

datatype pyval =
    VNone
  | VBool bool
  | VInt int
  | VFloat pyfloat
  | VStr string
  | VList "pyval list"
  | VDict "(pyval \<times> pyval) list"
  | VRef nat
  | VOpaque string string

datatype issue = Issue string "pyval list"

datatype exn =
    ConfigError issue
  | DatabaseConfigError issue
  | YAMLError issue
  | LockError issue
  | RuntimeError issue
  | ReError issue
  | TypeError
  | ValueError
  | KeyError
  | IndexError
  | AttributeError
  | OverflowError
  | ZeroDivisionError
  | FileNotFoundError
  | PermissionError
  | TimeoutError
  | OSError
  | OtherError string
  | CancelledError

text \<open>The subclass tests of the \<open>except\<close> clauses.\<close>

fun is_value_error :: "exn \<Rightarrow> bool" where
  "is_value_error (ConfigError i) = True"
| "is_value_error (DatabaseConfigError i) = True"
| "is_value_error ValueError = True"
| "is_value_error e = False"

fun is_os_error :: "exn \<Rightarrow> bool" where
  "is_os_error FileNotFoundError = True"
| "is_os_error PermissionError = True"
| "is_os_error TimeoutError = True"
| "is_os_error OSError = True"
| "is_os_error e = False"

fun is_runtime_error :: "exn \<Rightarrow> bool" where
  "is_runtime_error (RuntimeError i) = True"
| "is_runtime_error (LockError i) = True"
| "is_runtime_error e = False"

text \<open>\<open>except Exception\<close> catches everything but \<open>asyncio.CancelledError\<close>, a \<open>BaseException\<close>.\<close>

definition is_exception :: "exn \<Rightarrow> bool" where
  "is_exception e \<longleftrightarrow> e \<noteq> CancelledError"

fun is_config_error :: "exn \<Rightarrow> bool" where
  "is_config_error (ConfigError i) = True"
| "is_config_error e = False"

type_synonym 'a res = "exn + 'a"

subsection \<open>Truth, equality, hashing\<close>

fun truthy :: "pyval \<Rightarrow> bool" where
  "truthy VNone = False"
| "truthy (VBool b) = b"
| "truthy (VInt i) = (i \<noteq> 0)"
| "truthy (VFloat f) = (f \<noteq> Fin 0 \<and> f \<noteq> NegZero)"
| "truthy (VStr s) = (s \<noteq> [])"
| "truthy (VList xs) = (xs \<noteq> [])"
| "truthy (VDict d) = (d \<noteq> [])"
| "truthy (VRef n) = True"
| "truthy (VOpaque s r) = True"

text \<open>The numeric value of an int, a bool or a float, exact; \<open>None\<close> for the other types.\<close>

fun num_of :: "pyval \<Rightarrow> pyfloat option" where
  "num_of (VBool b) = Some (Fin (if b then 1 else 0))"
| "num_of (VInt i) = Some (Fin (of_int i))"
| "num_of (VFloat f) = Some f"
| "num_of v = None"

text \<open>
  \<open>a == b\<close>. Numbers compare by value across types (\<open>1 == True == 1.0\<close>). Containers are compared
  structurally; the code never compares two containers.
\<close>

definition py_eq :: "pyval \<Rightarrow> pyval \<Rightarrow> bool" where
  "py_eq a b = (case (num_of a, num_of b) of
     (Some x, Some y) \<Rightarrow> f_eq x y | (None, None) \<Rightarrow> a = b | _ \<Rightarrow> False)"

fun hashable :: "pyval \<Rightarrow> bool" where
  "hashable (VList xs) = False"
| "hashable (VDict d) = False"
| "hashable (VRef n) = False"
| "hashable v = True"

text \<open>\<open>v in s\<close> for a set or dict \<open>s\<close> with the given keys.\<close>

definition py_in_keys :: "pyval \<Rightarrow> pyval list \<Rightarrow> bool res" where
  "py_in_keys v ks = (if hashable v then Inr (\<exists>k \<in> set ks. py_eq k v) else Inl TypeError)"

definition py_in_strs :: "pyval \<Rightarrow> string list \<Rightarrow> bool res" where
  "py_in_strs v ss = py_in_keys v (map VStr ss)"

lemma py_eq_VStr [simp]: "py_eq (VStr a) (VStr b) \<longleftrightarrow> a = b"
  by (simp add: py_eq_def)

lemma py_eq_VStr_right: "py_eq a (VStr b) \<longleftrightarrow> a = VStr b"
  by (cases a) (auto simp: py_eq_def)

lemma py_in_strs_VStr [simp]: "py_in_strs (VStr s) ss = Inr (s \<in> set ss)"
  by (auto simp: py_in_strs_def py_in_keys_def)

lemma py_in_strs_True: "py_in_strs v ss = Inr True \<Longrightarrow> \<exists>s \<in> set ss. v = VStr s"
proof -
  assume "py_in_strs v ss = Inr True"
  then obtain s where "s \<in> set ss" "py_eq (VStr s) v"
    by (auto simp: py_in_strs_def py_in_keys_def split: if_splits)
  then show ?thesis by (cases v) (auto simp: py_eq_def)
qed

subsection \<open>Text of a value\<close>

definition hex_digit :: "nat \<Rightarrow> char" where
  "hex_digit n = ''0123456789abcdef'' ! n"

definition repr_char :: "char \<Rightarrow> char \<Rightarrow> string" where
  "repr_char q c = (let n = code c in
     if c = q \<or> c = CHR 0x5C then [CHR 0x5C, c]
     else if n = 10 then [CHR 0x5C, CHR ''n'']
     else if n = 13 then [CHR 0x5C, CHR ''r'']
     else if n = 9 then [CHR 0x5C, CHR ''t'']
     else if n < 32 \<or> (127 \<le> n \<and> n \<le> 160) \<or> n = 173
       then [CHR 0x5C, CHR ''x'', hex_digit (n div 16), hex_digit (n mod 16)]
     else [c])"

definition repr_str :: "string \<Rightarrow> string" where
  "repr_str s = (let q = (if CHR 0x27 \<in> set s \<and> CHR 0x22 \<notin> set s then CHR 0x22 else CHR 0x27)
     in q # concat (map (repr_char q) s) @ [q])"

fun py_repr :: "pyval \<Rightarrow> string" where
  "py_repr VNone = ''None''"
| "py_repr (VBool b) = (if b then ''True'' else ''False'')"
| "py_repr (VInt i) = str_int i"
| "py_repr (VFloat f) = str_float f"
| "py_repr (VStr s) = repr_str s"
| "py_repr (VList xs) = ''['' @ join_with '', '' (map py_repr xs) @ '']''"
| "py_repr (VDict d) =
     ''{'' @ join_with '', '' (map (\<lambda>p. py_repr (fst p) @ '': '' @ py_repr (snd p)) d) @ ''}''"
| "py_repr (VRef n) = ''{...}''"
| "py_repr (VOpaque s r) = r"

fun py_str :: "pyval \<Rightarrow> string" where
  "py_str (VStr s) = s"
| "py_str (VOpaque s r) = s"
| "py_str v = py_repr v"

subsection \<open>Conversions to numbers\<close>

fun py_int :: "pyval \<Rightarrow> int res" where
  "py_int (VInt i) = Inr i"
| "py_int (VBool b) = Inr (if b then 1 else 0)"
| "py_int (VFloat f) = (case f of
     Fin x \<Rightarrow> Inr (if x < 0 then \<lceil>x\<rceil> else \<lfloor>x\<rfloor>)
   | NegZero \<Rightarrow> Inr 0 | NaN \<Rightarrow> Inl ValueError | _ \<Rightarrow> Inl OverflowError)"
| "py_int (VStr s) = (case parse_int s of Some i \<Rightarrow> Inr i | None \<Rightarrow> Inl ValueError)"
| "py_int v = Inl TypeError"

definition float_of_int :: "int \<Rightarrow> pyfloat res" where
  "float_of_int i = (case rnd (of_int i) of
     PInf \<Rightarrow> Inl OverflowError | NInf \<Rightarrow> Inl OverflowError | f \<Rightarrow> Inr f)"

fun py_float :: "pyval \<Rightarrow> pyfloat res" where
  "py_float (VInt i) = float_of_int i"
| "py_float (VBool b) = Inr (Fin (if b then 1 else 0))"
| "py_float (VFloat f) = Inr f"
| "py_float (VStr s) = (case parse_float s of Some f \<Rightarrow> Inr f | None \<Rightarrow> Inl ValueError)"
| "py_float v = Inl TypeError"

definition int_truediv :: "int \<Rightarrow> int \<Rightarrow> pyfloat res" where
  "int_truediv a b = (if b = 0 then Inl ZeroDivisionError
     else case int_quot a b of PInf \<Rightarrow> Inl OverflowError | NInf \<Rightarrow> Inl OverflowError | f \<Rightarrow> Inr f)"

text \<open>\<open>a < b\<close> between two numbers; between other types it raises.\<close>

definition py_lt :: "pyval \<Rightarrow> pyval \<Rightarrow> bool res" where
  "py_lt a b = (case (num_of a, num_of b) of
     (Some x, Some y) \<Rightarrow> Inr (f_lt x y) | _ \<Rightarrow> Inl TypeError)"

lemma py_int_str_int [simp]: "py_int (VStr (str_int i)) = Inr i"
  by (simp add: parse_int_str_int)

subsection \<open>Containers\<close>

text \<open>\<open>v.get(key, default)\<close> and \<open>key in v\<close>, with a literal string key.\<close>

definition dget :: "(pyval \<times> pyval) list \<Rightarrow> string \<Rightarrow> pyval option" where
  "dget d k = map_of d (VStr k)"

fun vget :: "pyval \<Rightarrow> string \<Rightarrow> pyval \<Rightarrow> pyval res" where
  "vget (VDict d) k v = Inr (case dget d k of None \<Rightarrow> v | Some w \<Rightarrow> w)"
| "vget w k v = Inl AttributeError"

fun vhas :: "pyval \<Rightarrow> string \<Rightarrow> bool res" where
  "vhas (VDict d) k = Inr (dget d k \<noteq> None)"
| "vhas (VList xs) k = Inr (VStr k \<in> set xs)"
| "vhas (VStr s) k = Inr (\<exists>i \<le> length s. startswith (drop i s) k)"
| "vhas v k = Inl TypeError"

text \<open>\<open>v[key]\<close> with a literal string key.\<close>

fun vindex :: "pyval \<Rightarrow> string \<Rightarrow> pyval res" where
  "vindex (VDict d) k = (case dget d k of None \<Rightarrow> Inl KeyError | Some w \<Rightarrow> Inr w)"
| "vindex w k = Inl TypeError"

text \<open>\<open>for x in v\<close>.\<close>

fun py_iter :: "pyval \<Rightarrow> pyval list res" where
  "py_iter (VList xs) = Inr xs"
| "py_iter (VDict d) = Inr (map fst d)"
| "py_iter (VStr s) = Inr (map (\<lambda>c. VStr [c]) s)"
| "py_iter v = Inl TypeError"

text \<open>\<open>dict(v)\<close>: a mapping, or an iterable of pairs.\<close>

definition pair_of :: "pyval \<Rightarrow> (pyval \<times> pyval) res" where
  "pair_of v = rbind (py_iter v) (\<lambda>xs. case xs of
     [a, b] \<Rightarrow> if hashable a then Inr (a, b) else Inl TypeError | _ \<Rightarrow> Inl ValueError)"

fun py_dict :: "pyval \<Rightarrow> (pyval \<times> pyval) list res" where
  "py_dict (VDict d) = Inr d"
| "py_dict v = rbind (py_iter v) (\<lambda>xs. rbind (rmapM pair_of xs) (\<lambda>ps.
     Inr (adict_merge [] ps)))"

text \<open>Well-formed values: the keys of a dict are distinct.\<close>

definition dict_keys_distinct :: "(pyval \<times> pyval) list \<Rightarrow> bool" where
  "dict_keys_distinct d = distinct (map fst d)"

definition dset :: "(pyval \<times> pyval) list \<Rightarrow> string \<Rightarrow> pyval \<Rightarrow> (pyval \<times> pyval) list" where
  "dset d k v = adict_set d (VStr k) v"

lemma dget_dset [simp]: "dget (dset d k v) k = Some v"
  by (simp add: dget_def dset_def)

lemma dget_dset_other [simp]: "k \<noteq> l \<Longrightarrow> dget (dset d k v) l = dget d l"
  by (simp add: dget_def dset_def)

lemma dget_Nil [simp]: "dget [] k = None"
  by (simp add: dget_def)

lemma dget_Cons [simp]:
  "dget ((a, b) # d) k = (if a = VStr k then Some b else dget d k)"
  by (auto simp: dget_def)

text \<open>\<open>d.get(key, default)\<close> and \<open>d[key] = v\<close> for any key; a key is found when it is equal.\<close>

definition key_get :: "pyval \<Rightarrow> pyval \<Rightarrow> pyval \<Rightarrow> pyval res" where
  "key_get d k v = (case d of
     VDict ps \<Rightarrow> if \<not> hashable k then Inl TypeError
       else Inr (case List.find (\<lambda>p. py_eq (fst p) k) ps of None \<Rightarrow> v | Some p \<Rightarrow> snd p)
   | _ \<Rightarrow> Inl AttributeError)"

fun key_set :: "(pyval \<times> pyval) list \<Rightarrow> pyval \<Rightarrow> pyval \<Rightarrow> (pyval \<times> pyval) list" where
  "key_set [] k v = [(k, v)]"
| "key_set (p # ps) k v = (if py_eq (fst p) k then (fst p, v) # ps else p # key_set ps k v)"

text \<open>\<open>xs[i]\<close>: an index counts from the end when it is negative.\<close>

definition py_index :: "'a list \<Rightarrow> int \<Rightarrow> 'a res" where
  "py_index xs i =
     (if - int (length xs) \<le> i \<and> i < int (length xs)
      then Inr (xs ! nat (i mod int (length xs))) else Inl IndexError)"

definition is_dict :: "pyval \<Rightarrow> bool" where
  "is_dict v = (case v of VDict d \<Rightarrow> True | _ \<Rightarrow> False)"

definition is_list :: "pyval \<Rightarrow> bool" where
  "is_list v = (case v of VList xs \<Rightarrow> True | _ \<Rightarrow> False)"

definition is_str :: "pyval \<Rightarrow> bool" where
  "is_str v = (case v of VStr s \<Rightarrow> True | _ \<Rightarrow> False)"

lemma is_dict_iff: "is_dict v \<longleftrightarrow> (\<exists>d. v = VDict d)"
  by (cases v) (auto simp: is_dict_def)

lemma is_list_iff: "is_list v \<longleftrightarrow> (\<exists>xs. v = VList xs)"
  by (cases v) (auto simp: is_list_def)

lemma is_str_iff: "is_str v \<longleftrightarrow> (\<exists>s. v = VStr s)"
  by (cases v) (auto simp: is_str_def)

end
