(* ===== verification/Models.thy ===== *)
theory Models
  imports PyValue
begin

section \<open>Data model of the client (\<open>models.py\<close>)\<close>

text \<open>
  The dataclasses of \<open>models.py\<close> as records, field by field (a prefix per class keeps the field
  names apart), its string constants, and the constructors of \<open>MetricResult\<close>. A metric's id and
  key stay Python values, since the loader keeps whatever YAML delivered; the clock is an
  argument.
\<close>

definition DELIVERY_BATCH :: string where "DELIVERY_BATCH = ''batch''"
definition DELIVERY_IMMEDIATE :: string where "DELIVERY_IMMEDIATE = ''immediate''"

definition ERROR_POLICY_SKIP :: string where "ERROR_POLICY_SKIP = ''skip''"
definition ERROR_POLICY_FALLBACK :: string where "ERROR_POLICY_FALLBACK = ''fallback''"
definition ERROR_POLICY_MARK_FAILED :: string where "ERROR_POLICY_MARK_FAILED = ''mark_failed''"

definition RESULT_OK :: string where "RESULT_OK = ''ok''"
definition RESULT_FAILED :: string where "RESULT_FAILED = ''failed''"
definition RESULT_TIMEOUT :: string where "RESULT_TIMEOUT = ''timeout''"
definition RESULT_SKIPPED :: string where "RESULT_SKIPPED = ''skipped''"
definition RESULT_FALLBACK :: string where "RESULT_FALLBACK = ''fallback''"

lemmas result_defs = RESULT_OK_def RESULT_FAILED_def RESULT_TIMEOUT_def RESULT_SKIPPED_def
  RESULT_FALLBACK_def

lemmas policy_defs = ERROR_POLICY_SKIP_def ERROR_POLICY_FALLBACK_def ERROR_POLICY_MARK_FAILED_def

lemmas delivery_defs = DELIVERY_BATCH_def DELIVERY_IMMEDIATE_def

definition VALID_DELIVERY :: "string list" where
  "VALID_DELIVERY = [DELIVERY_BATCH, DELIVERY_IMMEDIATE]"

definition VALID_ERROR_POLICY :: "string list" where
  "VALID_ERROR_POLICY = [ERROR_POLICY_SKIP, ERROR_POLICY_FALLBACK, ERROR_POLICY_MARK_FAILED]"

definition VALID_VALUE_TYPES :: "string list" where
  "VALID_VALUE_TYPES = [''int'', ''float'', ''string'', ''text'']"

definition VALID_IMPORTANCE :: "string list" where
  "VALID_IMPORTANCE = [''low'', ''normal'', ''high'', ''critical'']"

definition VALID_COLLECTORS :: "string list" where
  "VALID_COLLECTORS =
     [''cpu'', ''memory'', ''disk'', ''service'', ''network'', ''log'', ''probe'', ''database'']"

lemmas valid_defs = VALID_DELIVERY_def VALID_ERROR_POLICY_def VALID_VALUE_TYPES_def
  VALID_IMPORTANCE_def VALID_COLLECTORS_def

subsection \<open>Client configuration\<close>

record zabbix_config =
  z_server_hosts :: "string list"
  z_server_port :: int
  z_host_name :: string
  z_host_group :: string
  z_connect_timeout :: pyfloat
  z_send_timeout :: pyfloat

record runtime_config =
  rt_overall_timeout :: pyfloat
  rt_max_concurrency :: int
  rt_lock_file :: string
  rt_dry_run :: bool
  rt_fail_fast :: bool
  rt_proc_root :: string

record batching_config =
  b_window :: pyfloat
  b_send_max_size :: int
  b_chunk_size :: int
  b_flush_immediate_separately :: bool
  b_micro_batch_window_ms :: int

record log_file_config =
  lf_path :: string
  lf_max_size_mb :: int
  lf_max_backups :: int
  lf_compress :: bool

record logging_config =
  lg_level :: string
  lg_format :: string
  lg_file :: "log_file_config option"
  lg_console :: bool

record state_config =
  st_enabled :: bool
  st_directory :: string

record features_config =
  ft_self_monitoring :: bool
  ft_emit_partial_failure :: bool
  ft_strict :: bool
  ft_skip_disabled :: bool

record client_config =
  cfg_zabbix :: zabbix_config
  cfg_runtime :: runtime_config
  cfg_batching :: batching_config
  cfg_logging :: logging_config
  cfg_state :: state_config
  cfg_features :: features_config

definition default_client_config :: client_config where
  "default_client_config = \<lparr>
     cfg_zabbix = \<lparr>z_server_hosts = [''127.0.0.1''], z_server_port = 10051, z_host_name = '''',
       z_host_group = ''zabbig Clients'', z_connect_timeout = Fin 10, z_send_timeout = Fin 30\<rparr>,
     cfg_runtime = \<lparr>rt_overall_timeout = Fin 240, rt_max_concurrency = 8,
       rt_lock_file = ''state/zabbig_client.lock'', rt_dry_run = False, rt_fail_fast = False,
       rt_proc_root = ''/proc''\<rparr>,
     cfg_batching = \<lparr>b_window = Fin 60, b_send_max_size = 250, b_chunk_size = 250,
       b_flush_immediate_separately = True, b_micro_batch_window_ms = 200\<rparr>,
     cfg_logging = \<lparr>lg_level = ''INFO'', lg_format = ''text'', lg_file = None, lg_console = True\<rparr>,
     cfg_state = \<lparr>st_enabled = False, st_directory = ''state''\<rparr>,
     cfg_features = \<lparr>ft_self_monitoring = True, ft_emit_partial_failure = False, ft_strict = True,
       ft_skip_disabled = True\<rparr>\<rparr>"

subsection \<open>Metric definitions\<close>

datatype run_freq = FreqInt int | FreqStr string

record metric_def =
  m_id :: pyval
  m_name :: string
  m_enabled :: bool
  m_collector :: string
  m_key :: pyval
  m_delivery :: string
  m_timeout :: pyfloat
  m_error_policy :: string
  m_description :: string
  m_value_type :: string
  m_unit :: string
  m_importance :: string
  m_fallback_value :: "string option"
  m_tags :: "pyval list"
  m_params :: "(pyval \<times> pyval) list"
  m_host_name :: "string option"
  m_time_window_from :: "string option"
  m_time_window_till :: "string option"
  m_max_executions :: "int option"
  m_run_frequency :: "run_freq option"

record collector_defaults =
  cd_timeout :: pyfloat
  cd_delivery :: string

record metrics_config =
  mc_version :: int
  mc_defaults :: pyval
  mc_collector_defaults :: pyval
  mc_metrics :: "metric_def list"
  mc_include :: "pyval list"

subsection \<open>Results\<close>

datatype err_text = TimedOutText | ExcText exn

record metric_result =
  r_metric_id :: pyval
  r_key :: pyval
  r_value :: "string option"
  r_value_type :: string
  r_timestamp :: int
  r_collector :: string
  r_delivery :: string
  r_status :: string
  r_unit :: string
  r_tags :: "pyval list"
  r_error :: "err_text option"
  r_source :: string
  r_duration :: pyfloat
  r_host_name :: pyval

definition host_value :: "string option \<Rightarrow> pyval" where
  "host_value h = (case h of None \<Rightarrow> VNone | Some s \<Rightarrow> VStr s)"

definition is_sendable :: "metric_result \<Rightarrow> bool" where
  "is_sendable r = (r_status r \<in> {RESULT_OK, RESULT_FALLBACK} \<and> r_value r \<noteq> None)"

definition make_timeout :: "metric_def \<Rightarrow> int \<Rightarrow> pyfloat \<Rightarrow> metric_result" where
  "make_timeout m now dur = \<lparr>
     r_metric_id = m_id m, r_key = m_key m, r_value = None, r_value_type = m_value_type m,
     r_timestamp = now, r_collector = m_collector m, r_delivery = m_delivery m,
     r_status = RESULT_TIMEOUT, r_unit = m_unit m, r_tags = m_tags m,
     r_error = Some TimedOutText, r_source = '''', r_duration = dur,
     r_host_name = host_value (m_host_name m)\<rparr>"

definition make_error :: "metric_def \<Rightarrow> exn \<Rightarrow> int \<Rightarrow> pyfloat \<Rightarrow> metric_result" where
  "make_error m exc now dur = \<lparr>
     r_metric_id = m_id m, r_key = m_key m, r_value = None, r_value_type = m_value_type m,
     r_timestamp = now, r_collector = m_collector m, r_delivery = m_delivery m,
     r_status = RESULT_FAILED, r_unit = m_unit m, r_tags = m_tags m,
     r_error = Some (ExcText exc), r_source = '''', r_duration = dur,
     r_host_name = host_value (m_host_name m)\<rparr>"

definition make_fallback :: "metric_def \<Rightarrow> int \<Rightarrow> pyfloat \<Rightarrow> metric_result" where
  "make_fallback m now dur = \<lparr>
     r_metric_id = m_id m, r_key = m_key m, r_value = m_fallback_value m,
     r_value_type = m_value_type m, r_timestamp = now, r_collector = m_collector m,
     r_delivery = m_delivery m, r_status = RESULT_FALLBACK, r_unit = m_unit m, r_tags = m_tags m,
     r_error = None, r_source = '''', r_duration = dur,
     r_host_name = host_value (m_host_name m)\<rparr>"

text \<open>
  The result every \<open>/proc\<close> collector builds at the end of \<open>collect\<close>: the metric's own fields, the
  text of the value, status ok.
\<close>

definition ok_result ::
  "metric_def \<Rightarrow> string \<Rightarrow> string \<Rightarrow> string \<Rightarrow> int \<Rightarrow> pyfloat \<Rightarrow> metric_result" where
  "ok_result m coll val src now dur = \<lparr>
     r_metric_id = m_id m, r_key = m_key m, r_value = Some val, r_value_type = m_value_type m,
     r_timestamp = now, r_collector = coll, r_delivery = m_delivery m, r_status = RESULT_OK,
     r_unit = m_unit m, r_tags = m_tags m, r_error = None, r_source = src, r_duration = dur,
     r_host_name = host_value (m_host_name m)\<rparr>"

text \<open>\<open>a or b\<close>.\<close>

definition py_or :: "pyval \<Rightarrow> pyval \<Rightarrow> pyval" where
  "py_or a b = (if truthy a then a else b)"

subsection \<open>Run summary\<close>

record run_summary =
  s_total_configured :: int
  s_enabled :: int
  s_collected_ok :: int
  s_collected_failed :: int
  s_collected_timeout :: int
  s_skipped :: int
  s_sent_batch :: int
  s_sent_immediate :: int
  s_sender_failures :: int
  s_schedule_skipped :: int
  s_duration :: pyfloat
  s_success :: bool

definition new_summary :: run_summary where
  "new_summary = \<lparr>s_total_configured = 0, s_enabled = 0, s_collected_ok = 0,
     s_collected_failed = 0, s_collected_timeout = 0, s_skipped = 0, s_sent_batch = 0,
     s_sent_immediate = 0, s_sender_failures = 0, s_schedule_skipped = 0, s_duration = Fin 0,
     s_success = True\<rparr>"

lemma make_status [simp]:
  "r_status (make_timeout m now d) = RESULT_TIMEOUT"
  "r_status (make_error m e now d) = RESULT_FAILED"
  "r_status (make_fallback m now d) = RESULT_FALLBACK"
  "r_status (ok_result m c v src now d) = RESULT_OK"
  by (simp_all add: make_timeout_def make_error_def make_fallback_def ok_result_def)

lemma make_value [simp]:
  "r_value (make_timeout m now d) = None"
  "r_value (make_error m e now d) = None"
  "r_value (make_fallback m now d) = m_fallback_value m"
  "r_value (ok_result m c v src now d) = Some v"
  by (simp_all add: make_timeout_def make_error_def make_fallback_def ok_result_def)

lemma make_key [simp]:
  "r_key (make_timeout m now d) = m_key m"
  "r_key (make_error m e now d) = m_key m"
  "r_key (make_fallback m now d) = m_key m"
  "r_key (ok_result m c v src now d) = m_key m"
  by (simp_all add: make_timeout_def make_error_def make_fallback_def ok_result_def)

lemma make_delivery [simp]:
  "r_delivery (make_timeout m now d) = m_delivery m"
  "r_delivery (make_error m e now d) = m_delivery m"
  "r_delivery (make_fallback m now d) = m_delivery m"
  "r_delivery (ok_result m c v src now d) = m_delivery m"
  by (simp_all add: make_timeout_def make_error_def make_fallback_def ok_result_def)

lemma make_host_name [simp]:
  "r_host_name (make_timeout m now d) = host_value (m_host_name m)"
  "r_host_name (make_error m e now d) = host_value (m_host_name m)"
  "r_host_name (make_fallback m now d) = host_value (m_host_name m)"
  "r_host_name (ok_result m c v src now d) = host_value (m_host_name m)"
  by (simp_all add: make_timeout_def make_error_def make_fallback_def ok_result_def)

lemma sendable_make [simp]:
  "\<not> is_sendable (make_timeout m now d)"
  "\<not> is_sendable (make_error m e now d)"
  "is_sendable (make_fallback m now d) \<longleftrightarrow> m_fallback_value m \<noteq> None"
  "is_sendable (ok_result m c v src now d)"
  by (simp_all add: is_sendable_def result_defs)

subsection \<open>A metric definition with the dataclass defaults\<close>

text \<open>The definition the concrete examples of the development start from.\<close>

definition example_metric :: "string \<Rightarrow> string \<Rightarrow> metric_def" where
  "example_metric ident collector = \<lparr>
     m_id = VStr ident, m_name = ident, m_enabled = True, m_collector = collector,
     m_key = VStr (''host.'' @ ident), m_delivery = DELIVERY_BATCH, m_timeout = Fin 10,
     m_error_policy = ERROR_POLICY_SKIP, m_description = '''', m_value_type = ''float'',
     m_unit = '''', m_importance = ''normal'', m_fallback_value = None, m_tags = [],
     m_params = [], m_host_name = None, m_time_window_from = None, m_time_window_till = None,
     m_max_executions = None, m_run_frequency = None\<rparr>"

end
