(* ===== verification/Scheduler.thy ===== *)
theory Scheduler
  imports Models
begin

section \<open>Scheduling guards (\<open>scheduler.py\<close>)\<close>

text \<open>
  The decision whether a metric is collected in one invocation of the client. The clock is an
  argument: \<open>now\<close> is the local time in minutes since midnight. The lemmas give the decision as a
  conjunction of three independent guards (\<open>schedule_allows\<close>), and the cadence of a run frequency.
\<close>

subsection \<open>Time helpers\<close>

definition parse_hhmm :: "string \<Rightarrow> int res" where
  "parse_hhmm value =
     rbind (py_int (VStr (take 2 value))) (\<lambda>h.
     rbind (py_int (VStr (drop 2 value))) (\<lambda>m. Inr (h * 60 + m)))"

definition normalise_hhmm :: "pyval \<Rightarrow> string" where
  "normalise_hhmm raw = zfill 4 (py_str raw)"

definition current_minutes :: "int \<Rightarrow> int \<Rightarrow> int" where
  "current_minutes hour minute = hour * 60 + minute"

definition today_str :: "int \<Rightarrow> int \<Rightarrow> int \<Rightarrow> string" where
  "today_str y m d =
     zfill 4 (str_int y) @ ''-'' @ zfill 2 (str_int m) @ ''-'' @ zfill 2 (str_int d)"

definition clock_text :: "int \<Rightarrow> string" where
  "clock_text now = zfill 2 (str_int (now div 60)) @ zfill 2 (str_int (now mod 60))"

subsection \<open>The decision\<close>

definition window_from_reason :: "string \<Rightarrow> int \<Rightarrow> string" where
  "window_from_reason v now = ''time_window_from='' @ v @ '' (current='' @ clock_text now @ '')''"

definition window_till_reason :: "string \<Rightarrow> int \<Rightarrow> string" where
  "window_till_reason v now = ''time_window_till='' @ v @ '' (current='' @ clock_text now @ '')''"

definition quota_reason :: "int \<Rightarrow> int \<Rightarrow> string" where
  "quota_reason mx n =
     ''max_executions_per_day='' @ str_int mx @ '' (today='' @ str_int n @ '')''"

definition freq_reason :: "string \<Rightarrow> int \<Rightarrow> string" where
  "freq_reason f run = ''run_frequency='' @ f @ '' (run='' @ str_int run @ '')''"

text \<open>The three guards in the order of the code: each returns the reason to skip, if any.\<close>

definition window_guard :: "metric_def \<Rightarrow> int \<Rightarrow> string option res" where
  "window_guard m now =
     rbind (case m_time_window_from m of None \<Rightarrow> Inr None
            | Some v \<Rightarrow> rbind (parse_hhmm v) (\<lambda>from_min.
                Inr (if now < from_min then Some (window_from_reason v now) else None)))
       (\<lambda>skip. case skip of Some r \<Rightarrow> Inr (Some r)
         | None \<Rightarrow> (case m_time_window_till m of None \<Rightarrow> Inr None
            | Some v \<Rightarrow> rbind (parse_hhmm v) (\<lambda>till_min.
                Inr (if till_min \<le> now then Some (window_till_reason v now) else None))))"

definition quota_guard :: "metric_def \<Rightarrow> int \<Rightarrow> string option" where
  "quota_guard m execution_count = (case m_max_executions m of None \<Rightarrow> None
     | Some mx \<Rightarrow> if 0 < mx \<and> mx \<le> execution_count
                 then Some (quota_reason mx execution_count) else None)"

definition frequency_guard :: "metric_def \<Rightarrow> int \<Rightarrow> string option" where
  "frequency_guard m run_counter = (case m_run_frequency m of None \<Rightarrow> None
     | Some (FreqStr f) \<Rightarrow>
         if f = ''even'' \<and> run_counter mod 2 \<noteq> 0 then Some (freq_reason ''even'' run_counter)
         else if f = ''odd'' \<and> run_counter mod 2 \<noteq> 1 then Some (freq_reason ''odd'' run_counter)
         else None
     | Some (FreqInt f) \<Rightarrow>
         if 1 < f \<and> (run_counter - 1) mod f \<noteq> 0 then Some (freq_reason (str_int f) run_counter)
         else None)"

definition should_execute ::
  "metric_def \<Rightarrow> int \<Rightarrow> int \<Rightarrow> bool \<Rightarrow> int \<Rightarrow> (bool \<times> string option) res" where
  "should_execute m run_counter execution_count dry_run now =
     (if dry_run then Inr (True, None)
      else rbind (window_guard m now) (\<lambda>w.
        case w of Some r \<Rightarrow> Inr (False, Some r)
        | None \<Rightarrow> (case quota_guard m execution_count of Some r \<Rightarrow> Inr (False, Some r)
          | None \<Rightarrow> (case frequency_guard m run_counter of Some r \<Rightarrow> Inr (False, Some r)
            | None \<Rightarrow> Inr (True, None)))))"

subsection \<open>Valid times\<close>

definition hhmm_hours :: "string \<Rightarrow> int" where
  "hhmm_hours s = 10 * dec_val (s ! 0) + dec_val (s ! 1)"

definition hhmm_minutes :: "string \<Rightarrow> int" where
  "hhmm_minutes s = 10 * dec_val (s ! 2) + dec_val (s ! 3)"

definition valid_hhmm :: "string \<Rightarrow> bool" where
  "valid_hhmm s \<longleftrightarrow> length s = 4 \<and> list_all is_dec s \<and> hhmm_hours s \<le> 23 \<and> hhmm_minutes s \<le> 59"

definition hhmm_value :: "string \<Rightarrow> int" where
  "hhmm_value s = hhmm_hours s * 60 + hhmm_minutes s"

lemma length4: "length s = 4 \<Longrightarrow> \<exists>a b c d. s = [a, b, c, d]"
  by (auto simp: length_Suc_conv numeral_eq_Suc)

lemma parse_hhmm_halves:
  assumes "length s = 4" and "list_all is_dec s"
  shows "py_int (VStr (take 2 s)) = Inr (hhmm_hours s)"
    and "py_int (VStr (drop 2 s)) = Inr (hhmm_minutes s)"
proof -
  obtain a b c d where s: "s = [a, b, c, d]" using length4[OF assms(1)] by blast
  show "py_int (VStr (take 2 s)) = Inr (hhmm_hours s)"
    using assms(2) by (simp add: s parse_int_dec hhmm_hours_def)
  show "py_int (VStr (drop 2 s)) = Inr (hhmm_minutes s)"
    using assms(2) by (simp add: s parse_int_dec hhmm_minutes_def eval_nat_numeral)
qed

lemma parse_hhmm_valid: "valid_hhmm s \<Longrightarrow> parse_hhmm s = Inr (hhmm_value s)"
  by (simp only: valid_hhmm_def parse_hhmm_def parse_hhmm_halves rbind_simps hhmm_value_def)

lemma hhmm_value_range: "valid_hhmm s \<Longrightarrow> 0 \<le> hhmm_value s \<and> hhmm_value s < 1440"
proof -
  assume v: "valid_hhmm s"
  then obtain a b c d where s: "s = [a, b, c, d]"
    using length4[of s] by (auto simp: valid_hhmm_def)
  have "0 \<le> hhmm_hours s" "0 \<le> hhmm_minutes s"
    using v dec_val_bounds by (auto simp: s valid_hhmm_def hhmm_hours_def hhmm_minutes_def)
  then show ?thesis using v by (auto simp: valid_hhmm_def hhmm_value_def)
qed

subsection \<open>Specification of the decision\<close>

definition schedule_valid :: "metric_def \<Rightarrow> bool" where
  "schedule_valid m \<longleftrightarrow> (\<forall>s. m_time_window_from m = Some s \<longrightarrow> valid_hhmm s)
     \<and> (\<forall>s. m_time_window_till m = Some s \<longrightarrow> valid_hhmm s)"

definition in_window :: "metric_def \<Rightarrow> int \<Rightarrow> bool" where
  "in_window m now \<longleftrightarrow>
     (case m_time_window_from m of None \<Rightarrow> True | Some s \<Rightarrow> hhmm_value s \<le> now) \<and>
     (case m_time_window_till m of None \<Rightarrow> True | Some s \<Rightarrow> now < hhmm_value s)"

definition below_quota :: "metric_def \<Rightarrow> int \<Rightarrow> bool" where
  "below_quota m n \<longleftrightarrow> (case m_max_executions m of None \<Rightarrow> True | Some mx \<Rightarrow> mx \<le> 0 \<or> n < mx)"

definition on_cadence :: "metric_def \<Rightarrow> int \<Rightarrow> bool" where
  "on_cadence m run \<longleftrightarrow> (case m_run_frequency m of
     None \<Rightarrow> True
   | Some (FreqStr f) \<Rightarrow> (f = ''even'' \<longrightarrow> even run) \<and> (f = ''odd'' \<longrightarrow> odd run)
   | Some (FreqInt f) \<Rightarrow> f \<le> 1 \<or> f dvd (run - 1))"

definition schedule_allows :: "metric_def \<Rightarrow> int \<Rightarrow> int \<Rightarrow> int \<Rightarrow> bool" where
  "schedule_allows m run n now \<longleftrightarrow> in_window m now \<and> below_quota m n \<and> on_cadence m run"

lemma window_guard_spec:
  assumes "schedule_valid m"
  shows "\<exists>r. window_guard m now = Inr r \<and> (r = None \<longleftrightarrow> in_window m now)"
  using assms
  by (auto simp: window_guard_def schedule_valid_def in_window_def parse_hhmm_valid
      split: option.splits)

lemma quota_guard_spec: "quota_guard m n = None \<longleftrightarrow> below_quota m n"
  by (auto simp: quota_guard_def below_quota_def split: option.splits)

lemma frequency_guard_spec: "frequency_guard m run = None \<longleftrightarrow> on_cadence m run"
  by (auto simp: frequency_guard_def on_cadence_def dvd_eq_mod_eq_0
      split: option.splits run_freq.splits)

lemma should_execute_spec:
  assumes "schedule_valid m"
  shows "\<exists>b r. should_execute m run n dry now = Inr (b, r)
     \<and> (b \<longleftrightarrow> dry \<or> schedule_allows m run n now) \<and> (r = None \<longleftrightarrow> b)"
proof -
  obtain w where w: "window_guard m now = Inr w" "w = None \<longleftrightarrow> in_window m now"
    using window_guard_spec[OF assms] by blast
  show ?thesis
  proof (cases "dry \<or> w \<noteq> None")
    case True
    then show ?thesis using w by (auto simp: should_execute_def schedule_allows_def)
  next
    case False
    then show ?thesis using w quota_guard_spec[of m n] frequency_guard_spec[of m run]
      by (auto simp: should_execute_def schedule_allows_def split: option.splits)
  qed
qed

lemma should_execute_allows:
  assumes "schedule_valid m"
  shows "should_execute m run n dry now = Inr (True, None) \<longleftrightarrow> dry \<or> schedule_allows m run n now"
  using should_execute_spec[OF assms, of run n dry now] by auto

text \<open>A metric with an every-\<open>f\<close>-th-run frequency runs \<open>\<lceil>N / f\<rceil>\<close> times in the first \<open>N\<close> runs.\<close>

lemma cadence_card:
  assumes "1 < f"
  shows "card {c. 1 \<le> c \<and> c \<le> int N \<and> f dvd (c - 1)} = nat ((int N + f - 1) div f)"
proof -
  let ?S = "{c. 1 \<le> c \<and> c \<le> int N \<and> f dvd (c - 1)}"
  have "?S = (\<lambda>k. 1 + f * k) ` {0 ..< (int N + f - 1) div f}"
  proof (intro equalityI subsetI)
    fix c assume "c \<in> ?S"
    then obtain k where k: "c = 1 + f * k" and c: "1 \<le> c" "c \<le> int N"
      by (auto simp: dvd_def algebra_simps)
    have "0 \<le> k" using k c(1) assms by (simp add: zero_le_mult_iff)
    moreover have "k < (int N + f - 1) div f"
    proof -
      have "f * (k + 1) \<le> int N + f - 1" using k c(2) by (simp add: algebra_simps)
      then have "f * (k + 1) div f \<le> (int N + f - 1) div f"
        using assms by (intro zdiv_mono1) simp_all
      then show ?thesis using assms by simp
    qed
    ultimately show "c \<in> (\<lambda>k. 1 + f * k) ` {0 ..< (int N + f - 1) div f}" using k by auto
  next
    fix c assume "c \<in> (\<lambda>k. 1 + f * k) ` {0 ..< (int N + f - 1) div f}"
    then obtain k where k: "0 \<le> k" "k + 1 \<le> (int N + f - 1) div f" "c = 1 + f * k" by auto
    have "f * (k + 1) \<le> f * ((int N + f - 1) div f)" using k(2) assms by simp
    also have "\<dots> \<le> int N + f - 1"
      using assms pos_mod_sign[of f "int N + f - 1"] mult_div_mod_eq[of f "int N + f - 1"] by linarith
    finally show "c \<in> ?S" using k assms by (simp add: algebra_simps)
  qed
  moreover have "inj_on (\<lambda>k. 1 + f * k) {0 ..< (int N + f - 1) div f}"
    using assms by (auto simp: inj_on_def)
  ultimately show ?thesis by (simp add: card_image)
qed

subsection \<open>Properties\<close>

definition night_metric :: metric_def where
  "night_metric = (example_metric ''backup'' ''log'')\<lparr>m_time_window_from := Some ''2200'',
     m_time_window_till := Some ''2330'', m_max_executions := Some 3,
     m_run_frequency := Some (FreqStr ''even'')\<rparr>"

lemma schedule_valid_night: "schedule_valid night_metric"
  by (simp add: schedule_valid_def night_metric_def valid_hhmm_def hhmm_hours_def hhmm_minutes_def
      is_dec_def dec_val_def)

text \<open>
  C3: for a metric whose window bounds are valid HHMM texts, \<open>should_execute\<close> never raises. It
  says yes exactly in a dry run, or when the time is inside the half-open window, fewer than the
  daily maximum of executions happened (a maximum of zero is no limit) and the run number is on
  the metric's cadence. It gives a reason exactly when it says no.
\<close>

theorem should_execute_decides:
  assumes "schedule_valid m"
  shows "\<exists>reason. should_execute m run_counter count dry now
      = Inr (dry \<or> schedule_allows m run_counter count now, reason)
    \<and> (reason = None \<longleftrightarrow> dry \<or> schedule_allows m run_counter count now)"
  using should_execute_spec[OF assms, of run_counter count dry now] by auto

theorem should_execute_decides_witness:
  "\<exists>reason. should_execute night_metric 4 2 False 1350
      = Inr (schedule_allows night_metric 4 2 1350, reason)"
  using should_execute_decides[OF schedule_valid_night, of 4 2 False 1350] by auto

text \<open>
  C38: a metric with an integer run frequency \<open>f > 1\<close> and no other constraint is executed in
  exactly \<open>\<lceil>N / f\<rceil>\<close> of the runs numbered \<open>1\<close> to \<open>N\<close>.
\<close>

theorem frequency_cadence:
  assumes "1 < f" and "m_run_frequency m = Some (FreqInt f)" and "m_max_executions m = None"
    and "m_time_window_from m = None" and "m_time_window_till m = None"
  shows "card {c. 1 \<le> c \<and> c \<le> int N \<and> should_execute m c n False now = Inr (True, None)}
    = nat ((int N + f - 1) div f)"
proof -
  have "schedule_valid m" using assms by (simp add: schedule_valid_def)
  then have "should_execute m c n False now = Inr (True, None) \<longleftrightarrow> f dvd (c - 1)" for c
    using assms by (simp add: should_execute_allows schedule_allows_def in_window_def
        below_quota_def on_cadence_def)
  then show ?thesis using cadence_card[OF assms(1)] by simp
qed

theorem frequency_cadence_witness:
  "card {c. 1 \<le> c \<and> c \<le> int 10 \<and> should_execute
     ((example_metric ''disk'' ''disk'')\<lparr>m_run_frequency := Some (FreqInt 3)\<rparr>) c 0 False 0
       = Inr (True, None)} = 4"
  using frequency_cadence[of 3 "(example_metric ''disk'' ''disk'')\<lparr>m_run_frequency := Some (FreqInt 3)\<rparr>"
      10 0 0]
  by (simp add: example_metric_def)

end
