(* ===== verification/Registry.thy ===== *)
theory Registry
  imports Models "HOL-Library.Char_ord" "HOL-Library.List_Lexorder"
begin

section \<open>Collector registry (\<open>collector_registry.py\<close>)\<close>

text \<open>
  The module-level registry from collector names to collector classes, and the lazy import that
  fills it. The state is the registry dict, the modules the import system already ran, and the
  warnings logged. Running a collector module executes its \<open>@register_collector\<close> decorator, which
  is the only thing importing it does to the registry.
\<close>

datatype collector_cls =
    CpuCollector | MemoryCollector | DiskCollector | ServiceCollector
  | NetworkCollector | LogCollector | ProbeCollector | DatabaseCollector

record registry_state =
  reg_classes :: "(string \<times> collector_cls) list"
  reg_imported :: "string list"
  reg_warnings :: "string list"

definition empty_registry :: registry_state where
  "empty_registry = \<lparr>reg_classes = [], reg_imported = [], reg_warnings = []\<rparr>"

definition COLLECTOR_MODULE_MAP :: "(string \<times> string) list" where
  "COLLECTOR_MODULE_MAP = map (\<lambda>n. (n, n)) VALID_COLLECTORS"

text \<open>The decorator line of each collector module: the name it registers and its class.\<close>

definition module_class :: "string \<Rightarrow> (string \<times> collector_cls) option" where
  "module_class slug = map_of [
     (''cpu'', (''cpu'', CpuCollector)), (''memory'', (''memory'', MemoryCollector)),
     (''disk'', (''disk'', DiskCollector)), (''service'', (''service'', ServiceCollector)),
     (''network'', (''network'', NetworkCollector)), (''log'', (''log'', LogCollector)),
     (''probe'', (''probe'', ProbeCollector)), (''database'', (''database'', DatabaseCollector))]
     slug"

definition register_collector ::
  "string \<Rightarrow> collector_cls \<Rightarrow> registry_state \<Rightarrow> registry_state" where
  "register_collector name cls s = s\<lparr>reg_classes := adict_set (reg_classes s) name cls\<rparr>"

definition get_collector :: "registry_state \<Rightarrow> string \<Rightarrow> collector_cls res" where
  "get_collector s name = (case map_of (reg_classes s) name of
     None \<Rightarrow> Inl KeyError | Some c \<Rightarrow> Inr c)"

definition registered_names :: "registry_state \<Rightarrow> string list" where
  "registered_names s = sort (map fst (reg_classes s))"

definition import_module :: "string \<Rightarrow> registry_state \<Rightarrow> registry_state" where
  "import_module slug s =
     (if slug \<in> set (reg_imported s) then s
      else let t = s\<lparr>reg_imported := reg_imported s @ [slug]\<rparr> in
        case module_class slug of None \<Rightarrow> t | Some (n, c) \<Rightarrow> register_collector n c t)"

fun load_collectors_for :: "string list \<Rightarrow> registry_state \<Rightarrow> registry_state" where
  "load_collectors_for [] s = s"
| "load_collectors_for (name # names) s =
     load_collectors_for names
       (if name \<in> set (map fst (reg_classes s)) then s
        else case map_of COLLECTOR_MODULE_MAP name of
               None \<Rightarrow> s\<lparr>reg_warnings := reg_warnings s @ [name]\<rparr>
             | Some slug \<Rightarrow> import_module slug s)"

definition ensure_collectors_imported :: "registry_state \<Rightarrow> registry_state" where
  "ensure_collectors_imported s = load_collectors_for (map fst COLLECTOR_MODULE_MAP) s"

subsection \<open>Invariant: a module that ran is registered, and nothing else is\<close>

definition registry_ok :: "registry_state \<Rightarrow> bool" where
  "registry_ok s \<longleftrightarrow>
     (\<forall>n. map_of (reg_classes s) n =
        (if n \<in> set (reg_imported s) then map_option snd (module_class n) else None))
     \<and> set (reg_imported s) \<subseteq> set VALID_COLLECTORS"

lemma module_class_valid:
  "n \<in> set VALID_COLLECTORS \<Longrightarrow> \<exists>c. module_class n = Some (n, c)"
  by (auto simp: module_class_def VALID_COLLECTORS_def)

lemma module_map_valid:
  "map_of COLLECTOR_MODULE_MAP n = (if n \<in> set VALID_COLLECTORS then Some n else None)"
  by (simp add: COLLECTOR_MODULE_MAP_def map_of_map_restrict)

lemma registry_ok_empty: "registry_ok empty_registry"
  by (simp add: registry_ok_def empty_registry_def)

lemma import_module_ok:
  assumes "registry_ok s" and "n \<in> set VALID_COLLECTORS"
  shows "registry_ok (import_module n s)" and "n \<in> set (reg_imported (import_module n s))"
    and "set (reg_imported s) \<subseteq> set (reg_imported (import_module n s))"
proof -
  obtain c where c: "module_class n = Some (n, c)" using module_class_valid[OF assms(2)] by blast
  show "registry_ok (import_module n s)"
    using assms c
    by (auto simp: import_module_def registry_ok_def register_collector_def map_of_adict_set)
  show "n \<in> set (reg_imported (import_module n s))"
    using c by (simp add: import_module_def register_collector_def)
  show "set (reg_imported s) \<subseteq> set (reg_imported (import_module n s))"
    using c by (auto simp: import_module_def register_collector_def)
qed

lemma load_collectors_ok:
  assumes "registry_ok s"
  shows "registry_ok (load_collectors_for names s)
    \<and> set (reg_imported (load_collectors_for names s)) =
        set (reg_imported s) \<union> (set names \<inter> set VALID_COLLECTORS)"
  using assms
proof (induction names arbitrary: s)
  case Nil
  then show ?case by simp
next
  case (Cons n names)
  let ?t = "if n \<in> set (map fst (reg_classes s)) then s
      else case map_of COLLECTOR_MODULE_MAP n of
               None \<Rightarrow> s\<lparr>reg_warnings := reg_warnings s @ [n]\<rparr>
             | Some slug \<Rightarrow> import_module slug s"
  have dom: "n \<in> set (map fst (reg_classes s)) \<longleftrightarrow> n \<in> set (reg_imported s)"
  proof -
    have "n \<in> set (map fst (reg_classes s)) \<longleftrightarrow> map_of (reg_classes s) n \<noteq> None"
      by (simp add: map_of_eq_None_iff)
    also have "\<dots> \<longleftrightarrow> n \<in> set (reg_imported s)"
      using Cons.prems module_class_valid[of n] by (auto simp: registry_ok_def)
    finally show ?thesis .
  qed
  have "registry_ok ?t
    \<and> set (reg_imported ?t) = set (reg_imported s) \<union> ({n} \<inter> set VALID_COLLECTORS)"
  proof (cases "n \<in> set (map fst (reg_classes s))")
    case True
    then show ?thesis using Cons.prems dom by auto
  next
    case False
    show ?thesis
    proof (cases "n \<in> set VALID_COLLECTORS")
      case True
      then have t: "?t = import_module n s" using False by (simp add: module_map_valid)
      have "set (reg_imported (import_module n s)) = insert n (set (reg_imported s))"
        using module_class_valid[OF True]
        by (auto simp: import_module_def register_collector_def)
      then show ?thesis using t import_module_ok[OF Cons.prems True] True by auto
    next
      case no: False
      then have "?t = s\<lparr>reg_warnings := reg_warnings s @ [n]\<rparr>" using False
        by (simp add: module_map_valid)
      then show ?thesis using Cons.prems no by (simp add: registry_ok_def)
    qed
  qed
  moreover have "load_collectors_for (n # names) s = load_collectors_for names ?t" by simp
  ultimately show ?case using Cons.IH[of ?t] by (auto simp del: load_collectors_for.simps)
qed

lemma get_collector_loaded:
  assumes "registry_ok s" and "n \<in> set names" and "n \<in> set VALID_COLLECTORS"
  shows "\<exists>c. get_collector (load_collectors_for names s) n = Inr c \<and> module_class n = Some (n, c)"
proof -
  have "registry_ok (load_collectors_for names s)"
    and "n \<in> set (reg_imported (load_collectors_for names s))"
    using load_collectors_ok[OF assms(1), of names] assms by auto
  then show ?thesis using module_class_valid[OF assms(3)]
    by (auto simp: get_collector_def registry_ok_def)
qed

text \<open>
  After the collectors of the enabled metrics are loaded into an empty registry, looking up
  any supported collector among them gives the class its own module registers, and no other name
  is registered.
\<close>

theorem load_collectors_resolves:
  "get_collector (load_collectors_for names empty_registry) n =
    (if n \<in> set names \<and> n \<in> set VALID_COLLECTORS
     then Inr (snd (the (module_class n))) else Inl KeyError)"
proof -
  let ?s = "load_collectors_for names empty_registry"
  have "registry_ok ?s" and "set (reg_imported ?s) = set names \<inter> set VALID_COLLECTORS"
    using load_collectors_ok[OF registry_ok_empty, of names] by (auto simp: empty_registry_def)
  then show ?thesis using module_class_valid[of n]
    by (auto simp: get_collector_def registry_ok_def)
qed

end
