(* ===== verification/Router.thy ===== *)
theory Router
  imports Models
begin

section \<open>Result routing (\<open>result_router.py\<close>)\<close>

text \<open>
  One pass over the results that drops what cannot be sent and splits the rest by delivery. The
  loop is kept as a loop over two accumulators; the lemmas give its result as two filters.
\<close>

fun route_loop ::
  "metric_result list \<Rightarrow> metric_result list \<Rightarrow> metric_result list
     \<Rightarrow> metric_result list \<times> metric_result list" where
  "route_loop [] batch immediate = (batch, immediate)"
| "route_loop (r # rs) batch immediate =
     (if \<not> is_sendable r then route_loop rs batch immediate
      else if r_delivery r = DELIVERY_IMMEDIATE then route_loop rs batch (immediate @ [r])
      else route_loop rs (batch @ [r]) immediate)"

definition route :: "metric_result list \<Rightarrow> metric_result list \<times> metric_result list" where
  "route results = route_loop results [] []"

definition goes_immediate :: "metric_result \<Rightarrow> bool" where
  "goes_immediate r \<longleftrightarrow> is_sendable r \<and> r_delivery r = DELIVERY_IMMEDIATE"

definition goes_batch :: "metric_result \<Rightarrow> bool" where
  "goes_batch r \<longleftrightarrow> is_sendable r \<and> r_delivery r \<noteq> DELIVERY_IMMEDIATE"

lemma route_loop_filter:
  "route_loop rs b i = (b @ filter goes_batch rs, i @ filter goes_immediate rs)"
  by (induction rs arbitrary: b i) (auto simp: goes_batch_def goes_immediate_def)

lemma route_filter: "route rs = (filter goes_batch rs, filter goes_immediate rs)"
  by (simp add: route_def route_loop_filter)

lemma route_append:
  "route (rs @ ss) = (fst (route rs) @ fst (route ss), snd (route rs) @ snd (route ss))"
  by (simp add: route_filter)

lemma route_lengths:
  "length (fst (route rs)) + length (snd (route rs)) = length (filter is_sendable rs)"
  by (induction rs) (auto simp: route_filter goes_batch_def goes_immediate_def)

text \<open>
  routing splits the results into two lists in their original order: every sendable result
  (status ok or fallback, with a value) is in exactly one of them, the immediate list when its
  delivery is immediate and the batch list otherwise, and nothing unsendable is in either.
\<close>

theorem route_partitions:
  "fst (route rs) = filter (\<lambda>r. is_sendable r \<and> r_delivery r \<noteq> DELIVERY_IMMEDIATE) rs
   \<and> snd (route rs) = filter (\<lambda>r. is_sendable r \<and> r_delivery r = DELIVERY_IMMEDIATE) rs
   \<and> length (fst (route rs)) + length (snd (route rs)) = length (filter is_sendable rs)"
  using route_lengths[of rs]
  by (simp add: route_filter goes_batch_def[abs_def] goes_immediate_def[abs_def])

end
