(* ===== verification/Runner.thy ===== *)
theory Runner
  imports Registry Router
begin

section \<open>Collector runner (\<open>runner.py\<close>)\<close>

text \<open>
  The asyncio runner. What a collector returns or raises, how long it takes, and which batch
  tasks are unfinished when the collection window closes come from outside; they are the fields
  of a \<open>run_env\<close>. A collector that exceeds its own timeout is a \<open>collect\<close> that raises
  \<open>TimeoutError\<close>, as \<open>asyncio.wait_for\<close> makes it. This theory is what the runner computes from
  the outcomes of the tasks; the event loop itself, in which the semaphore lets queued tasks run,
  is the step relation of theory \<open>EventLoop\<close>.
\<close>

datatype collected = One metric_result | Many "metric_result list"

record run_env =
  env_collect :: "collector_cls \<Rightarrow> metric_def \<Rightarrow> collected res"
  env_now :: int
  env_elapsed :: "metric_def \<Rightarrow> pyfloat"
  env_pending :: "metric_def \<Rightarrow> bool"
  env_unwinding :: "metric_def \<Rightarrow> bool"
  env_registry :: registry_state

subsection \<open>Error policy\<close>

definition skip_result :: "metric_result \<Rightarrow> metric_result" where
  "skip_result r = r\<lparr>r_status := RESULT_SKIPPED, r_value := None\<rparr>"

definition apply_error_policy :: "metric_result \<Rightarrow> metric_def \<Rightarrow> int \<Rightarrow> metric_result" where
  "apply_error_policy raw m now =
     (if r_status raw \<notin> {RESULT_FAILED, RESULT_TIMEOUT} then raw
      else if m_error_policy m = ERROR_POLICY_SKIP then skip_result raw
      else if m_error_policy m = ERROR_POLICY_FALLBACK then
        (if m_fallback_value m \<noteq> None then make_fallback m now (r_duration raw)
         else skip_result raw)
      else raw)"

subsection \<open>One task\<close>

definition inject_params :: "client_config \<Rightarrow> metric_def \<Rightarrow> metric_def" where
  "inject_params cfg m = (let
     m1 = (if dget (m_params m) ''proc_root'' = None
           then m\<lparr>m_params := dset (m_params m) ''proc_root'' (VStr (rt_proc_root (cfg_runtime cfg)))\<rparr>
           else m)
   in if m_collector m1 = ''log'' \<and> dget (m_params m1) ''state_dir'' = None
      then m1\<lparr>m_params := dset (m_params m1) ''state_dir'' (VStr (st_directory (cfg_state cfg)))\<rparr>
      else m1)"

definition set_duration :: "pyfloat \<Rightarrow> metric_result \<Rightarrow> metric_result" where
  "set_duration d r = r\<lparr>r_duration := d\<rparr>"

definition run_one :: "run_env \<Rightarrow> client_config \<Rightarrow> metric_def \<Rightarrow> metric_result list res" where
  "run_one env cfg m0 = (let m = inject_params cfg m0 in
     rbind (get_collector (env_registry env) (m_collector m)) (\<lambda>cls.
     let duration = env_elapsed env m; now = env_now env in
     case env_collect env cls m of
       Inr (Many rs) \<Rightarrow> Inr (map (set_duration duration) rs)
     | Inr (One r) \<Rightarrow> Inr [set_duration duration r]
     | Inl TimeoutError \<Rightarrow> Inr [apply_error_policy (make_timeout m now duration) m now]
     | Inl exc \<Rightarrow> if is_exception exc
         then Inr [apply_error_policy (make_error m exc now duration) m now] else Inl exc))"

subsection \<open>All tasks\<close>

text \<open>\<open>await asyncio.gather(tasks)\<close> without \<open>return_exceptions\<close>, then the groups joined.\<close>

definition gather :: "metric_result list res list \<Rightarrow> metric_result list res" where
  "gather ts = rbind (rmapM (\<lambda>t. t) ts) (\<lambda>groups. Inr (concat groups))"

text \<open>
  A batch task when the window closes: done with its outcome, or still pending. When
  \<open>asyncio.wait_for\<close> times out it cancels the gather, which cancels every pending task, and it
  raises \<open>TimeoutError\<close> only once the gather has ended, that is once a first cancelled task has
  ended with \<open>CancelledError\<close> as its outcome. A cancelled task that needs more turns of the event
  loop to end is still not done then (\<open>env_unwinding\<close>).
\<close>

datatype batch_task = Done "metric_result list res" | Pending

fun cancel_task :: "bool \<Rightarrow> batch_task \<Rightarrow> batch_task" where
  "cancel_task unwinding (Done r) = Done r"
| "cancel_task unwinding Pending = (if unwinding then Pending else Done (Inl CancelledError))"

text \<open>The loop over \<open>zip(batch_metrics, batch_tasks)\<close> in the \<open>except asyncio.TimeoutError\<close> branch.\<close>

fun collect_after_window ::
  "int \<Rightarrow> pyfloat \<Rightarrow> (metric_def \<times> batch_task) list \<Rightarrow> metric_result list
     \<Rightarrow> metric_result list res" where
  "collect_after_window now window [] acc = Inr acc"
| "collect_after_window now window ((m, Done (Inr rs)) # ts) acc =
     collect_after_window now window ts (acc @ rs)"
| "collect_after_window now window ((m, Done (Inl exc)) # ts) acc =
     (if is_exception exc
      then collect_after_window now window ts
             (acc @ [apply_error_policy (make_error m exc now (Fin 0)) m now])
      else Inl exc)"
| "collect_after_window now window ((m, Pending) # ts) acc =
     collect_after_window now window ts
       (acc @ [apply_error_policy (make_timeout m now (f_mul window (Fin 1000))) m now])"

definition batch_outcome :: "run_env \<Rightarrow> client_config \<Rightarrow> metric_def \<Rightarrow> batch_task" where
  "batch_outcome env cfg m = (if env_pending env m then Pending else Done (run_one env cfg m))"

definition task_failed :: "batch_task \<Rightarrow> bool" where
  "task_failed t = (case t of Done (Inl e) \<Rightarrow> True | _ \<Rightarrow> False)"

definition run_batch :: "run_env \<Rightarrow> client_config \<Rightarrow> metric_def list \<Rightarrow> metric_result list res" where
  "run_batch env cfg ms = (let ts = map (batch_outcome env cfg) ms in
     if ms = [] then Inr []
     else if (\<exists>t \<in> set ts. task_failed t) \<or> Pending \<notin> set ts
       then gather (map (run_one env cfg) (filter (\<lambda>m. \<not> env_pending env m) ms))
     else collect_after_window (env_now env) (b_window (cfg_batching cfg))
            (map (\<lambda>m. (m, cancel_task (env_unwinding env m) (batch_outcome env cfg m))) ms) [])"

definition run_all_collectors ::
  "run_env \<Rightarrow> metric_def list \<Rightarrow> client_config \<Rightarrow> (metric_result list \<times> metric_result list) res"
  where
  "run_all_collectors env metrics cfg = (let
     immediate_metrics = filter (\<lambda>m. m_delivery m = ''immediate'') metrics;
     batch_metrics = filter (\<lambda>m. m_delivery m = ''batch'') metrics
   in rbind (gather (map (run_one env cfg) immediate_metrics)) (\<lambda>immediate_results.
      rbind (run_batch env cfg batch_metrics) (\<lambda>batch_results.
      Inr (immediate_results, batch_results))))"

subsection \<open>Summary\<close>

definition count_result :: "run_summary \<Rightarrow> metric_result \<Rightarrow> run_summary" where
  "count_result s r =
     (if r_status r = RESULT_FAILED then s\<lparr>s_collected_failed := s_collected_failed s + 1\<rparr>
      else if r_status r = RESULT_TIMEOUT then s\<lparr>s_collected_timeout := s_collected_timeout s + 1\<rparr>
      else if r_status r = RESULT_SKIPPED then s\<lparr>s_skipped := s_skipped s + 1\<rparr>
      else s\<lparr>s_collected_ok := s_collected_ok s + 1\<rparr>)"

definition update_summary ::
  "run_summary \<Rightarrow> metric_result list \<Rightarrow> metric_result list \<Rightarrow> run_summary" where
  "update_summary s immediate_results batch_results =
     foldl count_result s (immediate_results @ batch_results)"

definition count_status :: "string \<Rightarrow> metric_result list \<Rightarrow> int" where
  "count_status st rs = int (length (filter (\<lambda>r. r_status r = st) rs))"

lemma count_status_append [simp]: "count_status st (rs @ ss) = count_status st rs + count_status st ss"
  by (simp add: count_status_def)

lemma foldl_count_result:
  "foldl count_result s rs = s\<lparr>
     s_collected_failed := s_collected_failed s + count_status RESULT_FAILED rs,
     s_collected_timeout := s_collected_timeout s + count_status RESULT_TIMEOUT rs,
     s_skipped := s_skipped s + count_status RESULT_SKIPPED rs,
     s_collected_ok := s_collected_ok s + (int (length rs) - count_status RESULT_FAILED rs
        - count_status RESULT_TIMEOUT rs - count_status RESULT_SKIPPED rs)\<rparr>"
proof (induction rs arbitrary: s)
  case Nil
  then show ?case by (simp add: count_status_def)
next
  case (Cons r rs)
  show ?case
    by (simp add: Cons.IH) (simp add: count_result_def count_status_def result_defs)
qed

subsection \<open>What a task returns\<close>

lemma inject_params_fields [simp]:
  "m_id (inject_params cfg m) = m_id m" "m_key (inject_params cfg m) = m_key m"
  "m_collector (inject_params cfg m) = m_collector m"
  "m_delivery (inject_params cfg m) = m_delivery m"
  "m_error_policy (inject_params cfg m) = m_error_policy m"
  "m_fallback_value (inject_params cfg m) = m_fallback_value m"
  "m_host_name (inject_params cfg m) = m_host_name m"
  by (simp_all add: inject_params_def Let_def)

lemma inject_params_keeps:
  "dget (m_params m) k = Some v \<Longrightarrow> dget (m_params (inject_params cfg m)) k = Some v"
  by (auto simp: inject_params_def Let_def dget_def dset_def map_of_adict_set)

lemma apply_error_policy_sendable:
  assumes "r_status raw \<in> {RESULT_FAILED, RESULT_TIMEOUT}"
  shows "is_sendable (apply_error_policy raw m now) \<longleftrightarrow>
    m_error_policy m = ERROR_POLICY_FALLBACK \<and> m_fallback_value m \<noteq> None"
  using assms
  by (auto simp: apply_error_policy_def skip_result_def is_sendable_def result_defs policy_defs)

lemma apply_error_policy_key:
  "r_key raw = m_key m \<Longrightarrow> r_key (apply_error_policy raw m now) = m_key m"
  by (simp add: apply_error_policy_def skip_result_def)

lemma apply_error_policy_delivery:
  "r_delivery raw = m_delivery m \<Longrightarrow> r_delivery (apply_error_policy raw m now) = m_delivery m"
  by (simp add: apply_error_policy_def skip_result_def)

lemma run_one_raise:
  assumes "get_collector (env_registry env) (m_collector m) = Inr cls"
    and "env_collect env cls (inject_params cfg m) = Inl exc" and "is_exception exc"
  shows "\<exists>r. run_one env cfg m = Inr [r] \<and> r_key r = m_key m \<and> r_delivery r = m_delivery m
    \<and> (is_sendable r \<longleftrightarrow> m_error_policy m = ERROR_POLICY_FALLBACK \<and> m_fallback_value m \<noteq> None)"
proof -
  let ?m = "inject_params cfg m"
  let ?raw = "if exc = TimeoutError then make_timeout ?m (env_now env) (env_elapsed env ?m)
              else make_error ?m exc (env_now env) (env_elapsed env ?m)"
  let ?r = "apply_error_policy ?raw ?m (env_now env)"
  have "run_one env cfg m = Inr [?r]"
    using assms by (cases exc) (simp_all add: run_one_def Let_def)
  moreover have "r_status ?raw \<in> {RESULT_FAILED, RESULT_TIMEOUT}" by simp
  then have "is_sendable ?r \<longleftrightarrow>
      m_error_policy m = ERROR_POLICY_FALLBACK \<and> m_fallback_value m \<noteq> None"
    using apply_error_policy_sendable[of ?raw ?m] by (simp del: if_split)
  moreover have "r_key ?r = m_key m" using apply_error_policy_key[of ?raw ?m] by simp
  moreover have "r_delivery ?r = m_delivery m"
    using apply_error_policy_delivery[of ?raw ?m] by simp
  ultimately show ?thesis by blast
qed

text \<open>The only exceptions that leave a task: an unknown collector, and its own cancellation.\<close>

lemma run_one_Inl:
  assumes "run_one env cfg m = Inl e"
  shows "get_collector (env_registry env) (m_collector m) = Inl e \<or> e = CancelledError"
  using assms
  by (auto simp: run_one_def Let_def is_exception_def rbind_def
      split: sum.splits collected.splits exn.splits if_splits)

definition collects_normally :: "run_env \<Rightarrow> client_config \<Rightarrow> metric_def \<Rightarrow> bool" where
  "collects_normally env cfg m \<longleftrightarrow> (\<exists>cls. get_collector (env_registry env) (m_collector m) = Inr cls
     \<and> env_collect env cls (inject_params cfg m) \<noteq> Inl CancelledError)"

lemma run_one_returns: "collects_normally env cfg m \<Longrightarrow> \<exists>rs. run_one env cfg m = Inr rs"
proof -
  assume n: "collects_normally env cfg m"
  then obtain cls where c: "get_collector (env_registry env) (m_collector m) = Inr cls"
    "env_collect env cls (inject_params cfg m) \<noteq> Inl CancelledError"
    by (auto simp: collects_normally_def)
  show ?thesis
  proof (cases "env_collect env cls (inject_params cfg m)")
    case (Inl exc)
    then have "is_exception exc" using c by (auto simp: is_exception_def)
    then show ?thesis using run_one_raise[OF c(1) Inl] by blast
  next
    case (Inr r)
    then show ?thesis using c by (cases r) (auto simp: run_one_def Let_def)
  qed
qed

lemma gather_map_returns:
  assumes "\<And>m. m \<in> set ms \<Longrightarrow> \<exists>rs. f m = Inr rs"
  shows "gather (map f ms) = Inr (concat (map (\<lambda>m. projr (f m)) ms))"
proof -
  have "rmapM (\<lambda>t. t) (map f ms) = Inr (map (\<lambda>m. projr (f m)) ms)"
    using assms
  proof (induction ms)
    case (Cons m ms)
    then obtain rs where "f m = Inr rs" by (meson list.set_intros(1))
    with Cons show ?case by simp
  qed simp
  then show ?thesis by (simp add: gather_def)
qed

lemma run_batch_no_window:
  assumes "\<And>m. m \<in> set ms \<Longrightarrow> collects_normally env cfg m \<and> \<not> env_pending env m"
  shows "run_batch env cfg ms = Inr (concat (map (\<lambda>m. projr (run_one env cfg m)) ms))"
proof -
  have f: "filter (\<lambda>m. \<not> env_pending env m) ms = ms" using assms by simp
  have "Pending \<notin> set (map (batch_outcome env cfg) ms)"
    using assms by (auto simp: batch_outcome_def)
  then show ?thesis
    using gather_map_returns[of ms "run_one env cfg"] run_one_returns assms f
    by (auto simp: run_batch_def Let_def)
qed

lemma collect_after_window_cancelled:
  assumes "\<And>m t. (m, t) \<in> set ts \<Longrightarrow>
      (\<exists>rs. t = Done (Inr rs)) \<or> t = Done (Inl CancelledError) \<or> t = Pending"
    and "\<exists>m. (m, Done (Inl CancelledError)) \<in> set ts"
  shows "collect_after_window now window ts acc = Inl CancelledError"
  using assms
proof (induction ts arbitrary: acc)
  case Nil
  then show ?case by simp
next
  case (Cons p ts)
  obtain m t where p: "p = (m, t)" by (cases p)
  have IH: "collect_after_window now window ts acc' = Inl CancelledError"
    if "t \<noteq> Done (Inl CancelledError)" for acc'
    using that Cons.prems p by (intro Cons.IH) auto
  from Cons.prems(1)[of m t] p consider (ok) rs where "t = Done (Inr rs)"
    | (cancelled) "t = Done (Inl CancelledError)" | (pending) "t = Pending" by auto
  then show ?case by cases (simp_all add: p IH is_exception_def)
qed

lemma run_batch_window:
  assumes "\<And>m. m \<in> set ms \<Longrightarrow> collects_normally env cfg m"
    and "\<exists>m \<in> set ms. env_pending env m \<and> \<not> env_unwinding env m"
  shows "run_batch env cfg ms = Inl CancelledError"
proof -
  let ?ts = "map (batch_outcome env cfg) ms"
  let ?zs = "map (\<lambda>m. (m, cancel_task (env_unwinding env m) (batch_outcome env cfg m))) ms"
  have nf: "\<not> task_failed t" if "t \<in> set ?ts" for t
    using that run_one_returns[OF assms(1)]
    by (fastforce simp: batch_outcome_def task_failed_def)
  have pend: "Pending \<in> set ?ts" using assms(2) by (force simp: batch_outcome_def)
  have "ms \<noteq> []" using assms(2) by auto
  have "collect_after_window (env_now env) (b_window (cfg_batching cfg)) ?zs [] = Inl CancelledError"
  proof (rule collect_after_window_cancelled)
    fix m t
    assume "(m, t) \<in> set ?zs"
    then have m: "m \<in> set ms"
      and t: "t = cancel_task (env_unwinding env m) (batch_outcome env cfg m)" by auto
    show "(\<exists>rs. t = Done (Inr rs)) \<or> t = Done (Inl CancelledError) \<or> t = Pending"
      using run_one_returns[OF assms(1)[OF m]] by (auto simp: t batch_outcome_def)
  next
    show "\<exists>m. (m, Done (Inl CancelledError)) \<in> set ?zs"
      using assms(2) by (force simp: batch_outcome_def image_iff)
  qed
  then show ?thesis using nf pend \<open>ms \<noteq> []\<close> by (auto simp: run_batch_def Let_def)
qed

lemma collects_all:
  assumes "\<forall>m \<in> set metrics. collects_normally env cfg m \<and> \<not> env_pending env m"
  shows "run_all_collectors env metrics cfg = Inr
     (concat (map (\<lambda>m. projr (run_one env cfg m)) (filter (\<lambda>m. m_delivery m = ''immediate'') metrics)),
      concat (map (\<lambda>m. projr (run_one env cfg m)) (filter (\<lambda>m. m_delivery m = ''batch'') metrics)))"
proof -
  let ?i = "filter (\<lambda>m. m_delivery m = ''immediate'') metrics"
  let ?b = "filter (\<lambda>m. m_delivery m = ''batch'') metrics"
  have "gather (map (run_one env cfg) ?i) = Inr (concat (map (\<lambda>m. projr (run_one env cfg m)) ?i))"
    using assms by (intro gather_map_returns run_one_returns) auto
  moreover have "run_batch env cfg ?b = Inr (concat (map (\<lambda>m. projr (run_one env cfg m)) ?b))"
    using assms by (intro run_batch_no_window) auto
  ultimately show ?thesis by (simp add: run_all_collectors_def Let_def)
qed

subsection \<open>Properties\<close>

text \<open>An example: two collectors registered, one of which fails.\<close>

definition two_metrics :: "metric_def list" where
  "two_metrics = [(example_metric ''load'' ''cpu'')\<lparr>m_delivery := ''immediate''\<rparr>,
     (example_metric ''root'' ''disk'')\<lparr>m_error_policy := ''fallback'', m_fallback_value := Some ''0''\<rparr>]"

definition two_registry :: registry_state where
  "two_registry = load_collectors_for [''cpu'', ''disk''] empty_registry"

definition two_env :: run_env where
  "two_env = \<lparr>env_collect = (\<lambda>c m. if c = CpuCollector
       then Inr (One (ok_result m ''cpu'' ''0.5'' '''' 0 (Fin 0))) else Inl FileNotFoundError),
     env_now = 0, env_elapsed = (\<lambda>m. Fin 1), env_pending = (\<lambda>m. False),
     env_unwinding = (\<lambda>m. False),
     env_registry = two_registry\<rparr>"

lemma two_registry_get:
  "get_collector two_registry ''cpu'' = Inr CpuCollector"
  "get_collector two_registry ''disk'' = Inr DiskCollector"
  using get_collector_loaded[OF registry_ok_empty, of "''cpu''" "[''cpu'', ''disk'']"]
    get_collector_loaded[OF registry_ok_empty, of "''disk''" "[''cpu'', ''disk'']"]
  by (simp_all add: two_registry_def VALID_COLLECTORS_def module_class_def
      del: load_collectors_for.simps)

lemma two_collectors: "m_collector (hd two_metrics) = ''cpu''" "m_collector (last two_metrics) = ''disk''"
  by (simp_all add: two_metrics_def example_metric_def)

lemma two_normal: "m \<in> set two_metrics \<Longrightarrow> collects_normally two_env cfg m"
proof -
  have collect: "env_collect two_env c m' \<noteq> Inl CancelledError" for c m'
    by (simp add: two_env_def)
  have registry: "env_registry two_env = two_registry" by (simp add: two_env_def)
  assume "m \<in> set two_metrics"
  then have "m = hd two_metrics \<or> m = last two_metrics" by (auto simp: two_metrics_def)
  then have "\<exists>cls. get_collector two_registry (m_collector m) = Inr cls"
    using two_registry_get two_collectors by metis
  then show "collects_normally two_env cfg m"
    using collect by (simp add: collects_normally_def registry)
qed

text \<open>
  C4: when every collector is registered, none is cancelled and the batch window is not exceeded,
  the run returns, and its two lists are the results of the tasks one by one: what one collector
  raises or returns has no effect on the results of the others. A task whose collector raises gives
  exactly one result, under the metric's own key and delivery, and that result is sendable exactly
  when the metric's error policy is fallback and a fallback value is configured.
\<close>

theorem collectors_are_isolated:
  assumes "\<forall>m \<in> set metrics. collects_normally env cfg m \<and> \<not> env_pending env m"
  shows "run_all_collectors env metrics cfg = Inr
     (concat (map (\<lambda>m. projr (run_one env cfg m)) (filter (\<lambda>m. m_delivery m = ''immediate'') metrics)),
      concat (map (\<lambda>m. projr (run_one env cfg m)) (filter (\<lambda>m. m_delivery m = ''batch'') metrics)))
   \<and> (\<forall>m \<in> set metrics. \<forall>cls exc. get_collector (env_registry env) (m_collector m) = Inr cls
        \<longrightarrow> env_collect env cls (inject_params cfg m) = Inl exc
        \<longrightarrow> (\<exists>r. run_one env cfg m = Inr [r] \<and> r_key r = m_key m \<and> r_delivery r = m_delivery m
              \<and> (is_sendable r \<longleftrightarrow> m_error_policy m = ERROR_POLICY_FALLBACK
                    \<and> m_fallback_value m \<noteq> None)))"
proof (intro conjI collects_all[OF assms] ballI allI impI)
  fix m cls exc
  assume m: "m \<in> set metrics" and g: "get_collector (env_registry env) (m_collector m) = Inr cls"
    and c: "env_collect env cls (inject_params cfg m) = Inl exc"
  then have "is_exception exc" using assms by (auto simp: collects_normally_def is_exception_def)
  then show "\<exists>r. run_one env cfg m = Inr [r] \<and> r_key r = m_key m \<and> r_delivery r = m_delivery m
      \<and> (is_sendable r \<longleftrightarrow> m_error_policy m = ERROR_POLICY_FALLBACK \<and> m_fallback_value m \<noteq> None)"
    using run_one_raise[OF g c] by blast
qed

theorem collectors_are_isolated_witness:
  "\<exists>rs ss. run_all_collectors two_env two_metrics default_client_config = Inr (rs, ss)"
  using collectors_are_isolated[of two_metrics two_env default_client_config] two_normal
  by (auto simp: two_env_def)

text \<open>
  C18: when the batch collection window closes while a batch task is unfinished, the run does not
  record the unfinished metrics as timed out: reading the outcome of a cancelled task raises
  \<open>CancelledError\<close>, which \<open>except Exception\<close> does not catch, so the whole collection ends with
  that error and every result is lost.
\<close>

theorem window_expiry_loses_run:
  assumes "\<forall>m \<in> set metrics. collects_normally env cfg m"
    and "\<exists>m \<in> set metrics. m_delivery m = ''batch'' \<and> env_pending env m \<and> \<not> env_unwinding env m"
  shows "run_all_collectors env metrics cfg = Inl CancelledError"
proof -
  let ?i = "filter (\<lambda>m. m_delivery m = ''immediate'') metrics"
  have "gather (map (run_one env cfg) ?i) = Inr (concat (map (\<lambda>m. projr (run_one env cfg m)) ?i))"
    using assms by (intro gather_map_returns run_one_returns) auto
  moreover have "run_batch env cfg (filter (\<lambda>m. m_delivery m = ''batch'') metrics) = Inl CancelledError"
    using assms by (intro run_batch_window) auto
  ultimately show ?thesis by (simp add: run_all_collectors_def Let_def)
qed

theorem window_expiry_loses_run_witness:
  "run_all_collectors (two_env\<lparr>env_pending := (\<lambda>m. m_collector m = ''disk'')\<rparr>) two_metrics
     default_client_config = Inl CancelledError"
proof (rule window_expiry_loses_run)
  show "\<forall>m \<in> set two_metrics. collects_normally
      (two_env\<lparr>env_pending := (\<lambda>m. m_collector m = ''disk'')\<rparr>) default_client_config m"
    using two_normal by (auto simp: collects_normally_def)
  show "\<exists>m \<in> set two_metrics. m_delivery m = ''batch''
      \<and> env_pending (two_env\<lparr>env_pending := (\<lambda>m. m_collector m = ''disk'')\<rparr>) m
      \<and> \<not> env_unwinding (two_env\<lparr>env_pending := (\<lambda>m. m_collector m = ''disk'')\<rparr>) m"
    by (simp add: two_metrics_def two_env_def example_metric_def DELIVERY_BATCH_def)
qed

text \<open>
  every result is counted exactly once in the run summary, under its status: failed, timeout
  and skipped results in their own counter, all others as collected.
\<close>

theorem summary_counts_results:
  "let t = update_summary s is bs; rs = is @ bs in
     s_collected_failed t = s_collected_failed s + count_status RESULT_FAILED rs
   \<and> s_collected_timeout t = s_collected_timeout s + count_status RESULT_TIMEOUT rs
   \<and> s_skipped t = s_skipped s + count_status RESULT_SKIPPED rs
   \<and> s_collected_ok t + s_collected_failed t + s_collected_timeout t + s_skipped t
       = s_collected_ok s + s_collected_failed s + s_collected_timeout s + s_skipped s
         + int (length rs)"
  by (simp add: update_summary_def foldl_count_result Let_def)

end
