(* ===== verification/EventLoop.thy ===== *)
theory EventLoop
  imports Models
begin

section \<open>The event loop and the semaphore of the runner (\<open>runner.py\<close>)\<close>

text \<open>
  Every metric is a task numbered below \<open>n\<close>, created at once and queued behind
  \<open>asyncio.Semaphore(max_concurrency)\<close>. A task that enters the \<open>async with\<close> block takes one permit,
  and gives it back when it leaves the block, whether it returns or is cancelled; a queued task
  may be cancelled before it got a permit. Which task moves next is up to the event loop.
\<close>

record loop_state =
  ls_waiting :: "nat set"
  ls_running :: "nat set"
  ls_finished :: "nat set"
  ls_permits :: int

definition loop_init :: "nat \<Rightarrow> int \<Rightarrow> loop_state" where
  "loop_init n mx = \<lparr>ls_waiting = {..<n}, ls_running = {}, ls_finished = {}, ls_permits = mx\<rparr>"

inductive loop_step :: "loop_state \<Rightarrow> loop_state \<Rightarrow> bool" where
  acquire: "i \<in> ls_waiting s \<Longrightarrow> 0 < ls_permits s \<Longrightarrow>
     loop_step s (s\<lparr>ls_waiting := ls_waiting s - {i}, ls_running := insert i (ls_running s),
                     ls_permits := ls_permits s - 1\<rparr>)"
| leave: "i \<in> ls_running s \<Longrightarrow>
     loop_step s (s\<lparr>ls_running := ls_running s - {i}, ls_finished := insert i (ls_finished s),
                     ls_permits := ls_permits s + 1\<rparr>)"
| cancel: "i \<in> ls_waiting s \<Longrightarrow>
     loop_step s (s\<lparr>ls_waiting := ls_waiting s - {i}, ls_finished := insert i (ls_finished s)\<rparr>)"

inductive loop_reachable :: "nat \<Rightarrow> int \<Rightarrow> loop_state \<Rightarrow> bool" for n mx where
  start: "loop_reachable n mx (loop_init n mx)"
| step: "loop_reachable n mx s \<Longrightarrow> loop_step s t \<Longrightarrow> loop_reachable n mx t"

inductive_simps loop_step_iff: "loop_step s t"

definition loop_inv :: "nat \<Rightarrow> int \<Rightarrow> loop_state \<Rightarrow> bool" where
  "loop_inv n mx s \<longleftrightarrow>
     ls_waiting s \<union> ls_running s \<union> ls_finished s = {..<n}
     \<and> ls_waiting s \<inter> ls_running s = {} \<and> ls_waiting s \<inter> ls_finished s = {}
     \<and> ls_running s \<inter> ls_finished s = {}
     \<and> ls_permits s + int (card (ls_running s)) = mx \<and> 0 \<le> ls_permits s"

lemma loop_inv_finite:
  assumes "loop_inv n mx s"
  shows "finite (ls_waiting s)" "finite (ls_running s)" "finite (ls_finished s)"
proof -
  have "finite (ls_waiting s \<union> ls_running s \<union> ls_finished s)"
    using assms by (simp add: loop_inv_def)
  then show "finite (ls_waiting s)" "finite (ls_running s)" "finite (ls_finished s)" by simp_all
qed

lemma loop_inv_init: "0 \<le> mx \<Longrightarrow> loop_inv n mx (loop_init n mx)"
  by (simp add: loop_inv_def loop_init_def)

lemma loop_inv_step:
  assumes "loop_step s t" and inv: "loop_inv n mx s"
  shows "loop_inv n mx t"
  using assms(1)
proof cases
  case (acquire i)
  then have "i \<notin> ls_running s" using inv by (auto simp: loop_inv_def)
  then show ?thesis using acquire inv loop_inv_finite[OF inv] by (auto simp: loop_inv_def)
next
  case (leave i)
  have "card (ls_running s - {i}) = card (ls_running s) - 1" and "0 < card (ls_running s)"
    using leave loop_inv_finite[OF inv] by (auto simp: card_gt_0_iff)
  then have "ls_permits s + 1 + int (card (ls_running s - {i})) = mx"
    using inv by (simp add: loop_inv_def)
  then show ?thesis using leave inv by (auto simp: loop_inv_def)
next
  case (cancel i)
  then show ?thesis using inv by (auto simp: loop_inv_def)
qed

lemma loop_reachable_inv: "loop_reachable n mx s \<Longrightarrow> 0 \<le> mx \<Longrightarrow> loop_inv n mx s"
  by (induction rule: loop_reachable.induct) (auto intro: loop_inv_init loop_inv_step)

text \<open>Work left: two steps for a queued task, one for a running one.\<close>

definition loop_work :: "loop_state \<Rightarrow> nat" where
  "loop_work s = 2 * card (ls_waiting s) + card (ls_running s)"

lemma loop_work_decreases:
  assumes "loop_step s t" and inv: "loop_inv n mx s"
  shows "loop_work t < loop_work s"
  using assms(1)
proof cases
  case (acquire i)
  then have "i \<notin> ls_running s" using inv by (auto simp: loop_inv_def)
  moreover have "0 < card (ls_waiting s)"
    using acquire loop_inv_finite[OF inv] by (auto simp: card_gt_0_iff)
  ultimately show ?thesis using acquire loop_inv_finite[OF inv] by (simp add: loop_work_def)
next
  case (leave i)
  then have "0 < card (ls_running s)" using loop_inv_finite[OF inv] by (auto simp: card_gt_0_iff)
  then show ?thesis using leave loop_inv_finite[OF inv] by (simp add: loop_work_def)
next
  case (cancel i)
  then have "0 < card (ls_waiting s)" using loop_inv_finite[OF inv] by (auto simp: card_gt_0_iff)
  then show ?thesis using cancel loop_inv_finite[OF inv] by (simp add: loop_work_def)
qed

lemma loop_progress:
  assumes "loop_inv n mx s" and "1 \<le> mx" and "ls_finished s \<noteq> {..<n}"
  shows "\<exists>t. loop_step s t"
proof (cases "ls_running s = {}")
  case True
  then have "ls_waiting s \<noteq> {}" using assms by (auto simp: loop_inv_def)
  then show ?thesis by (auto intro: loop_step.cancel)
next
  case False
  then show ?thesis by (auto intro: loop_step.leave)
qed

text \<open>Without any cancellation the queue still moves: a free permit or a running task exists.\<close>

lemma loop_progress_without_cancel:
  assumes "loop_inv n mx s" and "1 \<le> mx" and "ls_finished s \<noteq> {..<n}"
  shows "(\<exists>i \<in> ls_waiting s. 0 < ls_permits s) \<or> ls_running s \<noteq> {}"
  using assms by (auto simp: loop_inv_def)

text \<open>A run of the loop: from any reachable state at most \<open>2n\<close> steps follow.\<close>

fun loop_run :: "loop_state \<Rightarrow> loop_state list \<Rightarrow> bool" where
  "loop_run s [] = True"
| "loop_run s (t # ts) = (loop_step s t \<and> loop_run t ts)"

lemma loop_run_length:
  "loop_run s ts \<Longrightarrow> loop_inv n mx s \<Longrightarrow> length ts \<le> loop_work s"
proof (induction ts arbitrary: s)
  case Nil
  then show ?case by simp
next
  case (Cons t ts)
  then have "loop_inv n mx t" and "loop_work t < loop_work s"
    by (auto intro: loop_inv_step loop_work_decreases)
  moreover have "length ts \<le> loop_work t" using Cons calculation by simp
  ultimately show ?case by simp
qed



end
