(* ===== verification/Sender.thy ===== *)
theory Sender
  imports Models
begin

section \<open>Sending to Zabbix (\<open>sender_manager.py\<close>)\<close>

text \<open>
  The trapper client library is outside: what \<open>Sender(server, port).send(items)\<close> returns or raises
  for each server, and whether one dispatch to the thread pool exceeds the send timeout, are the
  fields of a \<open>send_env\<close>. Every call that reaches the library is recorded in the order it is
  made, so the properties can say which servers were contacted with what. Chunks that the code
  sends in parallel are recorded in chunk order; their counts are added, so the order does not
  matter.
\<close>

record item_value =
  iv_host :: pyval
  iv_key :: pyval
  iv_value :: "string option"

text \<open>
  A library response: the counts, and per node the answers of its chunks, each with the 1-based
  number of the chunk and how many of its items failed.
\<close>

record response =
  rsp_processed :: int
  rsp_failed :: int
  rsp_total :: int
  rsp_details :: "(string \<times> (int \<times> int) list) list"

record send_env =
  se_send :: "string \<Rightarrow> int \<Rightarrow> item_value list \<Rightarrow> response res"
  se_timed_out :: "metric_result list \<Rightarrow> bool"

type_synonym net_call = "string \<times> int \<times> item_value list"

subsection \<open>One blocking send: each server in order, stop at the first that answers\<close>

definition rejected_items :: "response \<Rightarrow> metric_result list \<Rightarrow> metric_result list res" where
  "rejected_items rsp results =
     rmapM (\<lambda>c. py_index results (fst c - 1))
       (filter (\<lambda>c. snd c \<noteq> 0) (concat (map snd (rsp_details rsp))))"

definition items_of :: "client_config \<Rightarrow> metric_result list \<Rightarrow> item_value list" where
  "items_of cfg results = map (\<lambda>r. \<lparr>iv_host = py_or (r_host_name r)
       (VStr (z_host_name (cfg_zabbix cfg))), iv_key = r_key r, iv_value = r_value r\<rparr>) results"

fun try_hosts ::
  "send_env \<Rightarrow> int \<Rightarrow> item_value list \<Rightarrow> metric_result list \<Rightarrow> string list
     \<Rightarrow> (int \<times> int) res \<times> net_call list" where
  "try_hosts env port items results [] = (Inr (0, int (length results)), [])"
| "try_hosts env port items results (host # hosts) =
     (case se_send env host port items of
        Inl exc \<Rightarrow>
          if is_exception exc
          then (let (r, calls) = try_hosts env port items results hosts
                in (r, (host, port, items) # calls))
          else (Inl exc, [(host, port, items)])
      | Inr rsp \<Rightarrow>
          ((if rsp_failed rsp = 0 then Inr (rsp_processed rsp, 0)
            else rbind (rejected_items rsp results) (\<lambda>_. Inr (rsp_processed rsp, rsp_failed rsp))),
           [(host, port, items)]))"

definition do_send ::
  "send_env \<Rightarrow> client_config \<Rightarrow> metric_result list \<Rightarrow> (int \<times> int) res \<times> net_call list" where
  "do_send env cfg results =
     try_hosts env (z_server_port (cfg_zabbix cfg)) (items_of cfg results) results
       (z_server_hosts (cfg_zabbix cfg))"

definition send ::
  "send_env \<Rightarrow> client_config \<Rightarrow> metric_result list \<Rightarrow> (int \<times> int) res \<times> net_call list" where
  "send env cfg results =
     (if rt_dry_run (cfg_runtime cfg) then (Inr (int (length results), 0), [])
      else let (r, calls) = do_send env cfg results in
        (if se_timed_out env results then Inr (0, int (length results))
         else case r of Inr p \<Rightarrow> Inr p
           | Inl exc \<Rightarrow> if is_exception exc then Inr (0, int (length results)) else Inl exc,
         calls))"

subsection \<open>The three kinds of delivery\<close>

text \<open>
  The summary and the calls made so far are the state. \<open>range(0, n, step)\<close> raises for step zero and
  is empty for a negative step.
\<close>

type_synonym send_state = "run_summary \<times> net_call list"

definition py_chunks :: "int \<Rightarrow> 'a list \<Rightarrow> 'a list list res" where
  "py_chunks n xs = (if n = 0 then Inl ValueError
     else if n < 0 then Inr [] else Inr (chunks (nat n) xs))"

definition send_chunk ::
  "send_env \<Rightarrow> client_config \<Rightarrow> metric_result list \<Rightarrow> (exn, send_state, unit) st" where
  "send_chunk env cfg chunk = (\<lambda>(s, calls). case send env cfg chunk of
     (Inl e, cs) \<Rightarrow> (Inl e, (s, calls @ cs))
   | (Inr (sent, failed), cs) \<Rightarrow>
       (Inr (), (s\<lparr>s_sent_batch := s_sent_batch s + sent,
                    s_sender_failures := s_sender_failures s + failed\<rparr>, calls @ cs)))"

definition send_batch ::
  "send_env \<Rightarrow> client_config \<Rightarrow> metric_result list \<Rightarrow> (exn, send_state, unit) st" where
  "send_batch env cfg results =
     (if results = [] then ret ()
      else bindM (lift (py_chunks (b_send_max_size (cfg_batching cfg)) results))
             (\<lambda>cs. forM (send_chunk env cfg) cs))"

definition send_immediate ::
  "send_env \<Rightarrow> client_config \<Rightarrow> metric_result list \<Rightarrow> (exn, send_state, unit) st" where
  "send_immediate env cfg results =
     (if results = [] then ret ()
      else (\<lambda>(s, calls). case send env cfg results of
        (Inl e, cs) \<Rightarrow> (Inl e, (s, calls @ cs))
      | (Inr (sent, failed), cs) \<Rightarrow>
          (Inr (), (s\<lparr>s_sent_immediate := s_sent_immediate s + sent,
                       s_sender_failures := s_sender_failures s + failed\<rparr>, calls @ cs))))"

definition self_result :: "int \<Rightarrow> string \<times> string \<Rightarrow> metric_result" where
  "self_result now kv = \<lparr>
     r_metric_id = VStr (''self_'' @ str_replace ''.'' ''_'' (fst kv)), r_key = VStr (fst kv),
     r_value = Some (snd kv), r_value_type = ''float'', r_timestamp = now, r_collector = ''self'',
     r_delivery = ''batch'', r_status = ''ok'', r_unit = '''', r_tags = [], r_error = None,
     r_source = '''', r_duration = Fin 0, r_host_name = VNone\<rparr>"

definition self_items :: "run_summary \<Rightarrow> (string \<times> string) list res" where
  "self_items s = rbind (py_int (VFloat (s_duration s))) (\<lambda>ms. Inr [
     (''zabbig.client.run.success'', if s_success s then ''1'' else ''0''),
     (''zabbig.client.collectors.total'', str_int (s_enabled s)),
     (''zabbig.client.collectors.failed'',
        str_int (s_collected_failed s + s_collected_timeout s)),
     (''zabbig.client.duration_ms'', str_int ms),
     (''zabbig.client.metrics.sent'', str_int (s_sent_batch s + s_sent_immediate s))])"

text \<open>The counts of the self-metrics send are not added to the summary.\<close>

definition send_self_metrics ::
  "send_env \<Rightarrow> client_config \<Rightarrow> int \<Rightarrow> (exn, send_state, unit) st" where
  "send_self_metrics env cfg now = (\<lambda>(s, calls). case self_items s of
     Inl e \<Rightarrow> (Inl e, (s, calls))
   | Inr kvs \<Rightarrow> (let (r, cs) = send env cfg (map (self_result now) kvs)
       in (rbind r (\<lambda>_. Inr ()), (s, calls @ cs))))"

subsection \<open>Accounting\<close>

text \<open>
  What the code relies on of the library: an answer accounts for every item sent, and the
  library raises exceptions only (no cancellation reaches the worker thread).
\<close>

definition library_accounts :: "send_env \<Rightarrow> bool" where
  "library_accounts env \<longleftrightarrow> (\<forall>h p items rsp. se_send env h p items = Inr rsp \<longrightarrow>
     rsp_processed rsp + rsp_failed rsp = int (length items))
   \<and> (\<forall>h p items e. se_send env h p items = Inl e \<longrightarrow> is_exception e)"

definition counts_failures :: "send_env \<Rightarrow> bool" where
  "counts_failures env \<longleftrightarrow> (\<forall>h p items rsp. se_send env h p items = Inr rsp \<longrightarrow> 0 \<le> rsp_failed rsp)"

lemma rejected_items_Inl: "rejected_items rsp rs = Inl e \<Longrightarrow> is_exception e"
proof -
  have "rmapM (\<lambda>c. py_index rs (fst c - 1)) cs = Inl e \<Longrightarrow> e = IndexError" for cs
    by (induction cs) (auto simp: py_index_def Let_def rbind_def split: if_splits sum.splits)
  then show "rejected_items rsp rs = Inl e \<Longrightarrow> is_exception e"
    by (auto simp: rejected_items_def is_exception_def)
qed

lemma try_hosts_accounts:
  assumes "library_accounts env" and "length items = length results"
  shows "(\<exists>a b. fst (try_hosts env port items results hosts) = Inr (a, b)
            \<and> a + b = int (length results) \<and> (counts_failures env \<longrightarrow> 0 \<le> b))
       \<or> (\<exists>e. fst (try_hosts env port items results hosts) = Inl e \<and> is_exception e)"
proof (induction hosts)
  case Nil
  show ?case by simp
next
  case (Cons h hosts)
  show ?case
  proof (cases "se_send env h port items")
    case (Inl e)
    then have "is_exception e" using assms(1) by (auto simp: library_accounts_def)
    then show ?thesis using Inl Cons.IH by (auto split: prod.splits)
  next
    case (Inr rsp)
    then have acc: "rsp_processed rsp + rsp_failed rsp = int (length results)"
        "counts_failures env \<Longrightarrow> 0 \<le> rsp_failed rsp"
      using assms by (auto simp: library_accounts_def counts_failures_def)
    show ?thesis
    proof (cases "rejected_items rsp results")
      case (Inl e)
      then show ?thesis using Inr acc rejected_items_Inl[OF Inl] by auto
    next
      case Inr': (Inr xs)
      then show ?thesis using Inr acc by auto
    qed
  qed
qed

lemma send_accounts:
  assumes "library_accounts env"
  shows "\<exists>a b. fst (send env cfg rs) = Inr (a, b) \<and> a + b = int (length rs)
      \<and> (counts_failures env \<longrightarrow> 0 \<le> b)"
proof -
  have "length (items_of cfg rs) = length rs" by (simp add: items_of_def)
  from try_hosts_accounts[OF assms this]
  have acc: "(\<exists>a b. fst (do_send env cfg rs) = Inr (a, b) \<and> a + b = int (length rs)
        \<and> (counts_failures env \<longrightarrow> 0 \<le> b))
      \<or> (\<exists>e. fst (do_send env cfg rs) = Inl e \<and> is_exception e)"
    by (simp add: do_send_def)
  obtain r cs where d: "do_send env cfg rs = (r, cs)" by (cases "do_send env cfg rs")
  then show ?thesis using acc by (auto simp: send_def)
qed

lemma send_chunk_accounts:
  assumes "library_accounts env"
  shows "\<exists>a b cs. send_chunk env cfg rs (s, calls) =
      (Inr (), (s\<lparr>s_sent_batch := s_sent_batch s + a, s_sender_failures := s_sender_failures s + b\<rparr>, cs))
      \<and> a + b = int (length rs)
      \<and> (counts_failures env \<longrightarrow> 0 \<le> b)"
proof -
  obtain a b where ab: "fst (send env cfg rs) = Inr (a, b)" "a + b = int (length rs)"
      "counts_failures env \<longrightarrow> 0 \<le> b"
    using send_accounts[OF assms] by blast
  obtain cs where "send env cfg rs = (Inr (a, b), cs)" using ab(1) by (cases "send env cfg rs") simp
  then show ?thesis using ab(2,3) by (auto simp: send_chunk_def)
qed

lemma forM_send_chunk_accounts:
  assumes "library_accounts env"
  shows "\<exists>a b cs. forM (send_chunk env cfg) ks (s, calls) =
      (Inr (), (s\<lparr>s_sent_batch := s_sent_batch s + a, s_sender_failures := s_sender_failures s + b\<rparr>, cs))
      \<and> a + b = int (length (concat ks)) \<and> (counts_failures env \<longrightarrow> 0 \<le> b)"
proof (induction ks arbitrary: s calls)
  case Nil
  show ?case by (intro exI[of _ 0] exI[of _ calls]) simp
next
  case (Cons k ks)
  obtain a b cs where 1: "send_chunk env cfg k (s, calls) = (Inr (),
      (s\<lparr>s_sent_batch := s_sent_batch s + a, s_sender_failures := s_sender_failures s + b\<rparr>, cs))"
    and ab: "a + b = int (length k)" "counts_failures env \<longrightarrow> 0 \<le> b"
    using send_chunk_accounts[OF assms] by blast
  let ?s = "s\<lparr>s_sent_batch := s_sent_batch s + a, s_sender_failures := s_sender_failures s + b\<rparr>"
  obtain a' b' cs' where 2: "forM (send_chunk env cfg) ks (?s, cs) = (Inr (),
      (?s\<lparr>s_sent_batch := s_sent_batch ?s + a', s_sender_failures := s_sender_failures ?s + b'\<rparr>, cs'))"
    and ab': "a' + b' = int (length (concat ks))" "counts_failures env \<longrightarrow> 0 \<le> b'"
    using Cons.IH by blast
  have "forM (send_chunk env cfg) (k # ks) (s, calls) = (Inr (),
      (s\<lparr>s_sent_batch := s_sent_batch s + (a + a'),
         s_sender_failures := s_sender_failures s + (b + b')\<rparr>, cs'))"
    using 1 2 by (simp add: add.assoc)
  then show ?case using ab ab' by (intro exI[of _ "a + a'"] exI[of _ "b + b'"] exI[of _ cs']) simp
qed

lemma send_batch_accounts:
  assumes "library_accounts env" and "0 < b_send_max_size (cfg_batching cfg)"
  shows "\<exists>a b cs. send_batch env cfg rs (s, calls) =
      (Inr (), (s\<lparr>s_sent_batch := s_sent_batch s + a, s_sender_failures := s_sender_failures s + b\<rparr>, cs))
      \<and> a + b = int (length rs)
      \<and> (counts_failures env \<longrightarrow> 0 \<le> b)"
proof (cases "rs = []")
  case True
  then show ?thesis by (intro exI[of _ 0] exI[of _ calls]) (simp add: send_batch_def)
next
  case False
  let ?ks = "chunks (nat (b_send_max_size (cfg_batching cfg))) rs"
  have "concat ?ks = rs" using assms(2) by simp
  moreover have "send_batch env cfg rs = forM (send_chunk env cfg) ?ks"
    using False assms(2) by (simp add: send_batch_def py_chunks_def)
  ultimately show ?thesis using forM_send_chunk_accounts[OF assms(1), of cfg ?ks s calls] by simp
qed

lemma send_immediate_accounts:
  assumes "library_accounts env"
  shows "\<exists>a b cs. send_immediate env cfg rs (s, calls) =
      (Inr (), (s\<lparr>s_sent_immediate := s_sent_immediate s + a,
                  s_sender_failures := s_sender_failures s + b\<rparr>, cs)) \<and> a + b = int (length rs)
      \<and> (counts_failures env \<longrightarrow> 0 \<le> b)"
proof (cases "rs = []")
  case True
  then show ?thesis by (intro exI[of _ 0] exI[of _ calls]) (simp add: send_immediate_def)
next
  case False
  obtain a b where ab: "fst (send env cfg rs) = Inr (a, b)" "a + b = int (length rs)"
      "counts_failures env \<longrightarrow> 0 \<le> b"
    using send_accounts[OF assms] by blast
  obtain cs where "send env cfg rs = (Inr (a, b), cs)" using ab(1) by (cases "send env cfg rs") simp
  then show ?thesis using ab(2,3) False by (auto simp: send_immediate_def)
qed

subsection \<open>Which servers are contacted\<close>

text \<open>The servers tried are a prefix of the configured list, ending at the first that answers.\<close>

definition answers :: "send_env \<Rightarrow> int \<Rightarrow> item_value list \<Rightarrow> string \<Rightarrow> bool" where
  "answers env port items h \<longleftrightarrow> (\<exists>rsp. se_send env h port items = Inr rsp)"

lemma try_hosts_calls:
  assumes "library_accounts env"
  shows "snd (try_hosts env port items results hosts) =
    map (\<lambda>h. (h, port, items))
      (takeWhile (\<lambda>h. \<not> answers env port items h) hosts
       @ take 1 (dropWhile (\<lambda>h. \<not> answers env port items h) hosts))"
proof (induction hosts)
  case Nil
  show ?case by simp
next
  case (Cons h hosts)
  show ?case
  proof (cases "se_send env h port items")
    case (Inl e)
    then have "is_exception e" using assms by (auto simp: library_accounts_def)
    then show ?thesis using Inl Cons.IH by (auto simp: answers_def split: prod.splits)
  next
    case (Inr rsp)
    then show ?thesis by (simp add: answers_def)
  qed
qed

lemma send_dry_run:
  "rt_dry_run (cfg_runtime cfg) \<Longrightarrow> send env cfg rs = (Inr (int (length rs), 0), [])"
  by (simp add: send_def)

lemma forM_send_chunk_dry:
  assumes "rt_dry_run (cfg_runtime cfg)"
  shows "\<exists>s'. forM (send_chunk env cfg) ks (s, calls) = (Inr (), (s', calls))"
proof (induction ks arbitrary: s)
  case Nil
  show ?case by simp
next
  case (Cons k ks)
  then show ?case using assms by (simp add: send_chunk_def send_dry_run bindM_def)
qed

subsection \<open>Properties\<close>

text \<open>An example: the first server is unreachable, the second one accepts everything.\<close>

definition second_accepts :: send_env where
  "second_accepts = \<lparr>se_send = (\<lambda>h p items. if h = ''a'' then Inl OSError
       else Inr \<lparr>rsp_processed = int (length items), rsp_failed = 0, rsp_total = int (length items),
                 rsp_details = []\<rparr>),
     se_timed_out = (\<lambda>rs. False)\<rparr>"

lemma library_accounts_second: "library_accounts second_accepts"
  by (auto simp: library_accounts_def second_accepts_def is_exception_def split: if_splits)

definition two_servers :: client_config where
  "two_servers = default_client_config\<lparr>cfg_zabbix :=
     (cfg_zabbix default_client_config)\<lparr>z_server_hosts := [''a'', ''b'', ''c'']\<rparr>\<rparr>"



text \<open>
  C15: one dispatch contacts the configured servers in their order, each with the same items,
  and stops at the first that answers, even when that one rejects items.
\<close>

theorem send_fails_over_in_order:
  assumes "library_accounts env" and "\<not> rt_dry_run (cfg_runtime cfg)"
  shows "snd (send env cfg results) =
    (let port = z_server_port (cfg_zabbix cfg); items = items_of cfg results;
         down = (\<lambda>h. \<not> answers env port items h); hosts = z_server_hosts (cfg_zabbix cfg)
     in map (\<lambda>h. (h, port, items)) (takeWhile down hosts @ take 1 (dropWhile down hosts)))"
proof -
  have "snd (send env cfg results) = snd (do_send env cfg results)"
    using assms(2) by (simp add: send_def case_prod_unfold Let_def)
  then show ?thesis by (simp add: do_send_def try_hosts_calls[OF assms(1)] Let_def)
qed

theorem send_fails_over_in_order_witness:
  "map fst (snd (send second_accepts two_servers [])) = [''a'', ''b'']"
  using send_fails_over_in_order[OF library_accounts_second, of two_servers "[]"]
  by (simp add: two_servers_def default_client_config_def answers_def second_accepts_def Let_def)

text \<open>
  In a dry run nothing is sent: whatever the servers, none of the three kinds of delivery
  calls the library; batch and immediate delivery raise nothing when the chunk size is positive.
\<close>

theorem dry_run_contacts_nobody:
  assumes "rt_dry_run (cfg_runtime cfg)"
  shows "snd (snd (send_batch env cfg rs (s, calls))) = calls
    \<and> snd (snd (send_immediate env cfg rs (s, calls))) = calls
    \<and> snd (snd (send_self_metrics env cfg now (s, calls))) = calls"
proof (intro conjI)
  show "snd (snd (send_batch env cfg rs (s, calls))) = calls"
  proof (cases "py_chunks (b_send_max_size (cfg_batching cfg)) rs")
    case (Inl e)
    then show ?thesis by (simp add: send_batch_def)
  next
    case (Inr ks)
    obtain s' where "forM (send_chunk env cfg) ks (s, calls) = (Inr (), (s', calls))"
      using forM_send_chunk_dry[OF assms] by blast
    then show ?thesis using Inr by (simp add: send_batch_def)
  qed
  show "snd (snd (send_immediate env cfg rs (s, calls))) = calls"
    using assms by (simp add: send_immediate_def send_dry_run)
  show "snd (snd (send_self_metrics env cfg now (s, calls))) = calls"
    using assms by (auto simp: send_self_metrics_def send_dry_run split: sum.split)
qed

theorem dry_run_contacts_nobody_witness:
  "snd (snd (send_batch second_accepts (default_client_config\<lparr>cfg_runtime :=
      (cfg_runtime default_client_config)\<lparr>rt_dry_run := True\<rparr>\<rparr>)
      [self_result 0 (''k'', ''v'')] (new_summary, []))) = []"
  using dry_run_contacts_nobody[of "default_client_config\<lparr>cfg_runtime :=
      (cfg_runtime default_client_config)\<lparr>rt_dry_run := True\<rparr>\<rparr>"] by simp

text \<open>
  the chunk size is not validated by the loader: with a negative one the batch results are
  dropped without being sent, counted or reported, and with zero sending raises \<open>ValueError\<close>.
\<close>

theorem bad_chunk_size_drops_batch:
  assumes "b_send_max_size (cfg_batching cfg) \<le> 0" and "results \<noteq> []"
  shows "send_batch env cfg results st =
    (if b_send_max_size (cfg_batching cfg) = 0 then (Inl ValueError, st) else (Inr (), st))"
  using assms by (simp add: send_batch_def py_chunks_def)

theorem bad_chunk_size_drops_batch_witness:
  "send_batch second_accepts (default_client_config\<lparr>cfg_batching :=
      (cfg_batching default_client_config)\<lparr>b_send_max_size := -1\<rparr>\<rparr>)
     [self_result 0 (''k'', ''v'')] (new_summary, []) = (Inr (), (new_summary, []))"
  using bad_chunk_size_drops_batch[of "default_client_config\<lparr>cfg_batching :=
      (cfg_batching default_client_config)\<lparr>b_send_max_size := -1\<rparr>\<rparr>"] by simp

end
