(* ===== verification/PyPath.thy ===== *)
theory PyPath
  imports PyString
begin

section \<open>POSIX paths (\<open>os.path\<close>)\<close>

text \<open>
  The functions of \<open>os.path\<close> the client uses, on path texts. The working directory is an argument.
  The lemmas say when a result is absolute, which is what the loader relies on when it resolves
  the paths of a configuration file against that file's own directory.
\<close>

abbreviation slash :: char where
  "slash \<equiv> CHR 0x2F"

definition isabs :: "string \<Rightarrow> bool" where
  "isabs p = startswith p [slash]"

definition path_join :: "string \<Rightarrow> string \<Rightarrow> string" where
  "path_join a b =
     (if isabs b then b
      else if a = [] \<or> last a = slash then a @ b
      else a @ slash # b)"

text \<open>\<open>os.path.split\<close>: the tail is what follows the last slash.\<close>

definition path_head :: "string \<Rightarrow> string" where
  "path_head p = rev (dropWhile (\<lambda>c. c \<noteq> slash) (rev p))"

definition basename :: "string \<Rightarrow> string" where
  "basename p = rev (takeWhile (\<lambda>c. c \<noteq> slash) (rev p))"

definition dirname :: "string \<Rightarrow> string" where
  "dirname p = (let h = path_head p in
     if list_all (\<lambda>c. c = slash) h then h else rstrip_by (\<lambda>c. c = slash) h)"

fun split_on :: "char \<Rightarrow> string \<Rightarrow> string list" where
  "split_on ch [] = [[]]"
| "split_on ch (c # cs) =
     (if c = ch then [] # split_on ch cs
      else (case split_on ch cs of w # ws \<Rightarrow> (c # w) # ws | [] \<Rightarrow> [[c]]))"

text \<open>The loop of \<open>os.path.normpath\<close>; the components seen so far are kept last first.\<close>

fun norm_comps :: "bool \<Rightarrow> string list \<Rightarrow> string list \<Rightarrow> string list" where
  "norm_comps rooted acc [] = rev acc"
| "norm_comps rooted acc (c # cs) =
     (if c = '''' \<or> c = ''.'' then norm_comps rooted acc cs
      else if c \<noteq> ''..'' \<or> (\<not> rooted \<and> acc = []) \<or> (acc \<noteq> [] \<and> hd acc = ''..'')
        then norm_comps rooted (c # acc) cs
      else norm_comps rooted (tl acc) cs)"

definition normpath :: "string \<Rightarrow> string" where
  "normpath p = (if p = [] then ''.'' else let
     slashes = (if \<not> isabs p then 0
                else if startswith p [slash, slash] \<and> \<not> startswith p [slash, slash, slash]
                  then 2 else 1);
     q = replicate slashes slash
           @ join_with [slash] (norm_comps (slashes \<noteq> 0) [] (split_on slash p))
   in if q = [] then ''.'' else q)"

definition abspath :: "string \<Rightarrow> string \<Rightarrow> string" where
  "abspath cwd p = normpath (path_join cwd p)"

lemma isabs_Cons [simp]: "isabs (slash # p)"
  by (simp add: isabs_def startswith_def)

lemma isabs_iff: "isabs p \<longleftrightarrow> (\<exists>q. p = slash # q)"
  by (cases p) (auto simp: isabs_def startswith_def)

lemma isabs_path_join: "isabs a \<Longrightarrow> isabs (path_join a b)"
  by (auto simp: isabs_iff path_join_def)

lemma isabs_normpath: "isabs p \<Longrightarrow> isabs (normpath p)"
  by (auto simp: normpath_def Let_def isabs_iff numeral_2_eq_2)

lemma isabs_abspath: "isabs cwd \<Longrightarrow> isabs (abspath cwd p)"
  by (simp add: abspath_def isabs_path_join isabs_normpath)

lemma isabs_path_head:
  assumes "isabs p"
  shows "isabs (path_head p)"
proof -
  obtain q where p: "p = slash # q" using assms by (auto simp: isabs_iff)
  have "path_head p = slash # rev (dropWhile (\<lambda>c. c \<noteq> slash) (rev q))
    \<or> path_head p = [slash]"
    by (auto simp: p path_head_def dropWhile_append)
  then show ?thesis by auto
qed

lemma isabs_dirname:
  assumes "isabs p"
  shows "isabs (dirname p)"
proof -
  let ?h = "path_head p"
  obtain q where h: "?h = slash # q" using isabs_path_head[OF assms] by (auto simp: isabs_iff)
  show ?thesis
  proof (cases "list_all (\<lambda>c. c = slash) ?h")
    case True
    then show ?thesis using h by (simp add: dirname_def)
  next
    case False
    then have "dropWhile (\<lambda>c. c = slash) (rev q) \<noteq> []" using h
      by (auto simp: list_all_iff dropWhile_eq_Nil_conv)
    then have "rstrip_by (\<lambda>c. c = slash) ?h
        = slash # rev (dropWhile (\<lambda>c. c = slash) (rev q))"
      using h by (auto simp: rstrip_by_def dropWhile_append dropWhile_eq_Nil_conv)
    then show ?thesis using False by (simp add: dirname_def Let_def)
  qed
qed

lemma path_join_abs [simp]: "isabs b \<Longrightarrow> path_join a b = b"
  by (simp add: path_join_def)

end
