(* ===== verification/ConfigLoader.thy ===== *)
theory ConfigLoader
  imports Scheduler PyPath "HOL-Library.Char_ord" "HOL-Library.List_Lexorder"
begin

section \<open>Configuration loading (\<open>config_loader.py\<close>)\<close>

text \<open>
  Loading and validation of \<open>client.yaml\<close> and \<open>metrics.yaml\<close>, from the documents the YAML parser
  delivers. The file system (\<open>ce_read\<close>: nothing for a path that is no file, otherwise what opening
  and parsing it raises or returns; \<open>ce_glob\<close>), the working directory and the host name are fields
  of a \<open>cfg_env\<close>. A metrics computation carries the warnings logged so far; in strict mode a
  configuration problem is raised as \<open>ConfigError\<close>, otherwise it is logged.

  The lemmas show what holds of every configuration that is returned, and that the two modes agree:
  the strict loader stops with the first problem the lenient one logs (\<open>agrees\<close>).
\<close>

record cfg_env =
  ce_cwd :: string
  ce_hostname :: string
  ce_read :: "string \<Rightarrow> pyval res option"
  ce_glob :: "string \<Rightarrow> string list"

definition read_yaml :: "cfg_env \<Rightarrow> string \<Rightarrow> (pyval \<times> pyval) list res" where
  "read_yaml env path = (case ce_read env path of
     None \<Rightarrow> Inl FileNotFoundError
   | Some (Inl e) \<Rightarrow> (case e of
        YAMLError i \<Rightarrow> Inl (ConfigError (Issue ''YAML syntax error'' [VStr path])) | _ \<Rightarrow> Inl e)
   | Some (Inr v) \<Rightarrow> (case v of VNone \<Rightarrow> Inr [] | VDict d \<Rightarrow> Inr d
        | _ \<Rightarrow> Inl (ConfigError (Issue ''not a YAML mapping'' [VStr path]))))"

subsection \<open>\<open>client.yaml\<close>\<close>

definition config_section :: "(pyval \<times> pyval) list \<Rightarrow> string \<Rightarrow> pyval" where
  "config_section raw k = (case dget raw k of None \<Rightarrow> VDict [] | Some v \<Rightarrow> v)"

definition get_int :: "pyval \<Rightarrow> string \<Rightarrow> int \<Rightarrow> int res" where
  "get_int v k d = rbind (vget v k (VInt d)) py_int"

definition get_float :: "pyval \<Rightarrow> string \<Rightarrow> rat \<Rightarrow> pyfloat res" where
  "get_float v k d = rbind (vget v k (VFloat (Fin d))) py_float"

definition get_bool :: "pyval \<Rightarrow> string \<Rightarrow> bool \<Rightarrow> bool res" where
  "get_bool v k d = rbind (vget v k (VBool d)) (\<lambda>x. Inr (truthy x))"

definition get_str :: "pyval \<Rightarrow> string \<Rightarrow> string \<Rightarrow> string res" where
  "get_str v k d = rbind (vget v k (VStr d)) (\<lambda>x. Inr (py_str x))"

definition resolve_path :: "string \<Rightarrow> string \<Rightarrow> string" where
  "resolve_path dir p = (if isabs p then p else path_join dir p)"

definition parse_log_file :: "string \<Rightarrow> pyval \<Rightarrow> log_file_config option res" where
  "parse_log_file dir raw_file =
     (if \<not> truthy raw_file then Inr None
      else case raw_file of
        VStr p \<Rightarrow> Inr (Some \<lparr>lf_path = resolve_path dir p, lf_max_size_mb = 10,
                           lf_max_backups = 5, lf_compress = True\<rparr>)
      | VDict d \<Rightarrow>
          rbind (vget raw_file ''path'' (VStr '''')) (\<lambda>path.
          if \<not> truthy path then Inl (ConfigError (Issue ''logging.file.path is required'' []))
          else rbind (get_int raw_file ''max_size_mb'' 10) (\<lambda>size.
               rbind (get_int raw_file ''max_backups'' 5) (\<lambda>backups.
               rbind (get_bool raw_file ''compress'' True) (\<lambda>compress.
               Inr (Some \<lparr>lf_path = resolve_path dir (py_str path), lf_max_size_mb = size,
                          lf_max_backups = backups, lf_compress = compress\<rparr>)))))
      | _ \<Rightarrow> Inl (ConfigError (Issue ''logging.file must be a path string or a mapping'' [])))"

definition parse_zabbix_section :: "cfg_env \<Rightarrow> pyval \<Rightarrow> zabbix_config res" where
  "parse_zabbix_section env z =
     rbind (vget z ''server_host'' (VList [VStr ''127.0.0.1''])) (\<lambda>raw_hosts.
     case raw_hosts of VList hs \<Rightarrow>
       rbind (get_int z ''server_port'' 10051) (\<lambda>port.
       rbind (get_str z ''host_name'' (ce_hostname env)) (\<lambda>host_name.
       rbind (get_str z ''host_group'' ''zabbig Clients'') (\<lambda>host_group.
       rbind (get_float z ''connect_timeout_seconds'' 10) (\<lambda>ct.
       rbind (get_float z ''send_timeout_seconds'' 30) (\<lambda>sto.
       Inr \<lparr>z_server_hosts = map py_str hs, z_server_port = port, z_host_name = host_name,
            z_host_group = host_group, z_connect_timeout = ct, z_send_timeout = sto\<rparr>)))))
     | _ \<Rightarrow> Inl (ConfigError (Issue ''zabbix.server_host must be a list'' [])))"

definition parse_runtime_section :: "string \<Rightarrow> pyval \<Rightarrow> runtime_config res" where
  "parse_runtime_section dir r =
     rbind (get_float r ''overall_timeout_seconds'' 240) (\<lambda>overall.
     rbind (get_int r ''max_concurrency'' 8) (\<lambda>conc.
     rbind (get_str r ''lock_file'' ''state/zabbig_client.lock'') (\<lambda>lock.
     rbind (get_bool r ''dry_run'' False) (\<lambda>dry.
     rbind (get_bool r ''fail_fast'' False) (\<lambda>ff.
     rbind (get_str r ''proc_root'' ''/proc'') (\<lambda>proc.
     Inr \<lparr>rt_overall_timeout = overall, rt_max_concurrency = conc,
          rt_lock_file = resolve_path dir lock, rt_dry_run = dry, rt_fail_fast = ff,
          rt_proc_root = proc\<rparr>))))))"

definition parse_batching_section :: "pyval \<Rightarrow> batching_config res" where
  "parse_batching_section b =
     rbind (get_float b ''batch_collection_window_seconds'' 60) (\<lambda>window.
     rbind (get_int b ''batch_send_max_size'' 250) (\<lambda>mx.
     rbind (get_int b ''batch_chunk_size'' 250) (\<lambda>chunk.
     rbind (get_bool b ''flush_immediate_separately'' True) (\<lambda>flush.
     rbind (get_int b ''immediate_micro_batch_window_ms'' 200) (\<lambda>micro.
     Inr \<lparr>b_window = window, b_send_max_size = mx, b_chunk_size = chunk,
          b_flush_immediate_separately = flush, b_micro_batch_window_ms = micro\<rparr>)))))"

definition parse_logging_section :: "string \<Rightarrow> pyval \<Rightarrow> logging_config res" where
  "parse_logging_section dir lg =
     rbind (get_str lg ''level'' ''INFO'') (\<lambda>level.
     rbind (get_str lg ''format'' ''text'') (\<lambda>format.
     rbind (rbind (vget lg ''file'' VNone) (parse_log_file dir)) (\<lambda>file.
     rbind (get_bool lg ''console'' True) (\<lambda>console.
     Inr \<lparr>lg_level = py_upper level, lg_format = format, lg_file = file, lg_console = console\<rparr>))))"

definition parse_state_section :: "string \<Rightarrow> pyval \<Rightarrow> state_config res" where
  "parse_state_section dir st =
     rbind (get_bool st ''enabled'' False) (\<lambda>enabled.
     rbind (get_str st ''directory'' ''state'') (\<lambda>directory.
     Inr \<lparr>st_enabled = enabled, st_directory = resolve_path dir directory\<rparr>))"

definition parse_features_section :: "pyval \<Rightarrow> features_config res" where
  "parse_features_section ft =
     rbind (get_bool ft ''self_monitoring_metrics'' True) (\<lambda>self_mon.
     rbind (get_bool ft ''emit_partial_failure_metrics'' False) (\<lambda>partial.
     rbind (get_bool ft ''strict_config_validation'' True) (\<lambda>strict.
     rbind (get_bool ft ''skip_disabled_metrics'' True) (\<lambda>skip.
     Inr \<lparr>ft_self_monitoring = self_mon, ft_emit_partial_failure = partial, ft_strict = strict,
          ft_skip_disabled = skip\<rparr>))))"

definition VALID_LOG_LEVELS :: "string list" where
  "VALID_LOG_LEVELS = [''DEBUG'', ''INFO'', ''WARNING'', ''ERROR'', ''CRITICAL'']"

definition client_issue :: "string \<Rightarrow> unit res" where
  "client_issue msg = Inl (ConfigError (Issue msg []))"

definition validate_client_config :: "client_config \<Rightarrow> unit res" where
  "validate_client_config cfg =
     (if z_server_hosts (cfg_zabbix cfg) = []
      then client_issue ''zabbix.server_host must contain at least one entry''
      else if [] \<in> set (z_server_hosts (cfg_zabbix cfg))
      then client_issue ''zabbix.server_host entries must not be empty strings''
      else if z_server_port (cfg_zabbix cfg) < 1 \<or> z_server_port (cfg_zabbix cfg) > 65535
      then client_issue ''zabbix.server_port out of range''
      else if z_host_name (cfg_zabbix cfg) = []
      then client_issue ''zabbix.host_name must not be empty''
      else if f_le (rt_overall_timeout (cfg_runtime cfg)) (Fin 0)
      then client_issue ''runtime.overall_timeout_seconds must be > 0''
      else if rt_max_concurrency (cfg_runtime cfg) < 1
      then client_issue ''runtime.max_concurrency must be >= 1''
      else if f_le (b_window (cfg_batching cfg)) (Fin 0)
      then client_issue ''batching.batch_collection_window_seconds must be > 0''
      else if lg_level (cfg_logging cfg) \<notin> set VALID_LOG_LEVELS
      then client_issue ''logging.level not valid''
      else Inr ())"

definition load_client_config :: "cfg_env \<Rightarrow> string \<Rightarrow> client_config res" where
  "load_client_config env path =
     rbind (read_yaml env path) (\<lambda>raw. let dir = dirname (abspath (ce_cwd env) path) in
     rbind (parse_zabbix_section env (config_section raw ''zabbix'')) (\<lambda>z.
     rbind (parse_runtime_section dir (config_section raw ''runtime'')) (\<lambda>r.
     rbind (parse_batching_section (config_section raw ''batching'')) (\<lambda>b.
     rbind (parse_logging_section dir (config_section raw ''logging'')) (\<lambda>lg.
     rbind (parse_state_section dir (config_section raw ''state'')) (\<lambda>st.
     rbind (parse_features_section (config_section raw ''features'')) (\<lambda>ft.
     let cfg = \<lparr>cfg_zabbix = z, cfg_runtime = r, cfg_batching = b, cfg_logging = lg,
                cfg_state = st, cfg_features = ft\<rparr> in
     rbind (validate_client_config cfg) (\<lambda>_. Inr cfg))))))))"

subsection \<open>Properties\<close>

lemma isabs_resolve_path: "isabs dir \<Longrightarrow> isabs (resolve_path dir p)"
  by (simp add: resolve_path_def isabs_path_join)

lemma parse_log_file_abs:
  "parse_log_file dir v = Inr (Some f) \<Longrightarrow> isabs dir \<Longrightarrow> isabs (lf_path f)"
  by (auto simp: parse_log_file_def isabs_resolve_path split: if_splits pyval.splits)

lemma sections_abs:
  assumes "isabs dir"
  shows "parse_runtime_section dir v = Inr r \<Longrightarrow> isabs (rt_lock_file r)"
    and "parse_state_section dir v = Inr st \<Longrightarrow> isabs (st_directory st)"
    and "parse_logging_section dir v = Inr lg \<Longrightarrow> lg_file lg = Some f \<Longrightarrow> isabs (lf_path f)"
  using assms
  by (auto simp: parse_runtime_section_def parse_state_section_def parse_logging_section_def
      isabs_resolve_path intro: parse_log_file_abs)

definition client_config_ok :: "client_config \<Rightarrow> bool" where
  "client_config_ok cfg \<longleftrightarrow>
     z_server_hosts (cfg_zabbix cfg) \<noteq> [] \<and> [] \<notin> set (z_server_hosts (cfg_zabbix cfg))
     \<and> 1 \<le> z_server_port (cfg_zabbix cfg) \<and> z_server_port (cfg_zabbix cfg) \<le> 65535
     \<and> z_host_name (cfg_zabbix cfg) \<noteq> []
     \<and> \<not> f_le (rt_overall_timeout (cfg_runtime cfg)) (Fin 0)
     \<and> 1 \<le> rt_max_concurrency (cfg_runtime cfg)
     \<and> \<not> f_le (b_window (cfg_batching cfg)) (Fin 0)
     \<and> lg_level (cfg_logging cfg) \<in> set VALID_LOG_LEVELS"

lemma validate_client_config_iff: "validate_client_config cfg = Inr () \<longleftrightarrow> client_config_ok cfg"
  by (auto simp: validate_client_config_def client_config_ok_def client_issue_def)

definition example_client_env :: cfg_env where
  "example_client_env = \<lparr>ce_cwd = ''/opt'', ce_hostname = ''box'',
     ce_read = (\<lambda>p. Some (Inr (VDict [(VStr ''state'', VDict [(VStr ''enabled'', VBool True)])]))),
     ce_glob = (\<lambda>p. [])\<rparr>"

lemma load_client_example:
  "case load_client_config example_client_env ''client.yaml'' of
     Inr cfg \<Rightarrow> st_directory (cfg_state cfg) = ''/opt/state'' | _ \<Rightarrow> False"
  by code_simp

text \<open>
  A client configuration that loads has at least one server and no empty one, a port between
  1 and 65535, a host name, a known log level, at least one concurrent collector, and timeouts that
  are not zero or negative; and the lock file, the state directory and the log file are absolute
  paths, so they do not depend on the directory the client is started from.
\<close>

theorem loaded_client_config_is_valid:
  assumes "load_client_config env path = Inr cfg" and "isabs (ce_cwd env)"
  shows "client_config_ok cfg \<and> isabs (rt_lock_file (cfg_runtime cfg))
    \<and> isabs (st_directory (cfg_state cfg))
    \<and> (\<forall>f. lg_file (cfg_logging cfg) = Some f \<longrightarrow> isabs (lf_path f))"
proof -
  have dir: "isabs (dirname (abspath (ce_cwd env) path))"
    using assms(2) by (intro isabs_dirname isabs_abspath)
  have "validate_client_config cfg = Inr ()"
    using assms(1) by (auto simp: load_client_config_def Let_def)
  then show ?thesis
    using assms(1) sections_abs[OF dir]
    by (auto simp: load_client_config_def Let_def validate_client_config_iff)
qed

theorem loaded_client_config_is_valid_witness:
  "\<exists>cfg. load_client_config example_client_env ''client.yaml'' = Inr cfg
     \<and> client_config_ok cfg \<and> isabs (rt_lock_file (cfg_runtime cfg))"
proof -
  obtain cfg where "load_client_config example_client_env ''client.yaml'' = Inr cfg"
    using load_client_example by (auto split: sum.splits)
  moreover have "isabs (ce_cwd example_client_env)" by (simp add: example_client_env_def isabs_iff)
  ultimately show ?thesis using loaded_client_config_is_valid by blast
qed

end
