(* ===== verification/MetricsLoader.thy ===== *)
theory MetricsLoader
  imports ConfigLoader
begin

section \<open>Metric definitions: \<open>metrics.yaml\<close> (\<open>config_loader.py\<close>)\<close>

text \<open>
  Parsing and validation of the metric entries, the main file with its included files, and the
  standalone validator. The state of a computation is the log of the loader: configuration
  problems logged in lenient mode, and include patterns without a match, which both modes log.
\<close>

datatype log_entry = ConfigIssue issue | NoFilesMatched string

type_synonym 'a cfg = "(exn, log_entry list, 'a) st"

definition log_warning :: "log_entry \<Rightarrow> unit cfg" where
  "log_warning e = modifyM (\<lambda>w. w @ [e])"

definition config_error :: "bool \<Rightarrow> string \<Rightarrow> pyval list \<Rightarrow> unit cfg" where
  "config_error strict msg vs =
     (if strict then raise (ConfigError (Issue msg vs)) else log_warning (ConfigIssue (Issue msg vs)))"

text \<open>\<open>if not ok: _config_error(...)\<close>\<close>

definition require :: "bool \<Rightarrow> bool \<Rightarrow> string \<Rightarrow> pyval list \<Rightarrow> unit cfg" where
  "require strict ok msg vs = (if ok then ret () else config_error strict msg vs)"

subsection \<open>Parameters of the collectors\<close>

text \<open>\<open>v not in {...}\<close> for a set of texts, as a check that raises for an unhashable \<open>v\<close>.\<close>

definition require_in :: "bool \<Rightarrow> pyval \<Rightarrow> string list \<Rightarrow> string \<Rightarrow> pyval list \<Rightarrow> unit cfg" where
  "require_in strict v valid msg vs =
     bindM (lift (py_in_strs v valid)) (\<lambda>ok. require strict ok msg vs)"

definition pget :: "(pyval \<times> pyval) list \<Rightarrow> string \<Rightarrow> pyval \<Rightarrow> pyval" where
  "pget params k d = (case dget params k of None \<Rightarrow> d | Some v \<Rightarrow> v)"

definition check_cpu_params :: "bool \<Rightarrow> pyval \<Rightarrow> (pyval \<times> pyval) list \<Rightarrow> unit cfg" where
  "check_cpu_params strict mid params =
     require_in strict (pget params ''mode'' (VStr ''percent''))
       [''percent'', ''load1'', ''load5'', ''load15'', ''uptime''] ''cpu params.mode'' [mid]"

definition check_memory_params :: "bool \<Rightarrow> pyval \<Rightarrow> (pyval \<times> pyval) list \<Rightarrow> unit cfg" where
  "check_memory_params strict mid params =
     require_in strict (pget params ''mode'' (VStr ''used_percent''))
       [''used_percent'', ''available_bytes'', ''swap_used_percent''] ''memory params.mode'' [mid]"

definition check_disk_params :: "bool \<Rightarrow> pyval \<Rightarrow> (pyval \<times> pyval) list \<Rightarrow> unit cfg" where
  "check_disk_params strict mid params =
     bindM (require strict (dget params ''mount'' \<noteq> None) ''disk requires params.mount'' [mid]) (\<lambda>_.
     require_in strict (pget params ''mode'' (VStr ''used_percent''))
       [''used_percent'', ''used_bytes'', ''free_bytes'', ''inodes_used_percent'', ''inodes_used'',
        ''inodes_free'', ''inodes_total''] ''disk params.mode'' [mid])"

definition check_service_params :: "bool \<Rightarrow> pyval \<Rightarrow> (pyval \<times> pyval) list \<Rightarrow> unit cfg" where
  "check_service_params strict mid params = (let mode = pget params ''check_mode'' (VStr ''systemd'') in
     bindM (require_in strict mode [''systemd'', ''process''] ''service params.check_mode'' [mid]) (\<lambda>_.
     bindM (require strict (\<not> (py_eq mode (VStr ''systemd'') \<and> dget params ''service_name'' = None))
       ''service requires params.service_name'' [mid]) (\<lambda>_.
     require strict (\<not> (py_eq mode (VStr ''process'') \<and> dget params ''process_pattern'' = None))
       ''service requires params.process_pattern'' [mid])))"

definition NETWORK_MODES :: "string list" where
  "NETWORK_MODES = [''rx_bytes_per_sec'', ''tx_bytes_per_sec'', ''rx_bytes'', ''tx_bytes'',
     ''rx_packets'', ''tx_packets'', ''rx_errors'', ''tx_errors'', ''rx_dropped'', ''tx_dropped'',
     ''tcp_inuse'', ''tcp_timewait'', ''tcp_orphans'', ''udp_inuse'']"

definition SOCKSTAT_MODES :: "string list" where
  "SOCKSTAT_MODES = [''tcp_inuse'', ''tcp_timewait'', ''tcp_orphans'', ''udp_inuse'']"

definition check_network_params :: "bool \<Rightarrow> pyval \<Rightarrow> (pyval \<times> pyval) list \<Rightarrow> unit cfg" where
  "check_network_params strict mid params = (let mode = pget params ''mode'' VNone in
     bindM (if \<not> truthy mode then config_error strict ''network requires params.mode'' [mid]
            else require_in strict mode NETWORK_MODES ''network params.mode'' [mid]) (\<lambda>_.
     bindM (lift (py_in_strs mode SOCKSTAT_MODES)) (\<lambda>sockstat.
     require strict (sockstat \<or> dget params ''interface'' \<noteq> None)
       ''network requires params.interface'' [mid])))"

definition COMPARATORS :: "string list" where
  "COMPARATORS = [''gt'', ''lt'', ''gte'', ''lte'', ''eq'']"

text \<open>The loop over the conditions, the same for the log and the database collector.\<close>

definition check_condition ::
  "bool \<Rightarrow> string \<Rightarrow> pyval \<Rightarrow> nat \<times> pyval \<Rightarrow> unit cfg" where
  "check_condition strict who mid ic = (case ic of (i, cond) \<Rightarrow> (let loc = [mid, VInt (int i)] in
     case cond of
       VDict c \<Rightarrow>
         bindM (require strict (\<not> (dget c ''when'' \<noteq> None \<and> dget c ''extract'' \<noteq> None))
           (who @ '' condition has both when and extract'') loc) (\<lambda>_.
         if dget c ''extract'' = None then ret ()
         else bindM (require strict (dget c ''compare'' \<noteq> None)
                (who @ '' condition requires compare'') loc) (\<lambda>_.
              bindM (require strict (dget c ''threshold'' \<noteq> None)
                (who @ '' condition requires threshold'') loc) (\<lambda>_.
              require_in strict (pget c ''compare'' (VStr '''')) COMPARATORS
                (who @ '' condition compare'') loc)))
     | _ \<Rightarrow> config_error strict (who @ '' condition must be a mapping'') loc))"

definition check_conditions ::
  "bool \<Rightarrow> string \<Rightarrow> pyval \<Rightarrow> (pyval \<times> pyval) list \<Rightarrow> unit cfg" where
  "check_conditions strict who mid params =
     (case pget params ''conditions'' (VList []) of
        VList cs \<Rightarrow> forM (check_condition strict who mid) (enumerate 0 cs)
      | _ \<Rightarrow> config_error strict (who @ '' conditions must be a list'') [mid])"

definition RESULT_MODES :: "string list" where
  "RESULT_MODES = [''first'', ''last'', ''max'', ''min'']"

definition check_log_params :: "bool \<Rightarrow> pyval \<Rightarrow> (pyval \<times> pyval) list \<Rightarrow> unit cfg" where
  "check_log_params strict mid params =
     bindM (require strict (dget params ''path'' \<noteq> None) ''log requires params.path'' [mid]) (\<lambda>_.
     bindM (require strict (dget params ''match'' \<noteq> None) ''log requires params.match'' [mid]) (\<lambda>_.
     bindM (require_in strict (pget params ''mode'' (VStr ''condition'')) [''condition'', ''count'']
       ''log params.mode'' [mid]) (\<lambda>_.
     bindM (require_in strict (pget params ''result'' (VStr ''last'')) RESULT_MODES
       ''log params.result'' [mid]) (\<lambda>_.
     check_conditions strict ''log'' mid params))))"

text \<open>\<open>int(result_column) >= 0\<close>, with the two exceptions the code catches.\<close>

definition nonneg_column :: "pyval \<Rightarrow> bool res" where
  "nonneg_column v = (case py_int v of
     Inr i \<Rightarrow> Inr (0 \<le> i)
   | Inl e \<Rightarrow> if e = TypeError \<or> is_value_error e then Inr False else Inl e)"

definition check_database_params :: "bool \<Rightarrow> pyval \<Rightarrow> (pyval \<times> pyval) list \<Rightarrow> unit cfg" where
  "check_database_params strict mid params = (let mode = pget params ''mode'' (VStr ''value'') in
     bindM (require strict (dget params ''database'' \<noteq> None)
       ''database requires params.database'' [mid]) (\<lambda>_.
     bindM (require strict (dget params ''sql'' \<noteq> None) ''database requires params.sql'' [mid]) (\<lambda>_.
     bindM (require_in strict mode [''value'', ''condition''] ''database params.mode'' [mid]) (\<lambda>_.
     bindM (require_in strict (pget params ''result'' (VStr ''last'')) RESULT_MODES
       ''database params.result'' [mid]) (\<lambda>_.
     bindM (lift (nonneg_column (pget params ''result_column'' (VInt 0)))) (\<lambda>ok.
     bindM (require strict ok ''database params.result_column'' [mid]) (\<lambda>_.
     if py_eq mode (VStr ''condition'') then check_conditions strict ''database'' mid params
     else ret ())))))))"

definition validate_collector_params ::
  "pyval \<Rightarrow> string \<Rightarrow> (pyval \<times> pyval) list \<Rightarrow> bool \<Rightarrow> unit cfg" where
  "validate_collector_params mid collector params strict =
     (if collector = ''cpu'' then check_cpu_params strict mid params
      else if collector = ''memory'' then check_memory_params strict mid params
      else if collector = ''disk'' then check_disk_params strict mid params
      else if collector = ''service'' then check_service_params strict mid params
      else if collector = ''network'' then check_network_params strict mid params
      else if collector = ''log'' then check_log_params strict mid params
      else if collector = ''database'' then check_database_params strict mid params
      else ret ())"

subsection \<open>Schedule fields\<close>

definition parse_hhmm_value :: "bool \<Rightarrow> pyval \<Rightarrow> string \<Rightarrow> pyval \<Rightarrow> string option cfg" where
  "parse_hhmm_value strict mid field v = (let s = zfill 4 (py_str v) in
     if \<not> py_isdigit s \<or> length s \<noteq> 4
     then bindM (config_error strict ''must be a 4-digit HHMM value'' [mid, VStr field, v])
            (\<lambda>_. ret None)
     else bindM (lift (py_int (VStr (take 2 s)))) (\<lambda>h.
          bindM (lift (py_int (VStr (drop 2 s)))) (\<lambda>m.
          if h > 23 then bindM (config_error strict ''invalid hours'' [mid, VStr field, v])
            (\<lambda>_. ret None)
          else if m > 59 then bindM (config_error strict ''invalid minutes'' [mid, VStr field, v])
            (\<lambda>_. ret None)
          else ret (Some s))))"

definition parse_hhmm_field ::
  "(pyval \<times> pyval) list \<Rightarrow> pyval \<Rightarrow> string \<Rightarrow> bool \<Rightarrow> string option cfg" where
  "parse_hhmm_field raw mid field strict = (let v = pget raw field VNone in
     if v = VNone then ret None else parse_hhmm_value strict mid field v)"

text \<open>\<open>int(value)\<close> with \<open>TypeError\<close> and \<open>ValueError\<close> caught.\<close>

definition int_or_none :: "pyval \<Rightarrow> int option res" where
  "int_or_none v = (case py_int v of
     Inr i \<Rightarrow> Inr (Some i)
   | Inl e \<Rightarrow> if e = TypeError \<or> is_value_error e then Inr None else Inl e)"

definition parse_int_nonneg_field ::
  "(pyval \<times> pyval) list \<Rightarrow> pyval \<Rightarrow> string \<Rightarrow> bool \<Rightarrow> int option cfg" where
  "parse_int_nonneg_field raw mid field strict = (case pget raw field VNone of
     VNone \<Rightarrow> ret None
   | value \<Rightarrow> bindM (lift (int_or_none value)) (\<lambda>r. case r of
       None \<Rightarrow> bindM (config_error strict ''must be an integer'' [mid, VStr field, value]) (\<lambda>_. ret None)
     | Some i \<Rightarrow> if i < 0
         then bindM (config_error strict ''must be >= 0'' [mid, VStr field, value]) (\<lambda>_. ret None)
         else ret (Some i)))"

definition parse_run_frequency_field ::
  "(pyval \<times> pyval) list \<Rightarrow> pyval \<Rightarrow> bool \<Rightarrow> run_freq option cfg" where
  "parse_run_frequency_field raw mid strict = (case pget raw ''run_frequency'' VNone of
     VNone \<Rightarrow> ret None
   | VStr s \<Rightarrow> if s = ''even'' \<or> s = ''odd'' then ret (Some (FreqStr s))
       else bindM (config_error strict ''run_frequency'' [mid, VStr s]) (\<lambda>_. ret None)
   | value \<Rightarrow> bindM (lift (int_or_none value)) (\<lambda>r. case r of
       None \<Rightarrow> bindM (config_error strict ''run_frequency'' [mid, value]) (\<lambda>_. ret None)
     | Some i \<Rightarrow> if i < 0
         then bindM (config_error strict ''run_frequency must be >= 0'' [mid, value]) (\<lambda>_. ret None)
         else ret (Some (FreqInt i))))"

subsection \<open>One metric entry\<close>

text \<open>The nested \<open>get\<close>: the entry's own value, else the default's, else the fallback.\<close>

definition entry_get ::
  "(pyval \<times> pyval) list \<Rightarrow> pyval \<Rightarrow> string \<Rightarrow> pyval \<Rightarrow> pyval res" where
  "entry_get raw defaults key fallback = (case dget raw key of
     Some v \<Rightarrow> Inr v
   | None \<Rightarrow> rbind (vhas defaults key) (\<lambda>b. if b then vindex defaults key else Inr fallback))"

definition is_bool :: "pyval \<Rightarrow> bool" where
  "is_bool v = (case v of VBool b \<Rightarrow> True | _ \<Rightarrow> False)"

text \<open>A field with a fixed set of texts; an unknown text is a problem and becomes the default.\<close>

definition enum_field :: "bool \<Rightarrow> pyval \<Rightarrow> string \<Rightarrow> string list \<Rightarrow> string \<Rightarrow> string \<Rightarrow> string cfg" where
  "enum_field strict mid field valid dflt v =
     (if v \<in> set valid then ret v
      else bindM (config_error strict field [mid, VStr v]) (\<lambda>_. ret dflt))"

definition entry_timeout ::
  "bool \<Rightarrow> pyval \<Rightarrow> (pyval \<times> pyval) list \<Rightarrow> pyval \<Rightarrow> collector_defaults option \<Rightarrow> pyfloat cfg" where
  "entry_timeout strict mid raw defaults cd =
     bindM (lift (case cd of Some d \<Rightarrow> Inr (cd_timeout d)
        | None \<Rightarrow> rbind (vget defaults ''timeout_seconds'' (VFloat (Fin 10))) py_float)) (\<lambda>dflt.
     bindM (lift (py_float (pget raw ''timeout_seconds'' (VFloat dflt)))) (\<lambda>timeout.
     if f_le timeout (Fin 0)
     then bindM (config_error strict ''timeout_seconds must be > 0'' [mid]) (\<lambda>_. ret (Fin 10))
     else ret timeout))"

definition entry_delivery ::
  "bool \<Rightarrow> pyval \<Rightarrow> (pyval \<times> pyval) list \<Rightarrow> pyval \<Rightarrow> collector_defaults option \<Rightarrow> string cfg" where
  "entry_delivery strict mid raw defaults cd =
     bindM (lift (case cd of
          Some d \<Rightarrow> if cd_delivery d \<noteq> [] then Inr (VStr (cd_delivery d))
                    else vget defaults ''delivery'' (VStr ''batch'')
        | None \<Rightarrow> vget defaults ''delivery'' (VStr ''batch''))) (\<lambda>dflt.
     enum_field strict mid ''invalid delivery'' VALID_DELIVERY ''batch''
       (py_str (pget raw ''delivery'' dflt)))"

definition opt_text :: "pyval \<Rightarrow> string option" where
  "opt_text v = (if v = VNone then None else Some (py_str v))"

definition parse_valid_metric ::
  "bool \<Rightarrow> (pyval \<times> pyval) list \<Rightarrow> pyval \<Rightarrow> (pyval \<times> collector_defaults) list
     \<Rightarrow> pyval \<Rightarrow> string \<Rightarrow> pyval \<Rightarrow> metric_def cfg" where
  "parse_valid_metric strict raw defaults cds mid collector key =
     bindM (lift (entry_get raw defaults ''enabled'' (VBool True))) (\<lambda>enabled.
     bindM (require strict (is_bool enabled) ''enabled must be a boolean'' [mid]) (\<lambda>_.
     bindM (entry_timeout strict mid raw defaults (map_of cds (VStr collector))) (\<lambda>timeout.
     bindM (entry_delivery strict mid raw defaults (map_of cds (VStr collector))) (\<lambda>delivery.
     bindM (lift (entry_get raw defaults ''error_policy'' (VStr ''skip''))) (\<lambda>ep.
     bindM (enum_field strict mid ''invalid error_policy'' VALID_ERROR_POLICY ''skip'' (py_str ep)) (\<lambda>policy.
     bindM (lift (entry_get raw defaults ''value_type'' (VStr ''float''))) (\<lambda>vt.
     bindM (enum_field strict mid ''invalid value_type'' VALID_VALUE_TYPES ''float'' (py_str vt)) (\<lambda>value_type.
     bindM (lift (entry_get raw defaults ''importance'' (VStr ''normal''))) (\<lambda>im.
     bindM (enum_field strict mid ''invalid importance'' VALID_IMPORTANCE ''normal'' (py_str im)) (\<lambda>importance.
     bindM (parse_hhmm_field raw mid ''time_window_from'' strict) (\<lambda>from.
     bindM (parse_hhmm_field raw mid ''time_window_till'' strict) (\<lambda>till.
     bindM (parse_int_nonneg_field raw mid ''max_executions_per_day'' strict) (\<lambda>max_exec.
     bindM (parse_run_frequency_field raw mid strict) (\<lambda>freq.
     bindM (lift (rbind (entry_get raw defaults ''tags'' (VList [])) py_iter)) (\<lambda>tags.
     bindM (lift (py_dict (pget raw ''params'' (VDict [])))) (\<lambda>params.
     bindM (validate_collector_params mid collector params strict) (\<lambda>_.
     ret \<lparr>m_id = mid, m_name = py_str (pget raw ''name'' mid), m_enabled = truthy enabled,
          m_collector = collector, m_key = key, m_delivery = delivery, m_timeout = timeout,
          m_error_policy = policy, m_description = py_str (pget raw ''description'' (VStr '''')),
          m_value_type = value_type, m_unit = py_str (pget raw ''unit'' (VStr '''')),
          m_importance = importance,
          m_fallback_value = opt_text (pget raw ''fallback_value'' VNone),
          m_tags = tags, m_params = params, m_host_name = opt_text (pget raw ''host_name'' VNone),
          m_time_window_from = from, m_time_window_till = till, m_max_executions = max_exec,
          m_run_frequency = freq\<rparr>)))))))))))))))))"

definition parse_metric ::
  "pyval \<Rightarrow> pyval \<Rightarrow> (pyval \<times> collector_defaults) list \<Rightarrow> bool \<Rightarrow> metric_def option cfg" where
  "parse_metric entry defaults cds strict = (case entry of
     VDict raw \<Rightarrow> (let mid = pget raw ''id'' VNone; collector = pget raw ''collector'' VNone;
          key = pget raw ''key'' VNone in
       if \<not> truthy mid
       then bindM (config_error strict ''missing required field id'' []) (\<lambda>_. ret None)
       else if \<not> truthy collector
       then bindM (config_error strict ''missing required field collector'' [mid]) (\<lambda>_. ret None)
       else bindM (lift (py_in_strs collector VALID_COLLECTORS)) (\<lambda>known.
         if \<not> known
         then bindM (config_error strict ''unknown collector'' [mid, collector]) (\<lambda>_. ret None)
         else if \<not> truthy key
         then bindM (config_error strict ''missing required field key'' [mid]) (\<lambda>_. ret None)
         else bindM (parse_valid_metric strict raw defaults cds mid (py_str collector) key)
                (\<lambda>m. ret (Some m))))
   | _ \<Rightarrow> raise AttributeError)"

subsection \<open>The main file and the included files\<close>

text \<open>The metrics so far, with the ids and the keys seen so far.\<close>

type_synonym seen = "metric_def list \<times> pyval list \<times> pyval list"

definition add_main_metric ::
  "pyval \<Rightarrow> (pyval \<times> collector_defaults) list \<Rightarrow> bool \<Rightarrow> pyval \<Rightarrow> seen \<Rightarrow> seen cfg" where
  "add_main_metric defaults cds strict raw_metric acc =
     bindM (parse_metric raw_metric defaults cds strict) (\<lambda>r. case r of None \<Rightarrow> ret acc
     | Some m \<Rightarrow> (case acc of (metrics, ids, ks) \<Rightarrow>
         bindM (lift (py_in_keys (m_id m) ids)) (\<lambda>dup_id.
         bindM (require strict (\<not> dup_id) ''Duplicate metric id'' [m_id m]) (\<lambda>_.
         bindM (lift (py_in_keys (m_key m) ks)) (\<lambda>dup_key.
         bindM (require strict (\<not> dup_key) ''Duplicate Zabbix key'' [m_key m, m_id m]) (\<lambda>_.
         ret (metrics @ [m], ids @ [m_id m], ks @ [m_key m])))))))"

definition add_included_metric ::
  "pyval \<Rightarrow> (pyval \<times> collector_defaults) list \<Rightarrow> bool \<Rightarrow> string \<Rightarrow> pyval \<Rightarrow> seen \<Rightarrow> seen cfg" where
  "add_included_metric defaults cds strict path raw_metric acc =
     bindM (parse_metric raw_metric defaults cds strict) (\<lambda>r. case r of None \<Rightarrow> ret acc
     | Some m \<Rightarrow> (case acc of (metrics, ids, ks) \<Rightarrow>
         bindM (lift (py_in_keys (m_id m) ids)) (\<lambda>dup_id.
         if dup_id
         then bindM (config_error strict ''Duplicate metric id'' [m_id m, VStr path]) (\<lambda>_. ret acc)
         else bindM (lift (py_in_keys (m_key m) ks)) (\<lambda>dup_key.
           if dup_key
           then bindM (config_error strict ''Duplicate Zabbix key'' [m_key m, m_id m, VStr path])
                  (\<lambda>_. ret (metrics, ids @ [m_id m], ks))
           else ret (metrics @ [m], ids @ [m_id m], ks @ [m_key m])))))"

text \<open>\<open>{**a, **b}\<close>: both must be mappings.\<close>

fun merge_dicts :: "pyval \<Rightarrow> pyval \<Rightarrow> pyval res" where
  "merge_dicts (VDict a) (VDict b) = Inr (VDict (adict_merge a b))"
| "merge_dicts _ _ = Inl TypeError"

definition load_included_metrics ::
  "cfg_env \<Rightarrow> pyval \<Rightarrow> (pyval \<times> collector_defaults) list \<Rightarrow> bool \<Rightarrow> string \<Rightarrow> seen \<Rightarrow> seen cfg" where
  "load_included_metrics env defaults cds strict path acc = (case read_yaml env path of
     Inl e \<Rightarrow> if e = FileNotFoundError \<or> is_config_error e
       then bindM (config_error strict ''Cannot load included metrics file'' [VStr path]) (\<lambda>_. ret acc)
       else raise e
   | Inr raw \<Rightarrow>
       bindM (lift (merge_dicts defaults (pget raw ''defaults'' (VDict [])))) (\<lambda>local_defaults.
       bindM (lift (py_iter (pget raw ''metrics'' (VList [])))) (\<lambda>entries.
       foldM (add_included_metric local_defaults cds strict path) entries acc)))"

definition include_pattern ::
  "cfg_env \<Rightarrow> string \<Rightarrow> pyval \<Rightarrow> (pyval \<times> collector_defaults) list \<Rightarrow> bool \<Rightarrow> pyval \<Rightarrow> seen \<Rightarrow> seen cfg"
  where
  "include_pattern env base_dir defaults cds strict pattern acc = (case pattern of
     VStr p \<Rightarrow> (let matched = sort (ce_glob env (resolve_path base_dir p)) in
       if matched = [] then bindM (log_warning (NoFilesMatched p)) (\<lambda>_. ret acc)
       else foldM (load_included_metrics env defaults cds strict) matched acc)
   | _ \<Rightarrow> bindM (config_error strict ''include pattern must be a string'' [pattern]) (\<lambda>_. ret acc))"

definition parse_collector_default ::
  "pyval \<Rightarrow> pyval \<times> pyval \<Rightarrow> (pyval \<times> collector_defaults) res" where
  "parse_collector_default defaults entry =
     rbind (vget defaults ''timeout_seconds'' (VFloat (Fin 10))) (\<lambda>dt.
     rbind (rbind (vget (snd entry) ''timeout_seconds'' dt) py_float) (\<lambda>timeout.
     rbind (vget defaults ''delivery'' (VStr ''batch'')) (\<lambda>dd.
     rbind (vget (snd entry) ''delivery'' dd) (\<lambda>delivery.
     Inr (fst entry, \<lparr>cd_timeout = timeout, cd_delivery = py_str delivery\<rparr>)))))"

definition load_metrics_config :: "cfg_env \<Rightarrow> string \<Rightarrow> bool \<Rightarrow> metrics_config cfg" where
  "load_metrics_config env path strict =
     bindM (lift (read_yaml env path)) (\<lambda>raw.
     let version = pget raw ''version'' (VInt 1); defaults = pget raw ''defaults'' (VDict []);
         cds_raw = pget raw ''collector_defaults'' (VDict []) in
     bindM (require strict (py_eq version (VInt 1)) ''Unsupported metrics.yaml version'' [version]) (\<lambda>_.
     bindM (lift (case cds_raw of VDict d \<Rightarrow> rmapM (parse_collector_default defaults) d
                 | _ \<Rightarrow> Inl AttributeError)) (\<lambda>cds.
     bindM (lift (py_iter (pget raw ''metrics'' (VList [])))) (\<lambda>entries.
     bindM (foldM (add_main_metric defaults cds strict) entries ([], [], [])) (\<lambda>acc.
     let inc = pget raw ''include'' (VList []) in
     bindM (require strict (is_list inc) ''include must be a list of glob patterns'' []) (\<lambda>_.
     let patterns = (case inc of VList ps \<Rightarrow> ps | _ \<Rightarrow> []);
         base_dir = dirname (abspath (ce_cwd env) path) in
     bindM (foldM (include_pattern env base_dir defaults cds strict) patterns acc) (\<lambda>final.
     bindM (lift (py_int version)) (\<lambda>ver.
     ret \<lparr>mc_version = ver, mc_defaults = defaults, mc_collector_defaults = cds_raw,
          mc_metrics = fst final, mc_include = patterns\<rparr>))))))))"

subsection \<open>The standalone validator\<close>

definition validate_metrics_file ::
  "cfg_env \<Rightarrow> string \<Rightarrow> (log_entry list \<times> metric_def list) res" where
  "validate_metrics_file env path = (case read_yaml env path of
     Inl (ConfigError i) \<Rightarrow> Inr ([ConfigIssue i], [])
   | Inl e \<Rightarrow> Inl e
   | Inr _ \<Rightarrow> (case load_metrics_config env path False [] of
        (Inr mc, w) \<Rightarrow> Inr (w, mc_metrics mc)
      | (Inl (ConfigError i), w) \<Rightarrow> Inr (ConfigIssue i # w, [])
      | (Inl e, w) \<Rightarrow> Inl e))"

subsection \<open>What the parser returns\<close>

lemma returns_enum_field:
  "dflt \<in> set valid \<Longrightarrow> returns (enum_field strict mid field valid dflt v) (\<lambda>r. r \<in> set valid)"
  by (auto simp: enum_field_def intro!: returns_intros returns_bind_any)

lemma returns_entry_timeout:
  "returns (entry_timeout strict mid raw defaults cd) (\<lambda>t. \<not> f_le t (Fin 0))"
  by (auto simp: entry_timeout_def f_le_def f_eq_def intro!: returns_intros returns_bind_any)

lemma returns_entry_delivery:
  "returns (entry_delivery strict mid raw defaults cd) (\<lambda>d. d \<in> set VALID_DELIVERY)"
  unfolding entry_delivery_def
  by (intro returns_bind_any returns_enum_field) (simp add: VALID_DELIVERY_def DELIVERY_BATCH_def)

text \<open>A text of digits that \<open>int\<close> accepts has decimal digits only: the superscripts are refused.\<close>

lemma scan_digits_superscript:
  "c \<in> set s \<Longrightarrow> \<not> is_dec c \<Longrightarrow> c \<noteq> CHR ''_'' \<Longrightarrow> scan_digits v n ok s = None"
  by (induction v n ok s rule: scan_digits.induct) auto

lemma py_int_digits:
  assumes "list_all py_isdigit_char s" and "py_int (VStr s) = Inr i"
  shows "list_all is_dec s"
proof (rule ccontr)
  assume "\<not> list_all is_dec s"
  then obtain c where c: "c \<in> set s" "\<not> is_dec c" by (auto simp: list_all_iff)
  moreover have "c \<noteq> CHR ''_''" using c assms(1) by (auto simp: list_all_iff py_isdigit_char_def)
  ultimately have none: "parse_nat s = None" by (simp add: parse_nat_def scan_digits_superscript)
  have "list_all (\<lambda>c. \<not> py_isspace c) s" using assms(1)
    by (auto simp: list_all_iff py_isdigit_char_def py_isspace_def is_dec_def Let_def)
  then have strip: "py_strip s = s" by (rule strip_no_space)
  have "split_sign s = (False, s)" using assms(1)
    by (auto simp: split_sign_def py_isdigit_char_def is_dec_def split: list.splits)
  then show False using assms(2) none strip by (simp add: parse_int_def)
qed

lemma valid_hhmm_parsed:
  assumes "py_isdigit s" and "length s = 4"
    and "py_int (VStr (take 2 s)) = Inr h" and "py_int (VStr (drop 2 s)) = Inr m"
    and "h \<le> 23" and "m \<le> 59"
  shows "valid_hhmm s"
proof -
  have "list_all py_isdigit_char (take 2 s)" "list_all py_isdigit_char (drop 2 s)"
    using assms(1) by (auto simp: py_isdigit_def list_all_iff dest: in_set_takeD in_set_dropD)
  then have "list_all is_dec (take 2 s)" "list_all is_dec (drop 2 s)"
    using assms(3,4) by (blast dest: py_int_digits)+
  then have "list_all is_dec (take 2 s @ drop 2 s)" by (simp only: list_all_append)
  then have dec: "list_all is_dec s" by simp
  then show ?thesis using parse_hhmm_halves[OF assms(2) dec] assms by (simp add: valid_hhmm_def)
qed

lemma returns_parse_hhmm_field:
  "returns (parse_hhmm_field raw mid field strict) (\<lambda>r. \<forall>s. r = Some s \<longrightarrow> valid_hhmm s)"
proof -
  have "returns (parse_hhmm_value strict mid field v) (\<lambda>r. \<forall>s. r = Some s \<longrightarrow> valid_hhmm s)" for v
    unfolding returns_def parse_hhmm_value_def
    by (auto simp: Let_def bindM_def valid_hhmm_parsed simp del: py_int.simps
        split: if_splits sum.splits prod.splits)
  then show ?thesis by (simp add: parse_hhmm_field_def returns_ret Let_def)
qed

lemma returns_parse_int_nonneg_field:
  "returns (parse_int_nonneg_field raw mid field strict) (\<lambda>r. \<forall>n. r = Some n \<longrightarrow> 0 \<le> n)"
  unfolding returns_def
  by (auto simp: parse_int_nonneg_field_def bindM_def split: pyval.splits if_splits sum.splits
      prod.splits option.splits)

definition valid_frequency :: "run_freq option \<Rightarrow> bool" where
  "valid_frequency f = (case f of None \<Rightarrow> True
     | Some (FreqStr s) \<Rightarrow> s = ''even'' \<or> s = ''odd'' | Some (FreqInt n) \<Rightarrow> 0 \<le> n)"

lemma returns_parse_run_frequency_field:
  "returns (parse_run_frequency_field raw mid strict) valid_frequency"
  unfolding returns_def
  by (auto simp: parse_run_frequency_field_def bindM_def valid_frequency_def
      split: pyval.splits if_splits sum.splits prod.splits option.splits)

subsection \<open>Every metric the loader returns is well formed\<close>

definition metric_ok :: "metric_def \<Rightarrow> bool" where
  "metric_ok m \<longleftrightarrow> truthy (m_id m) \<and> truthy (m_key m)
     \<and> m_collector m \<in> set VALID_COLLECTORS \<and> m_delivery m \<in> set VALID_DELIVERY
     \<and> m_error_policy m \<in> set VALID_ERROR_POLICY \<and> m_value_type m \<in> set VALID_VALUE_TYPES
     \<and> m_importance m \<in> set VALID_IMPORTANCE \<and> \<not> f_le (m_timeout m) (Fin 0)
     \<and> schedule_valid m \<and> (\<forall>n. m_max_executions m = Some n \<longrightarrow> 0 \<le> n)
     \<and> valid_frequency (m_run_frequency m)"

lemma returns_parse_valid_metric:
  assumes "truthy mid" and "truthy key" and "collector \<in> set VALID_COLLECTORS"
  shows "returns (parse_valid_metric strict raw defaults cds mid collector key) metric_ok"
  unfolding parse_valid_metric_def
  apply (rule returns_bind_any)
  apply (rule returns_bind_any)
  apply (rule returns_bind[OF returns_entry_timeout])
  apply (rule returns_bind[OF returns_entry_delivery])
  apply (rule returns_bind_any)
  apply (rule returns_bind[OF returns_enum_field], simp add: VALID_ERROR_POLICY_def policy_defs)
  apply (rule returns_bind_any)
  apply (rule returns_bind[OF returns_enum_field], simp add: VALID_VALUE_TYPES_def)
  apply (rule returns_bind_any)
  apply (rule returns_bind[OF returns_enum_field], simp add: VALID_IMPORTANCE_def)
  apply (rule returns_bind[OF returns_parse_hhmm_field])
  apply (rule returns_bind[OF returns_parse_hhmm_field])
  apply (rule returns_bind[OF returns_parse_int_nonneg_field])
  apply (rule returns_bind[OF returns_parse_run_frequency_field])
  apply (rule returns_bind_any)
  apply (rule returns_bind_any)
  apply (rule returns_bind_any)
  apply (rule returns_ret)
  using assms by (simp add: metric_ok_def schedule_valid_def)

lemma returns_parse_metric:
  "returns (parse_metric entry defaults cds strict) (\<lambda>r. \<forall>m. r = Some m \<longrightarrow> metric_ok m)"
proof (cases "\<exists>raw. entry = VDict raw")
  case False
  then show ?thesis by (cases entry) (auto simp: parse_metric_def returns_raise)
next
  case True
  then obtain raw where entry: "entry = VDict raw" by blast
  let ?none = "\<lambda>msg vs. bindM (config_error strict msg vs) (\<lambda>_. ret None)"
  have none: "returns (?none msg vs) (\<lambda>r. \<forall>m. r = Some m \<longrightarrow> metric_ok m)" for msg vs
    by (intro returns_bind_any returns_ret) simp
  let ?c = "pget raw ''collector'' VNone"
  let ?k = "pget raw ''key'' VNone"
  have "returns (bindM (parse_valid_metric strict raw defaults cds mid (py_str ?c) ?k) (\<lambda>m. ret (Some m)))
      (\<lambda>r. \<forall>m. r = Some m \<longrightarrow> metric_ok m)"
    if "truthy mid" "truthy ?k" "py_in_strs ?c VALID_COLLECTORS = Inr True" for mid
  proof (rule returns_bind[OF returns_parse_valid_metric[OF that(1,2)]])
    show "py_str ?c \<in> set VALID_COLLECTORS" using py_in_strs_True[OF that(3)] by auto
  qed (auto intro: returns_ret)
  then show ?thesis
    by (auto simp: parse_metric_def entry Let_def intro!: none
        returns_bind[of _ "\<lambda>b. py_in_strs ?c VALID_COLLECTORS = Inr b"] returns_lift
        simp del: py_str.simps)
qed

definition all_ok :: "seen \<Rightarrow> bool" where
  "all_ok acc \<longleftrightarrow> (\<forall>m \<in> set (fst acc). metric_ok m)"

lemma returns_add_main_metric:
  assumes "all_ok acc"
  shows "returns (add_main_metric defaults cds strict entry acc) all_ok"
proof -
  obtain ms ids ks where acc: "acc = (ms, ids, ks)" by (cases acc)
  show ?thesis
    unfolding add_main_metric_def acc prod.case
    by (rule returns_bind[OF returns_parse_metric])
      (use assms in \<open>auto intro!: returns_bind_any returns_ret simp: acc all_ok_def
        split: option.splits\<close>)
qed

lemma returns_add_included_metric:
  assumes "all_ok acc"
  shows "returns (add_included_metric defaults cds strict path entry acc) all_ok"
proof -
  obtain ms ids ks where acc: "acc = (ms, ids, ks)" by (cases acc)
  show ?thesis
    unfolding add_included_metric_def acc prod.case
    by (rule returns_bind[OF returns_parse_metric])
      (use assms in \<open>auto intro!: returns_bind_any returns_ret simp: acc all_ok_def
        split: option.splits\<close>)
qed

lemma returns_load_included_metrics:
  assumes "all_ok acc"
  shows "returns (load_included_metrics env defaults cds strict path acc) all_ok"
  using assms
  by (auto simp: load_included_metrics_def intro!: returns_bind_any returns_ret returns_raise
      returns_foldM returns_add_included_metric split: sum.splits)

lemma returns_include_pattern:
  assumes "all_ok acc"
  shows "returns (include_pattern env dir defaults cds strict pattern acc) all_ok"
  using assms
  by (cases pattern) (auto simp: include_pattern_def Let_def intro!: returns_bind_any returns_ret
      returns_foldM returns_load_included_metrics)

lemma returns_load_metrics_config:
  "returns (load_metrics_config env path strict) (\<lambda>mc. \<forall>m \<in> set (mc_metrics mc). metric_ok m)"
  unfolding load_metrics_config_def Let_def
  by (intro returns_bind_any returns_bind[of _ all_ok] returns_foldM returns_add_main_metric
      returns_include_pattern returns_ret) (simp_all add: all_ok_def)

subsection \<open>The strict loader stops at the first problem the lenient one logs\<close>

text \<open>The part of a log before its first configuration problem, and that problem.\<close>

fun first_issue :: "log_entry list \<Rightarrow> (log_entry list \<times> issue) option" where
  "first_issue [] = None"
| "first_issue (ConfigIssue i # w) = Some ([], i)"
| "first_issue (NoFilesMatched p # w) =
     map_option (\<lambda>(before, i). (NoFilesMatched p # before, i)) (first_issue w)"

definition stop_at_issue ::
  "log_entry list \<Rightarrow> log_entry list \<Rightarrow> exn + 'a \<Rightarrow> (exn + 'a) \<times> log_entry list" where
  "stop_at_issue s w r = (case first_issue w of
     None \<Rightarrow> (r, s @ w) | Some (before, i) \<Rightarrow> (Inl (ConfigError i), s @ before))"

definition agrees :: "'a cfg \<Rightarrow> 'a cfg \<Rightarrow> bool" where
  "agrees strict lenient \<longleftrightarrow>
     (\<forall>s. \<exists>w r. lenient s = (r, s @ w) \<and> strict s = stop_at_issue s w r)"

named_theorems agrees_intros \<open>strict and lenient computations agree\<close>

lemma first_issue_append:
  "first_issue (v @ w) = (case first_issue v of Some p \<Rightarrow> Some p
     | None \<Rightarrow> map_option (\<lambda>(before, i). (v @ before, i)) (first_issue w))"
  by (induction v rule: first_issue.induct)
    (auto split: option.splits simp: option.map_comp o_def case_prod_unfold option.map_ident)

lemma agrees_ret [agrees_intros]: "agrees (ret a) (ret a)"
  and agrees_raise [agrees_intros]: "agrees (raise e) (raise e)"
  and agrees_lift [agrees_intros]: "agrees (lift r) (lift r)"
  by (auto simp: agrees_def stop_at_issue_def intro!: exI[of _ "[]"])

lemma agrees_config_error [agrees_intros]:
  "agrees (config_error True msg vs) (config_error False msg vs)"
  by (auto simp: agrees_def config_error_def log_warning_def stop_at_issue_def
      intro!: exI[of _ "[ConfigIssue (Issue msg vs)]"])

lemma agrees_no_files [agrees_intros]:
  "agrees (log_warning (NoFilesMatched p)) (log_warning (NoFilesMatched p))"
  by (auto simp: agrees_def log_warning_def stop_at_issue_def intro!: exI[of _ "[NoFilesMatched p]"])

lemma agrees_bind [agrees_intros]:
  assumes "agrees f g" and "\<And>a. agrees (f' a) (g' a)"
  shows "agrees (bindM f f') (bindM g g')"
  unfolding agrees_def
proof
  fix s
  obtain w r where w: "g s = (r, s @ w)" "f s = stop_at_issue s w r"
    using assms(1) unfolding agrees_def by blast
  show "\<exists>w r. bindM g g' s = (r, s @ w) \<and> bindM f f' s = stop_at_issue s w r"
  proof (cases r)
    case (Inl e)
    then have "bindM g g' s = (Inl e, s @ w)" using w by simp
    moreover have "bindM f f' s = stop_at_issue s w (Inl e)"
      using w Inl by (auto simp: stop_at_issue_def split: option.splits)
    ultimately show ?thesis by blast
  next
    case (Inr a)
    obtain v q where v: "g' a (s @ w) = (q, (s @ w) @ v)" "f' a (s @ w) = stop_at_issue (s @ w) v q"
      using assms(2)[of a] unfolding agrees_def by blast
    have "bindM g g' s = (q, s @ (w @ v))" using w(1) Inr v(1) by simp
    moreover have "bindM f f' s = stop_at_issue s (w @ v) q"
    proof (cases "first_issue w")
      case None
      then have "f s = (Inr a, s @ w)" using w(2) Inr by (simp add: stop_at_issue_def)
      then show ?thesis using v(2) None
        by (auto simp: stop_at_issue_def first_issue_append split: option.splits)
    next
      case (Some p)
      then show ?thesis using w(2)
        by (auto simp: stop_at_issue_def first_issue_append split: prod.splits)
    qed
    ultimately show ?thesis by blast
  qed
qed

lemma agrees_foldM [agrees_intros]:
  assumes "\<And>x b. agrees (f x b) (g x b)"
  shows "agrees (foldM f xs b) (foldM g xs b)"
  by (induction xs arbitrary: b) (auto intro: agrees_intros assms)

lemma agrees_forM [agrees_intros]:
  assumes "\<And>x. agrees (f x) (g x)"
  shows "agrees (forM f xs) (forM g xs)"
proof (induction xs)
  case Nil
  show ?case unfolding forM.simps by (rule agrees_ret)
next
  case (Cons x xs)
  then show ?case unfolding forM.simps by (intro agrees_bind assms)
qed

lemma agrees_if [agrees_intros]:
  "(b \<Longrightarrow> agrees f g) \<Longrightarrow> (\<not> b \<Longrightarrow> agrees f' g') \<Longrightarrow>
     agrees (if b then f else f') (if b then g else g')"
  by simp

lemma agrees_option [agrees_intros]:
  "agrees f g \<Longrightarrow> (\<And>a. agrees (f' a) (g' a)) \<Longrightarrow>
     agrees (case x of None \<Rightarrow> f | Some a \<Rightarrow> f' a) (case x of None \<Rightarrow> g | Some a \<Rightarrow> g' a)"
  by (cases x) simp_all

lemma agrees_pyval [agrees_intros]:
  assumes "agrees (a1) (b1)" "\<And>x. agrees (a2 x) (b2 x)" "\<And>x. agrees (a3 x) (b3 x)"
    "\<And>x. agrees (a4 x) (b4 x)" "\<And>x. agrees (a5 x) (b5 x)" "\<And>x. agrees (a6 x) (b6 x)"
    "\<And>x. agrees (a7 x) (b7 x)" "\<And>x. agrees (a8 x) (b8 x)" "\<And>x y. agrees (a9 x y) (b9 x y)"
  shows "agrees (case_pyval a1 a2 a3 a4 a5 a6 a7 a8 a9 v) (case_pyval b1 b2 b3 b4 b5 b6 b7 b8 b9 v)"
  using assms by (cases v) simp_all

lemma agrees_prod [agrees_intros]:
  "(\<And>a b. agrees (f a b) (g a b)) \<Longrightarrow>
     agrees (case p of (a, b) \<Rightarrow> f a b) (case p of (a, b) \<Rightarrow> g a b)"
  by (cases p) simp

lemma agrees_sum [agrees_intros]:
  "(\<And>a. agrees (f a) (g a)) \<Longrightarrow> (\<And>b. agrees (f' b) (g' b)) \<Longrightarrow>
     agrees (case x of Inl a \<Rightarrow> f a | Inr b \<Rightarrow> f' b) (case x of Inl a \<Rightarrow> g a | Inr b \<Rightarrow> g' b)"
  by (cases x) simp_all

lemma agrees_require [agrees_intros]: "agrees (require True b msg vs) (require False b msg vs)"
  unfolding require_def by (intro agrees_intros)

lemma agrees_require_in [agrees_intros]:
  "agrees (require_in True v ss msg vs) (require_in False v ss msg vs)"
  unfolding require_in_def by (intro agrees_intros)

lemma agrees_check_conditions [agrees_intros]:
  "agrees (check_conditions True who mid params) (check_conditions False who mid params)"
  unfolding check_conditions_def check_condition_def Let_def by (intro agrees_intros)

lemma agrees_collector_params [agrees_intros]:
  "agrees (validate_collector_params mid c params True) (validate_collector_params mid c params False)"
  unfolding validate_collector_params_def check_cpu_params_def check_memory_params_def
    check_disk_params_def check_service_params_def check_network_params_def check_log_params_def
    check_database_params_def Let_def
  by (intro agrees_intros)

lemma agrees_fields [agrees_intros]:
  "agrees (parse_hhmm_field raw mid field True) (parse_hhmm_field raw mid field False)"
  "agrees (parse_int_nonneg_field raw mid field True) (parse_int_nonneg_field raw mid field False)"
  "agrees (parse_run_frequency_field raw mid True) (parse_run_frequency_field raw mid False)"
  "agrees (enum_field True mid field valid dflt v) (enum_field False mid field valid dflt v)"
  "agrees (entry_timeout True mid raw defaults cd) (entry_timeout False mid raw defaults cd)"
  unfolding parse_hhmm_field_def parse_hhmm_value_def parse_int_nonneg_field_def
    parse_run_frequency_field_def enum_field_def entry_timeout_def Let_def
  by (intro agrees_intros)+

lemma agrees_entry_delivery [agrees_intros]:
  "agrees (entry_delivery True mid raw defaults cd) (entry_delivery False mid raw defaults cd)"
  unfolding entry_delivery_def by (intro agrees_intros)

lemma agrees_parse_metric [agrees_intros]:
  "agrees (parse_metric entry defaults cds True) (parse_metric entry defaults cds False)"
  unfolding parse_metric_def parse_valid_metric_def Let_def by (intro agrees_intros)

lemma agrees_add_metric [agrees_intros]:
  "agrees (add_main_metric defaults cds True entry acc) (add_main_metric defaults cds False entry acc)"
  "agrees (add_included_metric defaults cds True path entry acc)
     (add_included_metric defaults cds False path entry acc)"
  unfolding add_main_metric_def add_included_metric_def by (intro agrees_intros)+

lemma agrees_include [agrees_intros]:
  "agrees (load_included_metrics env defaults cds True path acc)
     (load_included_metrics env defaults cds False path acc)"
  "agrees (include_pattern env dir defaults cds True pattern acc)
     (include_pattern env dir defaults cds False pattern acc)"
  unfolding include_pattern_def load_included_metrics_def Let_def by (intro agrees_intros)+

lemma agrees_load_metrics_config:
  "agrees (load_metrics_config env path True) (load_metrics_config env path False)"
  unfolding load_metrics_config_def Let_def by (intro agrees_intros)

subsection \<open>Ids and keys are unique in strict mode\<close>

definition uniq :: "pyval list \<Rightarrow> bool" where
  "uniq xs = sorted_wrt (\<lambda>a b. \<not> py_eq a b) xs"

definition seen_ok :: "seen \<Rightarrow> bool" where
  "seen_ok acc \<longleftrightarrow> fst (snd acc) = map m_id (fst acc) \<and> snd (snd acc) = map m_key (fst acc)
     \<and> uniq (fst (snd acc)) \<and> uniq (snd (snd acc))"

lemma uniq_snoc: "uniq xs \<Longrightarrow> py_in_keys x xs = Inr False \<Longrightarrow> uniq (xs @ [x])"
  by (auto simp: uniq_def py_in_keys_def sorted_wrt_append split: if_splits)

lemma seen_ok_add:
  "seen_ok (ms, ids, ks) \<Longrightarrow> py_in_keys (m_id m) ids = Inr False \<Longrightarrow>
     py_in_keys (m_key m) ks = Inr False \<Longrightarrow> seen_ok (ms @ [m], ids @ [m_id m], ks @ [m_key m])"
  by (auto simp: seen_ok_def intro: uniq_snoc)

lemma returns_require_True: "returns (require True b msg vs) (\<lambda>_. b)"
  by (simp add: require_def config_error_def returns_ret returns_raise)

lemma returns_lift_Inr: "returns (lift r) (\<lambda>a. r = Inr a)"
  by (simp add: returns_def)

lemma returns_config_error_True: "returns (bindM (config_error True msg vs) f) P"
  by (simp add: config_error_def returns_raise)

lemma returns_add_main_unique:
  assumes "seen_ok acc"
  shows "returns (add_main_metric defaults cds True entry acc) seen_ok"
proof -
  obtain ms ids ks where acc: "acc = (ms, ids, ks)" by (cases acc)
  have "returns (bindM (lift (py_in_keys (m_id m) ids)) (\<lambda>dup_id.
         bindM (require True (\<not> dup_id) ''Duplicate metric id'' [m_id m]) (\<lambda>_.
         bindM (lift (py_in_keys (m_key m) ks)) (\<lambda>dup_key.
         bindM (require True (\<not> dup_key) ''Duplicate Zabbix key'' [m_key m, m_id m]) (\<lambda>_.
         ret (ms @ [m], ids @ [m_id m], ks @ [m_key m])))))) seen_ok" for m
    by (intro returns_bind[OF returns_lift_Inr] returns_bind[OF returns_require_True] returns_ret
        seen_ok_add) (use assms acc in simp_all)
  then show ?thesis
    unfolding add_main_metric_def acc prod.case
    by (intro returns_bind_any) (use assms acc in \<open>auto intro: returns_ret split: option.split\<close>)
qed

lemma returns_add_included_unique:
  assumes "seen_ok acc"
  shows "returns (add_included_metric defaults cds True path entry acc) seen_ok"
proof -
  obtain ms ids ks where acc: "acc = (ms, ids, ks)" by (cases acc)
  have "returns (bindM (lift (py_in_keys (m_id m) ids)) (\<lambda>dup_id.
         if dup_id
         then bindM (config_error True ''Duplicate metric id'' [m_id m, VStr path]) (\<lambda>_. ret acc)
         else bindM (lift (py_in_keys (m_key m) ks)) (\<lambda>dup_key.
           if dup_key
           then bindM (config_error True ''Duplicate Zabbix key'' [m_key m, m_id m, VStr path])
                  (\<lambda>_. ret (ms, ids @ [m_id m], ks))
           else ret (ms @ [m], ids @ [m_id m], ks @ [m_key m])))) seen_ok" for m
  proof (rule returns_bind[OF returns_lift_Inr], goal_cases)
    case (1 dup)
    show ?case
    proof (cases dup)
      case True
      then show ?thesis by (simp add: returns_config_error_True)
    next
      case False
      have "returns (bindM (lift (py_in_keys (m_key m) ks)) (\<lambda>dup_key.
           if dup_key
           then bindM (config_error True ''Duplicate Zabbix key'' [m_key m, m_id m, VStr path])
                  (\<lambda>_. ret (ms, ids @ [m_id m], ks))
           else ret (ms @ [m], ids @ [m_id m], ks @ [m_key m]))) seen_ok"
        by (rule returns_bind[OF returns_lift_Inr])
          (use 1 False assms acc in \<open>auto intro!: returns_config_error_True returns_ret seen_ok_add\<close>)
      then show ?thesis using False by simp
    qed
  qed
  then show ?thesis
    unfolding add_included_metric_def acc prod.case
    by (intro returns_bind_any) (use assms acc in \<open>auto intro: returns_ret split: option.split\<close>)
qed

lemma returns_included_unique:
  assumes "seen_ok acc"
  shows "returns (load_included_metrics env defaults cds True path acc) seen_ok"
  using assms
  by (auto simp: load_included_metrics_def returns_config_error_True intro!: returns_bind_any
      returns_raise returns_foldM returns_add_included_unique split: sum.splits)

lemma returns_pattern_unique:
  assumes "seen_ok acc"
  shows "returns (include_pattern env dir defaults cds True pattern acc) seen_ok"
  using assms
  by (cases pattern) (auto simp: include_pattern_def Let_def returns_config_error_True
      intro!: returns_bind_any returns_ret returns_foldM returns_included_unique)

lemma returns_load_unique:
  "returns (load_metrics_config env path True) (\<lambda>mc.
     uniq (map m_id (mc_metrics mc)) \<and> uniq (map m_key (mc_metrics mc)))"
  unfolding load_metrics_config_def Let_def
  by (intro returns_bind_any returns_bind[of _ seen_ok] returns_foldM returns_add_main_unique
      returns_pattern_unique returns_ret) (auto simp: seen_ok_def uniq_def)

subsection \<open>Properties\<close>

text \<open>Two example files: one metric; and the same with an unknown delivery and a doubled id.\<close>

definition one_entry :: pyval where
  "one_entry = VDict [(VStr ''id'', VStr ''a''), (VStr ''collector'', VStr ''cpu''),
     (VStr ''key'', VStr ''k''), (VStr ''time_window_from'', VInt 800)]"

definition bad_entry :: pyval where
  "bad_entry = VDict [(VStr ''id'', VStr ''a''), (VStr ''collector'', VStr ''cpu''),
     (VStr ''key'', VStr ''j''), (VStr ''delivery'', VStr ''later'')]"

definition example_files :: cfg_env where
  "example_files = \<lparr>ce_cwd = ''/etc'', ce_hostname = ''h'',
     ce_read = (\<lambda>p. if p = ''good'' then Some (Inr (VDict [(VStr ''metrics'', VList [one_entry])]))
       else if p = ''bad'' then Some (Inr (VDict [(VStr ''metrics'', VList [one_entry, bad_entry])]))
       else None),
     ce_glob = (\<lambda>p. [])\<rparr>"

lemma load_example:
  "case load_metrics_config example_files ''good'' True [] of
     (Inr mc, w) \<Rightarrow> length (mc_metrics mc) = 1 \<and> w = [] | _ \<Rightarrow> False"
  by code_simp

lemma load_bad_example:
  "case load_metrics_config example_files ''bad'' False [] of
     (Inr mc, w) \<Rightarrow> length (mc_metrics mc) = 2 \<and> length w = 2 | _ \<Rightarrow> False"
  by code_simp

text \<open>
  C5: whatever the files contain, every metric of a configuration the loader returns is well
  formed, in strict and in lenient mode: it has an id and a key, its collector, delivery, error
  policy, value type and importance are supported ones, its timeout is not negative or zero, its
  window bounds are valid HHMM texts, its daily maximum is not negative and its run frequency is a
  number from zero up, even or odd. In strict mode no two metrics, of the main file or of any
  included one, have the same id or the same key.
\<close>

theorem loaded_metrics_are_valid:
  assumes "load_metrics_config env path strict w = (Inr mc, w')"
  shows "(\<forall>m \<in> set (mc_metrics mc). metric_ok m)
    \<and> (strict \<longrightarrow> uniq (map m_id (mc_metrics mc)) \<and> uniq (map m_key (mc_metrics mc)))"
  using returnsD[OF returns_load_metrics_config assms] returnsD[OF returns_load_unique] assms
  by (cases strict) auto

theorem loaded_metrics_are_valid_witness:
  "\<exists>mc. load_metrics_config example_files ''good'' True [] = (Inr mc, [])
     \<and> length (mc_metrics mc) = 1 \<and> (\<forall>m \<in> set (mc_metrics mc). metric_ok m)"
proof -
  obtain mc where "load_metrics_config example_files ''good'' True [] = (Inr mc, [])"
    and "length (mc_metrics mc) = 1"
    using load_example by (auto split: prod.splits sum.splits)
  then show ?thesis using loaded_metrics_are_valid[of example_files "''good''" True "[]" mc "[]"]
    by blast
qed

text \<open>
  C16: the strict loader and the lenient one agree: without a configuration problem they return the
  same (and log the same unmatched include patterns); otherwise the strict one raises
  \<open>ConfigError\<close> with the first problem the lenient one logs, before doing anything after it.
\<close>

theorem strict_stops_at_first_issue:
  "load_metrics_config env path True [] = (case load_metrics_config env path False [] of
     (r, w) \<Rightarrow> (case first_issue w of None \<Rightarrow> (r, w)
       | Some (before, i) \<Rightarrow> (Inl (ConfigError i), before)))"
proof -
  obtain w r where "load_metrics_config env path False [] = (r, [] @ w)"
    and "load_metrics_config env path True [] = stop_at_issue [] w r"
    using agrees_load_metrics_config unfolding agrees_def by blast
  then show ?thesis by (simp add: stop_at_issue_def split: option.split)
qed

lemma validator_accepts:
  "validate_metrics_file env path = Inr ([], ms) \<longleftrightarrow>
     (\<exists>mc. load_metrics_config env path True [] = (Inr mc, []) \<and> mc_metrics mc = ms)"
proof -
  obtain w r where l: "load_metrics_config env path False [] = (r, [] @ w)"
    and s: "load_metrics_config env path True [] = stop_at_issue [] w r"
    using agrees_load_metrics_config unfolding agrees_def by blast
  show ?thesis
  proof (cases "read_yaml env path")
    case (Inl e)
    then have "load_metrics_config env path True [] = (Inl e, [])"
      by (simp add: load_metrics_config_def)
    then show ?thesis using Inl by (cases e) (auto simp: validate_metrics_file_def)
  next
    case (Inr raw)
    have v: "validate_metrics_file env path = Inr ([], ms) \<longleftrightarrow>
        (\<exists>mc. r = Inr mc \<and> w = [] \<and> mc_metrics mc = ms)"
      using Inr l by (auto simp: validate_metrics_file_def split: sum.split exn.split)
    have "stop_at_issue [] w r = (Inr mc, []) \<longleftrightarrow> r = Inr mc \<and> w = []" for mc
      by (auto simp: stop_at_issue_def split: option.splits)
    then show ?thesis using v s by auto
  qed
qed

text \<open>
  C29: the validator reports no issue exactly when the strict loader accepts the file without a
  warning, and then both have the same metrics.
\<close>

theorem validator_matches_strict_loader:
  "validate_metrics_file env path = Inr ([], ms) \<longleftrightarrow>
     (\<exists>mc. load_metrics_config env path True [] = (Inr mc, []) \<and> mc_metrics mc = ms)"
  by (rule validator_accepts)

end
