(* ===== verification/JsonStore.thy ===== *)
theory JsonStore
  imports PyPath PyValue
begin

section \<open>State files: JSON documents replaced atomically\<close>

text \<open>
  The client keeps its state (last run, schedule counters, log offsets) in JSON files that are
  written to a temporary file first and then renamed over the old one. The disk maps a path to what
  reading it finds; where an operation of the operating system can fail, an \<open>io_env\<close> says whether
  and how. Writing a document and reading it back applies \<open>json_norm\<close>: the keys of every dict
  become texts.

  The interface \<open>state_store\<close> is what the components that keep state rely on: a document that is
  saved is what is loaded next, and saving one file leaves the others alone.
\<close>

datatype json_file = Absent | Garbage | NotReadable exn | Json pyval

type_synonym disk = "string \<Rightarrow> json_file"

record io_env =
  io_mkdir :: "string \<Rightarrow> exn option"
  io_open :: "string \<Rightarrow> exn option"
  io_write :: "string \<Rightarrow> exn option"
  io_replace :: "string \<Rightarrow> exn option"

definition io_ok :: io_env where
  "io_ok = \<lparr>io_mkdir = (\<lambda>p. None), io_open = (\<lambda>p. None), io_write = (\<lambda>p. None),
     io_replace = (\<lambda>p. None)\<rparr>"

subsection \<open>JSON documents\<close>

text \<open>The text a dict key becomes.\<close>

fun json_key :: "pyval \<Rightarrow> string option" where
  "json_key (VStr s) = Some s"
| "json_key (VBool b) = Some (if b then ''true'' else ''false'')"
| "json_key VNone = Some ''null''"
| "json_key (VInt i) = Some (str_int i)"
| "json_key (VFloat f) = Some (case f of NaN \<Rightarrow> ''NaN'' | PInf \<Rightarrow> ''Infinity''
     | NInf \<Rightarrow> ''-Infinity'' | _ \<Rightarrow> str_float f)"
| "json_key v = None"

text \<open>What is read back after writing a value; \<open>None\<close> when it cannot be written.\<close>

fun json_norm :: "pyval \<Rightarrow> pyval option" where
  "json_norm (VList xs) = map_option VList (those (map json_norm xs))"
| "json_norm (VDict d) = map_option (\<lambda>ps. VDict (adict_merge [] ps))
     (those (map (\<lambda>p. case json_key (fst p) of None \<Rightarrow> None
        | Some k \<Rightarrow> map_option (\<lambda>v. (VStr k, v)) (json_norm (snd p))) d))"
| "json_norm (VRef n) = None"
| "json_norm (VOpaque s r) = None"
| "json_norm v = Some v"

definition storable :: "pyval \<Rightarrow> bool" where
  "storable v \<longleftrightarrow> json_norm v = Some v"

subsection \<open>Reading and writing\<close>

definition load_raw :: "string \<Rightarrow> disk \<Rightarrow> pyval res" where
  "load_raw path d = (case d path of
     Json v \<Rightarrow> Inr v | Absent \<Rightarrow> Inr (VDict []) | Garbage \<Rightarrow> Inr (VDict []) | NotReadable e \<Rightarrow> Inl e)"

definition tmp_path :: "string \<Rightarrow> string" where
  "tmp_path path = path @ ''.tmp''"

definition json_dump :: "io_env \<Rightarrow> string \<Rightarrow> pyval \<Rightarrow> (exn, disk, unit) st" where
  "json_dump io path v = (\<lambda>d.
     case io_open io path of Some e \<Rightarrow> (Inl e, d)
     | None \<Rightarrow> (case json_norm v of None \<Rightarrow> (Inl TypeError, d(path := Garbage))
       | Some w \<Rightarrow> (case io_write io path of Some e \<Rightarrow> (Inl e, d(path := Garbage))
         | None \<Rightarrow> (Inr (), d(path := Json w)))))"

definition os_replace :: "io_env \<Rightarrow> string \<Rightarrow> string \<Rightarrow> (exn, disk, unit) st" where
  "os_replace io src dst = (\<lambda>d. case io_replace io dst of
     Some e \<Rightarrow> (Inl e, d) | None \<Rightarrow> (Inr (), d(dst := d src, src := Absent)))"

definition write_replace :: "io_env \<Rightarrow> string \<Rightarrow> pyval \<Rightarrow> (exn, disk, unit) st" where
  "write_replace io path v =
     bindM (json_dump io (tmp_path path) v) (\<lambda>_. os_replace io (tmp_path path) path)"

lemma tmp_path_neq [simp]: "tmp_path p \<noteq> p" "p \<noteq> tmp_path p"
  by (auto simp: tmp_path_def)

text \<open>Two paths that do not touch each other: neither is the other or its temporary file.\<close>

definition separate :: "string \<Rightarrow> string \<Rightarrow> bool" where
  "separate p q \<longleftrightarrow> p \<noteq> q \<and> tmp_path p \<noteq> q"

lemma write_replace_ok:
  "json_norm v = Some w \<Longrightarrow>
     write_replace io_ok p v d = (Inr (), d(p := Json w, tmp_path p := Absent))"
  by (auto simp: write_replace_def json_dump_def os_replace_def io_ok_def bindM_def fun_eq_iff)

text \<open>Whatever fails, the file holds its old or its new document, never a part of one.\<close>

lemma write_replace_atomic:
  assumes "write_replace io p v d = (r, d')"
  shows "(r = Inr () \<and> (\<exists>w. json_norm v = Some w \<and> d' p = Json w)) \<or> (\<exists>e. r = Inl e \<and> d' p = d p)"
    and "separate p q \<Longrightarrow> d' q = d q"
  using assms
  by (auto simp: write_replace_def json_dump_def os_replace_def bindM_def separate_def
      split: option.splits prod.splits sum.splits)

subsection \<open>The interface of a state file\<close>

locale state_store =
  fixes save :: "'p \<Rightarrow> 'v \<Rightarrow> 'd \<Rightarrow> 'd"
    and load :: "'p \<Rightarrow> 'd \<Rightarrow> 'v"
    and can_save :: "'v \<Rightarrow> bool"
    and apart :: "'p \<Rightarrow> 'p \<Rightarrow> bool"
  assumes load_save: "can_save v \<Longrightarrow> load p (save p v d) = v"
    and load_other: "apart p q \<Longrightarrow> load q (save p v d) = load q d"
begin

text \<open>Load, change, save: repeating it applies the change repeatedly, and to this file only.\<close>

lemma load_updates:
  assumes "can_save (load p d)" and "\<And>v. can_save v \<Longrightarrow> can_save (f v)"
  shows "load p (((\<lambda>d. save p (f (load p d)) d) ^^ n) d) = (f ^^ n) (load p d)
    \<and> can_save (load p (((\<lambda>d. save p (f (load p d)) d) ^^ n) d))"
  using assms by (induction n) (auto simp: load_save)

lemma load_update_list:
  assumes "can_save (load p d)" and "\<And>x v. can_save v \<Longrightarrow> can_save (f x v)"
  shows "load p (foldl (\<lambda>d x. save p (f x (load p d)) d) d xs) = foldl (\<lambda>v x. f x v) (load p d) xs"
  using assms(1)
proof (induction xs arbitrary: d)
  case Nil
  then show ?case by simp
next
  case (Cons x xs)
  have "can_save (f x (load p d))" using Cons.prems assms(2) by blast
  then show ?case using Cons.IH[of "save p (f x (load p d)) d"] by (simp add: load_save)
qed

lemma other_update_list:
  assumes "apart p q"
  shows "load q (foldl (\<lambda>d x. save p (f x (load p d)) d) d xs) = load q d"
  by (induction xs arbitrary: d) (simp_all add: load_other[OF assms])

end

text \<open>
  The client's files implement it when the operating system does not fail: a value is what loading
  returned (an exception is not saved).
\<close>

definition save_doc :: "string \<Rightarrow> pyval res \<Rightarrow> disk \<Rightarrow> disk" where
  "save_doc p r d = (case r of Inl e \<Rightarrow> d | Inr v \<Rightarrow> snd (write_replace io_ok p v d))"

definition savable :: "pyval res \<Rightarrow> bool" where
  "savable r \<longleftrightarrow> (\<exists>v. r = Inr v \<and> storable v)"

interpretation doc: state_store save_doc load_raw savable separate
proof
  show "savable v \<Longrightarrow> load_raw p (save_doc p v d) = v" for v p d
    by (auto simp: savable_def storable_def save_doc_def write_replace_ok load_raw_def)
  show "separate p q \<Longrightarrow> load_raw q (save_doc p v d) = load_raw q d" for p q v d
    using write_replace_atomic(2)[of io_ok p "projr v" d "fst (write_replace io_ok p (projr v) d)"
        "snd (write_replace io_ok p (projr v) d)" q]
    by (auto simp: save_doc_def load_raw_def split: sum.split)
qed

end
