(* ===== verification/StateManager.thy ===== *)
theory StateManager
  imports Models JsonStore
begin

section \<open>Run state and schedule state (\<open>state_manager.py\<close>)\<close>

text \<open>
  The two state files of a run. \<open>last_run.json\<close> is optional and carries the number of consecutive
  failed runs; \<open>schedule.json\<close> is always kept and carries the run counter and the execution counts.
\<close>

definition STATE_FILE :: string where "STATE_FILE = ''last_run.json''"
definition SCHEDULE_FILE :: string where "SCHEDULE_FILE = ''schedule.json''"

definition os_makedirs :: "io_env \<Rightarrow> string \<Rightarrow> (exn, disk, unit) st" where
  "os_makedirs io p = (\<lambda>d. (case io_mkdir io p of Some e \<Rightarrow> Inl e | None \<Rightarrow> Inr (), d))"

text \<open>\<open>except OSError\<close>: a warning is logged and the run goes on.\<close>

definition ignore_os_error :: "(exn, disk, unit) st \<Rightarrow> (exn, disk, unit) st" where
  "ignore_os_error m = catchM m (\<lambda>e. if is_os_error e then Some (ret ()) else None)"

text \<open>\<open>consecutive_failures += 1\<close> on whatever the file held.\<close>

fun add_one :: "pyval \<Rightarrow> pyval res" where
  "add_one (VInt i) = Inr (VInt (i + 1))"
| "add_one (VBool b) = Inr (VInt (if b then 2 else 1))"
| "add_one (VFloat f) = Inr (VFloat (f_add f (Fin 1)))"
| "add_one v = Inl TypeError"

definition failures_after :: "bool \<Rightarrow> pyval \<Rightarrow> pyval res" where
  "failures_after success v = (if success then Inr (VInt 0) else add_one v)"

definition run_state :: "run_summary \<Rightarrow> int \<Rightarrow> pyval \<Rightarrow> pyval" where
  "run_state s now failures = VDict [
     (VStr ''last_run_ts'', VInt now),
     (VStr ''success'', VBool (s_success s)),
     (VStr ''duration_ms'', VFloat (f_round (s_duration s) 1)),
     (VStr ''metrics_sent'', VInt (s_sent_batch s + s_sent_immediate s)),
     (VStr ''collectors_failed'', VInt (s_collected_failed s + s_collected_timeout s)),
     (VStr ''sender_failures'', VInt (s_sender_failures s)),
     (VStr ''consecutive_failures'', failures)]"

definition state_path :: "client_config \<Rightarrow> string" where
  "state_path cfg = path_join (st_directory (cfg_state cfg)) STATE_FILE"

definition schedule_path :: "client_config \<Rightarrow> string" where
  "schedule_path cfg = path_join (st_directory (cfg_state cfg)) SCHEDULE_FILE"

definition save_state ::
  "io_env \<Rightarrow> client_config \<Rightarrow> run_summary \<Rightarrow> int \<Rightarrow> (exn, disk, unit) st" where
  "save_state io cfg s now =
     (if \<not> st_enabled (cfg_state cfg) then ret ()
      else bindM (os_makedirs io (st_directory (cfg_state cfg))) (\<lambda>_.
           bindM getM (\<lambda>d.
           bindM (lift (load_raw (state_path cfg) d)) (\<lambda>existing.
           bindM (lift (vget existing ''consecutive_failures'' (VInt 0))) (\<lambda>before.
           bindM (lift (failures_after (s_success s) before)) (\<lambda>failures.
           ignore_os_error (write_replace io (state_path cfg) (run_state s now failures))))))))"

definition load_state :: "client_config \<Rightarrow> disk \<Rightarrow> pyval res" where
  "load_state cfg d =
     (if \<not> st_enabled (cfg_state cfg) then Inr (VDict []) else load_raw (state_path cfg) d)"

definition load_schedule_state :: "client_config \<Rightarrow> disk \<Rightarrow> pyval res" where
  "load_schedule_state cfg d = load_raw (schedule_path cfg) d"

definition save_schedule_state :: "io_env \<Rightarrow> client_config \<Rightarrow> pyval \<Rightarrow> (exn, disk, unit) st" where
  "save_schedule_state io cfg state =
     bindM (os_makedirs io (st_directory (cfg_state cfg))) (\<lambda>_.
     ignore_os_error (write_replace io (schedule_path cfg) state))"

subsection \<open>Facts\<close>

lemma storable_run_state: "storable (run_state s now (VInt n))"
  by (simp add: storable_def run_state_def adict_merge_def)

lemma last_path_join: "b \<noteq> [] \<Longrightarrow> \<not> isabs b \<Longrightarrow> \<exists>q. path_join a b = q @ b"
  by (auto simp: path_join_def intro: exI[of _ "a @ [slash]"])

text \<open>The two files and the log offset files are different files.\<close>

lemma state_schedule_separate: "separate (state_path cfg) (schedule_path cfg)"
proof -
  obtain p where p: "state_path cfg = p @ ''last_run.json''"
    using last_path_join[of STATE_FILE] by (auto simp: state_path_def STATE_FILE_def isabs_def startswith_def)
  obtain q where q: "schedule_path cfg = q @ ''schedule.json''"
    using last_path_join[of SCHEDULE_FILE] by (auto simp: schedule_path_def SCHEDULE_FILE_def isabs_def startswith_def)
  have 1: "rev (take 6 (rev (state_path cfg))) = ''n.json''" by (simp add: p)
  have 2: "rev (take 6 (rev (schedule_path cfg))) = ''e.json''" by (simp add: q)
  have 3: "rev (take 4 (rev (tmp_path (state_path cfg)))) = ''.tmp''" by (simp add: tmp_path_def)
  have 4: "rev (take 4 (rev (schedule_path cfg))) = ''json''" by (simp add: q)
  show ?thesis using 1 2 3 4 by (auto simp: separate_def)
qed

lemma vget_run_state:
  "vget (run_state s now f) ''consecutive_failures'' (VInt 0) = Inr f"
  by (simp add: run_state_def)

lemma save_state_eq:
  assumes "st_enabled (cfg_state cfg)"
    and "load_raw (state_path cfg) d = Inr v" and "vget v ''consecutive_failures'' (VInt 0) = Inr (VInt n)"
  shows "save_state io_ok cfg s now d = (Inr (), save_doc (state_path cfg)
    (Inr (run_state s now (VInt (if s_success s then 0 else n + 1)))) d)"
proof -
  have w: "write_replace io_ok p (run_state s now (VInt k)) d
      = (Inr (), save_doc p (Inr (run_state s now (VInt k))) d)" for p k
    using storable_run_state[of s now k] by (simp add: save_doc_def write_replace_ok storable_def)
  show ?thesis using assms w
    by (cases "s_success s") (simp_all add: save_state_def os_makedirs_def io_ok_def bindM_def
        failures_after_def ignore_os_error_def catchM_def)
qed

text \<open>What the file says after several runs, from the summaries in the order of the runs.\<close>

fun failures_of :: "int \<Rightarrow> bool list \<Rightarrow> int" where
  "failures_of n [] = n"
| "failures_of n (ok # oks) = failures_of (if ok then 0 else n + 1) oks"

lemma failures_of_trailing:
  "failures_of n oks = (if True \<in> set oks then int (length (takeWhile Not (rev oks)))
     else n + int (length oks))"
  by (induction oks arbitrary: n) (auto simp: takeWhile_append)

lemma save_states:
  assumes "st_enabled (cfg_state cfg)" and "load_raw (state_path cfg) d = Inr v"
    and "vget v ''consecutive_failures'' (VInt 0) = Inr (VInt n)"
  shows "\<exists>d' w. forM (\<lambda>(s, now). save_state io_ok cfg s now) runs d = (Inr (), d')
    \<and> load_raw (state_path cfg) d' = Inr w
    \<and> vget w ''consecutive_failures'' (VInt 0) = Inr (VInt (failures_of n (map (s_success \<circ> fst) runs)))
    \<and> load_schedule_state cfg d' = load_schedule_state cfg d"
  using assms
proof (induction runs arbitrary: d v n)
  case Nil
  then show ?case by simp
next
  case (Cons r runs)
  obtain s now where r: "r = (s, now)" by (cases r)
  let ?n = "if s_success s then 0 else n + 1"
  let ?d = "save_doc (state_path cfg) (Inr (run_state s now (VInt ?n))) d"
  have "load_raw (state_path cfg) ?d = Inr (run_state s now (VInt ?n))"
    using doc.load_save storable_run_state by (simp add: savable_def)
  note IH = Cons.IH[OF Cons.prems(1) this vget_run_state]
  have "load_schedule_state cfg ?d = load_schedule_state cfg d"
    unfolding load_schedule_state_def by (rule doc.load_other[OF state_schedule_separate])
  then show ?case using IH save_state_eq[OF Cons.prems, of s now] by (simp add: r)
qed

subsection \<open>Properties\<close>



end
