(* ===== verification/Conditions.thy ===== *)
theory Conditions
  imports Models
begin

section \<open>The condition engine (\<open>collectors/log.py\<close>)\<close>

text \<open>
  The ordered conditions that turn a text (a log line, a status code, a database cell) into a
  value, and the strategies that reduce the values of several texts to one. The log, probe and
  database collectors share them. The regular expression engine is a parameter: whether a pattern
  compiles, and what a search of it in a text finds.
\<close>

datatype group1 = NoGroup | NotMatched | Captured string

record re_engine =
  re_error :: "string \<Rightarrow> exn option"
  re_find :: "string \<Rightarrow> string \<Rightarrow> group1 option"

text \<open>\<open>re.compile(p)\<close> and \<open>re.search(p, text)\<close>: a pattern that is no text raises \<open>TypeError\<close>.\<close>

fun re_compile :: "re_engine \<Rightarrow> pyval \<Rightarrow> string res" where
  "re_compile re (VStr p) = (case re_error re p of None \<Rightarrow> Inr p | Some e \<Rightarrow> Inl e)"
| "re_compile re v = Inl TypeError"

definition re_search :: "re_engine \<Rightarrow> pyval \<Rightarrow> string \<Rightarrow> group1 option res" where
  "re_search re v text = rbind (re_compile re v) (\<lambda>p. Inr (re_find re p text))"

subsection \<open>One condition\<close>

definition dflt :: "(pyval \<times> pyval) list \<Rightarrow> string \<Rightarrow> pyval \<Rightarrow> pyval" where
  "dflt c k d = (case dget c k of None \<Rightarrow> d | Some v \<Rightarrow> v)"

definition no_match :: "bool \<times> pyval \<times> pyval" where
  "no_match = (False, VNone, VNone)"

text \<open>\<open>float(m.group(1))\<close>, with \<open>IndexError\<close> and \<open>ValueError\<close> caught.\<close>

fun captured_number :: "group1 \<Rightarrow> pyfloat option res" where
  "captured_number NoGroup = Inr None"
| "captured_number NotMatched = Inl TypeError"
| "captured_number (Captured s) = Inr (parse_float s)"

definition compare_op :: "pyval \<Rightarrow> (pyfloat \<Rightarrow> pyfloat \<Rightarrow> bool) res" where
  "compare_op op =
     (if \<not> hashable op then Inl TypeError
      else if op = VStr ''gt'' then Inr (\<lambda>a b. f_lt b a)
      else if op = VStr ''lt'' then Inr (\<lambda>a b. f_lt a b)
      else if op = VStr ''gte'' then Inr (\<lambda>a b. f_le b a)
      else if op = VStr ''lte'' then Inr (\<lambda>a b. f_le a b)
      else if op = VStr ''eq'' then Inr (\<lambda>a b. f_eq a b)
      else Inl ValueError)"

definition eval_extract ::
  "re_engine \<Rightarrow> (pyval \<times> pyval) list \<Rightarrow> pyval \<Rightarrow> pyval \<Rightarrow> pyval \<Rightarrow> string \<Rightarrow> (bool \<times> pyval \<times> pyval) res"
  where
  "eval_extract re c pattern value_raw host line =
     rbind (re_search re pattern line) (\<lambda>m. case m of None \<Rightarrow> Inr no_match
     | Some g \<Rightarrow> rbind (captured_number g) (\<lambda>n. case n of None \<Rightarrow> Inr no_match
       | Some captured \<Rightarrow>
           rbind (py_float (dflt c ''threshold'' (VInt 0))) (\<lambda>threshold.
           rbind (compare_op (dflt c ''compare'' (VStr ''gt''))) (\<lambda>op.
           if \<not> op captured threshold then Inr no_match
           else if value_raw = VStr ''$1'' then Inr (True, VFloat captured, host)
           else Inr (True, value_raw, host)))))"

definition eval_one_condition ::
  "re_engine \<Rightarrow> pyval \<Rightarrow> string \<Rightarrow> (bool \<times> pyval \<times> pyval) res" where
  "eval_one_condition re cond line = (case cond of
     VDict c \<Rightarrow> (let value_raw = dflt c ''value'' VNone;
                     host = py_or (dflt c ''host_name'' VNone) VNone in
       case dget c ''when'' of
         Some p \<Rightarrow> rbind (re_search re p line) (\<lambda>m.
           Inr (if m \<noteq> None then (True, value_raw, host) else no_match))
       | None \<Rightarrow> (case dget c ''extract'' of
           Some p \<Rightarrow> eval_extract re c p value_raw host line
         | None \<Rightarrow> Inr (True, value_raw, host)))
   | _ \<Rightarrow> Inl AttributeError)"

fun eval_conditions :: "re_engine \<Rightarrow> pyval list \<Rightarrow> string \<Rightarrow> (pyval \<times> pyval) res" where
  "eval_conditions re [] line = Inr (VNone, VNone)"
| "eval_conditions re (c # cs) line =
     rbind (eval_one_condition re c line) (\<lambda>r. case r of (matched, v, host) \<Rightarrow>
       if matched then Inr (v, host) else eval_conditions re cs line)"

text \<open>
  The body of the loops over lines: \<open>if conditions:\<close> evaluate them and keep a value that is not
  \<open>None\<close>, else the line contributes 1.
\<close>

definition line_entry ::
  "re_engine \<Rightarrow> pyval \<Rightarrow> string \<Rightarrow> (pyval \<times> pyval) option res" where
  "line_entry re conditions line =
     (if truthy conditions
      then rbind (py_iter conditions) (\<lambda>cs. rbind (eval_conditions re cs line) (\<lambda>r.
             Inr (if fst r \<noteq> VNone then Some r else None)))
      else Inr (Some (VInt 1, VNone)))"

subsection \<open>Reducing several values to one\<close>

text \<open>\<open>float(v)\<close> with \<open>TypeError\<close> and \<open>ValueError\<close> caught: such a value is left out.\<close>

definition try_float :: "pyval \<Rightarrow> pyfloat option res" where
  "try_float v = (case py_float v of
     Inr x \<Rightarrow> Inr (Some x)
   | Inl e \<Rightarrow> if e = TypeError \<or> is_value_error e then Inr None else Inl e)"

fun numeric_entries :: "(pyval \<times> pyval) list \<Rightarrow> (pyfloat \<times> pyval) list res" where
  "numeric_entries [] = Inr []"
| "numeric_entries ((v, h) # es) =
     rbind (try_float v) (\<lambda>n. rbind (numeric_entries es) (\<lambda>ns.
       Inr (case n of None \<Rightarrow> ns | Some x \<Rightarrow> (x, h) # ns)))"

text \<open>\<open>max\<close> and \<open>min\<close> keep the first of several extreme values.\<close>

definition max_entry :: "(pyfloat \<times> pyval) list \<Rightarrow> pyfloat \<times> pyval" where
  "max_entry ns = pick_by (\<lambda>a b. f_lt (fst b) (fst a)) (hd ns) (tl ns)"

definition min_entry :: "(pyfloat \<times> pyval) list \<Rightarrow> pyfloat \<times> pyval" where
  "min_entry ns = pick_by (\<lambda>a b. f_lt (fst a) (fst b)) (hd ns) (tl ns)"

definition resolve_result_with_host ::
  "(pyval \<times> pyval) list \<Rightarrow> pyval \<Rightarrow> (pyval \<times> pyval) res" where
  "resolve_result_with_host entries strategy =
     (if entries = [] then Inr (VNone, VNone)
      else if strategy = VStr ''first'' then Inr (hd entries)
      else if strategy = VStr ''last'' then Inr (last entries)
      else rbind (numeric_entries entries) (\<lambda>numeric.
        if numeric = [] then Inr (last entries)
        else if strategy = VStr ''max'' then (case max_entry numeric of (x, h) \<Rightarrow> Inr (VFloat x, h))
        else if strategy = VStr ''min'' then (case min_entry numeric of (x, h) \<Rightarrow> Inr (VFloat x, h))
        else Inl ValueError))"

definition resolve_result :: "pyval list \<Rightarrow> pyval \<Rightarrow> pyval res" where
  "resolve_result values strategy =
     (if values = [] then Inr VNone
      else if strategy = VStr ''first'' then Inr (hd values)
      else if strategy = VStr ''last'' then Inr (last values)
      else rbind (numeric_entries (map (\<lambda>v. (v, VNone)) values)) (\<lambda>numeric.
        if numeric = [] then Inr (last values)
        else if strategy = VStr ''max'' then Inr (VFloat (fst (max_entry numeric)))
        else if strategy = VStr ''min'' then Inr (VFloat (fst (min_entry numeric)))
        else Inl ValueError))"

subsection \<open>Facts\<close>

text \<open>A condition list is a first-match table.\<close>

lemma eval_conditions_append:
  "eval_conditions re (cs @ ds) line =
     (if \<exists>c \<in> set cs. \<forall>v h. eval_one_condition re c line \<noteq> Inr (False, v, h)
      then eval_conditions re cs line else eval_conditions re ds line)"
proof (induction cs)
  case Nil
  then show ?case by simp
next
  case (Cons c cs)
  show ?case
  proof (cases "eval_one_condition re c line")
    case (Inl e)
    then show ?thesis by simp
  next
    case (Inr r)
    obtain m v h where r: "r = (m, v, h)" by (cases r)
    show ?thesis using Inr r Cons.IH by (cases m) auto
  qed
qed

lemma eval_conditions_catch_all:
  assumes "dget c ''when'' = None" and "dget c ''extract'' = None"
    and "\<forall>d \<in> set cs. \<exists>v h. eval_one_condition re d line = Inr (False, v, h)"
  shows "eval_conditions re (cs @ VDict c # ds) line =
    Inr (dflt c ''value'' VNone, py_or (dflt c ''host_name'' VNone) VNone)"
proof -
  have none: "\<not> (\<exists>d \<in> set cs. \<forall>v h. eval_one_condition re d line \<noteq> Inr (False, v, h))"
    using assms(3) by blast
  have "eval_one_condition re (VDict c) line =
      Inr (True, dflt c ''value'' VNone, py_or (dflt c ''host_name'' VNone) VNone)"
    using assms(1,2) by (simp add: eval_one_condition_def Let_def)
  then show ?thesis by (simp only: eval_conditions_append none if_False) simp
qed

lemma numeric_entries_sound:
  "numeric_entries es = Inr ns \<Longrightarrow> (x, h) \<in> set ns \<longleftrightarrow> (\<exists>v. (v, h) \<in> set es \<and> py_float v = Inr x)"
proof (induction es arbitrary: ns)
  case Nil
  then show ?case by simp
next
  case (Cons e es)
  obtain v h' where e: "e = (v, h')" by (cases e)
  from Cons.prems obtain n ns' where n: "try_float v = Inr n" and ns': "numeric_entries es = Inr ns'"
    and ns: "ns = (case n of None \<Rightarrow> ns' | Some x \<Rightarrow> (x, h') # ns')"
    by (auto simp: e rbind_eq_Inr)
  have "py_float v = Inr y \<longleftrightarrow> n = Some y" for y
    using n by (auto simp: try_float_def split: sum.splits if_splits)
  then show ?case using Cons.IH[OF ns'] ns by (cases n) (auto simp: e)
qed

text \<open>Among numbers, none of them NaN, the entry kept is one no other exceeds.\<close>

lemma max_entry_best:
  assumes "ns \<noteq> []" and "\<forall>n \<in> set ns. fst n \<noteq> NaN"
  shows "max_entry ns \<in> set ns" and "\<forall>n \<in> set ns. f_le (fst n) (fst (max_entry ns))"
proof -
  have ns: "hd ns # tl ns = ns" using assms(1) by simp
  show "max_entry ns \<in> set ns"
    using pick_by_mem[of _ "hd ns" "tl ns"] by (simp add: max_entry_def ns)
  have "\<forall>y \<in> set (hd ns # tl ns). f_le (fst y) (fst (pick_by (\<lambda>a b. f_lt (fst b) (fst a)) (hd ns) (tl ns)))"
    by (rule pick_by_best[where le = "\<lambda>a b. f_le (fst a) (fst b)" and S = "set ns"])
      (use assms ns in \<open>auto intro: f_le_trans simp: f_not_lt[symmetric] dest: f_lt_trans\<close>)
  then show "\<forall>n \<in> set ns. f_le (fst n) (fst (max_entry ns))" by (simp only: max_entry_def ns)
qed

lemma min_entry_best:
  assumes "ns \<noteq> []" and "\<forall>n \<in> set ns. fst n \<noteq> NaN"
  shows "min_entry ns \<in> set ns" and "\<forall>n \<in> set ns. f_le (fst (min_entry ns)) (fst n)"
proof -
  have ns: "hd ns # tl ns = ns" using assms(1) by simp
  show "min_entry ns \<in> set ns"
    using pick_by_mem[of _ "hd ns" "tl ns"] by (simp add: min_entry_def ns)
  have "\<forall>y \<in> set (hd ns # tl ns). f_le (fst (pick_by (\<lambda>a b. f_lt (fst a) (fst b)) (hd ns) (tl ns))) (fst y)"
    by (rule pick_by_best[where le = "\<lambda>a b. f_le (fst b) (fst a)" and S = "set ns"])
      (use assms ns in \<open>auto intro: f_le_trans simp: f_not_lt[symmetric] dest: f_lt_trans\<close>)
  then show "\<forall>n \<in> set ns. f_le (fst (min_entry ns)) (fst n)" by (simp only: min_entry_def ns)
qed

subsection \<open>Properties\<close>

text \<open>
  The strategy \<open>max\<close> returns the number of a line that no other line's number exceeds, together
  with the host name of that very line; values that are no numbers are left out.
\<close>

theorem max_strategy_is_largest:
  assumes "numeric_entries es = Inr ns" and "ns \<noteq> []" and "\<forall>n \<in> set ns. fst n \<noteq> NaN"
  shows "\<exists>x h v. resolve_result_with_host es (VStr ''max'') = Inr (VFloat x, h)
    \<and> (v, h) \<in> set es \<and> py_float v = Inr x
    \<and> (\<forall>w k y. (w, k) \<in> set es \<and> py_float w = Inr y \<longrightarrow> f_le y x)"
proof -
  obtain x h where xh: "max_entry ns = (x, h)" by (cases "max_entry ns")
  have "(x, h) \<in> set ns" and best: "\<forall>n \<in> set ns. f_le (fst n) x"
    using max_entry_best[OF assms(2,3)] by (simp_all add: xh)
  then obtain v where v: "(v, h) \<in> set es" "py_float v = Inr x"
    using numeric_entries_sound[OF assms(1)] by blast
  have all: "f_le y x" if "(w, k) \<in> set es" "py_float w = Inr y" for w k y
    using best numeric_entries_sound[OF assms(1), of y k] that by force
  have "es \<noteq> []" using assms(1,2) by auto
  then have "resolve_result_with_host es (VStr ''max'') = Inr (VFloat x, h)"
    using assms(1,2) xh by (simp add: resolve_result_with_host_def)
  then show ?thesis using v all by blast
qed

lemma numeric_example:
  "numeric_entries [(VFloat (Fin 3), VNone), (VNone, VNone), (VFloat (Fin (15 / 2)), VStr ''db2'')]
     = Inr [(Fin 3, VNone), (Fin (15 / 2), VStr ''db2'')]"
  by (simp add: try_float_def)

theorem max_strategy_is_largest_witness:
  "\<exists>x h. resolve_result_with_host
      [(VFloat (Fin 3), VNone), (VNone, VNone), (VFloat (Fin (15 / 2)), VStr ''db2'')] (VStr ''max'')
     = Inr (VFloat x, h)"
  using max_strategy_is_largest[OF numeric_example] by auto

text \<open>
  Conditions are tried in their order and the first that matches decides: conditions in front
  that do not match have no effect, those behind it are not looked at. A condition with neither
  \<open>when\<close> nor \<open>extract\<close> matches every line.
\<close>

theorem first_matching_condition_decides:
  assumes "\<forall>d \<in> set cs. \<exists>v h. eval_one_condition re d line = Inr (False, v, h)"
    and "dget c ''when'' = None" and "dget c ''extract'' = None"
  shows "eval_conditions re (cs @ VDict c # ds) line
    = Inr (dflt c ''value'' VNone, py_or (dflt c ''host_name'' VNone) VNone)"
  by (rule eval_conditions_catch_all[OF assms(2,3,1)])

theorem first_matching_condition_decides_witness:
  "eval_conditions \<lparr>re_error = (\<lambda>p. None), re_find = (\<lambda>p t. None)\<rparr>
      ([VDict [(VStr ''when'', VStr ''ERR''), (VStr ''value'', VInt 2)]]
       @ VDict [(VStr ''value'', VInt 0)] # []) ''fine'' = Inr (VInt 0, VNone)"
  using first_matching_condition_decides[of
      "[VDict [(VStr ''when'', VStr ''ERR''), (VStr ''value'', VInt 2)]]"
      "\<lparr>re_error = (\<lambda>p. None), re_find = (\<lambda>p t. None)\<rparr>" "''fine''" "[(VStr ''value'', VInt 0)]" "[]"]
  by (simp add: eval_one_condition_def re_search_def no_match_def dflt_def py_or_def)

end
