(* ===== verification/LogCollector.thy ===== *)
theory LogCollector
  imports Conditions JsonStore "HOL-Library.Sublist"
begin

section \<open>Log file collector (\<open>collectors/log.py\<close>)\<close>

text \<open>
  The incremental scan of a growing log file (mode \<open>condition\<close>) and the full count (mode
  \<open>count\<close>). A file is the text of its bytes; the file system, the codec and the regular expression
  engine are fields of a \<open>log_env\<close>, and the offset files live on the disk of theory \<open>JsonStore\<close>. The
  size of the file is taken before it is opened, so the content read may be longer.

  The lemmas show that a scan that stops at the last complete line and resumes there sees exactly
  what one scan of the whole file sees.
\<close>

record log_env =
  le_re :: re_engine
  le_cwd :: string
  le_isfile :: "string \<Rightarrow> bool"
  le_isdir :: "string \<Rightarrow> bool"
  le_listdir :: "string \<Rightarrow> string list res"
  le_mtime :: "string \<Rightarrow> rat"
  le_stat :: "string \<Rightarrow> (int \<times> int) res"
  le_content :: "string \<Rightarrow> string res"
  le_decode :: "string \<Rightarrow> string \<Rightarrow> string res"

subsection \<open>Which file\<close>

definition os_error_as_missing :: "'a res \<Rightarrow> 'a res" where
  "os_error_as_missing r = (case r of
     Inl e \<Rightarrow> if is_os_error e then Inl FileNotFoundError else Inl e | Inr a \<Rightarrow> Inr a)"

definition re_error_as_value_error :: "'a res \<Rightarrow> 'a res" where
  "re_error_as_value_error r = (case r of Inl (ReError i) \<Rightarrow> Inl ValueError | _ \<Rightarrow> r)"

definition resolve_log_path :: "log_env \<Rightarrow> string \<Rightarrow> string res" where
  "resolve_log_path env raw = (let
     dirpart = (if dirname raw = [] then ''.'' else dirname raw);
     basepart = basename raw;
     abs_dir = abspath (le_cwd env) dirpart;
     exact = path_join abs_dir basepart in
     if le_isfile env exact then Inr exact
     else if \<not> le_isdir env abs_dir then Inl FileNotFoundError
     else rbind (os_error_as_missing (le_listdir env abs_dir)) (\<lambda>entries.
       rbind (re_error_as_value_error (re_compile (le_re env) (VStr (''^(?:'' @ basepart @ '')$'')))) (\<lambda>p.
       let matches = filter (\<lambda>e. re_find (le_re env) p e \<noteq> None
             \<and> le_isfile env (path_join abs_dir e)) entries in
       if matches = [] then Inl FileNotFoundError
       else Inr (path_join abs_dir
              (hd (sort_key (\<lambda>e. - le_mtime env (path_join abs_dir e)) matches))))))"

subsection \<open>Offset state\<close>

definition log_state_file :: "string \<Rightarrow> pyval \<Rightarrow> string" where
  "log_state_file state_dir mid = path_join state_dir (''log_'' @ py_str mid @ ''.json'')"

definition log_save_state :: "io_env \<Rightarrow> string \<Rightarrow> pyval \<Rightarrow> (exn, disk, unit) st" where
  "log_save_state io path v = (\<lambda>d.
     case (if dirname path = [] then None else io_mkdir io (dirname path)) of
       Some e \<Rightarrow> (Inl e, d)
     | None \<Rightarrow> (case write_replace io path v d of
         (Inl e, d') \<Rightarrow> (Inl e, if is_exception e then d'(tmp_path path := Absent) else d')
       | (Inr u, d') \<Rightarrow> (Inr u, d')))"

text \<open>
  The offset a scan starts at: the stored one, or zero after rotation (another inode) or truncation
  (a size below the stored offset). A stored boolean counts as its integer.
\<close>

definition seek_offset :: "pyval \<Rightarrow> nat res" where
  "seek_offset v = (case v of
     VInt i \<Rightarrow> if i < 0 then Inl OSError else Inr (nat i)
   | VBool b \<Rightarrow> Inr (if b then 1 else 0)
   | _ \<Rightarrow> Inl TypeError)"

definition start_offset :: "pyval \<Rightarrow> int \<Rightarrow> int \<Rightarrow> nat res" where
  "start_offset state inode fsize =
     rbind (vget state ''inode'' VNone) (\<lambda>stored_inode.
     rbind (vget state ''offset'' (VInt 0)) (\<lambda>stored.
     if \<not> py_eq stored_inode (VInt inode) then Inr 0
     else rbind (py_lt (VInt fsize) stored) (\<lambda>shrunk. if shrunk then Inr 0 else seek_offset stored)))"

definition update_state :: "pyval \<Rightarrow> int \<Rightarrow> nat \<Rightarrow> pyval res" where
  "update_state state inode pos = (case state of
     VDict d \<Rightarrow> Inr (VDict (dset (dset d ''inode'' (VInt inode)) ''offset'' (VInt (int pos))))
   | _ \<Rightarrow> Inl TypeError)"

subsection \<open>The scan\<close>

definition newline :: char where "newline = CHR 0x0A"

definition strip_eol :: "string \<Rightarrow> string" where
  "strip_eol s = rstrip_by (\<lambda>c. c = CHR 0x0D \<or> c = newline) s"

text \<open>\<open>readline\<close> at position \<open>pos\<close>: up to and including the next newline, or to the end.\<close>

definition readline :: "string \<Rightarrow> nat \<Rightarrow> string" where
  "readline content pos = (let rest = drop pos content in
     takeWhile (\<lambda>c. c \<noteq> newline) rest @ (if newline \<in> set rest then [newline] else []))"

lemma readline_length: "newline \<in> set (drop pos content) \<Longrightarrow> 0 < length (readline content pos)"
  by (simp add: readline_def Let_def)

text \<open>
  The loop of \<open>_log_condition\<close>: the position is the next one to read, and also \<open>new_offset\<close>, since
  after every complete line both are equal, and an incomplete last line is left for the next run.
\<close>

function scan_loop ::
  "(string \<Rightarrow> 'a option res) \<Rightarrow> string \<Rightarrow> nat \<Rightarrow> 'a list \<Rightarrow> ('a list \<times> nat) res" where
  "scan_loop process content pos acc =
     (if newline \<notin> set (drop pos content) then Inr (acc, pos)
      else rbind (process (readline content pos)) (\<lambda>r.
        scan_loop process content (pos + length (readline content pos))
          (case r of None \<Rightarrow> acc | Some e \<Rightarrow> acc @ [e])))"
  by pat_completeness auto
termination
proof (relation "measure (\<lambda>(p, content, pos, acc). length content - pos)", goal_cases)
  case (2 process content pos acc r)
  then have "0 < length (readline content pos)" "pos < length content"
    using readline_length by (force dest: in_set_dropD simp: drop_eq_Nil2)+
  then show ?case by (auto intro!: diff_less_mono2)
qed simp

declare scan_loop.simps [simp del]

definition process_line ::
  "log_env \<Rightarrow> pyval \<Rightarrow> string option \<Rightarrow> pyval \<Rightarrow> string \<Rightarrow> (pyval \<times> pyval) option res" where
  "process_line env encoding match_re conditions raw_line =
     rbind (case encoding of VStr e \<Rightarrow> le_decode env e raw_line | _ \<Rightarrow> Inl TypeError) (\<lambda>text.
     let line = strip_eol text in
     case match_re of
       None \<Rightarrow> line_entry (le_re env) conditions line
     | Some p \<Rightarrow> if re_find (le_re env) p line = None then Inr None
         else line_entry (le_re env) conditions line)"

definition compile_match :: "re_engine \<Rightarrow> pyval \<Rightarrow> string option res" where
  "compile_match re p = (if truthy p then rbind (re_compile re p) (\<lambda>s. Inr (Some s)) else Inr None)"

text \<open>The part of \<open>_log_condition\<close> from the stat to the new state: entries and updated state.\<close>

definition log_scan ::
  "log_env \<Rightarrow> (pyval \<times> pyval) list \<Rightarrow> string \<Rightarrow> pyval \<Rightarrow> ((pyval \<times> pyval) list \<times> pyval) res" where
  "log_scan env params path state =
     rbind (le_stat env path) (\<lambda>st. case st of (inode, fsize) \<Rightarrow>
     rbind (start_offset state inode fsize) (\<lambda>start.
     rbind (compile_match (le_re env) (dflt params ''match'' (VStr ''''))) (\<lambda>match_re.
     rbind (le_content env path) (\<lambda>content.
     rbind (scan_loop (process_line env (dflt params ''encoding'' (VStr ''utf-8'')) match_re
             (dflt params ''conditions'' (VList []))) content start []) (\<lambda>r.
     rbind (update_state state inode (snd r)) (\<lambda>state'. Inr (fst r, state')))))))"

text \<open>\<open>params[key]\<close> for a key that must be a text.\<close>

definition text_param :: "(pyval \<times> pyval) list \<Rightarrow> string \<Rightarrow> string res" where
  "text_param params k = (case dget params k of
     None \<Rightarrow> Inl KeyError | Some (VStr s) \<Rightarrow> Inr s | Some v \<Rightarrow> Inl TypeError)"

definition log_condition ::
  "log_env \<Rightarrow> io_env \<Rightarrow> metric_def \<Rightarrow> (exn, disk, pyval \<times> pyval) st" where
  "log_condition env io m = (let params = m_params m in
     bindM (lift (text_param params ''path'')) (\<lambda>raw.
     bindM (lift (resolve_log_path env raw)) (\<lambda>path.
     bindM (lift (case dflt params ''state_dir'' (VStr ''state'') of
        VStr s \<Rightarrow> Inr (log_state_file s (m_id m)) | _ \<Rightarrow> Inl TypeError)) (\<lambda>sf.
     bindM getM (\<lambda>d.
     bindM (lift (load_raw sf d)) (\<lambda>state.
     bindM (lift (log_scan env params path state)) (\<lambda>r.
     bindM (log_save_state io sf (snd r)) (\<lambda>_.
     if fst r = [] then ret (dflt params ''default_value'' (VInt 0), VNone)
     else lift (resolve_result_with_host (fst r) (dflt params ''result'' (VStr ''last'')))))))))))"

subsection \<open>Counting\<close>

function count_loop ::
  "(string \<Rightarrow> bool res) \<Rightarrow> string \<Rightarrow> nat \<Rightarrow> int \<Rightarrow> int res" where
  "count_loop matches content pos n =
     (if readline content pos = [] then Inr n
      else rbind (matches (readline content pos)) (\<lambda>b.
        count_loop matches content (pos + length (readline content pos)) (if b then n + 1 else n)))"
  by pat_completeness auto
termination
proof (relation "measure (\<lambda>(p, content, pos, n). length content - pos)", goal_cases)
  case (2 matches content pos n b)
  then have "drop pos content \<noteq> []" by (auto simp: readline_def)
  then have "pos < length content" by simp
  then show ?case using 2 by (auto intro!: diff_less_mono2)
qed simp

declare count_loop.simps [simp del]

definition line_matches :: "log_env \<Rightarrow> pyval \<Rightarrow> string option \<Rightarrow> string \<Rightarrow> bool res" where
  "line_matches env encoding match_re raw_line =
     rbind (case encoding of VStr e \<Rightarrow> le_decode env e raw_line | _ \<Rightarrow> Inl TypeError) (\<lambda>text.
     Inr (case match_re of None \<Rightarrow> True | Some p \<Rightarrow> re_find (le_re env) p (strip_eol text) \<noteq> None))"

definition log_count :: "log_env \<Rightarrow> metric_def \<Rightarrow> int res" where
  "log_count env m = (let params = m_params m in
     rbind (text_param params ''path'') (\<lambda>raw.
     rbind (resolve_log_path env raw) (\<lambda>path.
     rbind (compile_match (le_re env) (dflt params ''match'' (VStr ''''))) (\<lambda>match_re.
     rbind (le_content env path) (\<lambda>content.
     count_loop (line_matches env (dflt params ''encoding'' (VStr ''utf-8'')) match_re) content 0 0)))))"

definition log_collect ::
  "log_env \<Rightarrow> io_env \<Rightarrow> int \<Rightarrow> pyfloat \<Rightarrow> metric_def \<Rightarrow> (exn, disk, metric_result) st" where
  "log_collect env io now duration m = (let mode = dflt (m_params m) ''mode'' (VStr ''condition'');
       source = ''log mode='' @ py_str mode @ '' path='' @ py_str (dflt (m_params m) ''path'' (VStr '''')) in
     bindM (if mode = VStr ''condition'' then log_condition env io m
            else if mode = VStr ''count''
            then bindM (lift (log_count env m)) (\<lambda>n. ret (VInt n, VNone))
            else raise ValueError) (\<lambda>r.
     ret ((ok_result m ''log'' (py_str (fst r)) source now duration)
            \<lparr>r_host_name := py_or (snd r) (host_value (m_host_name m))\<rparr>)))"

subsection \<open>Resuming a scan\<close>

lemma scan_loop_stop: "newline \<notin> set (drop pos content) \<Longrightarrow> scan_loop P content pos acc = Inr (acc, pos)"
  by (subst scan_loop.simps) simp

lemma scan_loop_line:
  "newline \<in> set (drop pos content) \<Longrightarrow> scan_loop P content pos acc =
     rbind (P (readline content pos)) (\<lambda>r.
        scan_loop P content (pos + length (readline content pos))
          (case r of None \<Rightarrow> acc | Some e \<Rightarrow> acc @ [e]))"
  by (subst scan_loop.simps) simp

lemma readline_append:
  assumes "newline \<in> set (drop pos c)"
  shows "readline (c @ d) pos = readline c pos" and "newline \<in> set (drop pos (c @ d))"
proof -
  have "pos < length c" using assms by (cases "pos < length c") auto
  then show "newline \<in> set (drop pos (c @ d))" using assms by simp
  have "takeWhile (\<lambda>x. x \<noteq> newline) (drop pos c @ d) = takeWhile (\<lambda>x. x \<noteq> newline) (drop pos c)"
    using assms by (simp add: takeWhile_append1[of newline])
  then show "readline (c @ d) pos = readline c pos"
    using assms \<open>pos < length c\<close> by (simp add: readline_def Let_def)
qed

text \<open>A scan of a file that has grown, from where the last one stopped, completes it.\<close>

lemma scan_resume:
  "scan_loop P c pos acc = Inr (es, p) \<Longrightarrow> scan_loop P (c @ d) p es = scan_loop P (c @ d) pos acc"
proof (induction P c pos acc rule: scan_loop.induct)
  case (1 P c pos acc)
  show ?case
  proof (cases "newline \<in> set (drop pos c)")
    case False
    then show ?thesis using 1(2) by (simp add: scan_loop_stop)
  next
    case True
    then obtain r where r: "P (readline c pos) = Inr r" using 1(2)
      by (auto simp: scan_loop_line)
    then show ?thesis using 1 True by (simp add: scan_loop_line readline_append)
  qed
qed

lemma scan_loop_acc:
  "scan_loop P c pos (a @ acc) = rbind (scan_loop P c pos acc) (\<lambda>(es, p). Inr (a @ es, p))"
proof (induction P c pos acc rule: scan_loop.induct)
  case (1 P c pos acc)
  show ?case
  proof (cases "newline \<in> set (drop pos c)")
    case False
    then show ?thesis by (simp add: scan_loop_stop)
  next
    case True
    have "(case r of None \<Rightarrow> a @ acc | Some e \<Rightarrow> (a @ acc) @ [e])
        = a @ (case r of None \<Rightarrow> acc | Some e \<Rightarrow> acc @ [e])" for r
      by (cases r) simp_all
    then show ?thesis using 1 True by (cases "P (readline c pos)") (simp_all add: scan_loop_line)
  qed
qed

lemma length_takeWhile_less: "x \<in> set xs \<Longrightarrow> \<not> P x \<Longrightarrow> length (takeWhile P xs) < length xs"
  by (induction xs) auto

lemma scan_loop_end:
  "scan_loop P c pos acc = Inr (es, p) \<Longrightarrow>
     newline \<notin> set (drop p c) \<and> pos \<le> p \<and> (pos \<le> length c \<longrightarrow> p \<le> length c)"
proof (induction P c pos acc rule: scan_loop.induct)
  case (1 P c pos acc)
  show ?case
  proof (cases "newline \<in> set (drop pos c)")
    case False
    then show ?thesis using 1(2) by (simp add: scan_loop_stop)
  next
    case True
    then have "pos < length c" by (cases "pos < length c") auto
    then have "pos + length (readline c pos) \<le> length c"
      using True length_takeWhile_less[of newline "drop pos c" "\<lambda>x. x \<noteq> newline"]
      by (auto simp: readline_def Let_def)
    moreover obtain r where "P (readline c pos) = Inr r"
      and step: "scan_loop P c (pos + length (readline c pos))
        (case r of None \<Rightarrow> acc | Some e \<Rightarrow> acc @ [e]) = Inr (es, p)"
      using 1(2) True by (auto simp: scan_loop_line)
    ultimately show ?thesis using 1(1)[OF _ step] True by auto
  qed
qed

subsection \<open>The sequence of runs on one growing file\<close>

text \<open>The environment of a run that finds the given content in the file with the given inode.\<close>

definition finds :: "log_env \<Rightarrow> int \<Rightarrow> string \<Rightarrow> log_env" where
  "finds env inode c = env\<lparr>le_stat := (\<lambda>p. Inr (inode, int (length c))), le_content := (\<lambda>p. Inr c)\<rparr>"

fun log_scans ::
  "log_env list \<Rightarrow> (pyval \<times> pyval) list \<Rightarrow> string \<Rightarrow> pyval \<Rightarrow> ((pyval \<times> pyval) list \<times> pyval) res" where
  "log_scans [] params path state = Inr ([], state)"
| "log_scans (env # envs) params path state =
     rbind (log_scan env params path state) (\<lambda>(es, state').
     rbind (log_scans envs params path state') (\<lambda>(fs, state''). Inr (es @ fs, state'')))"

definition offset_state :: "int \<Rightarrow> nat \<Rightarrow> pyval" where
  "offset_state inode pos = VDict [(VStr ''inode'', VInt inode), (VStr ''offset'', VInt (int pos))]"

lemma py_eq_VInt [simp]: "py_eq (VInt a) (VInt b) \<longleftrightarrow> a = b"
  by (simp add: py_eq_def f_eq_def)

lemma start_offset_state:
  "pos \<le> n \<Longrightarrow> start_offset (offset_state inode pos) inode (int n) = Inr pos"
  by (simp add: start_offset_def offset_state_def py_lt_def seek_offset_def)

lemma start_offset_new: "start_offset (VDict []) inode n = Inr 0"
  by (simp add: start_offset_def py_eq_def)

lemma update_offset_state:
  "update_state (offset_state inode pos) inode q = Inr (offset_state inode q)"
  "update_state (VDict []) inode q = Inr (offset_state inode q)"
  by (simp_all add: update_state_def offset_state_def dset_def)

text \<open>The scan of one content from a given start, with the metric's line processing.\<close>

definition scan_from ::
  "log_env \<Rightarrow> (pyval \<times> pyval) list \<Rightarrow> string \<Rightarrow> nat \<Rightarrow> ((pyval \<times> pyval) list \<times> nat) res" where
  "scan_from env params c start =
     rbind (compile_match (le_re env) (dflt params ''match'' (VStr ''''))) (\<lambda>match_re.
     scan_loop (process_line env (dflt params ''encoding'' (VStr ''utf-8'')) match_re
       (dflt params ''conditions'' (VList []))) c start [])"

lemma finds_simps:
  "le_re (finds env inode c) = le_re env" "le_decode (finds env inode c) = le_decode env"
  "le_stat (finds env inode c) path = Inr (inode, int (length c))"
  "le_content (finds env inode c) path = Inr c"
  by (simp_all add: finds_def)

lemma process_line_finds: "process_line (finds env inode c) = process_line env"
  by (intro ext) (unfold process_line_def finds_simps, rule refl)

lemma log_scan_finds:
  assumes "start_offset state inode (int (length c)) = Inr start"
  shows "log_scan (finds env inode c) params path state =
    rbind (scan_from env params c start) (\<lambda>r.
      rbind (update_state state inode (snd r)) (\<lambda>state'. Inr (fst r, state')))"
  using assms
  by (cases "compile_match (le_re env) (dflt params ''match'' (VStr ''''))")
    (simp_all add: log_scan_def scan_from_def process_line_finds finds_simps)

lemma scan_from_resume:
  assumes "scan_from env params c start = Inr (es, p)"
  shows "scan_from env params (c @ d) start =
    rbind (scan_from env params (c @ d) p) (\<lambda>(fs, q). Inr (es @ fs, q))"
proof -
  obtain re where re: "compile_match (le_re env) (dflt params ''match'' (VStr '''')) = Inr re"
    using assms by (auto simp: scan_from_def)
  let ?P = "process_line env (dflt params ''encoding'' (VStr ''utf-8'')) re
       (dflt params ''conditions'' (VList []))"
  have "scan_loop ?P c start [] = Inr (es, p)" using assms re by (simp add: scan_from_def)
  then have "scan_loop ?P (c @ d) start [] = scan_loop ?P (c @ d) p (es @ [])"
    using scan_resume by fastforce
  then show ?thesis by (simp only: scan_loop_acc scan_from_def re rbind_simps)
qed

lemma scan_from_bound:
  "scan_from env params c start = Inr (es, p) \<Longrightarrow> start \<le> length c \<Longrightarrow> p \<le> length c"
  by (auto simp: scan_from_def dest: scan_loop_end)

lemma log_scans_growing:
  assumes "scan_from env params c 0 = Inr (es, p)"
    and "log_scans (map (finds env inode) cs) params path (offset_state inode p) = Inr (fs, st)"
    and "sorted_wrt prefix (c # cs)"
  shows "\<exists>q. scan_from env params (last (c # cs)) 0 = Inr (es @ fs, q) \<and> st = offset_state inode q"
  using assms
proof (induction cs arbitrary: c es p fs)
  case Nil
  then show ?case by simp
next
  case (Cons c' cs)
  obtain d where d: "c' = c @ d" using Cons.prems(3) by (auto simp: prefix_def)
  have "p \<le> length c'" using scan_from_bound[OF Cons.prems(1)] d by simp
  then have start: "start_offset (offset_state inode p) inode (int (length c')) = Inr p"
    by (rule start_offset_state)
  from Cons.prems(2) obtain fs1 p' fs2 where
    1: "scan_from env params c' p = Inr (fs1, p')"
    and 2: "log_scans (map (finds env inode) cs) params path (offset_state inode p') = Inr (fs2, st)"
    and fs: "fs = fs1 @ fs2"
    by (auto simp: log_scan_finds[OF start] update_offset_state rbind_eq_Inr)
  have "scan_from env params c' 0 = Inr (es @ fs1, p')"
    using scan_from_resume[OF Cons.prems(1), of d] 1 d by simp
  from Cons.IH[OF this 2] Cons.prems(3) show ?case by (auto simp: fs)
qed

text \<open>
  C6: over any sequence of runs on one log file that only grows, starting without an offset file,
  the entries of all runs together are exactly the entries of a single scan of the last content,
  in order: no line is lost, none is evaluated twice, and a line that is still being written is
  evaluated in the first run that finds it complete.
\<close>

theorem log_lines_seen_once:
  assumes "sorted_wrt prefix (c # cs)"
    and "log_scans (map (finds env inode) (c # cs)) params path (VDict []) = Inr (es, st)"
  shows "log_scan (finds env inode (last (c # cs))) params path (VDict []) = Inr (es, st)"
proof -
  from assms(2) obtain es1 p fs where 1: "scan_from env params c 0 = Inr (es1, p)"
    and 2: "log_scans (map (finds env inode) cs) params path (offset_state inode p) = Inr (fs, st)"
    and es: "es = es1 @ fs"
    by (auto simp: log_scan_finds[OF start_offset_new] update_offset_state rbind_eq_Inr)
  from log_scans_growing[OF 1 2 assms(1)] show ?thesis
    by (auto simp: log_scan_finds[OF start_offset_new] update_offset_state es simp del: last.simps)
qed

text \<open>
  An example: the engine finds a pattern that is a part of the text; the second line is first seen
  half written.
\<close>

definition literal_engine :: re_engine where
  "literal_engine = \<lparr>re_error = (\<lambda>p. None),
     re_find = (\<lambda>p t. if sublist p t then Some (Captured p) else None)\<rparr>"

definition literal_log :: log_env where
  "literal_log = \<lparr>le_re = literal_engine, le_cwd = ''/'', le_isfile = (\<lambda>p. True),
     le_isdir = (\<lambda>p. True), le_listdir = (\<lambda>p. Inr []), le_mtime = (\<lambda>p. 0),
     le_stat = (\<lambda>p. Inl OSError), le_content = (\<lambda>p. Inl OSError), le_decode = (\<lambda>e s. Inr s)\<rparr>"

definition half_line :: string where "half_line = ''ok'' @ [newline] @ ''ER''"
definition full_line :: string where "full_line = ''ok'' @ [newline] @ ''ERR'' @ [newline]"

definition err_params :: "(pyval \<times> pyval) list" where
  "err_params = [(VStr ''match'', VStr ''ERR'')]"

lemma growing_example:
  "log_scans (map (finds literal_log 7) [half_line, full_line]) err_params ''x'' (VDict [])
     = Inr ([(VInt 1, VNone)], offset_state 7 7)"
  by code_simp

theorem log_lines_seen_once_witness:
  "log_scan (finds literal_log 7 full_line) err_params ''x'' (VDict [])
     = Inr ([(VInt 1, VNone)], offset_state 7 7)"
  using log_lines_seen_once[of half_line "[full_line]", OF _ growing_example]
  by (simp add: half_line_def full_line_def prefix_def)

text \<open>
  The offset is kept only for the same file that has not shrunk. When the inode changed
  (rotation) or the file is smaller than the stored offset (truncation), the scan starts at the
  beginning; otherwise it starts at the stored offset.
\<close>

theorem rotation_restarts_scan:
  assumes "0 \<le> fsize"
  shows "start_offset (offset_state inode pos) inode' fsize
    = Inr (if inode' = inode \<and> int pos \<le> fsize then pos else 0)"
  using assms by (auto simp: start_offset_def offset_state_def py_lt_def seek_offset_def)

theorem rotation_restarts_scan_witness:
  "start_offset (offset_state 7 100) 7 40 = Inr 0"
  using rotation_restarts_scan[of 40 7 100 7] by simp

end
