(* ===== verification/ProcCollectors.thy ===== *)
theory ProcCollectors
  imports Conditions Router PyPath
begin

section \<open>Host collectors (\<open>collectors/cpu.py, memory.py, disk.py, network.py, service.py\<close>)\<close>

text \<open>
  The collectors that read the proc file system, \<open>statvfs\<close>, \<open>systemctl\<close> or the process table. What
  a file holds is a function from its path, given twice where the code reads it twice; the lemmas
  bound the percentages and the rates and show that the process table is scanned once.
\<close>

type_synonym files = "string \<Rightarrow> string res"

definition file_lines :: "string \<Rightarrow> string list" where
  "file_lines s = (let ls = split_on CHR 0x0A s in if last ls = [] then butlast ls else ls)"

definition proc_path :: "pyval \<Rightarrow> string \<Rightarrow> string" where
  "proc_path proot rest = py_str proot @ rest"

definition py_nth :: "'a list \<Rightarrow> nat \<Rightarrow> 'a res" where
  "py_nth xs i = (if i < length xs then Inr (xs ! i) else Inl IndexError)"

definition text_int :: "string \<Rightarrow> int res" where
  "text_int s = py_int (VStr s)"

text \<open>\<open>round(a / b * 100.0, 2)\<close> for two ints.\<close>

definition percent :: "int \<Rightarrow> int \<Rightarrow> pyfloat res" where
  "percent a b = rbind (int_truediv a b) (\<lambda>q. Inr (f_round (f_mul q (Fin 100)) 2))"

subsection \<open>CPU\<close>

definition read_proc_stat_cpu :: "files \<Rightarrow> pyval \<Rightarrow> (int \<times> int) res" where
  "read_proc_stat_cpu fs proot =
     rbind (fs (proc_path proot ''/stat'')) (\<lambda>content.
     let parts = py_split (takeWhile (\<lambda>c. c \<noteq> CHR 0x0A) content) in
     rbind (py_nth parts 0) (\<lambda>name.
     if name \<noteq> ''cpu'' then Inl (RuntimeError (Issue ''Unexpected /proc/stat format'' []))
     else rbind (rmapM text_int (take 8 (drop 1 parts))) (\<lambda>values.
       rbind (py_nth values 3) (\<lambda>idle.
       Inr (sum_list values, idle + (if 4 < length values then values ! 4 else 0))))))"

definition cpu_usage :: "int \<Rightarrow> int \<Rightarrow> pyfloat res" where
  "cpu_usage delta_total delta_idle =
     (if delta_total \<le> 0 then Inr (Fin 0)
      else rbind (int_truediv delta_idle delta_total) (\<lambda>q.
        Inr (f_round (f_mul (f_sub (Fin 1) q) (Fin 100)) 2)))"

definition cpu_percent :: "files \<Rightarrow> files \<Rightarrow> pyval \<Rightarrow> pyfloat res" where
  "cpu_percent fs1 fs2 proot =
     rbind (read_proc_stat_cpu fs1 proot) (\<lambda>(t1, i1).
     rbind (read_proc_stat_cpu fs2 proot) (\<lambda>(t2, i2). cpu_usage (t2 - t1) (i2 - i1)))"

definition load_avg :: "files \<Rightarrow> pyval \<Rightarrow> pyval \<Rightarrow> pyfloat res" where
  "load_avg fs mode proot =
     rbind (fs (proc_path proot ''/loadavg'')) (\<lambda>content.
     rbind (py_nth (py_split content)
       (if mode = VStr ''load1'' then 0 else if mode = VStr ''load5'' then 1 else 2)) (\<lambda>s.
     py_float (VStr s)))"

definition uptime_seconds :: "files \<Rightarrow> pyval \<Rightarrow> pyfloat res" where
  "uptime_seconds fs proot =
     rbind (fs (proc_path proot ''/uptime'')) (\<lambda>content.
     rbind (py_nth (py_split content) 0) (\<lambda>s. py_float (VStr s)))"

definition proc_root_param :: "metric_def \<Rightarrow> pyval" where
  "proc_root_param m = dflt (m_params m) ''proc_root'' (VStr ''/proc'')"

definition cpu_collect ::
  "files \<Rightarrow> files \<Rightarrow> int \<Rightarrow> pyfloat \<Rightarrow> metric_def \<Rightarrow> metric_result res" where
  "cpu_collect fs1 fs2 now duration m = (let
     mode = dflt (m_params m) ''mode'' (VStr ''percent''); proot = proc_root_param m in
     rbind (if mode = VStr ''percent'' then cpu_percent fs1 fs2 proot
            else if mode \<in> {VStr ''load1'', VStr ''load5'', VStr ''load15''} then load_avg fs1 mode proot
            else if mode = VStr ''uptime'' then uptime_seconds fs1 proot
            else Inl ValueError) (\<lambda>v.
     Inr (ok_result m ''cpu'' (str_float v)
       (py_str proot @ ''/stat (mode='' @ py_str mode @ '')'') now duration)))"

subsection \<open>Memory\<close>

type_synonym meminfo = "(string \<times> int) list"

fun add_meminfo_line :: "meminfo \<Rightarrow> string \<Rightarrow> meminfo" where
  "add_meminfo_line info line = (case py_split line of
     k # v # _ \<Rightarrow> (case parse_int v of
        Some i \<Rightarrow> adict_set info (rstrip_by (\<lambda>c. c = CHR '':'') k) i | None \<Rightarrow> info)
   | _ \<Rightarrow> info)"

definition read_meminfo :: "files \<Rightarrow> pyval \<Rightarrow> meminfo res" where
  "read_meminfo fs proot = rbind (fs (proc_path proot ''/meminfo'')) (\<lambda>content.
     Inr (foldl add_meminfo_line [] (file_lines content)))"

definition info_get :: "meminfo \<Rightarrow> string \<Rightarrow> int \<Rightarrow> int" where
  "info_get info k d = (case map_of info k of None \<Rightarrow> d | Some i \<Rightarrow> i)"

definition mem_used_percent :: "meminfo \<Rightarrow> pyfloat res" where
  "mem_used_percent info = (let total = info_get info ''MemTotal'' 0;
     available = info_get info ''MemAvailable'' (info_get info ''MemFree'' 0) in
     if total = 0 then Inr (Fin 0) else percent (total - available) total)"

definition swap_used_percent :: "meminfo \<Rightarrow> pyfloat res" where
  "swap_used_percent info = (let total = info_get info ''SwapTotal'' 0;
     free = info_get info ''SwapFree'' 0 in
     if total = 0 then Inr (Fin 0) else percent (total - free) total)"

definition memory_collect :: "files \<Rightarrow> int \<Rightarrow> pyfloat \<Rightarrow> metric_def \<Rightarrow> metric_result res" where
  "memory_collect fs now duration m = (let
     mode = dflt (m_params m) ''mode'' (VStr ''used_percent''); proot = proc_root_param m in
     rbind (read_meminfo fs proot) (\<lambda>info.
     rbind (if mode = VStr ''used_percent'' then rbind (mem_used_percent info) (\<lambda>f. Inr (str_float f))
            else if mode = VStr ''available_bytes'' then (case map_of info ''MemAvailable'' of
              None \<Rightarrow> Inl KeyError | Some i \<Rightarrow> Inr (str_int (i * 1024)))
            else if mode = VStr ''swap_used_percent''
            then rbind (swap_used_percent info) (\<lambda>f. Inr (str_float f))
            else Inl ValueError) (\<lambda>v.
     Inr (ok_result m ''memory'' v (py_str proot @ ''/meminfo (mode='' @ py_str mode @ '')'')
       now duration))))"

subsection \<open>Disk\<close>

record statvfs =
  f_frsize :: int
  f_blocks :: int
  f_bavail :: int
  f_files :: int
  f_ffree :: int

definition disk_stat :: "(pyval \<Rightarrow> statvfs res) \<Rightarrow> pyval \<Rightarrow> pyval \<Rightarrow> pyval res" where
  "disk_stat os_statvfs mount mode = rbind (os_statvfs mount) (\<lambda>st. let
     total_bytes = f_blocks st * f_frsize st;
     free_bytes = f_bavail st * f_frsize st;
     used_bytes = total_bytes - free_bytes;
     total_inodes = f_files st;
     free_inodes = f_ffree st;
     used_inodes = total_inodes - free_inodes in
     if mode = VStr ''free_bytes'' then Inr (VInt free_bytes)
     else if mode = VStr ''used_bytes'' then Inr (VInt used_bytes)
     else if mode = VStr ''used_percent'' then
       (if total_bytes = 0 then Inr (VFloat (Fin 0))
        else rbind (percent used_bytes total_bytes) (\<lambda>f. Inr (VFloat f)))
     else if mode = VStr ''inodes_total'' then Inr (VInt total_inodes)
     else if mode = VStr ''inodes_free'' then Inr (VInt free_inodes)
     else if mode = VStr ''inodes_used'' then Inr (VInt used_inodes)
     else if mode = VStr ''inodes_used_percent'' then
       (if total_inodes = 0 then Inr (VFloat (Fin 0))
        else rbind (percent used_inodes total_inodes) (\<lambda>f. Inr (VFloat f)))
     else Inl ValueError)"

definition disk_collect ::
  "(pyval \<Rightarrow> statvfs res) \<Rightarrow> int \<Rightarrow> pyfloat \<Rightarrow> metric_def \<Rightarrow> metric_result res" where
  "disk_collect os_statvfs now duration m = (let
     mount = dflt (m_params m) ''mount'' (VStr ''/'');
     mode = dflt (m_params m) ''mode'' (VStr ''used_percent'') in
     rbind (disk_stat os_statvfs mount mode) (\<lambda>v.
     Inr (ok_result m ''disk'' (py_str v)
       (''statvfs('' @ py_str mount @ '') mode='' @ py_str mode) now duration)))"

subsection \<open>Network\<close>

definition RATE_MODES :: "string list" where
  "RATE_MODES = [''rx_bytes_per_sec'', ''tx_bytes_per_sec'']"

definition DEV_MODES :: "string list" where
  "DEV_MODES = [''rx_bytes_per_sec'', ''tx_bytes_per_sec'', ''rx_bytes'', ''tx_bytes'',
     ''rx_packets'', ''tx_packets'', ''rx_errors'', ''tx_errors'', ''rx_dropped'', ''tx_dropped'']"

definition SOCKET_MODES :: "string list" where
  "SOCKET_MODES = [''tcp_inuse'', ''tcp_timewait'', ''tcp_orphans'', ''udp_inuse'']"

definition COL :: "string \<Rightarrow> nat option" where
  "COL = map_of [(''rx_bytes'', 0), (''rx_packets'', 1), (''rx_errors'', 2), (''rx_dropped'', 3),
     (''tx_bytes'', 8), (''tx_packets'', 9), (''tx_errors'', 10), (''tx_dropped'', 11)]"

type_synonym net_dev = "(string \<times> int list) list"

fun parse_dev_lines :: "string list \<Rightarrow> net_dev \<Rightarrow> net_dev res" where
  "parse_dev_lines [] acc = Inr acc"
| "parse_dev_lines (line # ls) acc = (case py_partition CHR '':'' line of (iface, _, data) \<Rightarrow>
     rbind (rmapM text_int (py_split data)) (\<lambda>counters.
     parse_dev_lines ls (adict_set acc (py_strip iface) counters)))"

definition parse_net_dev :: "files \<Rightarrow> pyval \<Rightarrow> net_dev res" where
  "parse_net_dev fs proot = rbind (fs (proc_path proot ''/net/dev'')) (\<lambda>content.
     parse_dev_lines (drop 2 (file_lines content)) [])"

definition get_counters :: "net_dev \<Rightarrow> pyval \<Rightarrow> nat \<Rightarrow> int res" where
  "get_counters data interface col =
     (if interface = VStr ''total''
      then rbind (rmapM (\<lambda>p. py_nth (snd p) col) (filter (\<lambda>p. fst p \<noteq> ''lo'') data))
             (\<lambda>xs. Inr (sum_list xs))
      else if \<not> hashable interface then Inl TypeError
      else (case interface of
        VStr name \<Rightarrow> (case map_of data name of None \<Rightarrow> Inl ValueError | Some cs \<Rightarrow> py_nth cs col)
      | _ \<Rightarrow> Inl ValueError))"

definition col_of :: "string \<Rightarrow> nat res" where
  "col_of mode = (case COL mode of None \<Rightarrow> Inl KeyError | Some c \<Rightarrow> Inr c)"

definition net_counter :: "files \<Rightarrow> pyval \<Rightarrow> string \<Rightarrow> pyval \<Rightarrow> int res" where
  "net_counter fs interface mode proot =
     rbind (col_of mode) (\<lambda>col. rbind (parse_net_dev fs proot) (\<lambda>data. get_counters data interface col))"

definition net_rate :: "files \<Rightarrow> files \<Rightarrow> pyval \<Rightarrow> string \<Rightarrow> pyval \<Rightarrow> pyfloat res" where
  "net_rate fs1 fs2 interface mode proot =
     rbind (col_of (str_replace ''_per_sec'' '''' mode)) (\<lambda>col.
     rbind (parse_net_dev fs1 proot) (\<lambda>data1.
     rbind (parse_net_dev fs2 proot) (\<lambda>data2.
     rbind (get_counters data1 interface col) (\<lambda>v1.
     rbind (get_counters data2 interface col) (\<lambda>v2.
     rbind (float_of_int (max 0 (v2 - v1))) (\<lambda>f. Inr (f_round f 2)))))))"

definition sock_field :: "string \<Rightarrow> (string \<times> string) res" where
  "sock_field mode = (case map_of [(''tcp_inuse'', (''TCP'', ''inuse'')),
       (''tcp_timewait'', (''TCP'', ''tw'')), (''tcp_orphans'', (''TCP'', ''orphan'')),
       (''udp_inuse'', (''UDP'', ''inuse''))] mode of None \<Rightarrow> Inl KeyError | Some p \<Rightarrow> Inr p)"

text \<open>The key-value pairs that follow the protocol name; a last key without a value is ignored.\<close>

fun find_pair :: "string \<Rightarrow> string list \<Rightarrow> string option" where
  "find_pair field (k # v # rest) = (if k = field then Some v else find_pair field rest)"
| "find_pair field _ = None"

fun find_sock :: "string \<Rightarrow> string \<Rightarrow> string list \<Rightarrow> int res" where
  "find_sock proto field [] = Inl (RuntimeError (Issue ''Field not found'' [VStr field, VStr proto]))"
| "find_sock proto field (line # ls) =
     (if \<not> startswith line (proto @ '':'') then find_sock proto field ls
      else (case find_pair field (drop 1 (py_split line)) of
        Some v \<Rightarrow> text_int v | None \<Rightarrow> find_sock proto field ls))"

definition sockstat :: "files \<Rightarrow> string \<Rightarrow> pyval \<Rightarrow> int res" where
  "sockstat fs mode proot =
     rbind (fs (proc_path proot ''/net/sockstat'')) (\<lambda>content.
     rbind (sock_field mode) (\<lambda>(proto, field). find_sock proto field (py_splitlines content)))"

definition network_collect ::
  "files \<Rightarrow> files \<Rightarrow> int \<Rightarrow> pyfloat \<Rightarrow> metric_def \<Rightarrow> metric_result res" where
  "network_collect fs1 fs2 now duration m = (let
     mode = dflt (m_params m) ''mode'' VNone; ms = py_str mode; proot = proc_root_param m;
     interface = dflt (m_params m) ''interface'' (VStr ''total'');
     src = (\<lambda>tl. Inr (py_str proot @ ''/net/dev iface='' @ py_str interface @ '' mode='' @ ms @ tl)) in
     rbind (py_in_strs mode RATE_MODES) (\<lambda>is_rate.
     rbind (py_in_strs mode DEV_MODES) (\<lambda>is_dev.
     rbind (py_in_strs mode SOCKET_MODES) (\<lambda>is_sock.
     rbind (if is_rate then rbind (net_rate fs1 fs2 interface ms proot) (\<lambda>f. Inr (str_float f))
            else if is_dev then rbind (net_counter fs1 interface ms proot) (\<lambda>i. Inr (str_int i))
            else if is_sock then rbind (sockstat fs1 ms proot) (\<lambda>i. Inr (str_int i))
            else Inl ValueError) (\<lambda>v.
     rbind (if is_rate then src '' (rate)'' else if is_dev then src ''''
            else Inr (py_str proot @ ''/net/sockstat mode='' @ ms)) (\<lambda>source.
     Inr (ok_result m ''network'' v source now duration)))))))"

subsection \<open>Services\<close>

text \<open>What running \<open>systemctl is-active\<close> does.\<close>

datatype systemctl = Exited int | TimedOut | NotInstalled | Failed exn

definition systemd_check :: "(pyval \<Rightarrow> systemctl) \<Rightarrow> pyval \<Rightarrow> int res" where
  "systemd_check run service_name = (case run service_name of
     Exited st \<Rightarrow> Inr (if st = 0 then 1 else 0)
   | TimedOut \<Rightarrow> Inr 0
   | NotInstalled \<Rightarrow> Inl (RuntimeError (Issue ''systemctl not found'' []))
   | Failed e \<Rightarrow> Inl e)"

record proc_table =
  pt_scandir :: "string \<Rightarrow> string list res"
  pt_cmdline :: "string \<Rightarrow> string res"
  pt_decode :: "string \<Rightarrow> string"

type_synonym cmdlines = "(string \<times> string list) list"

definition vanished :: "exn \<Rightarrow> bool" where
  "vanished e \<longleftrightarrow> e = PermissionError \<or> e = FileNotFoundError \<or> e = OtherError ''ProcessLookupError''"

definition read_cmdline :: "proc_table \<Rightarrow> string \<Rightarrow> string \<Rightarrow> string option res" where
  "read_cmdline pt proot name = (case pt_cmdline pt (proot @ ''/'' @ name @ ''/cmdline'') of
     Inr raw \<Rightarrow> Inr (Some (pt_decode pt (map (\<lambda>c. if c = CHR 0x00 then CHR 0x20 else c) raw)))
   | Inl e \<Rightarrow> if vanished e then Inr None else Inl e)"

definition scan_cmdlines :: "proc_table \<Rightarrow> string \<Rightarrow> string list res" where
  "scan_cmdlines pt proot = (case pt_scandir pt proot of
     Inl e \<Rightarrow> Inl (if e = PermissionError then RuntimeError (Issue ''Cannot scan'' [VStr proot]) else e)
   | Inr entries \<Rightarrow> rbind (rmapM (read_cmdline pt proot) (filter py_isdigit entries)) (\<lambda>cs.
       Inr (map the (filter (\<lambda>c. c \<noteq> None) cs))))"

definition process_check ::
  "re_engine \<Rightarrow> proc_table \<Rightarrow> pyval \<Rightarrow> string \<Rightarrow> (exn, cmdlines, int) st" where
  "process_check re pt pattern proot =
     bindM (lift (re_compile re pattern)) (\<lambda>p.
     bindM getM (\<lambda>cache.
     bindM (case map_of cache proot of Some cs \<Rightarrow> ret cs
            | None \<Rightarrow> bindM (lift (scan_cmdlines pt proot)) (\<lambda>cs.
                bindM (modifyM (\<lambda>c. adict_set c proot cs)) (\<lambda>_. ret cs))) (\<lambda>cs.
     ret (if \<exists>c \<in> set cs. re_find re p c \<noteq> None then 1 else 0))))"

definition service_collect ::
  "re_engine \<Rightarrow> proc_table \<Rightarrow> (pyval \<Rightarrow> systemctl) \<Rightarrow> int \<Rightarrow> pyfloat \<Rightarrow> metric_def
     \<Rightarrow> (exn, cmdlines, metric_result) st" where
  "service_collect re pt run now duration m = (let
     mode = dflt (m_params m) ''check_mode'' (VStr ''systemd'') in
     if mode = VStr ''systemd'' then
       bindM (lift (vindex (VDict (m_params m)) ''service_name'')) (\<lambda>name.
       bindM (lift (systemd_check run name)) (\<lambda>state.
       ret (ok_result m ''service'' (str_int state) (''systemctl is-active '' @ py_str name) now duration)))
     else if mode = VStr ''process'' then
       bindM (lift (vindex (VDict (m_params m)) ''process_pattern'')) (\<lambda>pattern.
       bindM (process_check re pt pattern (py_str (proc_root_param m))) (\<lambda>state.
       ret (ok_result m ''service'' (str_int state)
         (''proc scan pattern='' @ py_str pattern @ '' root='' @ py_str (proc_root_param m)) now duration)))
     else raise ValueError)"

subsection \<open>Percentages\<close>

lemma int_quot_unit:
  assumes "0 \<le> a" and "a \<le> b" and "0 < b"
  shows "\<exists>x. int_quot a b = Fin x \<and> 0 \<le> x \<and> x \<le> 1"
proof (cases "a = 0")
  case True
  then show ?thesis using assms by (simp add: int_quot_def)
next
  case False
  have "(0::rat) \<le> of_int a / of_int b" "(of_int a / of_int b :: rat) \<le> 1"
    using assms by (simp_all add: divide_le_eq)
  then show ?thesis using rnd_range[of 0 "of_int a / of_int b" 1] False by (simp add: int_quot_def)
qed

lemma f_mul_hundred:
  assumes "0 \<le> x" and "x \<le> 1"
  shows "\<exists>y. f_mul (Fin x) (Fin 100) = Fin y \<and> 0 \<le> y \<and> y \<le> 100"
proof (cases "x = 0")
  case True
  then show ?thesis by (simp add: f_mul_def)
next
  case False
  have "(of_int 0::rat) \<le> x * 100" "x * 100 \<le> of_int 100" using assms by simp_all
  from rnd_range[OF this] show ?thesis using False by (simp add: f_mul_def)
qed

lemma round_hundred:
  assumes "0 \<le> y" and "y \<le> 100"
  shows "\<exists>z. f_round (Fin y) n = Fin z \<and> 0 \<le> z \<and> z \<le> 100"
  using f_round_range[of 0 y 100 n] assms by simp

definition is_percentage :: "pyfloat \<Rightarrow> bool" where
  "is_percentage f \<longleftrightarrow> (\<exists>z. f = Fin z \<and> 0 \<le> z \<and> z \<le> 100)"

lemma percent_range:
  assumes "0 \<le> a" and "a \<le> b" and "0 < b"
  shows "\<exists>f. percent a b = Inr f \<and> is_percentage f"
proof -
  obtain x where x: "int_quot a b = Fin x" "0 \<le> x" "x \<le> 1" using int_quot_unit[OF assms] by blast
  obtain y where y: "f_mul (Fin x) (Fin 100) = Fin y" "0 \<le> y" "y \<le> 100"
    using f_mul_hundred[OF x(2,3)] by blast
  show ?thesis using x y round_hundred[OF y(2,3), of 2] assms(3)
    by (auto simp: percent_def int_truediv_def is_percentage_def)
qed

lemma cpu_usage_range:
  assumes "0 \<le> i" and "i \<le> t"
  shows "\<exists>f. cpu_usage t i = Inr f \<and> is_percentage f"
proof (cases "t \<le> 0")
  case True
  then show ?thesis by (simp add: cpu_usage_def is_percentage_def)
next
  case False
  obtain x where x: "int_quot i t = Fin x" "0 \<le> x" "x \<le> 1"
    using int_quot_unit[OF assms] False by auto
  have "\<exists>u. f_sub (Fin 1) (Fin x) = Fin u \<and> 0 \<le> u \<and> u \<le> 1"
  proof (cases "x = 0")
    case True
    then show ?thesis by (simp add: f_sub_def)
  next
    case False
    then show ?thesis using rnd_range[of 0 "1 - x" 1] x by (simp add: f_sub_def)
  qed
  then obtain u where u: "f_sub (Fin 1) (Fin x) = Fin u" "0 \<le> u" "u \<le> 1" by blast
  obtain y where y: "f_mul (Fin u) (Fin 100) = Fin y" "0 \<le> y" "y \<le> 100"
    using f_mul_hundred[OF u(2,3)] by blast
  show ?thesis using x u y round_hundred[OF y(2,3), of 2] False
    by (auto simp: cpu_usage_def int_truediv_def is_percentage_def)
qed

subsection \<open>The contract of a collector\<close>

text \<open>
  What the runner and the router rely on of \<open>BaseCollector.collect\<close>: a result is filed under the
  metric's own key and delivery, with status ok and a value.
\<close>

locale base_collector =
  fixes collect :: "metric_def \<Rightarrow> metric_result res"
  assumes collect_result: "collect m = Inr r \<Longrightarrow>
    r_key r = m_key m \<and> r_delivery r = m_delivery m \<and> r_status r = RESULT_OK \<and> r_value r \<noteq> None"
begin

lemma collected_sendable: "collect m = Inr r \<Longrightarrow> is_sendable r"
  using collect_result by (simp add: is_sendable_def)

lemma collected_routed:
  "rmapM collect ms = Inr rs \<Longrightarrow>
     map r_key (fst (route rs)) = map m_key (filter (\<lambda>m. m_delivery m \<noteq> DELIVERY_IMMEDIATE) ms)
   \<and> map r_key (snd (route rs)) = map m_key (filter (\<lambda>m. m_delivery m = DELIVERY_IMMEDIATE) ms)"
proof (induction ms arbitrary: rs)
  case Nil
  then show ?case by (simp add: route_filter)
next
  case (Cons m ms)
  from Cons.prems obtain r rs' where r: "collect m = Inr r" and rs': "rmapM collect ms = Inr rs'"
    and rs: "rs = r # rs'" by auto
  show ?case using collect_result[OF r] collected_sendable[OF r] Cons.IH[OF rs']
    by (auto simp: rs route_filter goes_batch_def goes_immediate_def)
qed

end

lemma ok_result_contract:
  "r_key (ok_result m c v s n d) = m_key m \<and> r_delivery (ok_result m c v s n d) = m_delivery m
   \<and> r_status (ok_result m c v s n d) = RESULT_OK \<and> r_value (ok_result m c v s n d) \<noteq> None"
  by simp

interpretation cpu: base_collector "cpu_collect fs1 fs2 now duration" for fs1 fs2 now duration
  by unfold_locales (auto simp: cpu_collect_def Let_def rbind_eq_Inr)

interpretation memory: base_collector "memory_collect fs now duration" for fs now duration
  by unfold_locales (auto simp: memory_collect_def Let_def rbind_eq_Inr)

interpretation disk: base_collector "disk_collect stat now duration" for stat now duration
  by unfold_locales (auto simp: disk_collect_def Let_def rbind_eq_Inr)

interpretation network: base_collector "network_collect fs1 fs2 now duration" for fs1 fs2 now duration
  by unfold_locales (auto simp: network_collect_def Let_def rbind_eq_Inr)

interpretation service: base_collector "\<lambda>m. fst (service_collect re pt run now duration m cache)"
  for re pt run now duration cache
  by unfold_locales
    (auto simp: service_collect_def Let_def bindM_def split: if_splits sum.splits prod.splits)

subsection \<open>Properties\<close>

text \<open>
  Between two readings of the CPU counters in which the idle time did not go down and did not
  grow by more than the total, the reported CPU utilisation is a number from 0 to 100, rounding of
  the binary64 arithmetic included. A total that did not grow gives 0.
\<close>

theorem cpu_percent_in_range:
  assumes "read_proc_stat_cpu fs1 proot = Inr (t1, i1)" and "read_proc_stat_cpu fs2 proot = Inr (t2, i2)"
    and "i1 \<le> i2" and "i2 - i1 \<le> t2 - t1"
  shows "\<exists>z. cpu_percent fs1 fs2 proot = Inr (Fin z) \<and> 0 \<le> z \<and> z \<le> 100"
proof -
  obtain f where "cpu_usage (t2 - t1) (i2 - i1) = Inr f" "is_percentage f"
    using cpu_usage_range[of "i2 - i1" "t2 - t1"] assms(3,4) by auto
  then show ?thesis using assms(1,2) by (auto simp: cpu_percent_def is_percentage_def)
qed

definition stat_file :: "string \<Rightarrow> files" where
  "stat_file text p = (if p = ''/proc/stat'' then Inr text else Inl FileNotFoundError)"

lemma read_stat_example:
  "read_proc_stat_cpu (stat_file ''cpu 10 0 10 70 10'') (VStr ''/proc'') = Inr (100, 80)"
  "read_proc_stat_cpu (stat_file ''cpu 40 0 20 120 20'') (VStr ''/proc'') = Inr (200, 140)"
  by code_simp+

theorem cpu_percent_in_range_witness:
  "\<exists>z. cpu_percent (stat_file ''cpu 10 0 10 70 10'') (stat_file ''cpu 40 0 20 120 20'') (VStr ''/proc'')
     = Inr (Fin z) \<and> 0 \<le> z \<and> z \<le> 100"
  using cpu_percent_in_range[OF read_stat_example] by simp

text \<open>
  For a file system whose available blocks do not exceed its blocks and whose free inodes do
  not exceed its inodes, the used percentages of blocks and of inodes are numbers from 0 to 100; a
  file system without inodes, or without blocks, reports 0 instead of dividing by zero. The same
  holds of the used memory when the available memory does not exceed the total.
\<close>

theorem used_percent_in_range:
  assumes "stat mount = Inr st" and "0 < f_frsize st" and "0 \<le> f_bavail st" "f_bavail st \<le> f_blocks st"
    and "0 \<le> f_ffree st" "f_ffree st \<le> f_files st"
    and "mode \<in> {VStr ''used_percent'', VStr ''inodes_used_percent''}"
    and "0 \<le> info_get info ''MemAvailable'' (info_get info ''MemFree'' 0)"
    and "info_get info ''MemAvailable'' (info_get info ''MemFree'' 0) \<le> info_get info ''MemTotal'' 0"
  shows "(\<exists>z. disk_stat stat mount mode = Inr (VFloat (Fin z)) \<and> 0 \<le> z \<and> z \<le> 100)
    \<and> (\<exists>z. mem_used_percent info = Inr (Fin z) \<and> 0 \<le> z \<and> z \<le> 100)"
proof -
  have mem: "\<exists>z. mem_used_percent info = Inr (Fin z) \<and> 0 \<le> z \<and> z \<le> 100"
    using percent_range[of "info_get info ''MemTotal'' 0
        - info_get info ''MemAvailable'' (info_get info ''MemFree'' 0)" "info_get info ''MemTotal'' 0"] assms(8,9)
    by (cases "info_get info ''MemTotal'' 0 = 0")
      (auto simp: mem_used_percent_def Let_def is_percentage_def)
  let ?total = "f_blocks st * f_frsize st"
  let ?used = "?total - f_bavail st * f_frsize st"
  have le: "f_bavail st * f_frsize st \<le> ?total" using assms(2,4) by simp
  have blocks: "\<exists>f. percent ?used ?total = Inr f \<and> is_percentage f" if "?total \<noteq> 0"
    by (rule percent_range) (use le that assms(2-4) in \<open>auto simp: zero_less_mult_iff\<close>)
  have inodes: "\<exists>f. percent (f_files st - f_ffree st) (f_files st) = Inr f \<and> is_percentage f"
    if "f_files st \<noteq> 0"
    by (rule percent_range) (use that assms(5,6) in auto)
  have "\<exists>z. disk_stat stat mount mode = Inr (VFloat (Fin z)) \<and> 0 \<le> z \<and> z \<le> 100"
  proof (cases "mode = VStr ''used_percent''")
    case True
    then have "disk_stat stat mount mode = (if ?total = 0 then Inr (VFloat (Fin 0))
        else rbind (percent ?used ?total) (\<lambda>f. Inr (VFloat f)))"
      using assms(1) by (simp add: disk_stat_def Let_def)
    then show ?thesis using blocks by (cases "?total = 0") (auto simp: is_percentage_def)
  next
    case False
    then have "mode = VStr ''inodes_used_percent''" using assms(7) by blast
    then have "disk_stat stat mount mode = (if f_files st = 0 then Inr (VFloat (Fin 0))
        else rbind (percent (f_files st - f_ffree st) (f_files st)) (\<lambda>f. Inr (VFloat f)))"
      using assms(1) by (simp add: disk_stat_def Let_def)
    then show ?thesis using inodes by (cases "f_files st = 0") (auto simp: is_percentage_def)
  qed
  with mem show ?thesis by blast
qed

definition btrfs :: statvfs where
  "btrfs = \<lparr>f_frsize = 4096, f_blocks = 1000, f_bavail = 250, f_files = 0, f_ffree = 0\<rparr>"

theorem used_percent_in_range_witness:
  "\<exists>z. disk_stat (\<lambda>m. Inr btrfs) (VStr ''/'') (VStr ''used_percent'') = Inr (VFloat (Fin z))
     \<and> 0 \<le> z \<and> z \<le> 100"
proof -
  have "0 < f_frsize btrfs" "0 \<le> f_bavail btrfs" "f_bavail btrfs \<le> f_blocks btrfs"
    "0 \<le> f_ffree btrfs" "f_ffree btrfs \<le> f_files btrfs" by (simp_all add: btrfs_def)
  moreover have "info_get [] k 0 = 0" for k by (simp add: info_get_def)
  ultimately show ?thesis
    using used_percent_in_range[of "\<lambda>m. Inr btrfs" "VStr ''/''" btrfs "VStr ''used_percent''" "[]"]
    by simp
qed

text \<open>
  the process table under a proc root is scanned at most once per run: after one check that
  returned, every later check of the same root gives the same answer whatever the process table
  holds by then, and leaves the cache as it is.
\<close>

theorem process_table_scanned_once:
  assumes "process_check re pt p1 proot cache = (Inr a, cache')"
  shows "process_check re pt' p2 proot cache' = process_check re pt p2 proot cache'
    \<and> snd (process_check re pt' p2 proot cache') = cache'"
proof -
  have "\<exists>cs. map_of cache' proot = Some cs"
    using assms by (auto simp: process_check_def bindM_def split: sum.splits prod.splits option.splits)
  then show ?thesis by (auto simp: process_check_def bindM_def split: sum.splits)
qed

theorem process_table_scanned_once_witness:
  "snd (process_check \<lparr>re_error = (\<lambda>p. None), re_find = (\<lambda>p t. None)\<rparr>
      \<lparr>pt_scandir = (\<lambda>p. Inl PermissionError), pt_cmdline = (\<lambda>p. Inl OSError), pt_decode = (\<lambda>s. s)\<rparr>
      (VStr ''q'') ''/proc'' [(''/proc'', [])]) = [(''/proc'', [])]"
  by (rule process_table_scanned_once[THEN conjunct2, of _
        "\<lparr>pt_scandir = (\<lambda>p. Inr []), pt_cmdline = (\<lambda>p. Inl OSError), pt_decode = (\<lambda>s. s)\<rparr>"
        "VStr ''p''" _ "[]" 0])
    (simp add: process_check_def bindM_def scan_cmdlines_def)

text \<open>
  whatever a host collector returns is sendable and filed under the metric's key and delivery,
  so the router puts it in the immediate list exactly for an immediate metric and in the batch list
  otherwise.
\<close>

theorem host_results_are_routed:
  assumes "cpu_collect fs1 fs2 now d m = Inr r \<or> memory_collect fs1 now d m = Inr r
    \<or> disk_collect stat now d m = Inr r \<or> network_collect fs1 fs2 now d m = Inr r
    \<or> fst (service_collect re pt run now d m cache) = Inr r"
  shows "r_key r = m_key m \<and>
    route [r] = (if m_delivery m = DELIVERY_IMMEDIATE then ([], [r]) else ([r], []))"
proof -
  have "r_key r = m_key m \<and> r_delivery r = m_delivery m \<and> is_sendable r"
    using assms cpu.collect_result memory.collect_result disk.collect_result
      network.collect_result service.collect_result
      cpu.collected_sendable memory.collected_sendable disk.collected_sendable
      network.collected_sendable service.collected_sendable by metis
  then show ?thesis by (simp add: route_filter goes_batch_def goes_immediate_def)
qed

definition uptime_metric :: metric_def where
  "uptime_metric = (example_metric ''up'' ''cpu'')\<lparr>m_params := [(VStr ''mode'', VStr ''uptime'')]\<rparr>"

theorem host_results_are_routed_witness:
  "\<exists>r. cpu_collect (\<lambda>p. Inr ''5.00 9.10'') (\<lambda>p. Inr '''') 0 (Fin 0) uptime_metric = Inr r
     \<and> route [r] = ([r], [])"
proof -
  have "uptime_seconds (\<lambda>p. Inr ''5.00 9.10'') (VStr ''/proc'') = Inr (Fin 5)" by code_simp
  then obtain r where r: "cpu_collect (\<lambda>p. Inr ''5.00 9.10'') (\<lambda>p. Inr '''') 0 (Fin 0) uptime_metric = Inr r"
    by (simp add: cpu_collect_def dflt_def proc_root_param_def uptime_metric_def example_metric_def)
  moreover have "m_delivery uptime_metric \<noteq> DELIVERY_IMMEDIATE"
    by (simp add: uptime_metric_def example_metric_def delivery_defs)
  ultimately show ?thesis using host_results_are_routed[OF disjI1[OF r]] by simp
qed

end
