(* ===== verification/ProbeCollector.thy ===== *)
theory ProbeCollector
  imports Conditions Router
begin

section \<open>Network endpoint probes (\<open>collectors/probe.py\<close>)\<close>

text \<open>
  TCP and HTTP probes. What the network does is a \<open>probe_env\<close>: the outcome of a TCP connection, of
  a TLS handshake, of an HTTP request, and how a URL is taken apart. The cache of HTTP sessions is
  the state. The lemmas show that a probe returns a value whether the endpoint is up or not, and
  that each requested sub-item is present exactly once.
\<close>

datatype tls = CertTrusted | CertInvalid | HandshakeFailed | TlsRaises exn

record url_parts =
  url_scheme :: string
  url_host :: "string option"
  url_port :: "int option res"

text \<open>A response: its status, and its body read up to a number of bytes and decoded.\<close>

record http_response =
  http_status :: int
  http_body :: "int \<Rightarrow> string res"

record probe_env =
  pe_re :: re_engine
  pe_tcp :: "pyval \<Rightarrow> int \<Rightarrow> exn option"
  pe_tls :: "string \<Rightarrow> int \<Rightarrow> tls"
  pe_url :: "pyval \<Rightarrow> url_parts res"
  pe_http :: "string \<Rightarrow> pyval \<Rightarrow> pyval \<Rightarrow> http_response res"
  pe_now :: int
  pe_elapsed :: pyfloat

type_synonym session_key = "string \<times> string \<times> int"

definition param_or_key_error :: "(pyval \<times> pyval) list \<Rightarrow> string \<Rightarrow> pyval res" where
  "param_or_key_error params k = (case dget params k of None \<Rightarrow> Inl KeyError | Some v \<Rightarrow> Inr v)"

text \<open>The primary result, and a sub-item: id and key get a suffix.\<close>

definition probe_result ::
  "probe_env \<Rightarrow> metric_def \<Rightarrow> string \<Rightarrow> pyval \<Rightarrow> string \<Rightarrow> metric_result" where
  "probe_result env m val host source =
     (ok_result m ''probe'' val source (pe_now env) (pe_elapsed env))\<lparr>r_host_name := host\<rparr>"

definition sub_result ::
  "probe_env \<Rightarrow> metric_def \<Rightarrow> string \<Rightarrow> string \<Rightarrow> string \<Rightarrow> string \<Rightarrow> string \<Rightarrow> metric_result" where
  "sub_result env m id_suffix key_suffix val unit source =
     (ok_result m ''probe'' val source (pe_now env) (pe_elapsed env))
       \<lparr>r_metric_id := VStr (py_str (m_id m) @ id_suffix),
        r_key := VStr (py_str (m_key m) @ key_suffix), r_value_type := ''int'', r_unit := unit\<rparr>"

subsection \<open>TCP\<close>

definition run_tcp_probe :: "probe_env \<Rightarrow> metric_def \<Rightarrow> metric_result list res" where
  "run_tcp_probe env m = (let params = m_params m in
     rbind (param_or_key_error params ''host'') (\<lambda>host.
     rbind (rbind (param_or_key_error params ''port'') py_int) (\<lambda>port.
     rbind (case pe_tcp env host port of None \<Rightarrow> Inr True
            | Some e \<Rightarrow> if is_os_error e then Inr False else Inl e) (\<lambda>success.
     let primary = dflt params (if success then ''on_success'' else ''on_failure'')
                     (VInt (if success then 1 else 0));
         source = ''tcp host='' @ py_str host @ '' port='' @ str_int port;
         first = probe_result env m (py_str primary) (host_value (m_host_name m)) source in
     if \<not> truthy (dflt params ''response_time_ms'' (VBool False)) then Inr [first]
     else rbind (if success then py_int (VFloat (pe_elapsed env)) else Inr 0) (\<lambda>ms.
       Inr [first, sub_result env m ''._rt'' ''.response_time_ms'' (str_int ms) ''ms'' source])))))"

subsection \<open>HTTP\<close>

definition ssl_cert_check :: "probe_env \<Rightarrow> string \<Rightarrow> int \<Rightarrow> int res" where
  "ssl_cert_check env host port = (case pe_tls env host port of
     CertTrusted \<Rightarrow> Inr 1 | CertInvalid \<Rightarrow> Inr 0 | HandshakeFailed \<Rightarrow> Inr 2
   | TlsRaises e \<Rightarrow> if is_os_error e then Inr 2 else Inl e)"

definition eval_http_status ::
  "re_engine \<Rightarrow> string \<Rightarrow> pyval \<Rightarrow> pyval \<Rightarrow> (pyval \<times> pyval) res" where
  "eval_http_status re status_str conditions default_value =
     rbind (py_iter conditions) (\<lambda>cs. rbind (eval_conditions re cs status_str) (\<lambda>r.
     Inr (if fst r \<noteq> VNone then r else (default_value, VNone))))"

text \<open>The loop over the lines of a body; \<open>None\<close> entries are lines without a value.\<close>

definition body_line ::
  "re_engine \<Rightarrow> string option \<Rightarrow> pyval \<Rightarrow> string \<Rightarrow> (pyval \<times> pyval) option res" where
  "body_line re match_re conditions line = (case match_re of
     Some p \<Rightarrow> if re_find re p line = None then Inr None else line_entry re conditions line
   | None \<Rightarrow> line_entry re conditions line)"

definition eval_http_body ::
  "re_engine \<Rightarrow> string \<Rightarrow> pyval \<Rightarrow> pyval \<Rightarrow> pyval \<Rightarrow> pyval \<Rightarrow> (pyval \<times> pyval) res" where
  "eval_http_body re body match_pattern conditions strategy default_value =
     (if body = [] then Inr (default_value, VNone)
      else rbind (if truthy match_pattern then rbind (re_compile re match_pattern) (\<lambda>p. Inr (Some p))
                  else Inr None) (\<lambda>match_re.
        rbind (rmapM (body_line re match_re conditions) (py_splitlines body)) (\<lambda>es.
        let entries = map the (filter (\<lambda>e. e \<noteq> None) es) in
        if entries = [] then Inr (default_value, VNone)
        else resolve_result_with_host entries strategy)))"

text \<open>
  The request inside \<open>try ... except Exception: pass\<close>: the status and the body, or nothing when
  anything in the block raised. The session of the endpoint is created before the request.
\<close>

definition http_attempt ::
  "probe_env \<Rightarrow> string \<Rightarrow> pyval \<Rightarrow> pyval \<Rightarrow> bool \<Rightarrow> int \<Rightarrow> (int \<times> string) res" where
  "http_attempt env meth url headers want_body max_bytes =
     rbind (pe_http env meth url headers) (\<lambda>resp.
     rbind (if want_body then http_body resp max_bytes else Inr '''') (\<lambda>body.
     Inr (http_status resp, body)))"

definition open_session :: "session_key \<Rightarrow> session_key list \<Rightarrow> session_key list" where
  "open_session k sessions = (if k \<in> set sessions then sessions else sessions @ [k])"

definition http_value ::
  "probe_env \<Rightarrow> (pyval \<times> pyval) list \<Rightarrow> pyval \<Rightarrow> (int \<times> string) option \<Rightarrow> (pyval \<times> pyval) res" where
  "http_value env params mode answer = (let
     default_value = dflt params ''default_value'' (VInt 0);
     conditions = dflt params ''conditions'' (VList []) in
     case answer of
       None \<Rightarrow> Inr (default_value, VNone)
     | Some (status, body) \<Rightarrow>
         if mode = VStr ''http_status'' then
           (if truthy conditions
            then eval_http_status (pe_re env) (str_int status) conditions default_value
            else Inr (VInt status, VNone))
         else eval_http_body (pe_re env) body (dflt params ''match'' VNone) conditions
                (dflt params ''result'' (VStr ''last'')) default_value)"

definition run_http_probe ::
  "probe_env \<Rightarrow> metric_def \<Rightarrow> (exn, session_key list, metric_result list) st" where
  "run_http_probe env m = (let params = m_params m in
     bindM (lift (param_or_key_error params ''url'')) (\<lambda>url.
     bindM (lift (param_or_key_error params ''mode'')) (\<lambda>mode.
     bindM (lift (case dflt params ''method'' (VStr ''GET'') of
        VStr s \<Rightarrow> Inr (py_upper s) | _ \<Rightarrow> Inl AttributeError)) (\<lambda>meth.
     bindM (lift (py_int (dflt params ''max_response_bytes'' (VInt 65536)))) (\<lambda>max_bytes.
     bindM (lift (pe_url env url)) (\<lambda>parsed.
     bindM (lift (url_port parsed)) (\<lambda>explicit_port.
     let host = (case url_host parsed of None \<Rightarrow> '''' | Some h \<Rightarrow> h);
         port = (case explicit_port of Some p \<Rightarrow> if p \<noteq> 0 then p
                   else (if url_scheme parsed = ''https'' then 443 else 80)
                 | None \<Rightarrow> (if url_scheme parsed = ''https'' then 443 else 80));
         want_rt = truthy (dflt params ''response_time_ms'' (VBool False));
         want_ssl = truthy (dflt params ''ssl_check'' (VBool False));
         source = ''http mode='' @ py_str mode @ '' url='' @ py_str url in
     bindM (lift (if want_ssl then ssl_cert_check env host port else Inr 2)) (\<lambda>ssl.
     bindM (modifyM (open_session (url_scheme parsed, host, port))) (\<lambda>_.
     bindM (lift (case http_attempt env meth url (py_or (dflt params ''headers'' VNone) (VDict []))
                     (mode = VStr ''http_body'') max_bytes of
              Inr a \<Rightarrow> Inr (Some a) | Inl e \<Rightarrow> if is_exception e then Inr None else Inl e)) (\<lambda>answer.
     bindM (lift (http_value env params mode answer)) (\<lambda>v.
     bindM (lift (if want_rt \<and> answer \<noteq> None then py_int (VFloat (pe_elapsed env)) else Inr 0)) (\<lambda>ms.
     ret ([probe_result env m (py_str (fst v)) (py_or (snd v) (host_value (m_host_name m))) source]
        @ (if want_rt then [sub_result env m ''._rt'' ''.response_time_ms'' (str_int ms) ''ms'' source]
           else [])
        @ (if want_ssl then [sub_result env m ''._ssl'' ''.ssl_check'' (str_int ssl) '''' source]
           else []))))))))))))))"

definition probe_collect ::
  "probe_env \<Rightarrow> metric_def \<Rightarrow> (exn, session_key list, metric_result list) st" where
  "probe_collect env m = (let mode = dflt (m_params m) ''mode'' VNone in
     if mode = VStr ''tcp'' then lift (run_tcp_probe env m)
     else if mode = VStr ''http_status'' \<or> mode = VStr ''http_body'' then run_http_probe env m
     else raise ValueError)"

subsection \<open>Properties\<close>

lemma probe_result_fields [simp]:
  "r_key (probe_result env m v h s) = m_key m" "r_delivery (probe_result env m v h s) = m_delivery m"
  "r_value (probe_result env m v h s) = Some v" "is_sendable (probe_result env m v h s)"
  by (simp_all add: probe_result_def ok_result_def is_sendable_def)

lemma sub_result_fields [simp]:
  "r_key (sub_result env m i k v u s) = VStr (py_str (m_key m) @ k)"
  "r_delivery (sub_result env m i k v u s) = m_delivery m"
  "r_value (sub_result env m i k v u s) = Some v" "is_sendable (sub_result env m i k v u s)"
  by (simp_all add: sub_result_def ok_result_def is_sendable_def)

definition wants :: "metric_def \<Rightarrow> string \<Rightarrow> bool" where
  "wants m k \<longleftrightarrow> truthy (dflt (m_params m) k (VBool False))"

text \<open>The items a probe of this metric reports.\<close>

definition probe_keys :: "metric_def \<Rightarrow> pyval list" where
  "probe_keys m = m_key m
     # (if wants m ''response_time_ms'' then [VStr (py_str (m_key m) @ ''.response_time_ms'')] else [])
     @ (if wants m ''ssl_check'' \<and> dflt (m_params m) ''mode'' VNone \<noteq> VStr ''tcp''
        then [VStr (py_str (m_key m) @ ''.ssl_check'')] else [])"

definition probe_items_ok :: "metric_def \<Rightarrow> metric_result list \<Rightarrow> bool" where
  "probe_items_ok m rs \<longleftrightarrow> map r_key rs = probe_keys m
     \<and> (\<forall>r \<in> set rs. is_sendable r \<and> r_delivery r = m_delivery m)"

lemma tcp_probe_items:
  assumes "dflt (m_params m) ''mode'' VNone = VStr ''tcp''" and "run_tcp_probe env m = Inr rs"
  shows "probe_items_ok m rs"
  using assms
  by (auto simp: run_tcp_probe_def Let_def probe_items_ok_def probe_keys_def wants_def rbind_eq_Inr
      split: if_splits)

lemma http_probe_items:
  assumes "dflt (m_params m) ''mode'' VNone \<noteq> VStr ''tcp''"
  shows "returns (run_http_probe env m) (probe_items_ok m)"
  unfolding run_http_probe_def Let_def
  by (intro returns_bind_any returns_ret) (use assms in \<open>auto simp: probe_items_ok_def probe_keys_def wants_def\<close>)

text \<open>A web server that cannot be reached, probed with both sub-items.\<close>

definition down_env :: probe_env where
  "down_env = \<lparr>pe_re = \<lparr>re_error = (\<lambda>p. None), re_find = (\<lambda>p t. None)\<rparr>,
     pe_tcp = (\<lambda>h p. Some OSError), pe_tls = (\<lambda>h p. HandshakeFailed),
     pe_url = (\<lambda>u. Inr \<lparr>url_scheme = ''https'', url_host = Some ''h'', url_port = Inr None\<rparr>),
     pe_http = (\<lambda>me u hd. Inl (OtherError ''ConnectionError'')), pe_now = 0, pe_elapsed = Fin 12\<rparr>"

definition web_metric :: metric_def where
  "web_metric = (example_metric ''web'' ''probe'')\<lparr>m_params :=
     [(VStr ''mode'', VStr ''http_body''), (VStr ''url'', VStr ''https://h''),
      (VStr ''ssl_check'', VBool True), (VStr ''default_value'', VInt 9)]\<rparr>"

lemma web_metric_simps:
  "dflt (m_params web_metric) ''mode'' VNone = VStr ''http_body''"
  "dget (m_params web_metric) ''mode'' = Some (VStr ''http_body'')"
  "dget (m_params web_metric) ''url'' = Some (VStr ''https://h'')"
  "dflt (m_params web_metric) ''method'' (VStr ''GET'') = VStr ''GET''"
  "dflt (m_params web_metric) ''max_response_bytes'' (VInt 65536) = VInt 65536"
  "dflt (m_params web_metric) ''default_value'' (VInt 0) = VInt 9"
  "wants web_metric ''response_time_ms'' = False" "wants web_metric ''ssl_check'' = True"
  by (simp_all add: web_metric_def dflt_def wants_def)

lemma web_down_example:
  "case probe_collect down_env web_metric [] of (Inr rs, ks) \<Rightarrow> length rs = 2 | _ \<Rightarrow> False"
  by code_simp

text \<open>
  Whatever the endpoint does, a probe that returns reports exactly the metric's own item, then
  the response time item if it is asked for, then for an HTTP probe the certificate item if that is
  asked for; each is sendable and delivered like the metric itself.
\<close>

theorem probe_reports_each_item_once:
  assumes "probe_collect env m sessions = (Inr rs, sessions')"
  shows "map r_key rs = probe_keys m \<and> (\<forall>r \<in> set rs. is_sendable r \<and> r_delivery r = m_delivery m)"
proof (cases "dflt (m_params m) ''mode'' VNone = VStr ''tcp''")
  case True
  then show ?thesis using assms tcp_probe_items[OF True]
    by (auto simp: probe_collect_def probe_items_ok_def)
next
  case False
  then show ?thesis using assms returnsD[OF http_probe_items[OF False]]
    by (auto simp: probe_collect_def probe_items_ok_def Let_def split: if_splits)
qed

theorem probe_reports_each_item_once_witness:
  "\<exists>rs ks. probe_collect down_env web_metric [] = (Inr rs, ks)
     \<and> map r_key rs = [VStr ''host.web'', VStr ''host.web.ssl_check'']"
proof -
  obtain rs ks where r: "probe_collect down_env web_metric [] = (Inr rs, ks)"
    using web_down_example by (auto split: prod.splits sum.splits)
  have "probe_keys web_metric = [VStr ''host.web'', VStr ''host.web.ssl_check'']"
    by (simp add: probe_keys_def web_metric_simps) (simp add: web_metric_def example_metric_def)
  then show ?thesis using probe_reports_each_item_once[OF r] r by auto
qed

text \<open>
  When the HTTP request fails with any exception, of the network, of the TLS layer or while the
  body is read, the probe still returns: its own item has the configured default value, the
  response time item is 0.
\<close>

theorem failed_request_gives_default:
  assumes "dget (m_params m) ''url'' = Some url" and "dget (m_params m) ''mode'' = Some mode"
    and "mode \<in> {VStr ''http_status'', VStr ''http_body''}"
    and "dflt (m_params m) ''method'' (VStr ''GET'') = VStr meth"
    and "dflt (m_params m) ''max_response_bytes'' (VInt 65536) = VInt n"
    and "pe_url env url = Inr parsed" and "url_port parsed = Inr port"
    and "\<forall>h p. \<forall>e. pe_tls env h p = TlsRaises e \<longrightarrow> is_os_error e"
    and "pe_http env (py_upper meth) url (py_or (dflt (m_params m) ''headers'' VNone) (VDict [])) = Inl exc"
    and "is_exception exc"
  shows "\<exists>rs sessions'. probe_collect env m sessions = (Inr rs, sessions')
    \<and> r_value (hd rs) = Some (py_str (dflt (m_params m) ''default_value'' (VInt 0)))
    \<and> (\<forall>r \<in> set rs. r_key r = VStr (py_str (m_key m) @ ''.response_time_ms'')
          \<longrightarrow> r_key r \<noteq> m_key m \<longrightarrow> r_value r = Some ''0'')"
proof -
  have ssl: "\<exists>v. ssl_cert_check env h p = Inr v" for h p
    using assms(8) by (cases "pe_tls env h p") (auto simp: ssl_cert_check_def)
  have zero: "str_int 0 = ''0''" by code_simp
  have mode: "dflt (m_params m) ''mode'' VNone = mode" using assms(2) by (simp add: dflt_def)
  have run: "probe_collect env m = run_http_probe env m"
    using assms(3) mode by (auto simp: probe_collect_def Let_def fun_eq_iff)
  have att: "http_attempt env (py_upper meth) url (py_or (dflt (m_params m) ''headers'' VNone) (VDict [])) b n
      = Inl exc" for b
    using assms(9) by (simp add: http_attempt_def)
  let ?host = "case url_host parsed of None \<Rightarrow> '''' | Some h \<Rightarrow> h"
  let ?port = "case port of Some p \<Rightarrow> if p \<noteq> 0 then p
      else (if url_scheme parsed = ''https'' then 443 else 80)
    | None \<Rightarrow> (if url_scheme parsed = ''https'' then 443 else 80)"
  obtain v where v: "ssl_cert_check env ?host ?port = Inr v" using ssl by blast
  show ?thesis unfolding run
    using assms(1,2,4-7,10) att v zero
    by (auto simp: run_http_probe_def param_or_key_error_def http_value_def Let_def bindM_eq)
qed

theorem failed_request_gives_default_witness:
  "\<exists>rs sessions'. probe_collect down_env web_metric [] = (Inr rs, sessions')
     \<and> r_value (hd rs) = Some ''9''"
proof -
  have nine: "py_str (VInt 9) = ''9''" by code_simp
  show ?thesis
    using failed_request_gives_default[OF web_metric_simps(3,2) _ web_metric_simps(4,5),
        of down_env "\<lparr>url_scheme = ''https'', url_host = Some ''h'', url_port = Inr None\<rparr>" None
          "OtherError ''ConnectionError''" "[]"] nine
    by (auto simp: down_env_def is_exception_def web_metric_simps)
qed

end
