(* ===== verification/DatabaseCollector.thy ===== *)
theory DatabaseCollector
  imports Conditions Router
begin

section \<open>Database query collector (\<open>collectors/database.py\<close>)\<close>

text \<open>
  Queries over a per-run cache of open connections. The databases, what opening a connection and
  running a query does, are fields of a \<open>db_env\<close>; a connection is the number under which it was
  opened. The state keeps the shared cache, how many connections were opened and which were closed,
  so the lemmas can say that none is lost: an open connection is always the cached one.
\<close>

record 'db db_env =
  de_re :: re_engine
  de_registry :: "(string \<times> 'db) list"
  de_connect :: "'db \<Rightarrow> exn option"
  de_query :: "nat \<Rightarrow> pyval \<Rightarrow> pyval list list res"
  de_now :: int

record conn_state =
  cs_cache :: "(string \<times> nat) list"
  cs_opened :: nat
  cs_closed :: "nat set"

type_synonym 'a db_run = "(exn, conn_state, 'a) st"

subsection \<open>Connections\<close>

definition get_connection :: "'db db_env \<Rightarrow> 'db \<Rightarrow> nat db_run" where
  "get_connection env db = (\<lambda>s. case de_connect env db of
     Some e \<Rightarrow> (Inl e, s)
   | None \<Rightarrow> (Inr (cs_opened s), s\<lparr>cs_opened := cs_opened s + 1\<rparr>))"

definition close_connection :: "nat \<Rightarrow> unit db_run" where
  "close_connection c = modifyM (\<lambda>s. s\<lparr>cs_closed := insert c (cs_closed s)\<rparr>)"

text \<open>The connection of a database: the cached one, else a new one that is put in the cache.\<close>

definition store_connection :: "string \<Rightarrow> nat \<Rightarrow> unit db_run" where
  "store_connection name c = modifyM (\<lambda>s. s\<lparr>cs_cache := adict_set (cs_cache s) name c\<rparr>)"

definition cached_connection :: "'db db_env \<Rightarrow> string \<Rightarrow> 'db \<Rightarrow> nat db_run" where
  "cached_connection env name db = (\<lambda>s. case map_of (cs_cache s) name of
     Some c \<Rightarrow> (Inr c, s)
   | None \<Rightarrow> bindM (get_connection env db) (\<lambda>c.
       bindM (store_connection name c) (\<lambda>_. ret c)) s)"

text \<open>On any error of the query the connection is dropped from the cache and closed.\<close>

definition query_or_drop :: "'db db_env \<Rightarrow> string \<Rightarrow> nat \<Rightarrow> pyval \<Rightarrow> pyval list list db_run" where
  "query_or_drop env name c sql = (case de_query env c sql of
     Inr rows \<Rightarrow> ret rows
   | Inl e \<Rightarrow> if is_exception e
       then bindM (modifyM (\<lambda>s. s\<lparr>cs_cache := adict_pop (cs_cache s) name\<rparr>)) (\<lambda>_.
            bindM (close_connection c) (\<lambda>_. raise e))
       else raise e)"

subsection \<open>Results\<close>

definition db_result :: "int \<Rightarrow> metric_def \<Rightarrow> pyval \<Rightarrow> pyval \<Rightarrow> metric_result" where
  "db_result now m v host = (ok_result m (m_collector m) (py_str v) '''' now (Fin 0))
     \<lparr>r_value := (if v = VNone then None else Some (py_str v)),
      r_host_name := py_or host (host_value (m_host_name m))\<rparr>"

definition default_result :: "int \<Rightarrow> metric_def \<Rightarrow> pyval \<Rightarrow> metric_result list" where
  "default_result now m v = (if v = VNone then [] else [db_result now m v VNone])"

definition handle_value_mode ::
  "int \<Rightarrow> metric_def \<Rightarrow> pyval list list \<Rightarrow> int \<Rightarrow> pyval \<Rightarrow> pyval \<Rightarrow> metric_result list res" where
  "handle_value_mode now m rows col strategy default_value =
     (if rows = [] then Inr (default_result now m default_value)
      else rbind (rmapM (\<lambda>row. py_index row col) rows) (\<lambda>values.
           rbind (resolve_result values strategy) (\<lambda>v. Inr [db_result now m v VNone])))"

definition row_entry :: "re_engine \<Rightarrow> pyval list \<Rightarrow> int \<Rightarrow> pyval list \<Rightarrow> (pyval \<times> pyval) option res" where
  "row_entry re conditions col row =
     rbind (py_index row col) (\<lambda>cell. rbind (eval_conditions re conditions (py_str cell)) (\<lambda>r.
     Inr (if fst r \<noteq> VNone then Some r else None)))"

definition handle_condition_mode ::
  "re_engine \<Rightarrow> int \<Rightarrow> metric_def \<Rightarrow> pyval list list \<Rightarrow> int \<Rightarrow> pyval \<Rightarrow> pyval \<Rightarrow> pyval
     \<Rightarrow> metric_result list res" where
  "handle_condition_mode re now m rows col conditions strategy default_value =
     (if rows = [] then Inr (default_result now m default_value)
      else if \<not> truthy conditions then Inl ValueError
      else rbind (py_iter conditions) (\<lambda>cs. rbind (rmapM (row_entry re cs col) rows) (\<lambda>es.
        let entries = map the (filter (\<lambda>e. e \<noteq> None) es) in
        if entries = [] then Inr (default_result now m default_value)
        else rbind (resolve_result_with_host entries strategy) (\<lambda>r.
          Inr [db_result now m (fst r) (snd r)]))))"

definition db_lookup :: "(string \<times> 'db) list \<Rightarrow> pyval \<Rightarrow> (string \<times> 'db) res" where
  "db_lookup registry name =
     (if \<not> hashable name then Inl TypeError
      else (case name of
        VStr s \<Rightarrow> (case map_of registry s of None \<Rightarrow> Inl KeyError | Some db \<Rightarrow> Inr (s, db))
      | _ \<Rightarrow> Inl KeyError))"

definition run_query :: "'db db_env \<Rightarrow> metric_def \<Rightarrow> metric_result list db_run" where
  "run_query env m = (let params = m_params m in
     bindM (lift (vindex (VDict params) ''database'')) (\<lambda>db_name.
     bindM (lift (vindex (VDict params) ''sql'')) (\<lambda>sql.
     bindM (lift (py_int (dflt params ''result_column'' (VInt 0)))) (\<lambda>col.
     bindM (lift (db_lookup (de_registry env) db_name)) (\<lambda>entry.
     bindM (cached_connection env (fst entry) (snd entry)) (\<lambda>c.
     bindM (query_or_drop env (fst entry) c sql) (\<lambda>rows.
     lift (let mode = dflt params ''mode'' (VStr ''value'');
               default_value = dflt params ''default_value'' VNone;
               strategy = dflt params ''result'' (VStr ''last'') in
       if mode = VStr ''value'' then handle_value_mode (de_now env) m rows col strategy default_value
       else if mode = VStr ''condition'' then handle_condition_mode (de_re env) (de_now env) m rows col
              (dflt params ''conditions'' (VList [])) strategy default_value
       else Inl ValueError))))))))"

subsection \<open>No connection is lost\<close>

text \<open>The connections that are open: opened and not closed.\<close>

definition open_conns :: "conn_state \<Rightarrow> nat set" where
  "open_conns s = {..<cs_opened s} - cs_closed s"

definition conns_ok :: "conn_state \<Rightarrow> bool" where
  "conns_ok s \<longleftrightarrow> distinct (map fst (cs_cache s)) \<and> distinct (map snd (cs_cache s))
     \<and> set (map snd (cs_cache s)) = open_conns s \<and> cs_closed s \<subseteq> {..<cs_opened s}"

text \<open>Every connection in the cache is closed at the end of the run (\<open>_close_db_conn_caches\<close>).\<close>

definition close_all :: "conn_state \<Rightarrow> conn_state" where
  "close_all s = s\<lparr>cs_cache := [], cs_closed := cs_closed s \<union> set (map snd (cs_cache s))\<rparr>"

lemma adict_set_last: "map_of d k = None \<Longrightarrow> adict_set (d @ [(k, u)]) k v = d @ [(k, v)]"
  by (induction d) (auto split: if_splits)

lemma cached_connection_ok:
  assumes "conns_ok s" and "cached_connection env name db s = (r, s')"
  shows "conns_ok s' \<and> (\<forall>c. r = Inr c \<longrightarrow> map_of (cs_cache s') name = Some c)"
proof (cases "map_of (cs_cache s) name")
  case (Some c)
  then show ?thesis using assms by (auto simp: cached_connection_def)
next
  case None
  show ?thesis
  proof (cases "de_connect env db")
    case (Some e)
    then show ?thesis using None assms by (auto simp: cached_connection_def get_connection_def store_connection_def bindM_def)
  next
    case con: None
    have s': "s' = s\<lparr>cs_opened := cs_opened s + 1, cs_cache := cs_cache s @ [(name, cs_opened s)]\<rparr>"
      and r: "r = Inr (cs_opened s)"
      using None con assms(2)
      by (auto simp: cached_connection_def get_connection_def store_connection_def bindM_def adict_set_new)
    have "name \<notin> fst ` set (cs_cache s)" using None by (simp add: map_of_eq_None_iff)
    moreover have "cs_opened s \<notin> snd ` set (cs_cache s)" "cs_opened s \<notin> cs_closed s"
      using assms(1) by (auto simp: conns_ok_def open_conns_def)
    moreover have "{..<cs_opened s + 1} = insert (cs_opened s) {..<cs_opened s}" by auto
    ultimately show ?thesis using assms(1) None
      by (auto simp: s' r conns_ok_def open_conns_def map_add_def)
  qed
qed

lemma adict_pop_drops:
  assumes "distinct (map fst d)" and "distinct (map snd d)" and "map_of d k = Some v"
  shows "snd ` set (adict_pop d k) = snd ` set d - {v}"
proof -
  have kv: "(k, v) \<in> set d" using assms(3) by (rule map_of_SomeD)
  have key: "b = v \<longleftrightarrow> a = k" if "(a, b) \<in> set d" for a b
    using assms kv that by (metis eq_key_imp_eq_value inj_onD distinct_map snd_conv prod.inject)
  show ?thesis
  proof (intro equalityI subsetI)
    fix b assume "b \<in> snd ` set (adict_pop d k)"
    then obtain a where "(a, b) \<in> set d" "a \<noteq> k" by (auto simp: adict_pop_def)
    then show "b \<in> snd ` set d - {v}" using key[of a b] by force
  next
    fix b assume "b \<in> snd ` set d - {v}"
    then obtain a where "(a, b) \<in> set d" "b \<noteq> v" by auto
    then have "(a, b) \<in> set (adict_pop d k)" using key[of a b] by (auto simp: adict_pop_def)
    then show "b \<in> snd ` set (adict_pop d k)" by force
  qed
qed

lemma query_or_drop_ok:
  assumes "conns_ok s" and "map_of (cs_cache s) name = Some c"
    and "query_or_drop env name c sql s = (r, s')"
  shows "conns_ok s'"
proof -
  have c: "c \<in> open_conns s"
    using assms(1,2) map_of_SomeD[OF assms(2)] by (force simp: conns_ok_def)
  let ?d = "adict_pop (cs_cache s) name"
  have "snd ` set ?d = open_conns s - {c}"
    using adict_pop_drops[OF _ _ assms(2)] assms(1) by (auto simp: conns_ok_def)
  moreover have "distinct (map fst ?d)" "distinct (map snd ?d)"
    using assms(1) by (auto simp: conns_ok_def adict_pop_def distinct_map inj_on_def)
  ultimately have dropped: "conns_ok (s\<lparr>cs_cache := ?d, cs_closed := insert c (cs_closed s)\<rparr>)"
    using assms(1) c by (auto simp: conns_ok_def open_conns_def)
  show ?thesis
    using assms(1,3) dropped
    by (auto simp: query_or_drop_def close_connection_def bindM_def split: sum.splits if_splits)
qed

lemma run_query_ok:
  assumes "conns_ok s" and "run_query env m s = (r, s')"
  shows "conns_ok s'"
proof -
  have "conns_ok s'" if "bindM (cached_connection env a b) (\<lambda>c.
      bindM (query_or_drop env a c sql) (\<lambda>rows. lift (f rows))) s = (r, s')" for a b sql f
  proof (cases "cached_connection env a b s")
    case (Pair q t)
    then have t: "conns_ok t" "\<forall>c. q = Inr c \<longrightarrow> map_of (cs_cache t) a = Some c"
      using cached_connection_ok[OF assms(1) Pair] by auto
    show ?thesis
    proof (cases q)
      case (Inl e)
      then show ?thesis using that Pair t by simp
    next
      case (Inr c)
      obtain q' u where u: "query_or_drop env a c sql t = (q', u)" by (cases "query_or_drop env a c sql t")
      then have "conns_ok u" using query_or_drop_ok[OF t(1)] t(2) Inr by auto
      then show ?thesis using that Pair Inr u by (cases q') auto
    qed
  qed
  then show ?thesis using assms
    by (auto simp: run_query_def Let_def bindM_eq split: sum.splits)
qed

subsection \<open>Properties\<close>

fun run_queries :: "'db db_env \<Rightarrow> metric_def list \<Rightarrow> conn_state \<Rightarrow> conn_state" where
  "run_queries env [] s = s"
| "run_queries env (m # ms) s = run_queries env ms (snd (run_query env m s))"

lemma run_queries_ok: "conns_ok s \<Longrightarrow> conns_ok (run_queries env ms s)"
proof (induction ms arbitrary: s)
  case Nil
  then show ?case by simp
next
  case (Cons m ms)
  then show ?case using run_query_ok[of s env m "fst (run_query env m s)" "snd (run_query env m s)"]
    by simp
qed

definition no_conns :: conn_state where
  "no_conns = \<lparr>cs_cache = [], cs_opened = 0, cs_closed = {}\<rparr>"

lemma conns_ok_none: "conns_ok no_conns"
  by (simp add: conns_ok_def no_conns_def open_conns_def)


text \<open>
  Two queries on the same database that run at the same time, as the runner's thread pool
  allows, can both miss the cache: both open a connection, the second one replaces the first in the
  cache, and closing the cache at the end of the run leaves the first one open.
\<close>

theorem parallel_queries_leak_connection:
  assumes "conns_ok s" and "map_of (cs_cache s) name = None" and "de_connect env db = None"
  shows "\<exists>a b s1 s2 s3 s4. get_connection env db s = (Inr a, s1) \<and> get_connection env db s1 = (Inr b, s2)
    \<and> store_connection name a s2 = (Inr (), s3) \<and> store_connection name b s3 = (Inr (), s4)
    \<and> a \<in> open_conns (close_all s4)"
proof -
  let ?a = "cs_opened s"
  let ?s2 = "s\<lparr>cs_opened := ?a + 2\<rparr>"
  let ?s4 = "?s2\<lparr>cs_cache := adict_set (adict_set (cs_cache s) name ?a) name (?a + 1)\<rparr>"
  have "adict_set (adict_set (cs_cache s) name ?a) name (?a + 1) = cs_cache s @ [(name, ?a + 1)]"
    using assms(2) by (simp add: adict_set_new adict_set_last)
  moreover have "?a \<notin> snd ` set (cs_cache s)" "?a \<notin> cs_closed s"
    using assms(1) by (auto simp: conns_ok_def open_conns_def)
  ultimately have "?a \<in> open_conns (close_all ?s4)" by (auto simp: open_conns_def close_all_def)
  then show ?thesis using assms(3)
    by (intro exI[of _ ?a] exI[of _ "?a + 1"] exI[of _ "s\<lparr>cs_opened := ?a + 1\<rparr>"] exI[of _ ?s2]
        exI[of _ "?s2\<lparr>cs_cache := adict_set (cs_cache s) name ?a\<rparr>"] exI[of _ ?s4])
      (simp add: get_connection_def store_connection_def)
qed

definition one_database :: "unit db_env" where
  "one_database = \<lparr>de_re = \<lparr>re_error = (\<lambda>p. None), re_find = (\<lambda>p t. None)\<rparr>,
     de_registry = [(''pg'', ())], de_connect = (\<lambda>db. None), de_query = (\<lambda>c q. Inr [[VInt 7]]),
     de_now = 0\<rparr>"

theorem parallel_queries_leak_connection_witness:
  "\<exists>a b s1 s2 s3 s4. get_connection one_database () no_conns = (Inr a, s1)
     \<and> get_connection one_database () s1 = (Inr b, s2)
     \<and> store_connection ''pg'' a s2 = (Inr (), s3) \<and> store_connection ''pg'' b s3 = (Inr (), s4)
     \<and> a \<in> open_conns (close_all s4)"
  by (rule parallel_queries_leak_connection[OF conns_ok_none])
    (simp_all add: no_conns_def one_database_def)

end
