(* ===== verification/Locking.thy ===== *)
theory Locking
  imports PyValue
begin

section \<open>Run lock (\<open>locking.py\<close>)\<close>

text \<open>
  \<open>RunLock\<close> twice. First as the functions of one process that is alone with the lock file: the
  recursion of \<open>acquire\<close> carries fuel, and two attempts are always enough. Then as the step relation
  of several processes whose system calls interleave: a process creates the file exclusively,
  writes its pid later, and may in between be read by another one. A file that is unlinked while
  open keeps its inode, so a late write reaches it without a name.
\<close>

subsection \<open>One process alone\<close>

datatype kill_result = Delivered | NoSuchProcess | NotPermitted | KillRaises exn

text \<open>The lock file: absent, or its text, or a file that cannot be read.\<close>

datatype lock_file = NoLock | LockText string | UnreadableLock

record lock_env =
  lk_pid :: int
  lk_kill :: "int \<Rightarrow> kill_result"
  lk_create_error :: bool
  lk_unlink_error :: "exn option"

definition is_stale :: "lock_env \<Rightarrow> lock_file \<Rightarrow> bool res" where
  "is_stale env f = (case f of
     NoLock \<Rightarrow> Inr True
   | UnreadableLock \<Rightarrow> Inr True
   | LockText s \<Rightarrow> (case parse_int (py_strip s) of
       None \<Rightarrow> Inr True
     | Some pid \<Rightarrow> (case lk_kill env pid of
         Delivered \<Rightarrow> Inr False | NoSuchProcess \<Rightarrow> Inr True | NotPermitted \<Rightarrow> Inr False
       | KillRaises e \<Rightarrow> Inl e)))"

definition lock_error :: "string \<Rightarrow> 'a res" where
  "lock_error msg = Inl (LockError (Issue msg []))"

fun acquire :: "nat \<Rightarrow> lock_env \<Rightarrow> lock_file \<Rightarrow> (unit res \<times> lock_file) option" where
  "acquire 0 env f = None"
| "acquire (Suc fuel) env f =
     (if lk_create_error env then Some (lock_error ''Cannot create lock file'', f)
      else if f = NoLock then Some (Inr (), LockText (str_int (lk_pid env)))
      else case is_stale env f of
        Inl e \<Rightarrow> Some (Inl e, f)
      | Inr False \<Rightarrow> Some (lock_error ''Another instance is already running'', f)
      | Inr True \<Rightarrow> (case lk_unlink_error env of
            Some e \<Rightarrow> if e = FileNotFoundError then acquire fuel env NoLock else Some (Inl e, f)
          | None \<Rightarrow> acquire fuel env NoLock))"

definition release :: "bool \<Rightarrow> lock_file \<Rightarrow> lock_file" where
  "release acquired f = (if acquired then NoLock else f)"

lemma acquire_alone:
  assumes "\<not> lk_create_error env" and "lk_unlink_error env = None"
  shows "acquire (Suc (Suc n)) env f = Some (
    if f = NoLock then (Inr (), LockText (str_int (lk_pid env)))
    else case is_stale env f of
      Inl e \<Rightarrow> (Inl e, f)
    | Inr False \<Rightarrow> (lock_error ''Another instance is already running'', f)
    | Inr True \<Rightarrow> (Inr (), LockText (str_int (lk_pid env))))"
  using assms by (auto split: sum.split bool.split)

lemma is_stale_pid: "is_stale env (LockText (str_int pid)) = (case lk_kill env pid of
     Delivered \<Rightarrow> Inr False | NoSuchProcess \<Rightarrow> Inr True | NotPermitted \<Rightarrow> Inr False
   | KillRaises e \<Rightarrow> Inl e)"
  by (simp add: is_stale_def parse_int_str_int)

subsection \<open>Several processes\<close>

datatype lock_pc = Trying | Opened nat | Checking | Stale | Held | Refused | Finished | Crashed

record lock_world =
  lw_file :: "(nat \<times> string) option"
  lw_next :: nat
  lw_pc :: "nat \<Rightarrow> lock_pc"

definition pid_text :: "nat \<Rightarrow> string" where
  "pid_text i = str_int (int i)"

definition alive :: "lock_world \<Rightarrow> int \<Rightarrow> bool" where
  "alive w pid \<longleftrightarrow> 0 \<le> pid \<and> lw_pc w (nat pid) \<notin> {Finished, Crashed}"

text \<open>What \<open>_is_stale\<close> concludes from the file as it is now.\<close>

definition looks_stale :: "lock_world \<Rightarrow> bool" where
  "looks_stale w = (case lw_file w of None \<Rightarrow> True
     | Some (n, s) \<Rightarrow> (case parse_int (py_strip s) of None \<Rightarrow> True | Some pid \<Rightarrow> \<not> alive w pid))"

definition move :: "lock_world \<Rightarrow> nat \<Rightarrow> lock_pc \<Rightarrow> lock_world" where
  "move w i pc = w\<lparr>lw_pc := (lw_pc w)(i := pc)\<rparr>"

inductive lock_step :: "lock_world \<Rightarrow> lock_world \<Rightarrow> bool" where
  create: "lw_pc w i = Trying \<Longrightarrow> lw_file w = None \<Longrightarrow>
     lock_step w (move (w\<lparr>lw_file := Some (lw_next w, []), lw_next := lw_next w + 1\<rparr>) i (Opened (lw_next w)))"
| exists: "lw_pc w i = Trying \<Longrightarrow> lw_file w \<noteq> None \<Longrightarrow> lock_step w (move w i Checking)"
| write_pid: "lw_pc w i = Opened n \<Longrightarrow>
     lock_step w (move (case lw_file w of None \<Rightarrow> w
        | Some (k, s) \<Rightarrow> if k = n then w\<lparr>lw_file := Some (k, pid_text i)\<rparr> else w) i Held)"
| inspect: "lw_pc w i = Checking \<Longrightarrow>
     lock_step w (move w i (if looks_stale w then Stale else Refused))"
| unlink: "lw_pc w i = Stale \<Longrightarrow> lock_step w (move (w\<lparr>lw_file := None\<rparr>) i Trying)"
| leave: "lw_pc w i = Held \<Longrightarrow> lock_step w (move (w\<lparr>lw_file := None\<rparr>) i Finished)"
| crash: "lw_pc w i \<notin> {Finished, Refused} \<Longrightarrow> lock_step w (move w i Crashed)"

definition lock_start :: lock_world where
  "lock_start = \<lparr>lw_file = None, lw_next = 0, lw_pc = (\<lambda>i. Trying)\<rparr>"

inductive lock_reachable :: "lock_world \<Rightarrow> bool" where
  start: "lock_reachable lock_start"
| step: "lock_reachable w \<Longrightarrow> lock_step w v \<Longrightarrow> lock_reachable v"

text \<open>
  A careful run: nobody crashes, and nobody checks the file while it is missing or still empty,
  that is between the creation of a lock and the write of the pid, or just after a release.
\<close>

definition complete_lock :: "lock_world \<Rightarrow> bool" where
  "complete_lock w \<longleftrightarrow> (\<exists>n s. lw_file w = Some (n, s) \<and> s \<noteq> [])"

definition careful :: "lock_world \<Rightarrow> lock_world \<Rightarrow> bool" where
  "careful w v \<longleftrightarrow> (\<forall>i. lw_pc w i \<noteq> Crashed \<longrightarrow> lw_pc v i \<noteq> Crashed)
     \<and> (\<forall>i. lw_pc w i = Checking \<longrightarrow> lw_pc v i \<noteq> Checking \<longrightarrow> complete_lock w)"

inductive careful_reachable :: "lock_world \<Rightarrow> bool" where
  start: "careful_reachable lock_start"
| step: "careful_reachable w \<Longrightarrow> lock_step w v \<Longrightarrow> careful w v \<Longrightarrow> careful_reachable v"

inductive_cases lock_stepE: "lock_step w v"

text \<open>The file belongs to exactly the process that is between creating it and leaving.\<close>

definition lock_inv :: "lock_world \<Rightarrow> bool" where
  "lock_inv w \<longleftrightarrow>
     (\<forall>i. lw_pc w i \<noteq> Stale \<and> lw_pc w i \<noteq> Crashed)
   \<and> (case lw_file w of
        None \<Rightarrow> (\<forall>i. lw_pc w i \<noteq> Held \<and> (\<forall>n. lw_pc w i \<noteq> Opened n))
      | Some (n, s) \<Rightarrow> (\<exists>i. (lw_pc w i = Opened n \<and> s = [] \<or> lw_pc w i = Held \<and> s = pid_text i)
            \<and> (\<forall>j. j \<noteq> i \<longrightarrow> lw_pc w j \<noteq> Held \<and> (\<forall>k. lw_pc w j \<noteq> Opened k))))"

lemma pid_text_nonempty [simp]: "pid_text i \<noteq> []"
  by (simp add: pid_text_def str_int_def)

lemma lock_owner:
  assumes "lock_inv w" and "lw_file w = Some (n, s)"
  obtains i where "lw_pc w i = Opened n \<and> s = [] \<or> lw_pc w i = Held \<and> s = pid_text i"
    and "\<And>j. lw_pc w j = Held \<Longrightarrow> j = i" and "\<And>j k. lw_pc w j = Opened k \<Longrightarrow> j = i"
  using assms by (auto simp: lock_inv_def)

lemma looks_stale_held:
  "lw_file w = Some (n, pid_text i) \<Longrightarrow> lw_pc w i = Held \<Longrightarrow> \<not> looks_stale w"
  by (simp add: looks_stale_def pid_text_def parse_int_str_int alive_def)

lemma move_simps [simp]:
  "lw_file (move w i pc) = lw_file w" "lw_pc (move w i pc) = (lw_pc w)(i := pc)"
  by (simp_all add: move_def)

lemma lock_inv_step:
  assumes inv: "lock_inv w" and "lock_step w v" and "careful w v"
  shows "lock_inv v"
  using assms(2)
proof cases
  case (create i)
  then show ?thesis using inv by (auto simp: lock_inv_def)
next
  case (exists i)
  then obtain n s where f: "lw_file w = Some (n, s)" by auto
  from lock_owner[OF inv f] obtain j where
    "lw_pc w j = Opened n \<and> s = [] \<or> lw_pc w j = Held \<and> s = pid_text j"
    "\<And>l. lw_pc w l = Held \<Longrightarrow> l = j" "\<And>l k. lw_pc w l = Opened k \<Longrightarrow> l = j" by metis
  moreover from this(1) have "j \<noteq> i" using exists by auto
  ultimately show ?thesis using inv exists f by (auto simp: lock_inv_def intro!: exI[of _ j])
next
  case (write_pid i n)
  from inv write_pid have "\<exists>k s. lw_file w = Some (k, s)" by (cases "lw_file w") (auto simp: lock_inv_def)
  then obtain k s where f: "lw_file w = Some (k, s)" by blast
  with inv obtain j where j: "lw_pc w j = Opened k \<and> s = [] \<or> lw_pc w j = Held \<and> s = pid_text j"
    and others: "\<forall>l. l \<noteq> j \<longrightarrow> lw_pc w l \<noteq> Held \<and> (\<forall>k. lw_pc w l \<noteq> Opened k)"
    by (auto simp: lock_inv_def)
  have "i = j" using others write_pid by metis
  then have "k = n" using j write_pid by auto
  then show ?thesis using inv f write_pid others \<open>i = j\<close> by (auto simp: lock_inv_def)
next
  case (inspect i)
  then have "complete_lock w" using assms(3) by (auto simp: careful_def)
  then obtain n s where f: "lw_file w = Some (n, s)" "s \<noteq> []" by (auto simp: complete_lock_def)
  with inv obtain j where j: "lw_pc w j = Held" "s = pid_text j"
    and others: "\<forall>l. l \<noteq> j \<longrightarrow> lw_pc w l \<noteq> Held \<and> (\<forall>k. lw_pc w l \<noteq> Opened k)"
    by (auto simp: lock_inv_def)
  have "\<not> looks_stale w" using looks_stale_held[of w n j] f j by simp
  moreover have "j \<noteq> i" using j inspect by auto
  ultimately show ?thesis using inv inspect f j others by (auto simp: lock_inv_def intro!: exI[of _ j])
next
  case (unlink i)
  then show ?thesis using inv by (auto simp: lock_inv_def)
next
  case (leave i)
  then obtain n s where f: "lw_file w = Some (n, s)"
    using inv by (cases "lw_file w") (auto simp: lock_inv_def)
  have "lw_pc w l \<noteq> Held \<and> (\<forall>k. lw_pc w l \<noteq> Opened k)" if "l \<noteq> i" for l
    using lock_owner[OF inv f] leave that by metis
  then show ?thesis using inv leave by (auto simp: lock_inv_def)
next
  case (crash i)
  then have "lw_pc v i = Crashed" by simp
  moreover have "lw_pc w i \<noteq> Crashed" using inv by (simp add: lock_inv_def)
  ultimately show ?thesis using assms(3) by (auto simp: careful_def)
qed

lemma careful_inv: "careful_reachable w \<Longrightarrow> lock_inv w"
proof (induction rule: careful_reachable.induct)
  case start
  show ?case by (simp add: lock_inv_def lock_start_def)
next
  case (step w v)
  then show ?case using lock_inv_step by blast
qed

subsection \<open>Properties\<close>

text \<open>
  A process that is alone with the lock file gets an answer after at most two attempts:
  without a file it acquires the lock; with the pid of a live process in the file it raises
  \<open>LockError\<close> and leaves the file alone; with a file that is empty, no number, unreadable or the pid
  of a dead process it replaces the lock by its own.
\<close>

theorem acquire_decides:
  assumes "\<not> lk_create_error env" and "lk_unlink_error env = None" and "2 \<le> fuel"
    and "\<forall>pid e. lk_kill env pid \<noteq> KillRaises e"
  shows "acquire fuel env f = Some (
    if f \<noteq> NoLock \<and> is_stale env f = Inr False
    then (lock_error ''Another instance is already running'', f)
    else (Inr (), LockText (str_int (lk_pid env))))"
proof -
  have "\<exists>b. is_stale env f = Inr b"
    using assms(4) by (auto simp: is_stale_def split: lock_file.split option.split kill_result.split)
  then obtain b where b: "is_stale env f = Inr b" by blast
  obtain n where n: "fuel = Suc (Suc n)" using assms(3) by (metis add_2_eq_Suc le_Suc_ex)
  show ?thesis unfolding n acquire_alone[OF assms(1,2)] by (cases b) (simp_all add: b)
qed

theorem acquire_decides_witness:
  "acquire 2 \<lparr>lk_pid = 41, lk_kill = (\<lambda>p. NoSuchProcess), lk_create_error = False,
      lk_unlink_error = None\<rparr> (LockText ''junk'') = Some (Inr (), LockText ''41'')"
proof -
  have "str_int 41 = ''41''" by code_simp
  then show ?thesis
    using acquire_decides[of "\<lparr>lk_pid = 41, lk_kill = (\<lambda>p. NoSuchProcess), lk_create_error = False,
      lk_unlink_error = None\<rparr>" 2 "LockText ''junk''"]
    by (auto simp: is_stale_def split: option.splits)
qed


text \<open>An uncontended run: process 0 creates the lock and writes its pid.\<close>

definition held_by_0 :: lock_world where
  "held_by_0 = move (lock_start\<lparr>lw_file := Some (0, pid_text 0), lw_next := 1\<rparr>) 0 Held"

definition opened_by_0 :: lock_world where
  "opened_by_0 = move (lock_start\<lparr>lw_file := Some (0, []), lw_next := 1\<rparr>) 0 (Opened 0)"

lemma held_by_0_reachable: "careful_reachable held_by_0"
proof -
  have pcs: "lw_pc opened_by_0 i = (if i = 0 then Opened 0 else Trying)"
    "lw_pc held_by_0 i = (if i = 0 then Held else Trying)" "lw_pc lock_start i = Trying" for i
    by (simp_all add: opened_by_0_def held_by_0_def lock_start_def)
  have "lock_step lock_start opened_by_0"
    using lock_step.create[of lock_start 0] by (simp add: opened_by_0_def lock_start_def)
  moreover have "careful lock_start opened_by_0" by (simp add: careful_def pcs)
  ultimately have opened: "careful_reachable opened_by_0"
    by (rule careful_reachable.step[OF careful_reachable.start])
  have "lock_step opened_by_0 held_by_0"
    using lock_step.write_pid[of opened_by_0 0 0]
    by (simp add: opened_by_0_def held_by_0_def move_def lock_start_def)
  moreover have "careful opened_by_0 held_by_0" by (simp add: careful_def pcs)
  ultimately show ?thesis by (rule careful_reachable.step[OF opened])
qed



end
