(* ===== verification/Pyaes.thy ===== *)
theory Pyaes
  imports AesTables PyValue
begin

section \<open>The vendored AES block cipher (\<open>pyaes/aes.py\<close>)\<close>

text \<open>
  The class \<open>AES\<close> (key schedule, encryption and decryption of one block) and the chaining mode
  \<open>AESModeOfOperationCBC\<close>, the part of \<open>pyaes\<close> the client uses. A Python integer of the key
  schedule or of a round is a 32-bit word here: \<open>struct.unpack('>i', ...)\<close> and the shifts to the
  left give integers that may be negative or longer, but every read of them takes one byte of
  their low 32 bits. The S-box entries are bytes.

  The property is that decryption undoes encryption, for each of the three key sizes. A state of
  the cipher between two rounds is four words; \<open>sub_shift\<close> is the state after the byte
  substitution and the row shift, which is what the decryption, run backwards, goes through.
\<close>

subsection \<open>Key schedule\<close>

record aes =
  aes_Ke :: "32 word list list"
  aes_Kd :: "32 word list list"

definition number_of_rounds :: "nat \<Rightarrow> nat option" where
  "number_of_rounds n = (if n = 16 then Some 10 else if n = 24 then Some 12
     else if n = 32 then Some 14 else None)"

text \<open>\<open>_compact_word\<close>, and \<open>struct.unpack\<close> of the words of the key.\<close>

definition compact_word :: "8 word list \<Rightarrow> 32 word" where
  "compact_word bs = pack (bs ! 0) (bs ! 1) (bs ! 2) (bs ! 3)"

definition words_of :: "8 word list \<Rightarrow> 32 word list" where
  "words_of bs = map compact_word (chunks 4 bs)"

definition sub_word :: "nat \<Rightarrow> 32 word \<Rightarrow> 8 word" where
  "sub_word n tt = look S_table (octet n tt)"

text \<open>\<open>for i in range(a, b): tk[i] ^= tk[i - 1]\<close>\<close>

definition xor_chain :: "nat \<Rightarrow> nat \<Rightarrow> 32 word list \<Rightarrow> 32 word list" where
  "xor_chain a b tk = foldl (\<lambda>tk i. tk[i := tk ! i XOR tk ! (i - 1)]) tk [a..<b]"

definition next_tk :: "nat \<Rightarrow> 32 word list \<Rightarrow> 32 word list" where
  "next_tk rconpointer tk = (let
     KC = length tk;
     tt = tk ! (KC - 1);
     tk = tk[0 := tk ! 0 XOR (shl 24 (sub_word 16 tt) XOR shl 16 (sub_word 8 tt)
            XOR shl 8 (sub_word 0 tt) XOR shl 0 (sub_word 24 tt)
            XOR push_bit 24 (word_of_int (RCON ! rconpointer)))] in
     if KC \<noteq> 8 then xor_chain 1 KC tk
     else (let
       tk = xor_chain 1 (KC div 2) tk;
       tt = tk ! (KC div 2 - 1);
       tk = tk[KC div 2 := tk ! (KC div 2) XOR (shl 0 (sub_word 0 tt) XOR shl 8 (sub_word 8 tt)
              XOR shl 16 (sub_word 16 tt) XOR shl 24 (sub_word 24 tt))]
       in xor_chain (KC div 2 + 1) KC tk))"

text \<open>\<open>self._Ke[t // 4][t % 4] = w\<close> and \<open>self._Kd[rounds - (t // 4)][t % 4] = w\<close>\<close>

definition set_word :: "'a list list \<Rightarrow> nat \<Rightarrow> nat \<Rightarrow> 'a \<Rightarrow> 'a list list" where
  "set_word K i j w = K[i := (K ! i)[j := w]]"

definition put_word :: "nat \<Rightarrow> nat \<Rightarrow> 32 word \<Rightarrow> aes \<Rightarrow> aes" where
  "put_word rounds t w K = \<lparr>aes_Ke = set_word (aes_Ke K) (t div 4) (t mod 4) w,
     aes_Kd = set_word (aes_Kd K) (rounds - t div 4) (t mod 4) w\<rparr>"

text \<open>\<open>while j < KC and t < round_key_count\<close>; returns the new \<open>t\<close>.\<close>

fun copy_words :: "nat \<Rightarrow> nat \<Rightarrow> 32 word list \<Rightarrow> nat \<Rightarrow> aes \<Rightarrow> nat \<times> aes" where
  "copy_words rounds round_key_count [] t K = (t, K)"
| "copy_words rounds round_key_count (w # tk) t K =
     (if t < round_key_count
      then copy_words rounds round_key_count tk (Suc t) (put_word rounds t w K) else (t, K))"

lemma copy_words_mono: "t \<le> fst (copy_words r n tk t K)"
  by (induction r n tk t K rule: copy_words.induct) auto

lemma copy_words_progress: "t < n \<Longrightarrow> tk \<noteq> [] \<Longrightarrow> t < fst (copy_words r n tk t K)"
  by (cases tk) (auto intro: Suc_le_lessD copy_words_mono)

text \<open>\<open>while t < round_key_count\<close>; a key has words, so that every round makes progress.\<close>

function expand_key :: "nat \<Rightarrow> nat \<Rightarrow> 32 word list \<Rightarrow> nat \<Rightarrow> nat \<Rightarrow> aes \<Rightarrow> aes" where
  "expand_key rounds round_key_count tk rconpointer t K =
     (if t < round_key_count \<and> next_tk rconpointer tk \<noteq> []
      then (let tk' = next_tk rconpointer tk; r = copy_words rounds round_key_count tk' t K
            in expand_key rounds round_key_count tk' (Suc rconpointer) (fst r) (snd r))
      else K)"
  by pat_completeness auto
termination
  by (relation "measure (\<lambda>(r, n, tk, rp, t, K). n - t)")
    (auto simp: case_prod_beta intro!: diff_less_mono2 copy_words_progress)

declare expand_key.simps [simp del]

text \<open>The decryption round keys but the first and the last go through the tables \<open>U1\<close> to \<open>U4\<close>.\<close>

definition inverse_cipherify :: "nat \<Rightarrow> 32 word list list \<Rightarrow> 32 word list list" where
  "inverse_cipherify rounds Kd = foldl (\<lambda>Kd r. Kd[r := map inv_mix (Kd ! r)]) Kd [1..<rounds]"

definition key_schedule :: "nat \<Rightarrow> 8 word list \<Rightarrow> aes" where
  "key_schedule rounds key = (let
     round_key_count = (rounds + 1) * 4;
     empty = replicate (rounds + 1) (replicate 4 0);
     tk = words_of key;
     K = snd (copy_words rounds round_key_count tk 0 \<lparr>aes_Ke = empty, aes_Kd = empty\<rparr>);
     K = expand_key rounds round_key_count tk 0 (length key div 4) K
     in K\<lparr>aes_Kd := inverse_cipherify rounds (aes_Kd K)\<rparr>)"

definition AES :: "8 word list \<Rightarrow> aes res" where
  "AES key = (case number_of_rounds (length key) of None \<Rightarrow> Inl ValueError
     | Some rounds \<Rightarrow> Inr (key_schedule rounds key))"

subsection \<open>One block\<close>

text \<open>One round: table \<open>Tj\<close> at byte \<open>j\<close> of the word \<open>sj\<close> places on.\<close>

definition aes_round ::
  "int list \<times> int list \<times> int list \<times> int list \<Rightarrow> nat \<times> nat \<times> nat
     \<Rightarrow> 32 word list \<Rightarrow> 32 word list \<Rightarrow> 32 word list" where
  "aes_round = (\<lambda>(Ta, Tb, Tc, Td) (s1, s2, s3) t rk.
     map (\<lambda>i. look Ta (octet 24 (t ! i)) XOR look Tb (octet 16 (t ! ((i + s1) mod 4)))
       XOR look Tc (octet 8 (t ! ((i + s2) mod 4))) XOR look Td (octet 0 (t ! ((i + s3) mod 4)))
       XOR rk ! i) [0..<4])"

definition last_round ::
  "int list \<Rightarrow> nat \<times> nat \<times> nat \<Rightarrow> 32 word list \<Rightarrow> 32 word list \<Rightarrow> 8 word list" where
  "last_round Sb = (\<lambda>(s1, s2, s3) t rk. concat (map (\<lambda>i. let tt = rk ! i in
     [look Sb (octet 24 (t ! i)) XOR octet 24 tt,
      look Sb (octet 16 (t ! ((i + s1) mod 4))) XOR octet 16 tt,
      look Sb (octet 8 (t ! ((i + s2) mod 4))) XOR octet 8 tt,
      look Sb (octet 0 (t ! ((i + s3) mod 4))) XOR octet 0 tt]) [0..<4]))"

definition run_cipher ::
  "int list \<times> int list \<times> int list \<times> int list \<Rightarrow> int list \<Rightarrow> nat \<times> nat \<times> nat
     \<Rightarrow> 32 word list list \<Rightarrow> 8 word list \<Rightarrow> 8 word list res" where
  "run_cipher Ts Sb shifts K block = (if length block \<noteq> 16 then Inl ValueError else
     let rounds = length K - 1;
         t = map2 (XOR) (words_of block) (K ! 0);
         t = foldl (\<lambda>t r. aes_round Ts shifts t (K ! r)) t [1..<rounds]
     in Inr (last_round Sb shifts t (K ! rounds)))"

definition ENC_TABLES :: "int list \<times> int list \<times> int list \<times> int list" where
  "ENC_TABLES = (T1_table, T2_table, T3_table, T4_table)"

definition DEC_TABLES :: "int list \<times> int list \<times> int list \<times> int list" where
  "DEC_TABLES = (T5_table, T6_table, T7_table, T8_table)"

definition ENC_SHIFTS :: "nat \<times> nat \<times> nat" where
  "ENC_SHIFTS = (1, 2, 3)"

definition DEC_SHIFTS :: "nat \<times> nat \<times> nat" where
  "DEC_SHIFTS = (3, 2, 1)"

definition aes_encrypt :: "aes \<Rightarrow> 8 word list \<Rightarrow> 8 word list res" where
  "aes_encrypt A = run_cipher ENC_TABLES S_table ENC_SHIFTS (aes_Ke A)"

definition aes_decrypt :: "aes \<Rightarrow> 8 word list \<Rightarrow> 8 word list res" where
  "aes_decrypt A = run_cipher DEC_TABLES Si_table DEC_SHIFTS (aes_Kd A)"


subsection \<open>The shape of the key schedule\<close>

text \<open>
  The decryption round keys, before they are transformed, are the encryption round keys backwards.
\<close>

definition schedule_ok :: "nat \<Rightarrow> aes \<Rightarrow> bool" where
  "schedule_ok rounds K \<longleftrightarrow> length (aes_Ke K) = rounds + 1
     \<and> (\<forall>row \<in> set (aes_Ke K). length row = 4) \<and> aes_Kd K = rev (aes_Ke K)"

lemma set_word_rows:
  "\<forall>row \<in> set K. length row = n \<Longrightarrow> i < length K \<Longrightarrow> \<forall>row \<in> set (set_word K i j w). length row = n"
  by (auto simp: set_word_def dest!: set_update_subset_insert[THEN subsetD])

lemma rev_set_word:
  "i < length K \<Longrightarrow> rev (set_word K i j w) = set_word (rev K) (length K - 1 - i) j w"
  by (simp add: set_word_def rev_update rev_nth)

lemma put_word_ok:
  assumes "schedule_ok rounds K" and "t < (rounds + 1) * 4"
  shows "schedule_ok rounds (put_word rounds t w K)"
proof -
  have i: "t div 4 < length (aes_Ke K)"
    using assms by (simp add: schedule_ok_def less_mult_imp_div_less)
  have "rev (set_word (aes_Ke K) (t div 4) (t mod 4) w) = aes_Kd (put_word rounds t w K)"
    using assms(1) by (simp add: rev_set_word[OF i] schedule_ok_def put_word_def)
  moreover have "length (set_word (aes_Ke K) (t div 4) (t mod 4) w) = rounds + 1"
    using assms(1) by (simp add: schedule_ok_def set_word_def)
  moreover have "\<forall>row \<in> set (set_word (aes_Ke K) (t div 4) (t mod 4) w). length row = 4"
    by (rule set_word_rows[OF _ i]) (use assms(1) in \<open>simp add: schedule_ok_def\<close>)
  moreover have "aes_Ke (put_word rounds t w K) = set_word (aes_Ke K) (t div 4) (t mod 4) w"
    by (simp add: put_word_def)
  ultimately show ?thesis unfolding schedule_ok_def by metis
qed

lemma copy_words_ok:
  "schedule_ok rounds K \<Longrightarrow> n \<le> (rounds + 1) * 4 \<Longrightarrow> schedule_ok rounds (snd (copy_words rounds n tk t K))"
proof (induction rounds n tk t K rule: copy_words.induct)
  case (2 rounds n w tk t K)
  then show ?case using put_word_ok[of rounds K t w] by simp
qed simp

lemma expand_key_ok:
  "schedule_ok rounds K \<Longrightarrow> n \<le> (rounds + 1) * 4 \<Longrightarrow> schedule_ok rounds (expand_key rounds n tk rp t K)"
proof (induction rounds n tk rp t K rule: expand_key.induct)
  case (1 rounds n tk rp t K)
  show ?case
  proof (cases "t < n \<and> next_tk rp tk \<noteq> []")
    case True
    then show ?thesis
      using 1(1)[OF True refl refl copy_words_ok[OF 1(2,3)] 1(3)]
      by (simp add: expand_key.simps[of rounds n tk rp t K] Let_def)
  next
    case False
    then show ?thesis using 1(2) by (auto simp: expand_key.simps[of rounds n tk rp t K])
  qed
qed

lemma empty_schedule_ok:
  "schedule_ok rounds \<lparr>aes_Ke = replicate (rounds + 1) (replicate 4 0),
     aes_Kd = replicate (rounds + 1) (replicate 4 0)\<rparr>"
  by (simp add: schedule_ok_def del: replicate.simps)

lemma length_inverse_cipherify: "length (inverse_cipherify rounds Kd) = length Kd"
proof -
  have "length (foldl (\<lambda>Kd r. Kd[r := map inv_mix (Kd ! r)]) Kd rs) = length Kd" for rs
    by (induction rs arbitrary: Kd) auto
  then show ?thesis by (simp add: inverse_cipherify_def)
qed

lemma nth_inverse_cipherify:
  assumes "r < length Kd"
  shows "inverse_cipherify rounds Kd ! r =
    (if 1 \<le> r \<and> r < rounds then map inv_mix (Kd ! r) else Kd ! r)"
proof -
  let ?f = "\<lambda>Kd r. Kd[r := map inv_mix (Kd ! r)]"
  have "r < length Kd \<Longrightarrow> distinct rs \<Longrightarrow> foldl ?f Kd rs ! r =
      (if r \<in> set rs then map inv_mix (Kd ! r) else Kd ! r)" for rs
  proof (induction rs arbitrary: Kd)
    case (Cons a rs)
    then show ?case by (cases "a = r") simp_all
  qed simp
  from this[of "[1..<rounds]"] show ?thesis using assms by (auto simp: inverse_cipherify_def)
qed

text \<open>What the encryption round keys are and how the decryption round keys follow from them.\<close>

lemma key_schedule_keys:
  fixes rounds :: nat and key :: "8 word list" and r :: nat
  defines "K \<equiv> key_schedule rounds key"
  shows "length (aes_Ke K) = rounds + 1" and "r \<le> rounds \<Longrightarrow> length (aes_Ke K ! r) = 4"
    and "length (aes_Kd K) = rounds + 1"
    and "r \<le> rounds \<Longrightarrow> aes_Kd K ! r = (if 1 \<le> r \<and> r < rounds
       then map inv_mix (aes_Ke K ! (rounds - r)) else aes_Ke K ! (rounds - r))"
proof -
  define L where "L = expand_key rounds ((rounds + 1) * 4) (words_of key) 0 (length key div 4)
    (snd (copy_words rounds ((rounds + 1) * 4) (words_of key) 0
      \<lparr>aes_Ke = replicate (rounds + 1) (replicate 4 0), aes_Kd = replicate (rounds + 1) (replicate 4 0)\<rparr>))"
  have ok: "schedule_ok rounds L"
    unfolding L_def by (intro expand_key_ok copy_words_ok empty_schedule_ok order_refl)
  have K: "K = L\<lparr>aes_Kd := inverse_cipherify rounds (aes_Kd L)\<rparr>"
    by (simp add: K_def key_schedule_def L_def Let_def)
  show "length (aes_Ke K) = rounds + 1" "r \<le> rounds \<Longrightarrow> length (aes_Ke K ! r) = 4"
    "length (aes_Kd K) = rounds + 1"
    using ok by (simp_all add: K schedule_ok_def length_inverse_cipherify)
  show "aes_Kd K ! r = (if 1 \<le> r \<and> r < rounds
      then map inv_mix (aes_Ke K ! (rounds - r)) else aes_Ke K ! (rounds - r))" if "r \<le> rounds"
    using ok that by (auto simp: K nth_inverse_cipherify schedule_ok_def rev_nth)
qed

subsection \<open>Decryption runs the encryption backwards\<close>

lemma upt4: "[0..<4] = [0, 1, 2, 3::nat]"
  by (simp add: upt_rec)

lemma length_4E:
  assumes "length xs = 4"
  obtains a b c d where "xs = [a, b, c, d]"
  using assms by (auto simp: numeral_eq_Suc length_Suc_conv)

lemmas cipher_defs = ENC_TABLES_def DEC_TABLES_def ENC_SHIFTS_def DEC_SHIFTS_def

definition bytes_of :: "32 word list \<Rightarrow> 8 word list" where
  "bytes_of ws = concat (map (\<lambda>w. [octet 24 w, octet 16 w, octet 8 w, octet 0 w]) ws)"

definition sub_shift :: "32 word list \<Rightarrow> 32 word list" where
  "sub_shift t = map (\<lambda>i. pack (sub_word 24 (t ! i)) (sub_word 16 (t ! ((i + 1) mod 4)))
     (sub_word 8 (t ! ((i + 2) mod 4))) (sub_word 0 (t ! ((i + 3) mod 4)))) [0..<4]"

abbreviation enc_round :: "32 word list \<Rightarrow> 32 word list \<Rightarrow> 32 word list" where
  "enc_round \<equiv> aes_round ENC_TABLES ENC_SHIFTS"

abbreviation dec_round :: "32 word list \<Rightarrow> 32 word list \<Rightarrow> 32 word list" where
  "dec_round \<equiv> aes_round DEC_TABLES DEC_SHIFTS"

lemma length_sub_shift [simp]: "length (sub_shift t) = 4"
  by (simp add: sub_shift_def)

lemma length_aes_round [simp]: "length (aes_round Ts sh t rk) = 4"
  by (cases Ts; cases sh) (simp add: aes_round_def)

lemma look_inv_S [simp]:
  "look T5_table (look S_table b) = (look U1_table b :: 32 word)"
  "look T6_table (look S_table b) = (look U2_table b :: 32 word)"
  "look T7_table (look S_table b) = (look U3_table b :: 32 word)"
  "look T8_table (look S_table b) = (look U4_table b :: 32 word)"
  by (simp_all add: look_T_inv look_U)

lemma inv_mix_enc_round:
  assumes "length t = 4" and "length rk = 4"
  shows "map inv_mix (enc_round t rk) = map2 (XOR) (sub_shift t) (map inv_mix rk)"
  using assms by (elim length_4E)
    (simp add: cipher_defs aes_round_def sub_shift_def sub_word_def upt4 inv_mix_xor pack_def xor.assoc)

lemma dec_round_sub_shift:
  assumes "length t = 4" and "length rk = 4"
  shows "dec_round (sub_shift t) rk = map2 (XOR) (map inv_mix t) rk"
  using assms by (elim length_4E)
    (simp add: cipher_defs aes_round_def sub_shift_def sub_word_def upt4 inv_mix_def xor.assoc)

lemma map2_xor_cancel:
  assumes "length a = length b"
  shows "map2 (XOR) (map2 (XOR) a b) (b :: 'a::len word list) = a"
  using assms by (induction a b rule: list_induct2) (simp_all add: xor.assoc)

lemma dec_round_enc_round:
  assumes "length t = 4" and "length rk = 4"
  shows "dec_round (sub_shift (enc_round t rk)) (map inv_mix rk) = sub_shift t"
  using assms by (simp add: dec_round_sub_shift inv_mix_enc_round map2_xor_cancel)

text \<open>The rounds in the middle, forwards and backwards.\<close>

lemma middle_rounds:
  assumes "length t = 4" and "\<forall>rk \<in> set rks. length rk = 4"
  shows "foldl dec_round (sub_shift (foldl enc_round t rks)) (map (map inv_mix) (rev rks)) = sub_shift t"
  using assms by (induction rks arbitrary: t) (simp_all add: dec_round_enc_round)

text \<open>The first and the last step of each direction.\<close>

lemma words_of_last_round:
  assumes "length t = 4" and "length rk = 4"
  shows "words_of (last_round S_table ENC_SHIFTS t rk) = map2 (XOR) (sub_shift t) rk"
  using assms by (elim length_4E)
    (simp add: cipher_defs last_round_def sub_shift_def sub_word_def upt4 Let_def words_of_def compact_word_def
      chunks.simps pack_xor[symmetric])

lemma last_round_sub_shift:
  assumes "length t = 4" and "length rk = 4"
  shows "last_round Si_table DEC_SHIFTS (sub_shift t) rk = bytes_of (map2 (XOR) t rk)"
  using assms by (elim length_4E)
    (simp add: cipher_defs last_round_def sub_shift_def sub_word_def upt4 Let_def bytes_of_def octet_xor)

lemma length_16E:
  assumes "length xs = 16"
  obtains a b c d where "xs = a @ b @ c @ d" and "length a = 4" and "length b = 4"
    and "length c = 4" and "length d = 4"
proof (rule that)
  show "xs = take 4 xs @ take 4 (drop 4 xs) @ take 4 (drop 8 xs) @ drop 12 xs"
    using append_take_drop_id[of 4 xs] append_take_drop_id[of 4 "drop 4 xs"]
      append_take_drop_id[of 4 "drop 8 xs"] by simp
qed (use assms in auto)

lemma words_of_block:
  assumes "length block = 16"
  shows "length (words_of block) = 4" and "bytes_of (words_of block) = block"
  using assms by (elim length_16E length_4E; simp add: words_of_def bytes_of_def compact_word_def chunks.simps)+

lemma bytes_of_words: "length bs = 4 \<Longrightarrow> words_of (bytes_of bs) = bs"
  by (elim length_4E) (simp add: words_of_def bytes_of_def compact_word_def chunks.simps)

lemma length_last_round [simp]: "length (last_round Sb sh t rk) = 16"
  by (cases sh) (simp add: last_round_def upt4 Let_def)

lemma foldl_rounds:
  "foldl (\<lambda>t r. aes_round Ts sh t (K ! r)) t rs = foldl (aes_round Ts sh) t (map ((!) K) rs)"
  by (induction rs arbitrary: t) simp_all

lemma rev_upt_diff: "rev [1..<n] = map (\<lambda>r. n - r) [1..<n]"
  by (rule nth_equalityI) (auto simp: rev_nth)

lemma length_foldl_round:
  "length t = 4 \<Longrightarrow> length (foldl (aes_round Ts sh) t rks) = 4"
  by (induction rks arbitrary: t) simp_all

lemma run_cipher_inverse:
  assumes "length block = 16" and "length Ke = rounds + 1" and "\<And>r. r \<le> rounds \<Longrightarrow> length (Ke ! r) = 4"
    and "length Kd = rounds + 1"
    and Kd: "\<And>r. r \<le> rounds \<Longrightarrow> Kd ! r =
       (if 1 \<le> r \<and> r < rounds then map inv_mix (Ke ! (rounds - r)) else Ke ! (rounds - r))"
  shows "\<exists>c. run_cipher ENC_TABLES S_table ENC_SHIFTS Ke block = Inr c \<and> length c = 16
    \<and> run_cipher DEC_TABLES Si_table DEC_SHIFTS Kd c = Inr block"
proof -
  define rks where "rks = map ((!) Ke) [1..<rounds]"
  define t0 where "t0 = map2 (XOR) (words_of block) (Ke ! 0)"
  define t where "t = foldl enc_round t0 rks"
  define c where "c = last_round S_table ENC_SHIFTS t (Ke ! rounds)"
  have len: "length t0 = 4" "length t = 4"
    using assms(3)[of 0] words_of_block[OF assms(1)] by (simp_all add: t0_def t_def length_foldl_round)
  have length_c: "length c = 16" by (simp add: c_def)
  have "run_cipher ENC_TABLES S_table ENC_SHIFTS Ke block = Inr c"
    by (simp add: run_cipher_def assms(1,2) foldl_rounds Let_def c_def t_def t0_def rks_def)
  moreover have "map ((!) Kd) [1..<rounds] = map (map inv_mix) (rev rks)"
    unfolding rks_def rev_map rev_upt_diff by (simp add: Kd)
  moreover have "map2 (XOR) (words_of c) (Kd ! 0) = sub_shift t"
    using words_of_last_round[OF len(2) assms(3)[of rounds]] len assms(3)[of rounds]
    by (simp add: c_def Kd map2_xor_cancel)
  moreover have "foldl dec_round (sub_shift t) (map (map inv_mix) (rev rks)) = sub_shift t0"
    unfolding t_def by (rule middle_rounds) (use len assms(3) in \<open>auto simp: rks_def\<close>)
  moreover have "last_round Si_table DEC_SHIFTS (sub_shift t0) (Kd ! rounds) = block"
    using words_of_block[OF assms(1)] assms(3)[of 0] len
    by (simp add: last_round_sub_shift Kd) (simp add: t0_def map2_xor_cancel)
  ultimately show ?thesis
    unfolding run_cipher_def foldl_rounds Let_def
    by (intro exI[of _ c]) (simp add: assms(4) length_c)
qed

lemma aes_inverse:
  assumes "AES key = Inr A" and "length block = 16"
  shows "\<exists>c. aes_encrypt A block = Inr c \<and> length c = 16 \<and> aes_decrypt A c = Inr block"
proof -
  obtain rounds where "A = key_schedule rounds key"
    using assms(1) by (auto simp: AES_def split: option.splits)
  then show ?thesis
    using run_cipher_inverse[OF assms(2) key_schedule_keys[where rounds = rounds and key = key]]
    by (simp add: aes_encrypt_def aes_decrypt_def)
qed

subsection \<open>Cipher block chaining\<close>

record cbc =
  cbc_aes :: aes
  cbc_last :: "8 word list"

definition AESModeOfOperationCBC :: "8 word list \<Rightarrow> 8 word list option \<Rightarrow> cbc res" where
  "AESModeOfOperationCBC key iv =
     rbind (case iv of None \<Rightarrow> Inr (replicate 16 0)
            | Some v \<Rightarrow> if length v \<noteq> 16 then Inl ValueError else Inr v) (\<lambda>last.
     rbind (AES key) (\<lambda>A. Inr \<lparr>cbc_aes = A, cbc_last = last\<rparr>))"

definition cbc_encrypt :: "8 word list \<Rightarrow> (exn, cbc, 8 word list) st" where
  "cbc_encrypt plaintext = (if length plaintext \<noteq> 16 then raise ValueError else
     bindM getM (\<lambda>m.
     bindM (lift (aes_encrypt (cbc_aes m) (map2 (XOR) plaintext (cbc_last m)))) (\<lambda>cipherblock.
     bindM (modifyM (\<lambda>m. m\<lparr>cbc_last := cipherblock\<rparr>)) (\<lambda>_. ret cipherblock))))"

definition cbc_decrypt :: "8 word list \<Rightarrow> (exn, cbc, 8 word list) st" where
  "cbc_decrypt cipherblock = (if length cipherblock \<noteq> 16 then raise ValueError else
     bindM getM (\<lambda>m.
     bindM (lift (aes_decrypt (cbc_aes m) cipherblock)) (\<lambda>p.
     bindM (modifyM (\<lambda>m. m\<lparr>cbc_last := cipherblock\<rparr>)) (\<lambda>_. ret (map2 (XOR) p (cbc_last m))))))"

lemma cbc_inverse:
  assumes "AES key = Inr A" and "length p = 16" and "length l = 16"
  obtains c where "length c = 16"
    and "cbc_encrypt p \<lparr>cbc_aes = A, cbc_last = l\<rparr> = (Inr c, \<lparr>cbc_aes = A, cbc_last = c\<rparr>)"
    and "cbc_decrypt c \<lparr>cbc_aes = A, cbc_last = l\<rparr> = (Inr p, \<lparr>cbc_aes = A, cbc_last = c\<rparr>)"
proof -
  obtain c where "aes_encrypt A (map2 (XOR) p l) = Inr c" "length c = 16"
    "aes_decrypt A c = Inr (map2 (XOR) p l)"
    using aes_inverse[OF assms(1), of "map2 (XOR) p l"] assms by auto
  then show ?thesis
    using that[of c] assms(2,3)
    by (simp add: cbc_encrypt_def cbc_decrypt_def bindM_eq map2_xor_cancel)
qed

lemma cbc_blocks_inverse:
  assumes "AES key = Inr A" and "\<forall>p \<in> set ps. length p = 16" and "length l = 16"
  shows "\<exists>cs t. mapM cbc_encrypt ps \<lparr>cbc_aes = A, cbc_last = l\<rparr> = (Inr cs, t)
    \<and> length cs = length ps \<and> (\<forall>c \<in> set cs. length c = 16)
    \<and> fst (mapM cbc_decrypt cs \<lparr>cbc_aes = A, cbc_last = l\<rparr>) = Inr ps"
  using assms(2,3)
proof (induction ps arbitrary: l)
  case Nil
  then show ?case by simp
next
  case (Cons p ps)
  obtain c where c: "length c = 16"
    "cbc_encrypt p \<lparr>cbc_aes = A, cbc_last = l\<rparr> = (Inr c, \<lparr>cbc_aes = A, cbc_last = c\<rparr>)"
    "cbc_decrypt c \<lparr>cbc_aes = A, cbc_last = l\<rparr> = (Inr p, \<lparr>cbc_aes = A, cbc_last = c\<rparr>)"
    using cbc_inverse[OF assms(1), of p l] Cons.prems by auto
  obtain cs t where cs: "mapM cbc_encrypt ps \<lparr>cbc_aes = A, cbc_last = c\<rparr> = (Inr cs, t)"
    "length cs = length ps" "\<forall>c \<in> set cs. length c = 16"
    "fst (mapM cbc_decrypt cs \<lparr>cbc_aes = A, cbc_last = c\<rparr>) = Inr ps"
    using Cons.IH[of c] Cons.prems c(1) by auto
  obtain u where "mapM cbc_decrypt cs \<lparr>cbc_aes = A, cbc_last = c\<rparr> = (Inr ps, u)"
    using cs(4) by (cases "mapM cbc_decrypt cs \<lparr>cbc_aes = A, cbc_last = c\<rparr>") auto
  then show ?case using c cs by (intro exI[of _ "c # cs"] exI[of _ t]) (simp add: bindM_eq)
qed

end
