(* ===== verification/DbCrypto.thy ===== *)
theory DbCrypto
  imports Pyaes
begin

section \<open>Encrypted database passwords (\<open>_dbcrypto.py\<close>)\<close>

text \<open>
  Keys and \<open>ENC:...\<close> tokens: base64url without padding, PKCS7, AES-CBC and an HMAC over iv and
  ciphertext. A byte is an \<open>8 word\<close>; a plaintext is the list of its code points, so that UTF-8
  is modelled for all of Unicode. HMAC-SHA256 of the standard library is the parameter
  \<open>mac\<close>, of which only the length of its value, 32 bytes, is used; the random bytes of
  \<open>os.urandom\<close> are arguments.

  The stages of a token are codecs: the locale \<open>codec\<close> states the law of an encoder and its
  decoder, and that codecs compose; UTF-8, PKCS7, base64url and key texts are interpretations.
\<close>

type_synonym bytes = "8 word list"

subsection \<open>Codecs\<close>

locale codec =
  fixes enc :: "'a \<Rightarrow> exn + 'b" and dec :: "'b \<Rightarrow> exn + 'a"
  assumes dec_enc: "enc x = Inr y \<Longrightarrow> dec y = Inr x"
begin

lemma enc_inject: "enc x = Inr y \<Longrightarrow> enc x' = Inr y \<Longrightarrow> x = x'"
  using dec_enc by (metis sum.inject(2))

end

locale codec_pair = inner: codec enc1 dec1 + outer: codec enc2 dec2
  for enc1 :: "'a \<Rightarrow> exn + 'b" and dec1 and enc2 :: "'b \<Rightarrow> exn + 'c" and dec2
begin

lemma compose: "rbind (enc1 x) enc2 = Inr z \<Longrightarrow> rbind (dec2 z) dec1 = Inr x"
  using inner.dec_enc outer.dec_enc by fastforce

end

sublocale codec_pair \<subseteq> both: codec "\<lambda>x. rbind (enc1 x) enc2" "\<lambda>z. rbind (dec2 z) dec1"
  by unfold_locales (rule compose)

subsection \<open>PKCS7 padding\<close>

definition pad :: "bytes \<Rightarrow> bytes" where
  "pad data = (let pad_len = 16 - length data mod 16
     in data @ replicate pad_len (word_of_nat pad_len))"

definition unpad :: "bytes \<Rightarrow> bytes res" where
  "unpad data = (if data = [] then Inl ValueError else
     let pad_len = unat (last data) in
     if pad_len < 1 \<or> pad_len > 16 then Inl ValueError
     else if drop (length data - pad_len) data \<noteq> replicate pad_len (word_of_nat pad_len)
     then Inl ValueError else Inr (take (length data - pad_len) data))"

lemma length_pad: "16 dvd length (pad data)" and pad_nonempty: "pad data \<noteq> []"
proof -
  have "(length data + (16 - length data mod 16)) mod 16 = 0"
    by (metis Nat.add_diff_assoc add.commute le_add_diff_inverse less_imp_le mod_add_left_eq
        mod_less_divisor mod_self zero_less_numeral)
  then show "16 dvd length (pad data)" by (simp add: pad_def Let_def mod_eq_0_iff_dvd)
  have "length data mod 16 < 16" by simp
  then show "pad data \<noteq> []" by (simp add: pad_def Let_def)
qed

lemma unpad_pad [simp]: "unpad (pad data) = Inr data"
proof -
  define n where "n = 16 - length data mod 16"
  have n: "1 \<le> n" "n \<le> 16" by (simp_all add: n_def Suc_leI)
  then have "unat (word_of_nat n :: 8 word) = n" by (simp add: unat_of_nat take_bit_nat_eq_self)
  then show ?thesis using n by (simp add: unpad_def pad_def n_def[symmetric] Let_def last_append)
qed

interpretation pkcs7: codec "\<lambda>data. Inr (pad data)" unpad
  by unfold_locales auto

subsection \<open>UTF-8\<close>

definition cont_byte :: "nat \<Rightarrow> 8 word" where
  "cont_byte n = word_of_nat (128 + n mod 64)"

definition utf8_char :: "nat \<Rightarrow> bytes res" where
  "utf8_char c =
     (if c < 0x80 then Inr [word_of_nat c]
      else if c < 0x800 then Inr [word_of_nat (0xC0 + c div 64), cont_byte c]
      else if (0xD800 \<le> c \<and> c < 0xE000) \<or> 0x110000 \<le> c then Inl ValueError
      else if c < 0x10000
        then Inr [word_of_nat (0xE0 + c div 4096), cont_byte (c div 64), cont_byte c]
      else Inr [word_of_nat (0xF0 + c div 262144), cont_byte (c div 4096), cont_byte (c div 64),
                cont_byte c])"

definition utf8_encode :: "nat list \<Rightarrow> bytes res" where
  "utf8_encode s = rbind (rmapM utf8_char s) (\<lambda>bs. Inr (concat bs))"

definition is_cont :: "8 word \<Rightarrow> bool" where
  "is_cont b \<longleftrightarrow> unat b div 64 = 2"

definition cont_bits :: "8 word \<Rightarrow> nat" where
  "cont_bits b = unat b mod 64"

text \<open>A decoded character if it is in the range its length is for, and no surrogate.\<close>

definition in_range :: "nat \<Rightarrow> nat \<Rightarrow> nat \<Rightarrow> nat res" where
  "in_range lo hi c = (if lo \<le> c \<and> c < hi \<and> \<not> (0xD800 \<le> c \<and> c < 0xE000) then Inr c else Inl ValueError)"

fun utf8_decode :: "bytes \<Rightarrow> nat list res" where
  "utf8_decode [] = Inr []"
| "utf8_decode (b # bs) =
     (if unat b < 0x80 then rbind (utf8_decode bs) (\<lambda>s. Inr (unat b # s))
      else if 0xC0 \<le> unat b \<and> unat b < 0xE0 then (case bs of
          b1 # rest \<Rightarrow> if is_cont b1
            then rbind (in_range 0x80 0x800 ((unat b - 0xC0) * 64 + cont_bits b1)) (\<lambda>c.
              rbind (utf8_decode rest) (\<lambda>s. Inr (c # s)))
            else Inl ValueError
        | _ \<Rightarrow> Inl ValueError)
      else if 0xE0 \<le> unat b \<and> unat b < 0xF0 then (case bs of
          b1 # b2 # rest \<Rightarrow> if is_cont b1 \<and> is_cont b2
            then rbind (in_range 0x800 0x10000
                ((unat b - 0xE0) * 4096 + cont_bits b1 * 64 + cont_bits b2)) (\<lambda>c.
              rbind (utf8_decode rest) (\<lambda>s. Inr (c # s)))
            else Inl ValueError
        | _ \<Rightarrow> Inl ValueError)
      else if 0xF0 \<le> unat b \<and> unat b < 0xF8 then (case bs of
          b1 # b2 # b3 # rest \<Rightarrow> if is_cont b1 \<and> is_cont b2 \<and> is_cont b3
            then rbind (in_range 0x10000 0x110000
                ((unat b - 0xF0) * 262144 + cont_bits b1 * 4096 + cont_bits b2 * 64 + cont_bits b3)) (\<lambda>c.
              rbind (utf8_decode rest) (\<lambda>s. Inr (c # s)))
            else Inl ValueError
        | _ \<Rightarrow> Inl ValueError)
      else Inl ValueError)"

lemma unat_byte_of_nat: "n < 256 \<Longrightarrow> unat (word_of_nat n :: 8 word) = n"
  by (simp add: unat_of_nat take_bit_nat_eq_self)

lemma unat_cont_byte: "unat (cont_byte n) = 128 + n mod 64"
proof -
  have "128 + n mod 64 < 256" using mod_less_divisor[of 64 n] by linarith
  then show ?thesis unfolding cont_byte_def by (rule unat_byte_of_nat)
qed

lemma cont_byte_simps [simp]: "is_cont (cont_byte n)" "cont_bits (cont_byte n) = n mod 64"
proof -
  have "(128 + m) div 64 = 2" "(128 + m) mod 64 = m" if "m < 64" for m :: nat
    using that mod_mult_self2[of m 64 2] by (simp_all add: add.commute)
  from this[of "n mod 64"] have "(128 + n mod 64) div 64 = 2" "(128 + n mod 64) mod 64 = n mod 64"
    by simp_all
  then show "is_cont (cont_byte n)" "cont_bits (cont_byte n) = n mod 64"
    by (simp_all only: is_cont_def cont_bits_def unat_cont_byte)
qed

lemma base64_digits: "c div 4096 * 4096 + c div 64 mod 64 * 64 + c mod 64 = (c :: nat)"
proof -
  have "c div 4096 = c div 64 div 64" by (simp add: div_mult2_eq[symmetric])
  then have "c div 4096 * 64 + c div 64 mod 64 = c div 64" by (simp only: div_mult_mod_eq)
  then have "(c div 4096 * 64 + c div 64 mod 64) * 64 + c mod 64 = c"
    by (simp only: div_mult_mod_eq)
  then show ?thesis by (simp add: algebra_simps)
qed

lemma utf8_char_cases:
  assumes "utf8_char c = Inr bs"
  obtains (one) "c < 0x80" "bs = [word_of_nat c]"
  | (two) "0x80 \<le> c" "c < 0x800" "bs = [word_of_nat (0xC0 + c div 64), cont_byte c]"
  | (three) "0x800 \<le> c" "c < 0x10000" "\<not> (0xD800 \<le> c \<and> c < 0xE000)"
      "bs = [word_of_nat (0xE0 + c div 4096), cont_byte (c div 64), cont_byte c]"
  | (four) "0x10000 \<le> c" "c < 0x110000"
      "bs = [word_of_nat (0xF0 + c div 262144), cont_byte (c div 4096), cont_byte (c div 64),
             cont_byte c]"
  using assms by (auto simp: utf8_char_def split: if_splits)

lemma utf8_decode_char:
  assumes "utf8_char c = Inr bs"
  shows "utf8_decode (bs @ rest) = rbind (utf8_decode rest) (\<lambda>s. Inr (c # s))"
  using assms
proof (cases rule: utf8_char_cases)
  case one
  moreover have "unat (word_of_nat c :: 8 word) = c" using one(1) by (intro unat_byte_of_nat) simp
  ultimately show ?thesis by simp
next
  case two
  define h where "h = c div 64"
  have h: "h < 32" "2 \<le> h" "h * 64 + c mod 64 = c" using two by (simp_all add: h_def)
  have u: "unat (word_of_nat (0xC0 + h) :: 8 word) = 0xC0 + h" using h(1) by (intro unat_byte_of_nat) simp
  show ?thesis using two h
    unfolding two(3) h_def[symmetric]
    by (simp add: u in_range_def del: of_nat_add)
next
  case three
  define h where "h = c div 4096"
  have "h < 16" using three(2) by (simp add: h_def less_mult_imp_div_less)
  moreover have "h * 4096 + c div 64 mod 64 * 64 + c mod 64 = c"
    using base64_digits[of c] by (simp add: h_def)
  ultimately have h: "h < 16" "h * 4096 + c div 64 mod 64 * 64 + c mod 64 = c" .
  have u: "unat (word_of_nat (0xE0 + h) :: 8 word) = 0xE0 + h" using h(1) by (intro unat_byte_of_nat) simp
  show ?thesis using three h
    unfolding three(4) h_def[symmetric]
    by (simp add: u in_range_def del: of_nat_add)
next
  case four
  define h where "h = c div 262144"
  have "h < 8" using four(2) by (simp add: h_def less_mult_imp_div_less)
  moreover have "h * 262144 + c div 4096 mod 64 * 4096 + c div 64 mod 64 * 64 + c mod 64 = c"
  proof -
    have "h * 4096 + c div 4096 mod 64 * 64 + c div 64 mod 64 = c div 64"
      using base64_digits[of "c div 64"] by (simp add: h_def div_mult2_eq[symmetric])
    then have "(h * 4096 + c div 4096 mod 64 * 64 + c div 64 mod 64) * 64 + c mod 64 = c"
      by (simp only: div_mult_mod_eq)
    then show ?thesis by (simp add: algebra_simps)
  qed
  ultimately have h: "h < 8" "h * 262144 + c div 4096 mod 64 * 4096 + c div 64 mod 64 * 64 + c mod 64 = c" .
  have u: "unat (word_of_nat (0xF0 + h) :: 8 word) = 0xF0 + h" using h(1) by (intro unat_byte_of_nat) simp
  show ?thesis using four h
    unfolding four(3) h_def[symmetric]
    by (simp add: u in_range_def del: of_nat_add)
qed

lemma utf8_decode_encode: "utf8_encode s = Inr bs \<Longrightarrow> utf8_decode bs = Inr s"
proof (induction s arbitrary: bs)
  case Nil
  then show ?case by (simp add: utf8_encode_def)
next
  case (Cons c s)
  then obtain b rest where "utf8_char c = Inr b" "utf8_encode s = Inr rest" "bs = b @ rest"
    by (auto simp: utf8_encode_def)
  then show ?case using Cons.IH by (simp add: utf8_decode_char)
qed

interpretation utf8: codec utf8_encode utf8_decode
  by unfold_locales (rule utf8_decode_encode)

text \<open>A text as bytes that fill whole blocks.\<close>

interpretation padded: codec_pair utf8_encode utf8_decode "\<lambda>data. Inr (pad data)" unpad
  by unfold_locales

subsection \<open>base64url\<close>

definition b64_alphabet :: string where
  "b64_alphabet = ''ABCDEFGHIJKLMNOPQRSTUVWXYZabcdefghijklmnopqrstuvwxyz0123456789-_''"

definition b64_char :: "nat \<Rightarrow> char" where
  "b64_char n = b64_alphabet ! n"

text \<open>\<open>base64.urlsafe_b64encode\<close>\<close>

fun urlsafe_b64encode :: "bytes \<Rightarrow> string" where
  "urlsafe_b64encode [] = []"
| "urlsafe_b64encode [a] =
     [b64_char (unat a div 4), b64_char (unat a mod 4 * 16), CHR ''='', CHR ''='']"
| "urlsafe_b64encode [a, b] =
     [b64_char (unat a div 4), b64_char (unat a mod 4 * 16 + unat b div 16),
      b64_char (unat b mod 16 * 4), CHR ''='']"
| "urlsafe_b64encode (a # b # c # rest) =
     b64_char (unat a div 4) # b64_char (unat a mod 4 * 16 + unat b div 16)
     # b64_char (unat b mod 16 * 4 + unat c div 64) # b64_char (unat c mod 64)
     # urlsafe_b64encode rest"

text \<open>
  \<open>base64.urlsafe_b64decode\<close> of a text, with the scanner of \<open>binascii.a2b_base64\<close>: a character
  outside the alphabet is skipped, a padding character that completes a group ends the scan. The
  state is the position in the group of four, the bits left over and the number of padding
  characters seen.
\<close>

definition b64_value :: "char \<Rightarrow> nat option" where
  "b64_value ch = (let n = code ch in
     if 65 \<le> n \<and> n \<le> 90 then Some (n - 65)
     else if 97 \<le> n \<and> n \<le> 122 then Some (n - 97 + 26)
     else if 48 \<le> n \<and> n \<le> 57 then Some (n - 48 + 52)
     else if n = 45 \<or> n = 43 then Some 62
     else if n = 95 \<or> n = 47 then Some 63 else None)"

definition emit :: "nat \<Rightarrow> bytes res \<Rightarrow> bytes res" where
  "emit n r = rbind r (\<lambda>bs. Inr (word_of_nat n # bs))"

fun a2b_base64 :: "string \<Rightarrow> nat \<Rightarrow> nat \<Rightarrow> nat \<Rightarrow> bytes res" where
  "a2b_base64 [] quad_pos leftchar pads = (if quad_pos \<noteq> 0 then Inl ValueError else Inr [])"
| "a2b_base64 (ch # cs) quad_pos leftchar pads =
     (if ch = CHR ''='' then
        (if 2 \<le> quad_pos
         then (if 4 \<le> quad_pos + (pads + 1) then Inr []
               else a2b_base64 cs quad_pos leftchar (pads + 1))
         else a2b_base64 cs quad_pos leftchar pads)
      else (case b64_value ch of
        None \<Rightarrow> a2b_base64 cs quad_pos leftchar pads
      | Some v \<Rightarrow>
          if quad_pos = 0 then a2b_base64 cs 1 v 0
          else if quad_pos = 1 then emit (leftchar * 4 + v div 16) (a2b_base64 cs 2 (v mod 16) 0)
          else if quad_pos = 2 then emit (leftchar * 16 + v div 4) (a2b_base64 cs 3 (v mod 4) 0)
          else emit (leftchar * 64 + v) (a2b_base64 cs 0 0 0)))"

definition urlsafe_b64decode :: "string \<Rightarrow> bytes res" where
  "urlsafe_b64decode s = (if \<exists>ch \<in> set s. 128 \<le> code ch then Inl ValueError
     else a2b_base64 s 0 0 0)"

text \<open>The two ends of the unpadded form: \<open>rstrip\<close> of the padding, and adding it back.\<close>

definition b64_text :: "bytes \<Rightarrow> string" where
  "b64_text bs = rstrip_by (\<lambda>ch. ch = CHR ''='') (urlsafe_b64encode bs)"

definition b64_bytes :: "string \<Rightarrow> bytes res" where
  "b64_bytes s = urlsafe_b64decode (s @ replicate (nat ((- int (length s)) mod 4)) CHR ''='')"

lemma b64_alphabet_values: "map b64_value b64_alphabet = map Some [0..<64]"
  by (simp add: b64_alphabet_def b64_value_def upt_rec)

lemma b64_alphabet_chars:
  "list_all (\<lambda>ch. ch \<noteq> CHR ''='' \<and> code ch < 128 \<and> \<not> py_isspace ch) b64_alphabet"
  by (simp add: b64_alphabet_def py_isspace_def)

lemma length_b64_alphabet: "length b64_alphabet = 64"
  by (simp add: b64_alphabet_def)

lemma b64_char_simps [simp]:
  assumes "n < 64"
  shows "b64_value (b64_char n) = Some n" "b64_char n \<noteq> CHR ''=''" "code (b64_char n) < 128"
    "\<not> py_isspace (b64_char n)"
proof -
  have "n < length b64_alphabet" using assms by (simp add: length_b64_alphabet)
  then show "b64_value (b64_char n) = Some n"
    using arg_cong[OF b64_alphabet_values, of "\<lambda>xs. xs ! n"] assms by (simp add: b64_char_def)
  show "b64_char n \<noteq> CHR ''=''" "code (b64_char n) < 128" "\<not> py_isspace (b64_char n)"
    using b64_alphabet_chars \<open>n < length b64_alphabet\<close> by (auto simp: b64_char_def list_all_length)
qed

lemma byte_digits [simp]:
  fixes a b :: "8 word"
  shows "unat a div 4 < 64" "unat a mod 4 * 16 < 64" "unat a mod 4 * 16 + unat b div 16 < 64"
    "unat a mod 16 * 4 < 64" "unat a mod 16 * 4 + unat b div 64 < 64" "unat a mod 64 < 64"
proof -
  have "unat b div 16 < 16" "unat b div 64 < 4" using unat_byte[of b] by (simp_all add: less_mult_imp_div_less)
  moreover have "unat a mod 4 < 4" "unat a mod 16 < 16" by simp_all
  ultimately show "unat a mod 4 * 16 < 64" "unat a mod 4 * 16 + unat b div 16 < 64"
    "unat a mod 16 * 4 < 64" "unat a mod 16 * 4 + unat b div 64 < 64" by linarith+
qed (use unat_byte[of a] in \<open>simp_all add: less_mult_imp_div_less\<close>)

lemma digit_split [simp]:
  fixes x y :: nat
  shows "y < 16 \<Longrightarrow> (x * 16 + y) div 16 = x" "y < 16 \<Longrightarrow> (x * 16 + y) mod 16 = y"
    "y < 4 \<Longrightarrow> (x * 4 + y) div 4 = x" "y < 4 \<Longrightarrow> (x * 4 + y) mod 4 = y"
  by (simp_all add: mult.commute[of x] div_mult_self4 mod_mult_self4)

lemma byte_div [simp]: "unat (b :: 8 word) div 16 < 16" "unat (b :: 8 word) div 64 < 4"
  using unat_byte[of b] by (simp_all add: less_mult_imp_div_less)

lemma emit_Inr [simp]: "emit n (Inr bs) = Inr (word_of_nat n # bs)"
  by (simp add: emit_def)

lemma a2b_encode: "a2b_base64 (urlsafe_b64encode bs) 0 0 0 = Inr bs"
  by (induction bs rule: urlsafe_b64encode.induct) simp_all

lemma b64_ascii: "ch \<in> set (urlsafe_b64encode bs) \<Longrightarrow> code ch < 128"
  by (induction bs rule: urlsafe_b64encode.induct) auto

lemma b64_decode_encode: "urlsafe_b64decode (urlsafe_b64encode bs) = Inr bs"
  using b64_ascii[of _ bs] by (auto simp: urlsafe_b64decode_def a2b_encode not_le dest: leD)

text \<open>The padding that \<open>rstrip\<close> removes is the padding that the decoder adds.\<close>

fun b64_plain :: "bytes \<Rightarrow> string" where
  "b64_plain [] = []"
| "b64_plain [a] = [b64_char (unat a div 4), b64_char (unat a mod 4 * 16)]"
| "b64_plain [a, b] =
     [b64_char (unat a div 4), b64_char (unat a mod 4 * 16 + unat b div 16), b64_char (unat b mod 16 * 4)]"
| "b64_plain (a # b # c # rest) = urlsafe_b64encode [a, b, c] @ b64_plain rest"

lemma b64_plain_chars:
  "ch \<in> set (b64_plain bs) \<Longrightarrow> ch \<noteq> CHR ''='' \<and> code ch < 128 \<and> \<not> py_isspace ch"
  by (induction bs rule: b64_plain.induct) auto

lemma b64_padding:
  "urlsafe_b64encode bs = b64_plain bs @ replicate (nat ((- int (length (b64_plain bs))) mod 4)) CHR ''=''"
proof (induction bs rule: b64_plain.induct)
  case (4 a b c rest)
  have "(- int (4 + length (b64_plain rest))) mod 4 = (- int (length (b64_plain rest))) mod 4"
    by presburger
  then show ?case using 4 by simp
qed (simp_all add: numeral_2_eq_2)

lemma rstrip_append_pad:
  assumes "\<forall>x \<in> set s. \<not> P x" and "P ch"
  shows "rstrip_by P (s @ replicate n ch) = s"
proof -
  have "dropWhile P (replicate n ch @ rev s) = dropWhile P (rev s)"
    using assms(2) by (induction n) auto
  also have "\<dots> = rev s" using assms(1) by (cases "rev s") (auto simp: dropWhile_eq_self_iff)
  finally show ?thesis by (simp add: rstrip_by_def)
qed

lemma b64_text_plain: "b64_text bs = b64_plain bs"
  unfolding b64_text_def b64_padding by (rule rstrip_append_pad) (auto dest: b64_plain_chars)

lemma b64_text_nonempty: "bs \<noteq> [] \<Longrightarrow> b64_text bs \<noteq> []"
  by (cases bs rule: b64_plain.cases) (simp_all add: b64_text_plain)

lemma b64_bytes_text [simp]: "b64_bytes (b64_text bs) = Inr bs"
  by (simp add: b64_bytes_def b64_text_plain b64_padding[symmetric] b64_decode_encode)

interpretation b64: codec "\<lambda>bs. Inr (b64_text bs)" b64_bytes
  by unfold_locales auto

subsection \<open>Keys\<close>

definition ENC_PREFIX :: string where
  "ENC_PREFIX = ''ENC:''"

definition key_to_str :: "bytes \<Rightarrow> string" where
  "key_to_str key = b64_text key"

definition key_from_str :: "string \<Rightarrow> bytes res" where
  "key_from_str s = rbind (b64_bytes (py_strip s)) (\<lambda>raw.
     if length raw \<noteq> 32 then Inl ValueError else Inr raw)"

text \<open>The environment variable \<open>ZABBIG_DB_KEY\<close> and the key file, each missing or a text.\<close>

definition no_key_error :: exn where
  "no_key_error = RuntimeError (Issue ''No encryption key found.'' [])"

definition load_key :: "string option \<Rightarrow> string option \<Rightarrow> bytes res" where
  "load_key env_var key_file = (let
     env_val = py_strip (case env_var of None \<Rightarrow> [] | Some v \<Rightarrow> v) in
     if env_val \<noteq> [] then key_from_str env_val
     else case key_file of Some text \<Rightarrow> key_from_str (py_strip text) | None \<Rightarrow> Inl no_key_error)"

text \<open>
  \<open>load_or_create_key\<close>, with the random key it would generate; the state is the key file. Writing
  the file, as far as it succeeds, replaces it by the key's text and a newline.
\<close>

definition load_or_create_key :: "string option \<Rightarrow> bytes \<Rightarrow> (exn, string option, bytes) st" where
  "load_or_create_key env_var fresh = bindM getM (\<lambda>key_file.
     case load_key env_var key_file of
       Inr key \<Rightarrow> ret key
     | Inl e \<Rightarrow> if is_runtime_error e
         then bindM (modifyM (\<lambda>_. Some (key_to_str fresh @ [CHR 0x0A]))) (\<lambda>_. ret fresh)
         else raise e)"

subsection \<open>Tokens\<close>

definition AES_block_slices :: "bytes \<Rightarrow> bytes list" where
  "AES_block_slices data = chunks 16 data"

definition encrypt :: "(bytes \<Rightarrow> bytes \<Rightarrow> bytes) \<Rightarrow> bytes \<Rightarrow> nat list \<Rightarrow> bytes \<Rightarrow> string res" where
  "encrypt mac iv plaintext key =
     rbind (utf8_encode plaintext) (\<lambda>text.
     rbind (AESModeOfOperationCBC key (Some iv)) (\<lambda>aes.
     rbind (fst (mapM cbc_encrypt (AES_block_slices (pad text)) aes)) (\<lambda>blocks.
     let ciphertext = concat blocks in
     Inr (ENC_PREFIX @ b64_text (mac key (iv @ ciphertext) @ iv @ ciphertext)))))"

definition split_payload :: "bytes \<Rightarrow> bytes \<times> bytes \<times> bytes" where
  "split_payload payload = (take 32 payload, take 16 (drop 32 payload), drop 48 payload)"

definition decrypt :: "(bytes \<Rightarrow> bytes \<Rightarrow> bytes) \<Rightarrow> string \<Rightarrow> bytes \<Rightarrow> nat list res" where
  "decrypt mac token key =
     (if \<not> startswith token ENC_PREFIX then Inl ValueError
      else rbind (b64_bytes (drop (length ENC_PREFIX) token)) (\<lambda>payload.
        if length payload < 64 then Inl ValueError
        else (case split_payload payload of (stored_mac, iv, ciphertext) \<Rightarrow>
          if stored_mac \<noteq> mac key (iv @ ciphertext) then Inl ValueError
          else rbind (AESModeOfOperationCBC key (Some iv)) (\<lambda>aes.
            rbind (fst (mapM cbc_decrypt (AES_block_slices ciphertext) aes)) (\<lambda>blocks.
            rbind (unpad (concat blocks)) utf8_decode)))))"

definition is_encrypted :: "string \<Rightarrow> bool" where
  "is_encrypted v = startswith v ENC_PREFIX"

definition decrypt_if_encrypted ::
  "(bytes \<Rightarrow> bytes \<Rightarrow> bytes) \<Rightarrow> string \<Rightarrow> bytes \<Rightarrow> nat list res" where
  "decrypt_if_encrypted mac v key =
     (if is_encrypted v then decrypt mac v key else Inr (map code v))"

subsection \<open>Lemmas on tokens\<close>

lemma length_ENC_PREFIX: "length ENC_PREFIX = 4"
  by (simp add: ENC_PREFIX_def)

lemma startswith_append [simp]: "startswith (p @ s) p"
  by (simp add: startswith_def)

lemma chunks_concat:
  "\<forall>c \<in> set cs. length c = n \<Longrightarrow> 0 < n \<Longrightarrow> chunks n (concat cs) = cs"
proof (induction cs)
  case (Cons c cs)
  then show ?case by (subst chunks.simps) auto
qed simp

lemma chunks_exact: "n dvd length xs \<Longrightarrow> 0 < n \<Longrightarrow> c \<in> set (chunks n xs) \<Longrightarrow> length c = n"
proof (induction n xs rule: chunks.induct)
  case (1 n xs)
  show ?case
  proof (cases "xs = []")
    case False
    then have len: "n \<le> length xs" using 1 by (simp add: dvd_imp_le)
    have "chunks n xs = take n xs # chunks n (drop n xs)"
      using False 1 by (subst chunks.simps) simp
    moreover have "n dvd length (drop n xs)" using 1 len by simp
    ultimately show ?thesis using 1 False len by auto
  qed (use 1 in simp)
qed

lemma AES_key32: "length key = 32 \<Longrightarrow> \<exists>A. AES key = Inr A"
  by (simp add: AES_def number_of_rounds_def)

lemma encrypted_blocks:
  assumes "length key = 32" and "length iv = 16"
  obtains aes cs where "AESModeOfOperationCBC key (Some iv) = Inr aes"
    and "fst (mapM cbc_encrypt (AES_block_slices (pad encoded)) aes) = Inr cs"
    and "\<forall>c \<in> set cs. length c = 16" and "cs \<noteq> []"
    and "fst (mapM cbc_decrypt cs aes) = Inr (AES_block_slices (pad encoded))"
proof -
  obtain A where A: "AES key = Inr A" using AES_key32[OF assms(1)] by blast
  define ps where "ps = AES_block_slices (pad encoded)"
  have ps: "\<forall>p \<in> set ps. length p = 16"
    using chunks_exact[OF length_pad] by (auto simp: ps_def AES_block_slices_def)
  have "ps \<noteq> []"
    unfolding ps_def AES_block_slices_def
    by (metis concat.simps(1) concat_chunks pad_nonempty zero_less_numeral)
  with cbc_blocks_inverse[OF A ps assms(2)] A assms(2) show ?thesis
    by (auto simp: ps_def[symmetric] AESModeOfOperationCBC_def intro!: that)
qed

lemma token_round_trip:
  assumes "length key = 32" and "length iv = 16" and "\<forall>k m. length (mac k m) = 32"
    and "utf8_encode plaintext = Inr encoded"
  shows "\<exists>token. encrypt mac iv plaintext key = Inr token \<and> is_encrypted token
    \<and> decrypt mac token key = Inr plaintext"
proof -
  obtain aes cs where aes: "AESModeOfOperationCBC key (Some iv) = Inr aes"
    and enc: "fst (mapM cbc_encrypt (AES_block_slices (pad encoded)) aes) = Inr cs"
    and cs: "\<forall>c \<in> set cs. length c = 16" "cs \<noteq> []"
    and dec: "fst (mapM cbc_decrypt cs aes) = Inr (AES_block_slices (pad encoded))"
    using encrypted_blocks[OF assms(1,2)] by metis
  define ct where "ct = concat cs"
  define payload where "payload = mac key (iv @ ct) @ iv @ ct"
  have "16 \<le> length ct" using cs by (cases cs) (auto simp: ct_def)
  then have parts: "64 \<le> length payload" "split_payload payload = (mac key (iv @ ct), iv, ct)"
    using assms(2,3) by (simp_all add: payload_def split_payload_def)
  have "AES_block_slices ct = cs" using cs(1) by (simp add: AES_block_slices_def ct_def chunks_concat)
  moreover have "concat (AES_block_slices (pad encoded)) = pad encoded"
    by (simp add: AES_block_slices_def)
  moreover have "encrypt mac iv plaintext key = Inr (ENC_PREFIX @ b64_text payload)"
    by (simp add: encrypt_def assms(4) aes enc payload_def ct_def Let_def)
  moreover have "rbind (unpad (pad encoded)) utf8_decode = Inr plaintext"
    by (rule padded.both.dec_enc) (simp add: assms(4))
  ultimately show ?thesis using parts aes dec b64.dec_enc[of payload]
    by (auto simp: decrypt_def is_encrypted_def)
qed

subsection \<open>Properties\<close>

text \<open>
  C8: decryption undoes encryption: under any 32-byte key, with any 16-byte iv and any message
  authentication code of 32 bytes, a plaintext that UTF-8 can encode is encrypted to a token with
  the prefix, and decrypting the token with the key gives the plaintext back.
\<close>

theorem decrypt_undoes_encrypt:
  assumes "length key = 32" and "length iv = 16" and "\<forall>k m. length (mac k m) = 32"
    and "utf8_encode plaintext = Inr encoded"
  shows "\<exists>token. encrypt mac iv plaintext key = Inr token \<and> is_encrypted token
    \<and> decrypt mac token key = Inr plaintext"
  by (rule token_round_trip[OF assms])

theorem decrypt_undoes_encrypt_witness:
  "\<exists>token. encrypt (\<lambda>k m. replicate 32 7) (replicate 16 1) [112, 228, 8364] (replicate 32 2) = Inr token
    \<and> decrypt (\<lambda>k m. replicate 32 7) token (replicate 32 2) = Inr [112, 228, 8364]"
proof -
  have "\<exists>b. utf8_encode [112, 228, 8364] = Inr b"
    by (simp add: utf8_encode_def utf8_char_def)
  then show ?thesis
    using decrypt_undoes_encrypt[of "replicate 32 2" "replicate 16 1" "\<lambda>k m. replicate 32 7" "[112, 228, 8364]"]
    by auto
qed

text \<open>
  \<open>value_error_only r\<close>: if \<open>r\<close> raises then it raises \<open>ValueError\<close>. The rules follow the structure of
  a computation.
\<close>

named_theorems value_error_intros

definition value_error_only :: "'a res \<Rightarrow> bool" where
  "value_error_only r \<longleftrightarrow> (\<forall>e. r = Inl e \<longrightarrow> e = ValueError)"

lemma value_error_basic [value_error_intros]:
  "value_error_only (Inr a)" "value_error_only (Inl ValueError)"
  by (simp_all add: value_error_only_def)

lemma value_error_rbind [value_error_intros]:
  "value_error_only r \<Longrightarrow> (\<And>a. r = Inr a \<Longrightarrow> value_error_only (f a)) \<Longrightarrow> value_error_only (rbind r f)"
  by (cases r) (auto simp: value_error_only_def)

lemma value_error_if [value_error_intros]:
  "(b \<Longrightarrow> value_error_only r) \<Longrightarrow> (\<not> b \<Longrightarrow> value_error_only s) \<Longrightarrow> value_error_only (if b then r else s)"
  by simp

lemma value_error_case_list [value_error_intros]:
  "(xs = [] \<Longrightarrow> value_error_only r) \<Longrightarrow> (\<And>y ys. xs = y # ys \<Longrightarrow> value_error_only (f y ys))
     \<Longrightarrow> value_error_only (case xs of [] \<Rightarrow> r | y # ys \<Rightarrow> f y ys)"
  by (cases xs) simp_all

lemma value_error_case_option [value_error_intros]:
  "(x = None \<Longrightarrow> value_error_only r) \<Longrightarrow> (\<And>y. x = Some y \<Longrightarrow> value_error_only (f y))
     \<Longrightarrow> value_error_only (case x of None \<Rightarrow> r | Some y \<Rightarrow> f y)"
  by (cases x) simp_all

lemma value_error_case_prod [value_error_intros]:
  "(\<And>a b. p = (a, b) \<Longrightarrow> value_error_only (f a b)) \<Longrightarrow> value_error_only (case p of (a, b) \<Rightarrow> f a b)"
  by (cases p) simp

lemma value_error_mapM [value_error_intros]:
  assumes "\<And>b s. value_error_only (fst (f b s))"
  shows "value_error_only (fst (mapM f bs s))"
proof (induction bs arbitrary: s)
  case (Cons b bs)
  then show ?case using assms[of b s]
    by (auto simp: value_error_only_def bindM_eq split: sum.splits prod.splits) (metis fst_conv)+
qed (simp add: value_error_basic)

lemma value_error_a2b [value_error_intros]: "value_error_only (a2b_base64 s q l p)"
  by (induction s q l p rule: a2b_base64.induct)
    (auto simp: emit_def intro!: value_error_intros)

lemma value_error_b64_bytes [value_error_intros]: "value_error_only (b64_bytes s)"
  unfolding b64_bytes_def urlsafe_b64decode_def by (intro value_error_intros)

lemma value_error_key_from_str [value_error_intros]: "value_error_only (key_from_str s)"
  unfolding key_from_str_def by (intro value_error_intros)

lemma value_error_run_cipher [value_error_intros]: "value_error_only (run_cipher Ts Sb sh K b)"
  unfolding run_cipher_def Let_def by (intro value_error_intros)

lemma value_error_cbc_decrypt [value_error_intros]: "value_error_only (fst (cbc_decrypt b s))"
  using value_error_run_cipher
  by (auto simp: cbc_decrypt_def bindM_eq aes_decrypt_def value_error_only_def split: sum.splits)

lemma value_error_CBC [value_error_intros]: "value_error_only (AESModeOfOperationCBC key iv)"
  unfolding AESModeOfOperationCBC_def AES_def by (intro value_error_intros)

lemma value_error_unpad [value_error_intros]: "value_error_only (unpad data)"
  unfolding unpad_def Let_def by (intro value_error_intros)

lemma value_error_in_range [value_error_intros]: "value_error_only (in_range lo hi c)"
  unfolding in_range_def by (intro value_error_intros)

lemma value_error_utf8_decode [value_error_intros]: "value_error_only (utf8_decode bs)"
proof (induction bs rule: utf8_decode.induct)
  case (2 b bs)
  then show ?case unfolding utf8_decode.simps(2) by (intro value_error_intros) auto
qed (simp add: value_error_basic)

lemma value_error_decrypt: "value_error_only (decrypt mac token key)"
  unfolding decrypt_def by (intro value_error_intros)

text \<open>
  C35: whatever token and key it is given, \<open>decrypt\<close> either returns a plaintext, and then the token
  carries the prefix and the authentication code of its iv and ciphertext under this key, or it
  raises \<open>ValueError\<close>: no other exception, and no plaintext of a token that was tampered with.
\<close>

theorem decrypt_checks_the_code:
  "decrypt mac token key = Inl ValueError \<or>
   (\<exists>plaintext payload. decrypt mac token key = Inr plaintext \<and> is_encrypted token
      \<and> b64_bytes (drop 4 token) = Inr payload \<and> 64 \<le> length payload
      \<and> take 32 payload = mac key (drop 32 payload))"
proof (cases "decrypt mac token key")
  case (Inl e)
  then show ?thesis using value_error_decrypt[of mac token key] by (simp add: value_error_only_def)
next
  case (Inr plaintext)
  then obtain payload where p: "b64_bytes (drop 4 token) = Inr payload" "64 \<le> length payload"
    "take 32 payload = mac key (take 16 (drop 32 payload) @ drop 48 payload)" "is_encrypted token"
    by (auto simp: decrypt_def split_payload_def is_encrypted_def length_ENC_PREFIX not_less split: if_splits)
  have "take 16 (drop 32 payload) @ drop 48 payload = drop 32 payload"
    using append_take_drop_id[of 16 "drop 32 payload"] by simp
  then show ?thesis using Inr p by auto
qed

lemma strip_key_text: "py_strip (b64_text key @ [CHR 0x0A]) = b64_text key" "py_strip (b64_text key) = b64_text key"
proof -
  have chars: "\<not> py_isspace ch" if "ch \<in> set (b64_text key)" for ch
    using that b64_plain_chars by (auto simp: b64_text_plain)
  then show "py_strip (b64_text key) = b64_text key"
    by (intro strip_no_space) (auto simp: list_all_iff)
  have sp: "py_isspace CHR 0x0A" by (simp add: py_isspace_def)
  have "py_lstrip (b64_text key @ [CHR 0x0A]) = (if key = [] then [] else b64_text key @ [CHR 0x0A])"
  proof (cases "b64_text key")
    case Nil
    then have "key = []" by (metis b64_bytes_text b64_text_plain b64_plain.simps(1) sum.inject(2))
    with Nil show ?thesis using sp by (simp add: py_lstrip_def)
  next
    case (Cons a t)
    then have "key \<noteq> []" by (auto simp: b64_text_plain)
    then show ?thesis using chars[of a] Cons by (simp add: py_lstrip_def)
  qed
  then show "py_strip (b64_text key @ [CHR 0x0A]) = b64_text key"
    using rstrip_append_pad[of "b64_text key" py_isspace "CHR 0x0A" 1] chars sp
    by (auto simp: py_strip_def rstrip_by_def b64_text_plain)
qed

lemma key_from_str_to_str:
  "length key = 32 \<Longrightarrow> key_from_str (py_strip (key_to_str key @ [CHR 0x0A])) = Inr key"
  by (simp add: key_from_str_def key_to_str_def strip_key_text)

lemma load_key_raises:
  assumes "load_key env_var key_file = Inl e"
  obtains (bad_key) "e = ValueError"
    | (no_key) "e = no_key_error" "key_file = None" "py_strip (case env_var of None \<Rightarrow> [] | Some v \<Rightarrow> v) = []"
proof (cases "e = ValueError")
  case False
  then have "key_from_str s \<noteq> Inl e" for s
    using value_error_key_from_str[of s] by (auto simp: value_error_only_def)
  with assms show ?thesis
    by (intro no_key) (auto simp: load_key_def Let_def split: if_splits option.splits)
qed (use bad_key in blast)

text \<open>
  Keys survive their storage: the key \<open>load_or_create_key\<close> returns is the key the next
  \<open>load_key\<close> finds, whether it came from the environment, from the key file or was generated; a key
  file that exists is never overwritten, also when its content is no key.
\<close>

theorem created_key_is_found:
  assumes "length fresh = 32"
  shows "case load_or_create_key env_var fresh key_file of
      (Inr key, key_file') \<Rightarrow> load_key env_var key_file' = Inr key
        \<and> (key_file' = key_file \<or> key_file = None \<and> key = fresh)
    | (Inl e, key_file') \<Rightarrow> e = ValueError \<and> key_file' = key_file"
proof (cases "load_key env_var key_file")
  case (Inr key)
  then show ?thesis by (simp add: load_or_create_key_def bindM_eq)
next
  case (Inl e)
  then show ?thesis
  proof (cases rule: load_key_raises)
    case bad_key
    then show ?thesis using Inl by (simp add: load_or_create_key_def bindM_eq)
  next
    case no_key
    then have "load_key env_var (Some (key_to_str fresh @ [CHR 0x0A])) = Inr fresh"
      using key_from_str_to_str[OF assms] by (simp add: load_key_def Let_def)
    moreover have "load_or_create_key env_var fresh key_file =
        (Inr fresh, Some (key_to_str fresh @ [CHR 0x0A]))"
      using Inl no_key by (simp add: load_or_create_key_def bindM_eq no_key_error_def)
    ultimately show ?thesis using no_key by simp
  qed
qed

lemma no_key_yet: "load_or_create_key None fresh None = (Inr fresh, Some (key_to_str fresh @ [CHR 0x0A]))"
  by (simp add: load_or_create_key_def bindM_eq load_key_def no_key_error_def py_strip_def
      py_lstrip_def rstrip_by_def)

theorem created_key_is_found_witness:
  "load_key None (snd (load_or_create_key None (replicate 32 5) None)) = Inr (replicate 32 5)"
  using created_key_is_found[of "replicate 32 5" None None] by (simp add: no_key_yet)

end
