(* ===== verification/EncryptTool.thy ===== *)
theory EncryptTool
  imports DbCrypto
begin

section \<open>The password tool (\<open>scripts/encrypt_password.py\<close>)\<close>

text \<open>
  \<open>main\<close> of the command line tool: its state is the key file, its value the exit code and the lines
  it prints on standard output. The parsed arguments, the environment variable, the random bytes
  and the message authentication code are arguments.
\<close>

record tool_args =
  ta_decrypt :: bool
  ta_generate_key :: bool
  ta_show_key :: bool
  ta_value :: "string option"

record tool_env =
  te_mac :: "bytes \<Rightarrow> bytes \<Rightarrow> bytes"
  te_key_var :: "string option"
  te_fresh_key :: bytes
  te_iv :: bytes

type_synonym 'a tool = "(exn, string option, 'a) st"

definition codepoints :: "string \<Rightarrow> nat list" where
  "codepoints s = map code s"

text \<open>\<open>load_key\<close> with \<open>RuntimeError\<close> caught: \<open>None\<close> ends the program with exit code 1.\<close>

definition key_or_exit :: "tool_env \<Rightarrow> bytes option tool" where
  "key_or_exit env = bindM getM (\<lambda>key_file. case load_key (te_key_var env) key_file of
     Inr key \<Rightarrow> ret (Some key)
   | Inl e \<Rightarrow> if is_runtime_error e then ret None else raise e)"

definition tool_main :: "tool_env \<Rightarrow> tool_args \<Rightarrow> (int \<times> nat list list) tool" where
  "tool_main env args =
     (if ta_generate_key args then ret (0, [codepoints (key_to_str (te_fresh_key env))])
      else if ta_show_key args then
        bindM (key_or_exit env) (\<lambda>k. case k of None \<Rightarrow> ret (1, [])
          | Some key \<Rightarrow> ret (0, [codepoints (key_to_str key)]))
      else case ta_value args of None \<Rightarrow> ret (1, []) | Some v \<Rightarrow>
        if v = [] then ret (1, [])
        else if ta_decrypt args then
          bindM (key_or_exit env) (\<lambda>k. case k of None \<Rightarrow> ret (1, [])
            | Some key \<Rightarrow> (case decrypt (te_mac env) v key of
                Inr plaintext \<Rightarrow> ret (0, [plaintext])
              | Inl e \<Rightarrow> if is_value_error e then ret (1, []) else raise e))
        else
          bindM (load_or_create_key (te_key_var env) (te_fresh_key env)) (\<lambda>key.
          bindM (lift (encrypt (te_mac env) (te_iv env) (codepoints v) key)) (\<lambda>token.
          ret (0, [codepoints token]))))"

lemma utf8_latin1: "\<exists>b. utf8_encode (codepoints s) = Inr b"
proof -
  have small: "\<exists>b. utf8_char n = Inr b" if "n < 256" for n
    using that by (simp add: utf8_char_def)
  have "\<exists>b. utf8_char (code ch) = Inr b" for ch by (rule small) simp
  then have "rmapM utf8_char (codepoints s) = Inr (map (\<lambda>c. projr (utf8_char c)) (codepoints s))"
    by (intro rmapM_Inr) (auto simp: codepoints_def, metis sum.sel(2))
  then show ?thesis by (simp add: utf8_encode_def)
qed

lemma loaded_key_length: "load_key env_var key_file = Inr key \<Longrightarrow> length key = 32"
  by (auto simp: load_key_def key_from_str_def Let_def split: if_splits option.splits)

definition encrypt_args :: "string \<Rightarrow> tool_args" where
  "encrypt_args v = \<lparr>ta_decrypt = False, ta_generate_key = False, ta_show_key = False, ta_value = Some v\<rparr>"

definition decrypt_args :: "string \<Rightarrow> tool_args" where
  "decrypt_args v = \<lparr>ta_decrypt = True, ta_generate_key = False, ta_show_key = False, ta_value = Some v\<rparr>"

lemma load_or_create_cases:
  assumes "length fresh = 32" and "load_key env_var key_file \<noteq> Inl ValueError"
  obtains key key_file' where "load_or_create_key env_var fresh key_file = (Inr key, key_file')"
    and "load_key env_var key_file' = Inr key"
proof (cases "load_key env_var key_file")
  case (Inr key)
  then show ?thesis using that[of key key_file] by (simp add: load_or_create_key_def bindM_eq)
next
  case (Inl e)
  then show ?thesis
  proof (cases rule: load_key_raises)
    case no_key
    then have "load_or_create_key env_var fresh key_file = (Inr fresh, Some (key_to_str fresh @ [CHR 0x0A]))"
      using Inl by (simp add: load_or_create_key_def bindM_eq no_key_error_def)
    moreover have "load_key env_var (Some (key_to_str fresh @ [CHR 0x0A])) = Inr fresh"
      using key_from_str_to_str[OF assms(1)] no_key by (simp add: load_key_def Let_def)
    ultimately show ?thesis using that by blast
  qed (use Inl assms(2) in simp)
qed

text \<open>
  on a host whose key, if it has one, is well formed, encrypting a non-empty password prints one
  token, and decrypting that token with the same tool prints the password: also on the first use,
  when the key is generated and saved on the way.
\<close>

theorem tool_decrypts_what_it_encrypts:
  assumes "length (te_fresh_key env) = 32" and "length (te_iv env) = 16"
    and "\<forall>k m. length (te_mac env k m) = 32" and "load_key (te_key_var env) key_file \<noteq> Inl ValueError"
    and "password \<noteq> []"
  shows "\<exists>token key_file'. tool_main env (encrypt_args password) key_file = (Inr (0, [codepoints token]), key_file')
    \<and> tool_main env (decrypt_args token) key_file' = (Inr (0, [codepoints password]), key_file')"
proof -
  obtain key key_file' where k: "load_or_create_key (te_key_var env) (te_fresh_key env) key_file = (Inr key, key_file')"
    "load_key (te_key_var env) key_file' = Inr key"
    using load_or_create_cases[OF assms(1,4)] by metis
  obtain b where "utf8_encode (codepoints password) = Inr b" using utf8_latin1 by blast
  then obtain token where t: "encrypt (te_mac env) (te_iv env) (codepoints password) key = Inr token"
    "is_encrypted token" "decrypt (te_mac env) token key = Inr (codepoints password)"
    using token_round_trip[OF loaded_key_length[OF k(2)] assms(2,3)] by blast
  then have "token \<noteq> []" by (auto simp: is_encrypted_def startswith_def ENC_PREFIX_def)
  then show ?thesis
    using k t assms(5) by (intro exI[of _ token] exI[of _ key_file'])
      (simp add: tool_main_def encrypt_args_def decrypt_args_def key_or_exit_def bindM_eq)
qed

theorem tool_decrypts_what_it_encrypts_witness:
  "let env = \<lparr>te_mac = \<lambda>k m. replicate 32 1, te_key_var = None, te_fresh_key = replicate 32 2,
      te_iv = replicate 16 3\<rparr> in
   \<exists>token key_file'. tool_main env (encrypt_args ''secret'') None = (Inr (0, [codepoints token]), key_file')
    \<and> fst (tool_main env (decrypt_args token) key_file') = Inr (0, [codepoints ''secret''])"
proof -
  have "load_key None None \<noteq> Inl ValueError"
    by (simp add: load_key_def no_key_error_def py_strip_def py_lstrip_def rstrip_by_def)
  then show ?thesis
    using tool_decrypts_what_it_encrypts[of "\<lparr>te_mac = \<lambda>k m. replicate 32 1, te_key_var = None,
      te_fresh_key = replicate 32 2, te_iv = replicate 16 3\<rparr>" None "''secret''"]
    by (auto simp: Let_def) (metis fst_conv)
qed

end
