(* ===== verification/Rijndael.thy ===== *)
theory Rijndael
  imports Pyaes
begin

section \<open>The cipher standard (FIPS 197) and its table-driven implementation\<close>

text \<open>
  The reference: AES as the standard defines it, over bytes that are integers below 256. The
  multiplication is that of the field of polynomials modulo \<open>x^8 + x^4 + x^3 + x + 1\<close>; the S-box is
  the inverse in the field followed by an affine map; a round substitutes, shifts rows, mixes columns
  and adds the round key. \<open>pyaes\<close> looks all of this up in tables of 32-bit words. The abstraction of a
  list of words is the list of their bytes; the lemmas show that each table-driven step computes the
  step of the standard on the abstraction.
\<close>

subsection \<open>The field\<close>

definition xtime :: "int \<Rightarrow> int" where
  "xtime x = (if x < 128 then 2 * x else (2 * x) XOR 0x11b)"

fun gmul_fuel :: "nat \<Rightarrow> int \<Rightarrow> int \<Rightarrow> int" where
  "gmul_fuel 0 x y = 0"
| "gmul_fuel (Suc k) x y = (if y mod 2 = 0 then 0 else x) XOR gmul_fuel k (xtime x) (y div 2)"

definition gmul :: "int \<Rightarrow> int \<Rightarrow> int" where
  "gmul = gmul_fuel 8"

text \<open>The inverses in the field; 0 stands for its own. \<open>inverses_correct\<close> checks them.\<close>

definition inverses :: "int list" where
  "inverses = [
     0x00, 0x01, 0x8d, 0xf6, 0xcb, 0x52, 0x7b, 0xd1, 0xe8, 0x4f, 0x29, 0xc0, 0xb0, 0xe1, 0xe5, 0xc7,
     0x74, 0xb4, 0xaa, 0x4b, 0x99, 0x2b, 0x60, 0x5f, 0x58, 0x3f, 0xfd, 0xcc, 0xff, 0x40, 0xee, 0xb2,
     0x3a, 0x6e, 0x5a, 0xf1, 0x55, 0x4d, 0xa8, 0xc9, 0xc1, 0x0a, 0x98, 0x15, 0x30, 0x44, 0xa2, 0xc2,
     0x2c, 0x45, 0x92, 0x6c, 0xf3, 0x39, 0x66, 0x42, 0xf2, 0x35, 0x20, 0x6f, 0x77, 0xbb, 0x59, 0x19,
     0x1d, 0xfe, 0x37, 0x67, 0x2d, 0x31, 0xf5, 0x69, 0xa7, 0x64, 0xab, 0x13, 0x54, 0x25, 0xe9, 0x09,
     0xed, 0x5c, 0x05, 0xca, 0x4c, 0x24, 0x87, 0xbf, 0x18, 0x3e, 0x22, 0xf0, 0x51, 0xec, 0x61, 0x17,
     0x16, 0x5e, 0xaf, 0xd3, 0x49, 0xa6, 0x36, 0x43, 0xf4, 0x47, 0x91, 0xdf, 0x33, 0x93, 0x21, 0x3b,
     0x79, 0xb7, 0x97, 0x85, 0x10, 0xb5, 0xba, 0x3c, 0xb6, 0x70, 0xd0, 0x06, 0xa1, 0xfa, 0x81, 0x82,
     0x83, 0x7e, 0x7f, 0x80, 0x96, 0x73, 0xbe, 0x56, 0x9b, 0x9e, 0x95, 0xd9, 0xf7, 0x02, 0xb9, 0xa4,
     0xde, 0x6a, 0x32, 0x6d, 0xd8, 0x8a, 0x84, 0x72, 0x2a, 0x14, 0x9f, 0x88, 0xf9, 0xdc, 0x89, 0x9a,
     0xfb, 0x7c, 0x2e, 0xc3, 0x8f, 0xb8, 0x65, 0x48, 0x26, 0xc8, 0x12, 0x4a, 0xce, 0xe7, 0xd2, 0x62,
     0x0c, 0xe0, 0x1f, 0xef, 0x11, 0x75, 0x78, 0x71, 0xa5, 0x8e, 0x76, 0x3d, 0xbd, 0xbc, 0x86, 0x57,
     0x0b, 0x28, 0x2f, 0xa3, 0xda, 0xd4, 0xe4, 0x0f, 0xa9, 0x27, 0x53, 0x04, 0x1b, 0xfc, 0xac, 0xe6,
     0x7a, 0x07, 0xae, 0x63, 0xc5, 0xdb, 0xe2, 0xea, 0x94, 0x8b, 0xc4, 0xd5, 0x9d, 0xf8, 0x90, 0x6b,
     0xb1, 0x0d, 0xd6, 0xeb, 0xc6, 0x0e, 0xcf, 0xad, 0x08, 0x4e, 0xd7, 0xe3, 0x5d, 0x50, 0x1e, 0xb3,
     0x5b, 0x23, 0x38, 0x34, 0x68, 0x46, 0x03, 0x8c, 0xdd, 0x9c, 0x7d, 0xa0, 0xcd, 0x1a, 0x41, 0x1c]"

lemma inverses_correct: "list_all2 (\<lambda>x y. gmul x y = 1) (tl byte_values) (tl inverses)"
  by code_simp

definition rotl :: "nat \<Rightarrow> int \<Rightarrow> int" where
  "rotl k x = (x * 2 ^ k) mod 256 + x div 2 ^ (8 - k)"

definition affine :: "int \<Rightarrow> int" where
  "affine y = y XOR rotl 1 y XOR rotl 2 y XOR rotl 3 y XOR rotl 4 y XOR 0x63"

lemma S_table_affine: "map affine inverses = S_table"
  by code_simp

definition sbox :: "int \<Rightarrow> int" where
  "sbox x = affine (inverses ! nat x)"

subsection \<open>The cipher\<close>

text \<open>The state is 16 bytes, column after column.\<close>

definition sub_bytes :: "int list \<Rightarrow> int list" where
  "sub_bytes s = map sbox s"

definition shift_rows :: "int list \<Rightarrow> int list" where
  "shift_rows s = map (\<lambda>i. s ! ((i + 4 * (i mod 4)) mod 16)) [0..<16]"

fun mix_column :: "int list \<Rightarrow> int list" where
  "mix_column [a, b, c, d] =
     [gmul 2 a XOR gmul 3 b XOR c XOR d, a XOR gmul 2 b XOR gmul 3 c XOR d,
      a XOR b XOR gmul 2 c XOR gmul 3 d, gmul 3 a XOR b XOR c XOR gmul 2 d]"
| "mix_column s = s"

definition mix_columns :: "int list \<Rightarrow> int list" where
  "mix_columns s = concat (map mix_column (chunks 4 s))"

definition add_round_key :: "int list \<Rightarrow> int list \<Rightarrow> int list" where
  "add_round_key = map2 (XOR)"

definition fips_round :: "int list \<Rightarrow> int list \<Rightarrow> int list" where
  "fips_round s rk = add_round_key (mix_columns (shift_rows (sub_bytes s))) rk"

definition fips_cipher :: "int list list \<Rightarrow> int list \<Rightarrow> int list" where
  "fips_cipher keys block = (let rounds = length keys - 1;
     s = foldl fips_round (add_round_key block (keys ! 0)) (map ((!) keys) [1..<rounds])
     in add_round_key (shift_rows (sub_bytes s)) (keys ! rounds))"

subsection \<open>The tables\<close>

text \<open>A word of four bytes as a number.\<close>

definition word4 :: "int \<Rightarrow> int \<Rightarrow> int \<Rightarrow> int \<Rightarrow> int" where
  "word4 a b c d = ((a * 256 + b) * 256 + c) * 256 + d"

lemma T_tables_mix:
  "map (\<lambda>s. word4 (xtime s) s s (xtime s XOR s)) S_table = T1_table"
  "map (\<lambda>s. word4 (xtime s XOR s) (xtime s) s s) S_table = T2_table"
  "map (\<lambda>s. word4 s (xtime s XOR s) (xtime s) s) S_table = T3_table"
  "map (\<lambda>s. word4 s s (xtime s XOR s) (xtime s)) S_table = T4_table"
  by code_simp+

lemma gmul_small: "list_all (\<lambda>x. gmul 2 x = xtime x \<and> gmul 3 x = xtime x XOR x \<and> 0 \<le> gmul 2 x \<and> gmul 2 x < 256 \<and> 0 \<le> gmul 3 x \<and> gmul 3 x < 256) byte_values"
  by code_simp

lemma gmul_byte:
  assumes "0 \<le> x" and "x < 256"
  shows "gmul 2 x = xtime x" "gmul 3 x = xtime x XOR x" "0 \<le> gmul 2 x" "gmul 2 x < 256" "0 \<le> gmul 3 x" "gmul 3 x < 256"
proof -
  have "x \<in> set byte_values" using assms by (auto simp: byte_values_def intro!: image_eqI[of _ _ "nat x"])
  then show "gmul 2 x = xtime x" "gmul 3 x = xtime x XOR x" "0 \<le> gmul 2 x" "gmul 2 x < 256" "0 \<le> gmul 3 x" "gmul 3 x < 256"
    using gmul_small by (auto simp: list_all_iff)
qed

lemma uint_octet: "uint (octet n w) = uint w div 2 ^ n mod 256"
proof -
  have "uint (octet n w) = take_bit 8 (drop_bit n (uint w))"
    by (rule bit_eqI) (auto simp: octet_def bit_simps dest: bit_imp_le_length)
  then show ?thesis by (simp only: take_bit_eq_mod drop_bit_eq_div) simp
qed

lemma word4_bytes:
  assumes "0 \<le> b" "b < 256" "0 \<le> c" "c < 256" "0 \<le> d" "d < 256"
  shows "word4 a b c d div 2 ^ 24 = a" "word4 a b c d div 2 ^ 16 mod 256 = b"
    "word4 a b c d div 2 ^ 8 mod 256 = c" "word4 a b c d mod 256 = d"
proof -
  have step: "(x * 256 + y) div 256 = x" "(x * 256 + y) mod 256 = y" if "0 \<le> y" "y < 256" for x y :: int
    using that by simp_all
  have power2_256: "(2::int) ^ 8 = 256" by simp
  have 8: "word4 a b c d div 256 = (a * 256 + b) * 256 + c" using step(1)[OF assms(5,6)] by (simp add: word4_def)
  have 16: "word4 a b c d div 2 ^ 16 = a * 256 + b"
  proof -
    have "word4 a b c d div 2 ^ 16 = word4 a b c d div 256 div 256" by (simp add: zdiv_zmult2_eq[symmetric])
    then show ?thesis using step(1)[OF assms(3,4)] by (simp only: 8)
  qed
  have "word4 a b c d div 2 ^ 24 = word4 a b c d div 2 ^ 16 div 256" by (simp add: zdiv_zmult2_eq[symmetric])
  then show "word4 a b c d div 2 ^ 24 = a" using step(1)[OF assms(1,2)] by (simp only: 16)
  show "word4 a b c d div 2 ^ 16 mod 256 = b" using step(2)[OF assms(1,2)] by (simp only: 16)
  show "word4 a b c d div 2 ^ 8 mod 256 = c" using step(2)[OF assms(3,4), of "a * 256 + b"] 8 by (simp only: power2_256)
  show "word4 a b c d mod 256 = d" using step(2)[OF assms(5,6), of "(a * 256 + b) * 256 + c"] by (simp only: word4_def)
qed

lemma octets_word4:
  assumes "0 \<le> a" "a < 256" "0 \<le> b" "b < 256" "0 \<le> c" "c < 256" "0 \<le> d" "d < 256"
  shows "uint (octet 24 (word_of_int (word4 a b c d))) = a" "uint (octet 16 (word_of_int (word4 a b c d))) = b"
    "uint (octet 8 (word_of_int (word4 a b c d))) = c" "uint (octet 0 (word_of_int (word4 a b c d))) = d"
proof -
  have "0 \<le> word4 a b c d" "word4 a b c d < 2 ^ 32" using assms by (simp_all add: word4_def)
  then have u: "uint (word_of_int (word4 a b c d) :: 32 word) = word4 a b c d"
    by (simp add: uint_word_of_int)
  note by_bytes = word4_bytes[OF assms(3-8)]
  show "uint (octet 24 (word_of_int (word4 a b c d))) = a"
    unfolding uint_octet u by_bytes(1) using assms(1,2) by simp
  show "uint (octet 16 (word_of_int (word4 a b c d))) = b" "uint (octet 8 (word_of_int (word4 a b c d))) = c"
    unfolding uint_octet u by (rule by_bytes)+
  show "uint (octet 0 (word_of_int (word4 a b c d))) = d"
    unfolding uint_octet u using by_bytes(4) by simp
qed

lemma length_inverses: "length inverses = 256"
  by (simp add: inverses_def)

lemma look_S: "uint (look S_table b :: 8 word) = sbox (uint b)"
proof -
  have S: "S_table ! unat b = affine (inverses ! unat b)"
    using unat_byte[of b] length_inverses unfolding S_table_affine[symmetric] by simp
  have "0 \<le> S_table ! unat b \<and> S_table ! unat b < 256"
    using S_boxes_bytes unat_byte[of b] by (simp add: list_all_length)
  then show ?thesis using S by (simp add: look_def sbox_def uint_word_of_int)
qed

lemma sbox_byte: "0 \<le> sbox (uint (b :: 8 word))" "sbox (uint b) < 256"
  unfolding look_S[symmetric] using unsigned_less[of "look S_table b :: 8 word", where 'a=int] by simp_all

lemma look_T_word4:
  "look T1_table b = (let s = sbox (uint b) in word_of_int (word4 (gmul 2 s) s s (gmul 3 s)) :: 32 word)"
  "look T2_table b = (let s = sbox (uint b) in word_of_int (word4 (gmul 3 s) (gmul 2 s) s s) :: 32 word)"
  "look T3_table b = (let s = sbox (uint b) in word_of_int (word4 s (gmul 3 s) (gmul 2 s) s) :: 32 word)"
  "look T4_table b = (let s = sbox (uint b) in word_of_int (word4 s s (gmul 3 s) (gmul 2 s)) :: 32 word)"
  unfolding T_tables_mix[symmetric]
  by (simp_all add: look_map[OF S_boxes_bytes(1,3)] look_S gmul_byte sbox_byte Let_def)

lemma octets_T [simp]:
  "uint (octet 24 (look T1_table b)) = gmul 2 (sbox (uint b))" "uint (octet 16 (look T1_table b)) = sbox (uint b)"
  "uint (octet 8 (look T1_table b)) = sbox (uint b)" "uint (octet 0 (look T1_table b)) = gmul 3 (sbox (uint b))"
  "uint (octet 24 (look T2_table b)) = gmul 3 (sbox (uint b))" "uint (octet 16 (look T2_table b)) = gmul 2 (sbox (uint b))"
  "uint (octet 8 (look T2_table b)) = sbox (uint b)" "uint (octet 0 (look T2_table b)) = sbox (uint b)"
  "uint (octet 24 (look T3_table b)) = sbox (uint b)" "uint (octet 16 (look T3_table b)) = gmul 3 (sbox (uint b))"
  "uint (octet 8 (look T3_table b)) = gmul 2 (sbox (uint b))" "uint (octet 0 (look T3_table b)) = sbox (uint b)"
  "uint (octet 24 (look T4_table b)) = sbox (uint b)" "uint (octet 16 (look T4_table b)) = sbox (uint b)"
  "uint (octet 8 (look T4_table b)) = gmul 3 (sbox (uint b))" "uint (octet 0 (look T4_table b)) = gmul 2 (sbox (uint b))"
  unfolding look_T_word4 Let_def by (rule octets_word4; rule sbox_byte gmul_byte(3-6)[OF sbox_byte])+

subsection \<open>The refinement\<close>

text \<open>The abstraction: the bytes of a list of words.\<close>

definition state_of :: "32 word list \<Rightarrow> int list" where
  "state_of ws = map uint (bytes_of ws)"

lemma uint_octet_xor [simp]: "uint (octet n (v XOR w)) = uint (octet n v) XOR uint (octet n w)"
  by (simp add: octet_xor unsigned_xor_eq)

lemma upt16: "[0..<16] = [0, 1, 2, 3, 4, 5, 6, 7, 8, 9, 10, 11, 12, 13, 14, 15]"
  by (simp add: upt_rec)

lemma round_refines:
  assumes "length t = 4" and "length rk = 4"
  shows "state_of (enc_round t rk) = fips_round (state_of t) (state_of rk)"
  using assms
  by (elim length_4E)
    (simp add: state_of_def bytes_of_def cipher_defs aes_round_def upt4 fips_round_def sub_bytes_def
      shift_rows_def upt16 mix_columns_def chunks.simps add_round_key_def xor.assoc)

lemma last_round_refines:
  assumes "length t = 4" and "length rk = 4"
  shows "map uint (last_round S_table ENC_SHIFTS t rk)
    = add_round_key (shift_rows (sub_bytes (state_of t))) (state_of rk)"
  using assms
  by (elim length_4E)
    (simp add: state_of_def bytes_of_def cipher_defs last_round_def upt4 Let_def sub_bytes_def shift_rows_def upt16
      add_round_key_def unsigned_xor_eq look_S)

lemma rounds_refine:
  assumes "length t = 4" and "\<forall>rk \<in> set rks. length rk = 4"
  shows "state_of (foldl enc_round t rks) = foldl fips_round (state_of t) (map state_of rks)"
  using assms by (induction rks arbitrary: t) (simp_all add: round_refines)

lemma first_key_refines:
  assumes "length t = 4" and "length rk = 4"
  shows "state_of (map2 (XOR) t rk) = add_round_key (state_of t) (state_of rk)"
  using assms by (elim length_4E) (simp add: state_of_def bytes_of_def add_round_key_def)

lemma run_cipher_refines:
  assumes "length block = 16" and "length Ke = rounds + 1" and "\<And>r. r \<le> rounds \<Longrightarrow> length (Ke ! r) = 4"
  shows "\<exists>c. run_cipher ENC_TABLES S_table ENC_SHIFTS Ke block = Inr c
    \<and> map uint c = fips_cipher (map state_of Ke) (map uint block)"
proof -
  let ?rks = "map ((!) Ke) [1..<rounds]" and ?start = "map2 (XOR) (words_of block) (Ke ! 0)"
  let ?t = "foldl enc_round ?start ?rks"
  have len: "length ?start = 4" "length ?t = 4" "\<forall>rk \<in> set ?rks. length rk = 4"
    using assms(3) words_of_block[OF assms(1)] by (auto simp: length_foldl_round)
  have "state_of (words_of block) = map uint block"
    using words_of_block(2)[OF assms(1)] by (simp add: state_of_def)
  then have "state_of ?start = add_round_key (map uint block) (state_of (Ke ! 0))"
    using first_key_refines words_of_block(1)[OF assms(1)] assms(3)[of 0] by simp
  moreover have keys: "map ((!) (map state_of Ke)) [Suc 0..<rounds] = map (state_of \<circ> (!) Ke) [Suc 0..<rounds]"
    using assms(2) by (intro map_cong) auto
  ultimately have "map uint (last_round S_table ENC_SHIFTS ?t (Ke ! rounds)) = fips_cipher (map state_of Ke) (map uint block)"
    using last_round_refines[OF len(2) assms(3)[of rounds]] rounds_refine[OF len(1,3)] assms(2)
    by (simp add: fips_cipher_def Let_def keys)
  then show ?thesis using assms(1,2) by (simp add: run_cipher_def foldl_rounds Let_def)
qed

text \<open>
  C30: the block cipher of \<open>pyaes\<close> is the cipher of the standard: for every key the constructor accepts
  and every block of 16 bytes, encryption returns, and its bytes are those that the byte-oriented
  cipher of FIPS 197 (field inverse and affine map, shifted rows, mixed columns, round keys) computes
  from the bytes of the block and the expanded key; decryption with the same object gives the block
  back.
\<close>

theorem table_cipher_refines_standard:
  assumes "AES key = Inr A" and "length block = 16"
  shows "\<exists>c. aes_encrypt A block = Inr c
    \<and> map uint c = fips_cipher (map state_of (aes_Ke A)) (map uint block)
    \<and> aes_decrypt A c = Inr block"
proof -
  obtain rounds where "A = key_schedule rounds key"
    using assms(1) by (auto simp: AES_def split: option.splits)
  then obtain c where "aes_encrypt A block = Inr c"
    "map uint c = fips_cipher (map state_of (aes_Ke A)) (map uint block)"
    using run_cipher_refines[OF assms(2) key_schedule_keys(1,2)[where rounds = rounds and key = key]]
    by (auto simp: aes_encrypt_def)
  then show ?thesis using aes_inverse[OF assms] by auto
qed

theorem table_cipher_refines_standard_witness:
  "\<exists>A c. AES (replicate 16 0) = Inr A \<and> aes_encrypt A (replicate 16 1) = Inr c
    \<and> aes_decrypt A c = Inr (replicate 16 1)"
proof -
  obtain A where "AES (replicate 16 0) = Inr A" by (simp add: AES_def number_of_rounds_def)
  then show ?thesis using table_cipher_refines_standard[of "replicate 16 0" A "replicate 16 1"] by auto
qed

end
