(* ===== verification/DbLoader.thy ===== *)
theory DbLoader
  imports DbCrypto MetricsLoader
begin

section \<open>databases.yaml (\<open>db_loader.py\<close>)\<close>

text \<open>
  Loading the database registry: every entry is checked field by field, in strict mode the first
  problem raises \<open>DatabaseConfigError\<close>, otherwise it is logged and a default is used or the entry
  skipped; passwords with the prefix \<open>ENC:\<close> are decrypted. The log is the state. A registry is the
  list of its entries by name, in the order of the file; the password of an entry is the list of
  its code points. File contents, the key's environment variable and file, and the message
  authentication code are fields of the environment.
\<close>

record dbl_env =
  dl_read :: "string \<Rightarrow> pyval res option"
  dl_key_var :: "string option"
  dl_key_file :: "string option"
  dl_mac :: "bytes \<Rightarrow> bytes \<Rightarrow> bytes"

record db_conf =
  db_name :: string
  db_type :: string
  db_host :: string
  db_port :: int
  db_dbname :: string
  db_username :: string
  db_password :: "nat list"
  db_connect_timeout :: int
  db_options :: "(pyval \<times> pyval) list"

type_synonym registry = "(string \<times> db_conf) list"
type_synonym 'a dbl = "(exn, issue list, 'a) st"

subsection \<open>Problems\<close>

definition db_exn :: "string \<Rightarrow> pyval list \<Rightarrow> exn" where
  "db_exn msg vs = DatabaseConfigError (Issue msg vs)"

definition db_error :: "bool \<Rightarrow> string \<Rightarrow> pyval list \<Rightarrow> unit dbl" where
  "db_error strict msg vs =
     (if strict then raise (db_exn msg vs) else modifyM (\<lambda>w. w @ [Issue msg vs]))"

definition db_require :: "bool \<Rightarrow> bool \<Rightarrow> string \<Rightarrow> pyval list \<Rightarrow> unit dbl" where
  "db_require strict good msg vs = (if good then ret () else db_error strict msg vs)"

definition read_db_yaml :: "dbl_env \<Rightarrow> string \<Rightarrow> (pyval \<times> pyval) list res" where
  "read_db_yaml env path = (case dl_read env path of
     None \<Rightarrow> Inl FileNotFoundError
   | Some (Inl e) \<Rightarrow> (case e of
       YAMLError i \<Rightarrow> Inl (db_exn ''YAML syntax error'' [VStr path]) | _ \<Rightarrow> Inl e)
   | Some (Inr v) \<Rightarrow> (case v of VNone \<Rightarrow> Inr [] | VDict d \<Rightarrow> Inr d
       | _ \<Rightarrow> Inl (db_exn ''databases.yaml must be a YAML mapping'' [VStr path])))"

subsection \<open>Passwords\<close>

text \<open>\<open>_try_load_key\<close>: \<open>None\<close> when no key is available or it is no key.\<close>

definition try_load_key :: "dbl_env \<Rightarrow> bytes option" where
  "try_load_key env = (case load_key (dl_key_var env) (dl_key_file env) of
     Inr key \<Rightarrow> Some key | Inl e \<Rightarrow> None)"

definition resolve_password ::
  "dbl_env \<Rightarrow> bytes option \<Rightarrow> bool \<Rightarrow> bool \<Rightarrow> string \<Rightarrow> string \<Rightarrow> nat list dbl" where
  "resolve_password env key strict_passwords strict name raw =
     (if startswith raw ENC_PREFIX then
        (case key of
           None \<Rightarrow> raise (db_exn ''password is encrypted but no decryption key is available'' [VStr name])
         | Some k \<Rightarrow> (case decrypt (dl_mac env) raw k of
             Inr p \<Rightarrow> ret p
           | Inl e \<Rightarrow> if is_value_error e
               then raise (db_exn ''failed to decrypt password'' [VStr name]) else raise e))
      else bindM (db_require strict (raw = [] \<or> \<not> strict_passwords)
                    ''password is stored as plain text'' [VStr name]) (\<lambda>_.
           ret (map code raw)))"

subsection \<open>Entries\<close>

definition entry_field :: "(pyval \<times> pyval) list \<Rightarrow> string \<Rightarrow> pyval \<Rightarrow> pyval" where
  "entry_field entry k d = (case dget entry k of None \<Rightarrow> d | Some v \<Rightarrow> v)"

text \<open>\<open>int(v)\<close>, with a problem and the default when it raises \<open>TypeError\<close> or \<open>ValueError\<close>.\<close>

definition db_int :: "bool \<Rightarrow> string \<Rightarrow> string \<Rightarrow> int \<Rightarrow> pyval \<Rightarrow> int dbl" where
  "db_int strict msg name d v = bindM (lift (int_or_none v)) (\<lambda>r. case r of
     Some i \<Rightarrow> ret i | None \<Rightarrow> bindM (db_error strict msg [VStr name]) (\<lambda>_. ret d))"

text \<open>A required text; a missing or empty one is a problem and becomes the empty text.\<close>

definition db_text :: "bool \<Rightarrow> string \<Rightarrow> string \<Rightarrow> pyval \<Rightarrow> string dbl" where
  "db_text strict msg name v =
     (if truthy v then ret (py_str v)
      else bindM (db_error strict msg [VStr name]) (\<lambda>_. ret []))"

definition db_options_of :: "bool \<Rightarrow> string \<Rightarrow> pyval \<Rightarrow> (pyval \<times> pyval) list dbl" where
  "db_options_of strict name raw =
     (if \<not> truthy raw then ret [] else case raw of VDict d \<Rightarrow> ret d
      | _ \<Rightarrow> bindM (db_error strict ''options must be a mapping'' [VStr name]) (\<lambda>_. ret []))"

definition SUPPORTED_TYPES :: "string list" where
  "SUPPORTED_TYPES = [''postgres'']"

text \<open>The fields of an entry whose name and type are accepted.\<close>

definition db_fields ::
  "dbl_env \<Rightarrow> bytes option \<Rightarrow> bool \<Rightarrow> bool \<Rightarrow> string \<Rightarrow> string \<Rightarrow> (pyval \<times> pyval) list \<Rightarrow> db_conf dbl"
  where
  "db_fields env key strict_passwords strict name type entry = (let
     host = py_str (entry_field entry ''host'' (VStr ''127.0.0.1''));
     raw_port = entry_field entry ''port'' VNone in
     bindM (if raw_port = VNone then ret 5432
            else db_int strict ''port must be an integer'' name 5432 raw_port) (\<lambda>port.
     bindM (db_text strict ''missing required field dbname'' name (entry_field entry ''dbname'' VNone)) (\<lambda>dbname.
     bindM (db_text strict ''missing required field username'' name (entry_field entry ''username'' VNone)) (\<lambda>username.
     bindM (let p = entry_field entry ''password'' (VStr []) in
            resolve_password env key strict_passwords strict name (if p = VNone then [] else py_str p)) (\<lambda>password.
     bindM (db_int strict ''connect_timeout must be an integer'' name 10
              (entry_field entry ''connect_timeout'' (VInt 10))) (\<lambda>timeout.
     bindM (db_options_of strict name (entry_field entry ''options'' (VDict []))) (\<lambda>options.
     ret \<lparr>db_name = name, db_type = type, db_host = host, db_port = port, db_dbname = dbname,
          db_username = username, db_password = password, db_connect_timeout = timeout,
          db_options = options\<rparr>)))))))"

text \<open>One round of the loop; the accumulator is the registry and the names seen.\<close>

definition add_database ::
  "dbl_env \<Rightarrow> bytes option \<Rightarrow> bool \<Rightarrow> bool \<Rightarrow> nat \<times> pyval \<Rightarrow> registry \<times> string list
     \<Rightarrow> (registry \<times> string list) dbl" where
  "add_database env key strict_passwords strict ientry acc = (case acc of (registry, seen) \<Rightarrow>
     case snd ientry of
       VDict entry \<Rightarrow> (let raw_name = entry_field entry ''name'' VNone; name = py_str raw_name;
                         type = py_lower (py_str (entry_field entry ''type'' (VStr []))) in
         if \<not> truthy raw_name
         then bindM (db_error strict ''missing required field name'' [VInt (int (fst ientry))]) (\<lambda>_. ret acc)
         else if name \<in> set seen
         then bindM (db_error strict ''Duplicate database name'' [VStr name]) (\<lambda>_. ret acc)
         else if type = []
         then bindM (db_error strict ''missing required field type'' [VStr name]) (\<lambda>_.
                ret (registry, seen @ [name]))
         else if type \<notin> set SUPPORTED_TYPES
         then bindM (db_error strict ''unsupported type'' [VStr name, VStr type]) (\<lambda>_.
                ret (registry, seen @ [name]))
         else bindM (db_fields env key strict_passwords strict name type entry) (\<lambda>conf.
                ret (adict_set registry name conf, seen @ [name])))
     | _ \<Rightarrow> bindM (db_error strict ''databases entry must be a mapping'' [VInt (int (fst ientry))]) (\<lambda>_. ret acc))"

definition load_databases_config :: "dbl_env \<Rightarrow> string \<Rightarrow> bool \<Rightarrow> bool \<Rightarrow> registry dbl" where
  "load_databases_config env path strict strict_passwords =
     bindM (lift (read_db_yaml env path)) (\<lambda>raw.
     let version = entry_field raw ''version'' (VInt 1); entries = entry_field raw ''databases'' (VList []) in
     bindM (db_require strict (py_eq version (VInt 1)) ''Unsupported databases.yaml version'' [version]) (\<lambda>_.
     bindM (db_require strict (is_list entries) ''databases must be a list'' []) (\<lambda>_.
     bindM (foldM (add_database env (try_load_key env) strict_passwords strict)
              (enumerate 0 (case entries of VList es \<Rightarrow> es | _ \<Rightarrow> [])) ([], [])) (\<lambda>acc.
     ret (fst acc)))))"

subsection \<open>Connections\<close>

datatype db_arg = TextArg "nat list" | ValueArg pyval

text \<open>The keyword arguments of the driver; the options of the entry come last and override.\<close>

definition connect_kwargs :: "db_conf \<Rightarrow> (pyval \<times> db_arg) list" where
  "connect_kwargs c = adict_merge
     [(VStr ''host'', ValueArg (VStr (db_host c))), (VStr ''port'', ValueArg (VInt (db_port c))),
      (VStr ''database'', ValueArg (VStr (db_dbname c))), (VStr ''user'', ValueArg (VStr (db_username c))),
      (VStr ''password'', TextArg (db_password c)),
      (VStr ''timeout'', ValueArg (VInt (db_connect_timeout c)))]
     (map (\<lambda>p. (fst p, ValueArg (snd p))) (db_options c))"

text \<open>\<open>**kwargs\<close> accepts text keys only; the driver itself is a parameter.\<close>

definition connect_postgres :: "((pyval \<times> db_arg) list \<Rightarrow> exn option) \<Rightarrow> db_conf \<Rightarrow> exn option" where
  "connect_postgres driver c =
     (if list_all (\<lambda>p. is_str (fst p)) (connect_kwargs c) then driver (connect_kwargs c) else Some TypeError)"

definition open_connection :: "((pyval \<times> db_arg) list \<Rightarrow> exn option) \<Rightarrow> db_conf \<Rightarrow> exn option" where
  "open_connection driver c = (if db_type c = ''postgres'' then connect_postgres driver c
     else Some (db_exn ''No handler registered for database type'' [VStr (db_type c)]))"

subsection \<open>What a registry contains\<close>

lemma returns_db_fields_raw:
  "returns (db_fields env key sp strict name type entry)
     (\<lambda>c. db_name c = name \<and> db_type c = type)"
  unfolding db_fields_def Let_def by (intro returns_bind_any returns_ret) simp

definition entries_ok :: "(db_conf \<Rightarrow> bool) \<Rightarrow> registry \<times> string list \<Rightarrow> bool" where
  "entries_ok P acc \<longleftrightarrow> distinct (map fst (fst acc)) \<and> fst ` set (fst acc) \<subseteq> set (snd acc)
     \<and> (\<forall>(n, c) \<in> set (fst acc). db_name c = n \<and> db_type c \<in> set SUPPORTED_TYPES \<and> P c)"

lemma adict_set_fresh: "k \<notin> fst ` set d \<Longrightarrow> adict_set d k v = d @ [(k, v)]"
  by (induction d) auto

lemma returns_after_error: "(\<And>u. returns (f u) P) \<Longrightarrow> returns (bindM (db_error strict msg vs) f) P"
  by (rule returns_bind_any)

lemma returns_add_database:
  assumes "entries_ok P acc"
    and P: "\<And>name type entry. returns (db_fields env key sp strict name type entry) P"
  shows "returns (add_database env key sp strict ie acc) (entries_ok P)"
proof -
  obtain registry seen where acc: "acc = (registry, seen)" by (cases acc)
  have fields: "returns (db_fields env key sp strict name type entry)
      (\<lambda>c. (db_name c = name \<and> db_type c = type) \<and> P c)" for name type entry
    using returns_db_fields_raw P unfolding returns_def by blast
  have grown: "entries_ok P (registry, seen @ [name])" for name
    using assms(1) by (auto simp: entries_ok_def acc)
  have added: "entries_ok P (adict_set registry name c, seen @ [name])"
    if "name \<notin> set seen" "db_name c = name" "db_type c \<in> set SUPPORTED_TYPES" "P c" for name c
  proof -
    have "name \<notin> fst ` set registry" using assms(1) that(1) by (auto simp: entries_ok_def acc)
    then show ?thesis using assms(1) that by (auto simp: entries_ok_def acc adict_set_fresh)
  qed
  show ?thesis
    unfolding add_database_def acc prod.case Let_def
    by (auto split: pyval.split intro!: returns_after_error returns_ret
        returns_bind[OF fields] added grown simp: assms(1)[unfolded acc])
qed

lemma returns_load_databases:
  assumes "\<And>name type entry. returns (db_fields env (try_load_key env) sp strict name type entry) P"
  shows "returns (load_databases_config env path strict sp) (\<lambda>r. \<exists>seen. entries_ok P (r, seen))"
proof -
  have fold: "returns (foldM (add_database env (try_load_key env) sp strict) es ([], [])) (entries_ok P)" for es
    by (rule returns_foldM) (auto intro: returns_add_database assms simp: entries_ok_def)
  show ?thesis
    unfolding load_databases_config_def Let_def
    by (rule returns_bind_any, rule returns_bind_any, rule returns_bind_any, rule returns_bind[OF fold],
        rule returns_ret) (metis prod.collapse)
qed

text \<open>A password that was not stored as plain text: empty, or what a token decrypts to.\<close>

definition kept_secret :: "dbl_env \<Rightarrow> db_conf \<Rightarrow> bool" where
  "kept_secret env c \<longleftrightarrow> db_password c = [] \<or>
     (\<exists>key token. load_key (dl_key_var env) (dl_key_file env) = Inr key \<and> is_encrypted token
        \<and> decrypt (dl_mac env) token key = Inr (db_password c))"

lemma returns_resolve_password:
  "returns (resolve_password env (try_load_key env) True True name raw) (\<lambda>p. p = [] \<or>
     (\<exists>key token. load_key (dl_key_var env) (dl_key_file env) = Inr key \<and> is_encrypted token
        \<and> decrypt (dl_mac env) token key = Inr p))"
  by (auto simp: resolve_password_def returns_def try_load_key_def is_encrypted_def db_require_def
      db_error_def split: option.splits sum.splits if_splits)

lemma returns_db_fields_secret:
  "returns (db_fields env (try_load_key env) True True name type entry) (kept_secret env)"
  unfolding db_fields_def Let_def
  by (intro returns_bind_any returns_bind[OF returns_resolve_password] returns_ret)
    (simp add: kept_secret_def)

subsection \<open>Properties\<close>


definition one_database_file :: "string \<Rightarrow> string \<Rightarrow> string \<Rightarrow> string \<Rightarrow> pyval" where
  "one_database_file name dbname user token = VDict [(VStr ''databases'', VList [VDict
     [(VStr ''name'', VStr name), (VStr ''type'', VStr ''postgres''), (VStr ''dbname'', VStr dbname),
      (VStr ''username'', VStr user), (VStr ''password'', VStr token)]])]"


definition example_db_env :: "string \<Rightarrow> dbl_env" where
  "example_db_env token = \<lparr>dl_read = (\<lambda>p. Some (Inr (one_database_file ''db'' ''app'' ''monitor'' token))),
     dl_key_var = Some (key_to_str (replicate 32 3)), dl_key_file = None,
     dl_mac = (\<lambda>k m. replicate 32 9)\<rparr>"

lemma example_key: "load_key (Some (key_to_str (replicate 32 3))) None = Inr (replicate 32 3)"
proof -
  have "b64_text (replicate 32 3 :: bytes) \<noteq> []"
    by (rule b64_text_nonempty) simp
  then show ?thesis
    by (simp add: load_key_def key_to_str_def strip_key_text key_from_str_def)
qed


lemma example_no_password:
  "\<exists>conf. load_databases_config (example_db_env []) ''databases.yaml'' True True [] = (Inr [(''db'', conf)], [])"
proof -
  have "py_lower ''postgres'' = ''postgres''" "\<not> startswith [] ENC_PREFIX"
    by code_simp+
  then show ?thesis
    by (simp add: load_databases_config_def read_db_yaml_def one_database_file_def entry_field_def
      db_require_def py_eq_def f_eq_def is_list_def add_database_def db_fields_def db_int_def int_or_none_def
      db_text_def db_options_of_def SUPPORTED_TYPES_def bindM_eq enumerate_eq_zip Let_def
      example_db_env_def resolve_password_def)
qed


end
