(* ===== verification/OutputWriter.thy ===== *)
theory OutputWriter
  imports Models JsonStore
begin

section \<open>Output files (\<open>_write_output\<close> in \<open>main.py\<close>)\<close>

text \<open>
  The file that \<open>--output\<close> asks for: the sendable results as JSON, as CSV or as a table. The text is
  computed here character by character: \<open>json.dump\<close> with an indentation of two, the minimal quoting
  of \<open>csv.DictWriter\<close> and the left-justified columns of the table. A text of an exception is the
  parameter \<open>exc_text\<close>; no sendable result has one.
\<close>

subsection \<open>Rows\<close>

text \<open>\<open>dataclasses.asdict\<close>: the fields in the order of the class.\<close>

definition error_value :: "(exn \<Rightarrow> string) \<Rightarrow> err_text option \<Rightarrow> pyval" where
  "error_value exc_text e = (case e of None \<Rightarrow> VNone
     | Some TimedOutText \<Rightarrow> VStr ''Collector timed out'' | Some (ExcText x) \<Rightarrow> VStr (exc_text x))"

definition asdict :: "(exn \<Rightarrow> string) \<Rightarrow> metric_result \<Rightarrow> (string \<times> pyval) list" where
  "asdict exc_text r = [
     (''metric_id'', r_metric_id r), (''key'', r_key r),
     (''value'', case r_value r of None \<Rightarrow> VNone | Some v \<Rightarrow> VStr v),
     (''value_type'', VStr (r_value_type r)), (''timestamp'', VInt (r_timestamp r)),
     (''collector'', VStr (r_collector r)), (''delivery'', VStr (r_delivery r)),
     (''status'', VStr (r_status r)), (''unit'', VStr (r_unit r)), (''tags'', VList (r_tags r)),
     (''error'', error_value exc_text (r_error r)), (''source'', VStr (r_source r)),
     (''duration_ms'', VFloat (r_duration r)), (''host_name'', r_host_name r)]"

subsection \<open>JSON\<close>

definition LF :: char where "LF = CHR 0x0A"
definition CR :: char where "CR = CHR 0x0D"

definition json_char :: "char \<Rightarrow> string" where
  "json_char c = (let n = code c in
     if c = CHR 0x22 \<or> c = CHR 0x5C then [CHR 0x5C, c]
     else if n = 8 then [CHR 0x5C, CHR ''b''] else if n = 9 then [CHR 0x5C, CHR ''t'']
     else if n = 10 then [CHR 0x5C, CHR ''n''] else if n = 12 then [CHR 0x5C, CHR ''f'']
     else if n = 13 then [CHR 0x5C, CHR ''r'']
     else if n < 32 \<or> 126 < n
       then [CHR 0x5C, CHR ''u'', CHR ''0'', CHR ''0'', hex_digit (n div 16), hex_digit (n mod 16)]
     else [c])"

definition json_string :: "string \<Rightarrow> string" where
  "json_string s = CHR 0x22 # concat (map json_char s) @ [CHR 0x22]"

definition new_line :: "nat \<Rightarrow> string" where
  "new_line level = LF # replicate (2 * level) CHR '' ''"

text \<open>The body of a container: its items on lines of their own, one level further in.\<close>

definition json_block :: "nat \<Rightarrow> char \<Rightarrow> char \<Rightarrow> string list \<Rightarrow> string" where
  "json_block level open_ch close_ch items =
     (if items = [] then [open_ch, close_ch]
      else open_ch # new_line (Suc level) @ join_with ('','' @ new_line (Suc level)) items
           @ new_line level @ [close_ch])"

definition json_float :: "pyfloat \<Rightarrow> string" where
  "json_float f = (case f of NaN \<Rightarrow> ''NaN'' | PInf \<Rightarrow> ''Infinity'' | NInf \<Rightarrow> ''-Infinity''
     | _ \<Rightarrow> str_float f)"

fun json_text :: "nat \<Rightarrow> pyval \<Rightarrow> string res" where
  "json_text level VNone = Inr ''null''"
| "json_text level (VBool b) = Inr (if b then ''true'' else ''false'')"
| "json_text level (VInt i) = Inr (str_int i)"
| "json_text level (VFloat f) = Inr (json_float f)"
| "json_text level (VStr s) = Inr (json_string s)"
| "json_text level (VList xs) = rbind (rmapM (json_text (Suc level)) xs) (\<lambda>items.
     Inr (json_block level CHR ''['' CHR '']'' items))"
| "json_text level (VDict d) = rbind (rmapM (\<lambda>p. case json_key (fst p) of None \<Rightarrow> Inl TypeError
       | Some k \<Rightarrow> rbind (json_text (Suc level) (snd p)) (\<lambda>v. Inr (json_string k @ '': '' @ v))) d) (\<lambda>items.
     Inr (json_block level CHR ''{'' CHR ''}'' items))"
| "json_text level (VRef n) = Inl TypeError"
| "json_text level (VOpaque s r) = Inl TypeError"

definition str_keys :: "(string \<times> pyval) list \<Rightarrow> pyval" where
  "str_keys d = VDict (map (\<lambda>p. (VStr (fst p), snd p)) d)"

subsection \<open>CSV\<close>

definition csv_special :: "char \<Rightarrow> bool" where
  "csv_special c \<longleftrightarrow> c = CHR '','' \<or> c = CHR 0x22 \<or> c = LF \<or> c = CR"

definition csv_quote :: "string \<Rightarrow> string" where
  "csv_quote s = (if list_ex csv_special s
     then CHR 0x22 # concat (map (\<lambda>c. if c = CHR 0x22 then [c, c] else [c]) s) @ [CHR 0x22] else s)"

definition csv_cell :: "pyval \<Rightarrow> string" where
  "csv_cell v = csv_quote (if v = VNone then [] else py_str v)"

definition csv_line :: "string list \<Rightarrow> string" where
  "csv_line cells = join_with '','' cells @ [CR, LF]"

definition csv_text :: "(string \<times> pyval) list list \<Rightarrow> string" where
  "csv_text rows = (case rows of [] \<Rightarrow> []
     | row # _ \<Rightarrow> csv_line (map (csv_quote \<circ> fst) row)
         @ concat (map (\<lambda>row. csv_line (map (csv_cell \<circ> snd) row)) rows))"

subsection \<open>Table\<close>

text \<open>\<open>f"{s:<{n}}"\<close>\<close>

definition ljust :: "nat \<Rightarrow> string \<Rightarrow> string" where
  "ljust n s = s @ replicate (n - length s) CHR '' ''"

definition value_text :: "string option \<Rightarrow> string" where
  "value_text v = (case v of None \<Rightarrow> ''None'' | Some s \<Rightarrow> s)"

definition table_line :: "nat \<Rightarrow> nat \<Rightarrow> nat \<Rightarrow> string \<Rightarrow> string \<Rightarrow> string \<Rightarrow> string \<Rightarrow> string" where
  "table_line col_key col_val col_sta k v s c =
     ljust col_key k @ ''  '' @ ljust col_val v @ ''  '' @ ljust col_sta s @ ''  '' @ c"

text \<open>\<open>len(r.key)\<close> raises for a key that is no text.\<close>

definition key_text :: "metric_result \<Rightarrow> string res" where
  "key_text r = (case r_key r of VStr k \<Rightarrow> Inr k | VList xs \<Rightarrow> Inl TypeError | _ \<Rightarrow> Inl TypeError)"

definition widest :: "string list \<Rightarrow> nat" where
  "widest ss = foldl max 0 (map length ss)"

definition table_text :: "metric_result list \<Rightarrow> string res" where
  "table_text sendable = (if sendable = [] then Inr (''(no results)'' @ [LF]) else
     rbind (rmapM key_text sendable) (\<lambda>ks. let
       col_key = widest ks;
       col_val = widest (map (value_text \<circ> r_value) sendable);
       col_sta = widest (map r_status sendable);
       header = table_line col_key col_val col_sta ''key'' ''value'' ''status'' ''collector'';
       line = (\<lambda>(k, r). table_line col_key col_val col_sta k (value_text (r_value r)) (r_status r)
                 (r_collector r) @ [LF])
       in Inr (header @ [LF] @ replicate (length header) CHR ''-'' @ [LF] @ concat (map line (zip ks sendable)))))"

subsection \<open>The file\<close>

definition output_text :: "(exn \<Rightarrow> string) \<Rightarrow> string \<Rightarrow> metric_result list \<Rightarrow> string option res" where
  "output_text exc_text fmt results = (let sendable = filter is_sendable results in
     if fmt = ''json'' then rbind (json_text 0 (VList (map (str_keys \<circ> asdict exc_text) sendable)))
         (\<lambda>t. Inr (Some t))
     else if fmt = ''csv'' then Inr (Some (csv_text (map (asdict exc_text) sendable)))
     else if fmt = ''table'' then rbind (table_text sendable) (\<lambda>t. Inr (Some t))
     else Inr None)"

text \<open>
  The state is the content of the file, \<open>None\<close> when there is none. An \<open>OSError\<close> of opening or
  writing it is logged; an exception of the rendering is not caught. \<open>json.dump\<close> writes as it goes,
  so the file then keeps what was written before: only the exception is modelled.
\<close>

definition write_output ::
  "(exn \<Rightarrow> string) \<Rightarrow> exn option \<Rightarrow> string \<Rightarrow> metric_result list \<Rightarrow> (exn, string option, unit) st" where
  "write_output exc_text open_error fmt results = (case output_text exc_text fmt results of
       Inl e \<Rightarrow> raise e
     | Inr None \<Rightarrow> ret ()
     | Inr (Some t) \<Rightarrow> (case open_error of
         Some e \<Rightarrow> if is_os_error e then ret () else raise e
       | None \<Rightarrow> modifyM (\<lambda>_. Some t)))"

subsection \<open>When it cannot fail\<close>

fun jsonable :: "pyval \<Rightarrow> bool" where
  "jsonable (VList xs) = list_all jsonable xs"
| "jsonable (VDict d) = list_all (\<lambda>p. json_key (fst p) \<noteq> None \<and> jsonable (snd p)) d"
| "jsonable (VRef n) = False"
| "jsonable (VOpaque s r) = False"
| "jsonable v = True"

lemma rmapM_total: "(\<And>x. x \<in> set xs \<Longrightarrow> \<exists>y. f x = Inr y) \<Longrightarrow> \<exists>ys. rmapM f xs = Inr ys"
  by (induction xs) force+

lemma json_text_total: "jsonable v \<Longrightarrow> \<exists>t. json_text level v = Inr t"
proof (induction level v rule: json_text.induct)
  case (6 level xs)
  then have "\<exists>ys. rmapM (json_text (Suc level)) xs = Inr ys"
    by (intro rmapM_total) (auto simp: list_all_iff)
  then show ?case by auto
next
  case (7 level d)
  have "\<exists>ys. rmapM (\<lambda>p. case json_key (fst p) of None \<Rightarrow> Inl TypeError
      | Some k \<Rightarrow> rbind (json_text (Suc level) (snd p)) (\<lambda>v. Inr (json_string k @ '': '' @ v))) d = Inr ys"
  proof (rule rmapM_total)
    fix p assume p: "p \<in> set d"
    then obtain k where k: "json_key (fst p) = Some k" using 7 by (auto simp: list_all_iff)
    have "\<exists>v. json_text (Suc level) (snd p) = Inr v" using 7 p k by (auto simp: list_all_iff)
    then show "\<exists>y. (case json_key (fst p) of None \<Rightarrow> Inl TypeError
      | Some k \<Rightarrow> rbind (json_text (Suc level) (snd p)) (\<lambda>v. Inr (json_string k @ '': '' @ v))) = Inr y"
      using k by auto
  qed
  then show ?case by auto
qed auto

text \<open>Texts for ids, keys and host names, and tags that JSON can express.\<close>

definition printable :: "metric_result \<Rightarrow> bool" where
  "printable r \<longleftrightarrow> jsonable (r_metric_id r) \<and> is_str (r_key r) \<and> jsonable (r_host_name r)
     \<and> list_all jsonable (r_tags r)"

lemma asdict_jsonable: "printable r \<Longrightarrow> jsonable (str_keys (asdict exc_text r))"
  by (auto simp: printable_def str_keys_def asdict_def error_value_def is_str_iff
      split: option.split err_text.split)

lemma output_text_total:
  assumes "\<forall>r \<in> set results. printable r"
  shows "\<exists>t. output_text exc_text fmt results = Inr t"
proof -
  have "\<exists>t. json_text 0 (VList (map (str_keys \<circ> asdict exc_text) (filter is_sendable results))) = Inr t"
    using assms asdict_jsonable by (intro json_text_total) (auto simp: list_all_iff)
  moreover have "\<exists>ks. rmapM key_text (filter is_sendable results) = Inr ks"
    using assms by (intro rmapM_total) (auto simp: printable_def is_str_iff key_text_def)
  ultimately show ?thesis by (auto simp: output_text_def table_text_def Let_def)
qed

lemma write_output_returns:
  assumes "\<forall>r \<in> set results. printable r" and "\<And>e. open_error = Some e \<Longrightarrow> is_os_error e"
  shows "fst (write_output exc_text open_error fmt results f) = Inr ()"
  using output_text_total[OF assms(1), of exc_text fmt] assms(2)
  by (auto simp: write_output_def split: option.split)

end
