(* ===== verification/MainRun.thy ===== *)
theory MainRun
  imports Scheduler Registry Runner Router Sender MetricsLoader StateManager DbLoader
    DatabaseCollector Locking OutputWriter
begin

section \<open>One run of the client (\<open>main.py\<close>, \<open>run.py\<close>)\<close>

text \<open>
  The orchestration: configuration, run lock, schedule, collection, routing, sending, state. A run
  transforms a \<open>world\<close>: the files (JSON state, lock, output), the summary, the calls of the sender
  library, the database connections and the registered collectors; \<open>w_started\<close> records the ids
  handed to the collectors, an observation the program itself does not keep. What surrounds the
  program is the environment \<open>main_env\<close>.

  The overall timeout cancels the run at an \<open>await\<close>: while it collects (\<open>mn_cut\<close>) or while it sends
  (a send that ends with \<open>CancelledError\<close>); \<open>mn_expired\<close> says that the timeout is where the
  cancellation comes from. Sends the code runs in parallel are performed one after the other.
  Logging has no effect here, except that setting it up may raise.
\<close>

record main_env =
  mn_cfg :: cfg_env
  mn_dbl :: dbl_env
  mn_logging :: "logging_config \<Rightarrow> exn option"
  mn_lock :: lock_env
  mn_io :: io_env
  mn_send :: send_env
  mn_run :: run_env
  mn_cut :: bool
  mn_expired :: bool
  mn_conns :: conn_state
  mn_elapsed :: pyfloat
  mn_minutes :: int
  mn_now :: int
  mn_today :: string
  mn_exc_text :: "exn \<Rightarrow> string"
  mn_output_error :: "exn option"

record world =
  w_disk :: disk
  w_lock :: lock_file
  w_output :: "string option"
  w_summary :: run_summary
  w_calls :: "net_call list"
  w_conns :: conn_state
  w_registry :: registry_state
  w_started :: "pyval list"

type_synonym 'a main = "(exn, world, 'a) st"

record run_args =
  ra_config :: string
  ra_metrics :: string
  ra_databases :: "string option"
  ra_dry_run :: bool
  ra_log_level :: "string option"
  ra_output :: "string option"
  ra_format :: string

subsection \<open>Collect, route, write, send\<close>

text \<open>A sender operation on the summary and the calls of the world; likewise the other parts.\<close>

definition on_sender :: "(exn, send_state, 'a) st \<Rightarrow> 'a main" where
  "on_sender m = (\<lambda>w. case m (w_summary w, w_calls w) of
     (r, (s, calls)) \<Rightarrow> (r, w\<lparr>w_summary := s, w_calls := calls\<rparr>))"

definition on_disk :: "(exn, disk, 'a) st \<Rightarrow> 'a main" where
  "on_disk m = (\<lambda>w. case m (w_disk w) of (r, d) \<Rightarrow> (r, w\<lparr>w_disk := d\<rparr>))"

definition on_output :: "(exn, string option, 'a) st \<Rightarrow> 'a main" where
  "on_output m = (\<lambda>w. case m (w_output w) of (r, t) \<Rightarrow> (r, w\<lparr>w_output := t\<rparr>))"

definition on_summary :: "(run_summary \<Rightarrow> run_summary) \<Rightarrow> unit main" where
  "on_summary f = modifyM (\<lambda>w. w\<lparr>w_summary := f (w_summary w)\<rparr>)"

definition collect :: "main_env \<Rightarrow> client_config \<Rightarrow> metric_def list \<Rightarrow> (metric_result list \<times> metric_result list) main" where
  "collect env cfg metrics =
     bindM (modifyM (\<lambda>w. w\<lparr>w_started := w_started w @ map m_id metrics\<rparr>)) (\<lambda>_.
     bindM getM (\<lambda>w.
     bindM (modifyM (\<lambda>w. w\<lparr>w_conns := mn_conns env\<rparr>)) (\<lambda>_.
     lift (if mn_cut env then Inl CancelledError
           else run_all_collectors ((mn_run env)\<lparr>env_registry := w_registry w\<rparr>) metrics cfg))))"

definition send_results :: "main_env \<Rightarrow> client_config \<Rightarrow> metric_result list \<Rightarrow> metric_result list \<Rightarrow> unit main" where
  "send_results env cfg batch immediate = (let
     separately = b_flush_immediate_separately (cfg_batching cfg);
     send_imm = on_sender (send_immediate (mn_send env) cfg immediate);
     send_bat = on_sender (send_batch (mn_send env) cfg batch) in
     bindM (if separately \<and> immediate \<noteq> [] \<and> batch \<noteq> [] then bindM send_imm (\<lambda>_. send_bat)
            else bindM (if separately \<and> immediate \<noteq> [] then send_imm else ret ()) (\<lambda>_.
                 if batch \<noteq> [] then send_bat else ret ())) (\<lambda>_.
     if \<not> separately \<and> immediate \<noteq> []
     then on_sender (send_batch (mn_send env) cfg immediate) else ret ()))"

definition output_results :: "main_env \<Rightarrow> run_args \<Rightarrow> metric_result list \<Rightarrow> unit main" where
  "output_results env args results = (case ra_output args of None \<Rightarrow> ret ()
     | Some path \<Rightarrow> if path = [] then ret ()
         else on_output (write_output (mn_exc_text env) (mn_output_error env) (ra_format args) results))"

definition self_monitor :: "main_env \<Rightarrow> client_config \<Rightarrow> unit main" where
  "self_monitor env cfg = (if ft_self_monitoring (cfg_features cfg)
     then bindM (on_summary (\<lambda>s. s\<lparr>s_duration := mn_elapsed env\<rparr>)) (\<lambda>_.
          on_sender (send_self_metrics (mn_send env) cfg (mn_now env)))
     else ret ())"

definition all_good :: "run_summary \<Rightarrow> bool" where
  "all_good s \<longleftrightarrow> s_collected_failed s = 0 \<and> s_collected_timeout s = 0 \<and> s_sender_failures s = 0"

definition finish :: "main_env \<Rightarrow> run_summary \<Rightarrow> run_summary" where
  "finish env s = s\<lparr>s_duration := mn_elapsed env, s_success := all_good s\<rparr>"

definition exit_code :: "run_summary \<Rightarrow> int" where
  "exit_code s = (if s_sender_failures s > 0 then 1
     else if s_collected_failed s > 0 \<or> s_collected_timeout s > 0 then 1 else 0)"

definition run_async ::
  "main_env \<Rightarrow> client_config \<Rightarrow> metric_def list \<Rightarrow> run_args \<Rightarrow> int main" where
  "run_async env cfg metrics args =
     bindM (collect env cfg metrics) (\<lambda>(immediate_raw, batch_raw).
     bindM (on_summary (\<lambda>s. update_summary s immediate_raw batch_raw)) (\<lambda>_.
     case route (immediate_raw @ batch_raw) of (batch, immediate) \<Rightarrow>
     bindM (output_results env args (immediate_raw @ batch_raw)) (\<lambda>_.
     bindM (modifyM (\<lambda>w. w\<lparr>w_conns := close_all (w_conns w)\<rparr>)) (\<lambda>_.
     bindM (send_results env cfg batch immediate) (\<lambda>_.
     bindM (self_monitor env cfg) (\<lambda>_.
     bindM (on_summary (finish env)) (\<lambda>_.
     bindM getM (\<lambda>w. ret (exit_code (w_summary w))))))))))"

definition run_with_timeout ::
  "main_env \<Rightarrow> client_config \<Rightarrow> metric_def list \<Rightarrow> run_args \<Rightarrow> int main" where
  "run_with_timeout env cfg metrics args = catchM (run_async env cfg metrics args) (\<lambda>e.
     if e = TimeoutError \<or> (e = CancelledError \<and> mn_expired env)
     then Some (bindM (on_summary (\<lambda>s. s\<lparr>s_success := False\<rparr>)) (\<lambda>_. ret 2)) else None)"

subsection \<open>The schedule\<close>

text \<open>\<open>d[key] = v\<close> for a document.\<close>

fun item_set :: "pyval \<Rightarrow> pyval \<Rightarrow> pyval \<Rightarrow> pyval res" where
  "item_set (VDict ps) k v = Inr (VDict (key_set ps k v))"
| "item_set d k v = Inl TypeError"

text \<open>
  A count or counter as an integer. A float, which a state file contains only when it was edited,
  is not modelled: it counts as an error.
\<close>

fun as_int :: "pyval \<Rightarrow> int res" where
  "as_int (VInt i) = Inr i"
| "as_int (VBool b) = Inr (if b then 1 else 0)"
| "as_int v = Inl TypeError"

definition execution_count :: "pyval \<Rightarrow> metric_def \<Rightarrow> int res" where
  "execution_count counts m =
     rbind (key_get counts (m_id m) (VDict [])) (\<lambda>entry.
     rbind (vget entry ''execution_count'' (VInt 0)) as_int)"

fun schedule_metrics ::
  "main_env \<Rightarrow> client_config \<Rightarrow> int \<Rightarrow> pyval \<Rightarrow> metric_def list \<Rightarrow> metric_def list main" where
  "schedule_metrics env cfg run_counter counts [] = ret []"
| "schedule_metrics env cfg run_counter counts (m # ms) =
     bindM (lift (execution_count counts m)) (\<lambda>n.
     bindM (lift (should_execute m run_counter n (rt_dry_run (cfg_runtime cfg)) (mn_minutes env))) (\<lambda>(can_run, _).
     if can_run then bindM (schedule_metrics env cfg run_counter counts ms) (\<lambda>rest. ret (m # rest))
     else bindM (on_summary (\<lambda>s. s\<lparr>s_schedule_skipped := s_schedule_skipped s + 1\<rparr>)) (\<lambda>_.
          schedule_metrics env cfg run_counter counts ms)))"

text \<open>\<open>entry = counts.setdefault(m.id, {...}); entry["execution_count"] += 1\<close>\<close>

definition count_execution :: "metric_def \<Rightarrow> pyval \<Rightarrow> pyval res" where
  "count_execution m counts =
     rbind (key_get counts (m_id m) (VDict [(VStr ''execution_count'', VInt 0)])) (\<lambda>entry.
     rbind (vindex entry ''execution_count'') (\<lambda>n.
     rbind (add_one n) (\<lambda>n'.
     rbind (item_set entry (VStr ''execution_count'') n') (\<lambda>entry'.
     item_set counts (m_id m) entry'))))"

fun count_executions :: "metric_def list \<Rightarrow> pyval \<Rightarrow> pyval res" where
  "count_executions [] counts = Inr counts"
| "count_executions (m # ms) counts = rbind (count_execution m counts) (count_executions ms)"

text \<open>The state of a new calendar day.\<close>

definition new_day :: "string \<Rightarrow> pyval" where
  "new_day today = VDict [(VStr ''date'', VStr today), (VStr ''run_counter'', VInt 0),
     (VStr ''metrics'', VDict [])]"

definition next_run :: "main_env \<Rightarrow> pyval \<Rightarrow> (int \<times> pyval) res" where
  "next_run env state =
     rbind (vget state ''date'' VNone) (\<lambda>date.
     let state = (if date \<noteq> VStr (mn_today env) then new_day (mn_today env) else state) in
     rbind (rbind (vget state ''run_counter'' (VInt 0)) add_one) (\<lambda>counter.
     rbind (as_int counter) (\<lambda>run_counter.
     rbind (item_set state (VStr ''run_counter'') (VInt run_counter)) (\<lambda>state.
     Inr (run_counter, state)))))"

text \<open>Nothing is scheduled: the run counter and the run state are saved.\<close>

definition idle_run :: "main_env \<Rightarrow> client_config \<Rightarrow> pyval \<Rightarrow> unit main" where
  "idle_run env cfg state =
     bindM (if rt_dry_run (cfg_runtime cfg) then ret ()
            else on_disk (save_schedule_state (mn_io env) cfg state)) (\<lambda>_.
     bindM getM (\<lambda>w. on_disk (save_state (mn_io env) cfg (w_summary w) (mn_now env))))"

text \<open>The executions are counted after the run, but not in a dry run.\<close>

definition save_counts :: "main_env \<Rightarrow> client_config \<Rightarrow> pyval \<Rightarrow> pyval \<Rightarrow> metric_def list \<Rightarrow> unit main" where
  "save_counts env cfg state counts scheduled =
     (if rt_dry_run (cfg_runtime cfg) then ret ()
      else bindM (lift (count_executions scheduled counts)) (\<lambda>counts.
           bindM (lift (item_set state (VStr ''metrics'') counts)) (\<lambda>state.
           on_disk (save_schedule_state (mn_io env) cfg state))))"

definition busy_run ::
  "main_env \<Rightarrow> client_config \<Rightarrow> run_args \<Rightarrow> pyval \<Rightarrow> pyval \<Rightarrow> metric_def list \<Rightarrow> int main" where
  "busy_run env cfg args state counts scheduled =
     bindM (modifyM (\<lambda>w. w\<lparr>w_registry :=
       load_collectors_for (remdups (map m_collector scheduled)) (w_registry w)\<rparr>)) (\<lambda>_.
     bindM (run_with_timeout env cfg scheduled args) (\<lambda>exit_code.
     bindM (save_counts env cfg state counts scheduled) (\<lambda>_. ret exit_code)))"

text \<open>
  The body of the \<open>with RunLock\<close> block. \<open>True\<close> means that it returned from \<open>run\<close> by itself, having
  saved the run state, because nothing was scheduled.
\<close>

definition run_locked ::
  "main_env \<Rightarrow> client_config \<Rightarrow> metric_def list \<Rightarrow> run_args \<Rightarrow> (int \<times> bool) main" where
  "run_locked env cfg metrics args =
     bindM getM (\<lambda>w.
     bindM (lift (load_schedule_state cfg (w_disk w))) (\<lambda>loaded.
     bindM (lift (next_run env loaded)) (\<lambda>(run_counter, state).
     bindM (lift (vget state ''metrics'' (VDict []))) (\<lambda>counts.
     bindM (schedule_metrics env cfg run_counter counts metrics) (\<lambda>scheduled.
     if scheduled = [] then bindM (idle_run env cfg state) (\<lambda>_. ret (0, True))
     else bindM (busy_run env cfg args state counts scheduled) (\<lambda>exit_code. ret (exit_code, False)))))))"

subsection \<open>The run\<close>

definition with_run_lock :: "lock_env \<Rightarrow> 'a main \<Rightarrow> 'a main" where
  "with_run_lock env body = (\<lambda>w. case acquire 2 env (w_lock w) of
     None \<Rightarrow> (Inl (RuntimeError (Issue ''maximum recursion depth exceeded'' [])), w)
   | Some (Inl e, f) \<Rightarrow> (Inl e, w\<lparr>w_lock := f\<rparr>)
   | Some (Inr u, f) \<Rightarrow> (case body (w\<lparr>w_lock := f\<rparr>) of
       (r, w') \<Rightarrow> (r, w'\<lparr>w_lock := release True (w_lock w')\<rparr>)))"

definition apply_overrides :: "run_args \<Rightarrow> client_config \<Rightarrow> client_config" where
  "apply_overrides args cfg0 = (let
     cfg = (if ra_dry_run args then cfg0\<lparr>cfg_runtime := (cfg_runtime cfg0)\<lparr>rt_dry_run := True\<rparr>\<rparr> else cfg0) in
     case ra_log_level args of None \<Rightarrow> cfg | Some lv \<Rightarrow> if lv = [] then cfg
       else cfg\<lparr>cfg_logging := (cfg_logging cfg)\<lparr>lg_level := py_upper lv\<rparr>\<rparr>)"

definition send_fatal_failure :: "main_env \<Rightarrow> client_config \<Rightarrow> unit main" where
  "send_fatal_failure env cfg =
     (if \<not> ft_self_monitoring (cfg_features cfg) \<or> rt_dry_run (cfg_runtime cfg) then ret ()
      else (\<lambda>w. case send_self_metrics (mn_send env) cfg (mn_now env)
                     (new_summary\<lparr>s_success := False\<rparr>, w_calls w) of
        (Inl e, (_, calls)) \<Rightarrow> (if is_exception e then Inr () else Inl e, w\<lparr>w_calls := calls\<rparr>)
      | (Inr (), (_, calls)) \<Rightarrow> (Inr (), w\<lparr>w_calls := calls\<rparr>)))"

text \<open>The database metrics get the registry and the shared connection cache, known by identity.\<close>

definition inject_databases :: "metric_def \<Rightarrow> metric_def" where
  "inject_databases m = (if m_collector m = ''database''
     then m\<lparr>m_params := dset (dset (m_params m) ''_db_registry'' (VRef 0)) ''_db_conn_cache'' (VRef 1)\<rparr> else m)"

definition needs_databases :: "metric_def list \<Rightarrow> bool" where
  "needs_databases metrics = list_ex (\<lambda>m. m_collector m = ''database'') metrics"

fun is_db_config_error :: "exn \<Rightarrow> bool" where
  "is_db_config_error (DatabaseConfigError i) = True"
| "is_db_config_error FileNotFoundError = True"
| "is_db_config_error e = False"

definition load_registry :: "main_env \<Rightarrow> client_config \<Rightarrow> run_args \<Rightarrow> metric_def list \<Rightarrow> registry res" where
  "load_registry env cfg args metrics = (if \<not> needs_databases metrics then Inr [] else
     case ra_databases args of None \<Rightarrow> Inr [] | Some path \<Rightarrow>
       if path = [] \<or> dl_read (mn_dbl env) path = None then Inr []
       else fst (load_databases_config (mn_dbl env) path (ft_strict (cfg_features cfg)) False []))"

definition enabled_metrics :: "client_config \<Rightarrow> metric_def list \<Rightarrow> metric_def list" where
  "enabled_metrics cfg metrics =
     (if ft_skip_disabled (cfg_features cfg) then filter (\<lambda>m. m_enabled m) metrics else metrics)"

fun lock_conflict :: "exn \<Rightarrow> int main option" where
  "lock_conflict (LockError i) = Some (ret 2)"
| "lock_conflict e = None"

text \<open>After the \<open>with\<close> block: the run state is saved, unless the block has done it already.\<close>

definition after_lock :: "main_env \<Rightarrow> client_config \<Rightarrow> int \<times> bool \<Rightarrow> int main" where
  "after_lock env cfg = (\<lambda>(exit_code, saved).
     if saved then ret exit_code
     else bindM getM (\<lambda>w.
          bindM (on_disk (save_state (mn_io env) cfg (w_summary w) (mn_now env))) (\<lambda>_. ret exit_code)))"

definition execute :: "main_env \<Rightarrow> client_config \<Rightarrow> run_args \<Rightarrow> metric_def list \<Rightarrow> int main" where
  "execute env cfg args enabled = catchM
     (bindM (with_run_lock (mn_lock env) (run_locked env cfg enabled args)) (after_lock env cfg))
     lock_conflict"

definition run :: "main_env \<Rightarrow> run_args \<Rightarrow> int main" where
  "run env args = (case load_client_config (mn_cfg env) (ra_config args) of
     Inl e \<Rightarrow> if is_exception e then ret 2 else raise e
   | Inr cfg0 \<Rightarrow> (let cfg = apply_overrides args cfg0 in
     case mn_logging env (cfg_logging cfg) of Some e \<Rightarrow> raise e | None \<Rightarrow>
     (case fst (load_metrics_config (mn_cfg env) (ra_metrics args) (ft_strict (cfg_features cfg)) []) of
       Inl e \<Rightarrow> if is_exception e then bindM (send_fatal_failure env cfg) (\<lambda>_. ret 2) else raise e
     | Inr mc \<Rightarrow> (let enabled = enabled_metrics cfg (mc_metrics mc) in
       case load_registry env cfg args enabled of
         Inl e \<Rightarrow> if is_db_config_error e then bindM (send_fatal_failure env cfg) (\<lambda>_. ret 2) else raise e
       | Inr registry \<Rightarrow> (let enabled = (if registry = [] then enabled else map inject_databases enabled) in
         if enabled = [] then ret 0
         else bindM (on_summary (\<lambda>_. new_summary\<lparr>s_total_configured := int (length (mc_metrics mc)),
                       s_enabled := int (length enabled)\<rparr>)) (\<lambda>_.
              execute env cfg args enabled))))))"

subsection \<open>Validation\<close>

text \<open>\<open>--validate\<close>: the exit code. The report takes the length of every id, which must be a text.\<close>

definition validate :: "cfg_env \<Rightarrow> string \<Rightarrow> int res" where
  "validate env path = (case validate_metrics_file env path of
     Inl e \<Rightarrow> if e = FileNotFoundError then Inr 2 else Inl e
   | Inr (issues, metrics) \<Rightarrow>
       if list_all (\<lambda>m. is_str (m_id m)) metrics then Inr (if issues = [] then 0 else 1)
       else Inl TypeError)"

text \<open>\<open>run.py\<close>\<close>

definition program :: "main_env \<Rightarrow> bool \<Rightarrow> run_args \<Rightarrow> int main" where
  "program env validate_only args =
     (if validate_only then lift (validate (mn_cfg env) (ra_metrics args)) else run env args)"

end
