(* ===== verification/MainProps.thy ===== *)
theory MainProps
  imports MainRun
begin

section \<open>Properties of a run\<close>

text \<open>
  What one run of the client promises, over the definitions of theory \<open>MainRun\<close>: the lock, the
  meaning of the exit code, the execution quota over several runs, the self-monitoring metrics.
\<close>

subsection \<open>Frames\<close>

text \<open>A computation that leaves the part \<open>f\<close> of the world alone.\<close>

definition keeps :: "(world \<Rightarrow> 'x) \<Rightarrow> 'a main \<Rightarrow> bool" where
  "keeps f m \<longleftrightarrow> (\<forall>w. f (snd (m w)) = f w)"

named_theorems keeps_intros \<open>computations that leave a part of the world alone\<close>

lemma keepsD: "keeps f m \<Longrightarrow> m w = (r, w') \<Longrightarrow> f w' = f w"
  by (metis keeps_def snd_conv)

lemma keeps_basic [keeps_intros]:
  "keeps f (ret a)" "keeps f (raise e)" "keeps f (lift r)" "keeps f getM"
  by (auto simp: keeps_def)

lemma keeps_conns [keeps_intros]:
  "keeps w_disk (modifyM (\<lambda>w. w\<lparr>w_conns := h (w_conns w)\<rparr>))"
  "keeps w_started (modifyM (\<lambda>w. w\<lparr>w_conns := h (w_conns w)\<rparr>))"
  by (simp_all add: keeps_def)

lemma keeps_parts [keeps_intros]:
  "keeps w_lock (on_summary g)" "keeps w_lock (on_disk d)" "keeps w_lock (on_sender s)" "keeps w_lock (on_output t)"
  "keeps w_disk (on_summary g)" "keeps w_disk (on_sender s)" "keeps w_disk (on_output t)"
  "keeps w_started (on_summary g)" "keeps w_started (on_disk d)" "keeps w_started (on_sender s)"
  "keeps w_started (on_output t)"
  by (auto simp: keeps_def on_summary_def on_disk_def on_sender_def on_output_def split: prod.splits)

lemma after_bind:
  assumes "\<And>a. keeps f (k a)"
  shows "f (snd (bindM m k w)) = f (snd (m w))"
proof -
  obtain r u where m: "m w = (r, u)" by fastforce
  show ?thesis
  proof (cases r)
    case (Inr a)
    then show ?thesis using assms[of a] m by (simp add: keeps_def)
  qed (simp add: m)
qed

lemma after_catch:
  assumes "\<And>e k. h e = Some k \<Longrightarrow> keeps f k"
  shows "f (snd (catchM m h w)) = f (snd (m w))"
proof -
  obtain r u where m: "m w = (r, u)" by fastforce
  show ?thesis
  proof (cases r)
    case (Inl e)
    then show ?thesis using assms[of e] m by (cases "h e") (auto simp: catchM_def keeps_def)
  qed (simp add: m catchM_def)
qed

lemma keeps_bind [keeps_intros]: "keeps f m \<Longrightarrow> (\<And>a. keeps f (k a)) \<Longrightarrow> keeps f (bindM m k)"
  by (simp add: keeps_def[of f m] keeps_def[of f "bindM m k"] after_bind)

lemma keeps_cases [keeps_intros]:
  "keeps f m \<Longrightarrow> keeps f m' \<Longrightarrow> keeps f (if c then m else m')"
  "(\<And>x y. keeps f (k x y)) \<Longrightarrow> keeps f (case p of (x, y) \<Rightarrow> k x y)"
  "keeps f m \<Longrightarrow> (\<And>x. keeps f (g x)) \<Longrightarrow> keeps f (case o' of None \<Rightarrow> m | Some x \<Rightarrow> g x)"
  by (auto split: prod.split option.split)

lemma keeps_fatal [keeps_intros]: "keeps w_lock (send_fatal_failure env cfg)"
proof -
  have "w_lock (snd (send_fatal_failure env cfg w)) = w_lock w" for w
  proof -
    obtain r s cs where m: "send_self_metrics (mn_send env) cfg (mn_now env)
        (new_summary\<lparr>s_success := False\<rparr>, w_calls w) = (r, (s, cs))"
      by (metis prod.exhaust)
    show ?thesis by (cases r) (simp_all add: send_fatal_failure_def m split: unit.split)
  qed
  then show ?thesis by (simp add: keeps_def)
qed

subsection \<open>The lock\<close>

text \<open>Nothing but the \<open>with\<close> block itself touches the lock file.\<close>

lemma acquire_2: "acquire 2 env f =
   (if lk_create_error env then Some (lock_error ''Cannot create lock file'', f)
    else if f = NoLock then Some (Inr (), LockText (str_int (lk_pid env)))
    else case is_stale env f of
      Inl e \<Rightarrow> Some (Inl e, f)
    | Inr False \<Rightarrow> Some (lock_error ''Another instance is already running'', f)
    | Inr True \<Rightarrow> (case lk_unlink_error env of
          Some e \<Rightarrow> if e = FileNotFoundError then Some (Inr (), LockText (str_int (lk_pid env)))
            else Some (Inl e, f)
        | None \<Rightarrow> Some (Inr (), LockText (str_int (lk_pid env)))))"
proof -
  have "acquire (Suc 0) env NoLock = Some (Inr (), LockText (str_int (lk_pid env)))"
    if "\<not> lk_create_error env"
    using that by simp
  then show ?thesis unfolding numeral_2_eq_2 acquire.simps(2)[of "Suc 0"]
    by (cases "lk_create_error env"; cases "f = NoLock"; cases "is_stale env f")
      (simp_all del: acquire.simps split: bool.split option.split)
qed

lemma acquire_refused: "acquire 2 env f = Some (Inl e, f') \<Longrightarrow> f' = f"
  by (simp add: acquire_2 lock_error_def split: if_split_asm sum.split_asm bool.split_asm option.split_asm)

lemma with_run_lock_frees:
  "w_lock (snd (with_run_lock env body w)) \<in> {NoLock, w_lock w}"
proof (cases "acquire 2 env (w_lock w)")
  case None
  then show ?thesis by (simp add: with_run_lock_def)
next
  case (Some rf)
  then obtain r f where rf: "acquire 2 env (w_lock w) = Some (r, f)" by (cases rf) simp
  obtain r' w' where b: "body (w\<lparr>w_lock := f\<rparr>) = (r', w')" by fastforce
  show ?thesis
  proof (cases r)
    case (Inl e)
    then show ?thesis using rf acquire_refused[of env "w_lock w" e f] by (simp add: with_run_lock_def)
  next
    case (Inr u)
    then show ?thesis using rf b by (simp add: with_run_lock_def release_def)
  qed
qed

lemma keeps_after_lock [keeps_intros]:
  "keeps w_lock (after_lock env cfg a)" "keeps w_started (after_lock env cfg a)"
  unfolding after_lock_def by (intro keeps_intros)+

lemma keeps_conflict: "lock_conflict e = Some k \<Longrightarrow> keeps f k"
  by (cases e) (auto intro: keeps_intros)

lemma execute_frees: "w_lock (snd (execute env cfg args ms w)) \<in> {NoLock, w_lock w}"
  using with_run_lock_frees[of "mn_lock env" "run_locked env cfg ms args" w]
  by (simp add: execute_def after_catch[OF keeps_conflict] after_bind keeps_after_lock)

text \<open>How a run ends: before the lock, with or without a notification, or as \<open>execute\<close> does.\<close>

lemma run_cases:
  obtains (stopped) r where "run env args w = (r, w)"
    | (fatal) cfg where "run env args w = bindM (send_fatal_failure env cfg) (\<lambda>_. ret 2) w"
    | (executed) cfg ms s where "run env args w = execute env cfg args ms (w\<lparr>w_summary := s\<rparr>)"
proof (cases "load_client_config (mn_cfg env) (ra_config args)")
  case (Inl e)
  then show ?thesis using stopped by (cases "is_exception e") (simp_all add: run_def)
next
  case cfg0: (Inr cfg0)
  let ?cfg = "apply_overrides args cfg0"
  let ?mc = "fst (load_metrics_config (mn_cfg env) (ra_metrics args) (ft_strict (cfg_features ?cfg)) [])"
  show ?thesis
  proof (cases "mn_logging env (cfg_logging ?cfg)")
    case (Some e)
    then show ?thesis using stopped cfg0 by (simp add: run_def Let_def)
  next
    case log: None
    show ?thesis
    proof (cases ?mc)
      case (Inl e)
      then show ?thesis using stopped fatal[of ?cfg] cfg0 log
        by (cases "is_exception e") (simp_all add: run_def Let_def)
    next
      case mc: (Inr mc)
      let ?en = "enabled_metrics ?cfg (mc_metrics mc)"
      show ?thesis
      proof (cases "load_registry env ?cfg args ?en")
        case (Inl e)
        then show ?thesis using stopped fatal[of ?cfg] cfg0 log mc
          by (cases "is_db_config_error e") (simp_all add: run_def Let_def)
      next
        case reg: (Inr reg)
        let ?en' = "if reg = [] then ?en else map inject_databases ?en"
        have "run env args = (if ?en' = [] then ret 0
           else bindM (on_summary (\<lambda>_. new_summary\<lparr>s_total_configured := int (length (mc_metrics mc)),
                         s_enabled := int (length ?en')\<rparr>)) (\<lambda>_. execute env ?cfg args ?en'))"
          using cfg0 log mc reg by (simp add: run_def Let_def)
        then show ?thesis using stopped executed
          by (cases "?en' = []") (simp_all add: bindM_def on_summary_def)
      qed
    qed
  qed
qed

lemma execute_conflict:
  assumes "acquire 2 (mn_lock env) (w_lock w) = Some (lock_error msg, f)"
  shows "execute env cfg args ms w = (Inr 2, w)"
proof -
  have "f = w_lock w" using assms acquire_refused by (auto simp: lock_error_def)
  then show ?thesis using assms
    by (simp add: execute_def catchM_def bindM_def with_run_lock_def lock_error_def)
qed

lemma live_lock_refuses:
  assumes "lk_kill env pid = Delivered"
  shows "\<exists>msg. acquire 2 env (LockText (str_int pid)) = Some (lock_error msg, LockText (str_int pid))"
  using assms by (cases "lk_create_error env") (auto simp: acquire_2 is_stale_pid)

lemma send_self_metrics_state:
  "\<exists>r cs. send_self_metrics env cfg now (s, calls) = (r, (s, calls @ cs))"
proof (cases "self_items s")
  case (Inl e)
  then show ?thesis by (simp add: send_self_metrics_def)
next
  case (Inr kvs)
  obtain r cs where "send env cfg (map (self_result now) kvs) = (r, cs)" by fastforce
  then show ?thesis using Inr by (simp add: send_self_metrics_def)
qed

text \<open>What a notification of a fatal failure changes: the calls of the sender library.\<close>

lemma fatal_failure_calls: "\<exists>calls. snd (send_fatal_failure env cfg w) = w\<lparr>w_calls := w_calls w @ calls\<rparr>"
proof (cases "\<not> ft_self_monitoring (cfg_features cfg) \<or> rt_dry_run (cfg_runtime cfg)")
  case True
  then show ?thesis by (simp add: send_fatal_failure_def) (metis append_Nil2 world.surjective world.update_convs)
next
  case False
  obtain r s cs where m: "send_self_metrics (mn_send env) cfg (mn_now env)
      (new_summary\<lparr>s_success := False\<rparr>, w_calls w) = (r, (s, w_calls w @ cs))"
    using send_self_metrics_state by blast
  show ?thesis using False by (cases r) (auto simp: send_fatal_failure_def m split: unit.split)
qed

subsection \<open>What the exit code says\<close>

lemma on_sender_step:
  "m (w_summary w, w_calls w) = (r, (s, cs)) \<Longrightarrow> on_sender m w = (r, w\<lparr>w_summary := s, w_calls := cs\<rparr>)"
  by (simp add: on_sender_def)

text \<open>What sending adds to the summary: \<open>a\<close> and \<open>i\<close> values sent, \<open>b\<close> lost.\<close>

definition sent :: "int \<Rightarrow> int \<Rightarrow> int \<Rightarrow> run_summary \<Rightarrow> run_summary" where
  "sent a i b s = s\<lparr>s_sent_batch := s_sent_batch s + a, s_sent_immediate := s_sent_immediate s + i,
     s_sender_failures := s_sender_failures s + b\<rparr>"

lemma sent_simps [simp]: "sent 0 0 0 s = s"
  "sent a' i' b' (sent a i b s) = sent (a + a') (i + i') (b + b') s"
  by (simp_all add: sent_def add.assoc)

definition accounts_for :: "send_env \<Rightarrow> unit main \<Rightarrow> nat \<Rightarrow> bool" where
  "accounts_for env m n \<longleftrightarrow> (\<forall>w. \<exists>a i b cs. m w = (Inr (),
       w\<lparr>w_summary := sent a i b (w_summary w), w_calls := cs\<rparr>)
     \<and> a + i + b = int n \<and> (counts_failures env \<longrightarrow> 0 \<le> b))"

lemma accounts_ret: "accounts_for env (ret ()) 0"
  unfolding accounts_for_def
proof
  fix w :: world
  show "\<exists>a i b cs. ret () w = (Inr (), w\<lparr>w_summary := sent a i b (w_summary w), w_calls := cs\<rparr>)
     \<and> a + i + b = int 0 \<and> (counts_failures env \<longrightarrow> 0 \<le> b)"
    by (rule exI[of _ 0], rule exI[of _ 0], rule exI[of _ 0], rule exI[of _ "w_calls w"]) simp
qed

lemma accounts_bind:
  assumes "accounts_for env m k" and "accounts_for env m' n"
  shows "accounts_for env (bindM m (\<lambda>_. m')) (k + n)"
  unfolding accounts_for_def
proof
  fix w :: world
  obtain a i b cs where 1: "m w = (Inr (), w\<lparr>w_summary := sent a i b (w_summary w), w_calls := cs\<rparr>)"
    "a + i + b = int k" "counts_failures env \<longrightarrow> 0 \<le> b"
    using assms(1) unfolding accounts_for_def by meson
  let ?w = "w\<lparr>w_summary := sent a i b (w_summary w), w_calls := cs\<rparr>"
  obtain a' i' b' cs' where 2: "m' ?w = (Inr (), ?w\<lparr>w_summary := sent a' i' b' (w_summary ?w), w_calls := cs'\<rparr>)"
    "a' + i' + b' = int n" "counts_failures env \<longrightarrow> 0 \<le> b'"
    using assms(2) unfolding accounts_for_def by meson
  have "bindM m (\<lambda>_. m') w = (Inr (), w\<lparr>w_summary := sent (a + a') (i + i') (b + b') (w_summary w), w_calls := cs'\<rparr>)"
    using 1(1) 2(1) by simp
  then show "\<exists>a i b cs. bindM m (\<lambda>_. m') w = (Inr (), w\<lparr>w_summary := sent a i b (w_summary w), w_calls := cs\<rparr>)
     \<and> a + i + b = int (k + n) \<and> (counts_failures env \<longrightarrow> 0 \<le> b)"
    using 1(2,3) 2(2,3) by (intro exI conjI) (assumption, simp_all)
qed

lemma accounts_batch:
  assumes "library_accounts env" and "0 < b_send_max_size (cfg_batching cfg)"
  shows "accounts_for env (on_sender (send_batch env cfg rs)) (length rs)"
  unfolding accounts_for_def
proof
  fix w :: world
  obtain a b cs where "send_batch env cfg rs (w_summary w, w_calls w) = (Inr (),
      ((w_summary w)\<lparr>s_sent_batch := s_sent_batch (w_summary w) + a,
         s_sender_failures := s_sender_failures (w_summary w) + b\<rparr>, cs))"
    and "a + b = int (length rs)" "counts_failures env \<longrightarrow> 0 \<le> b"
    using send_batch_accounts[OF assms] by blast
  then show "\<exists>a i b cs. on_sender (send_batch env cfg rs) w = (Inr (),
        w\<lparr>w_summary := sent a i b (w_summary w), w_calls := cs\<rparr>)
      \<and> a + i + b = int (length rs) \<and> (counts_failures env \<longrightarrow> 0 \<le> b)"
    by (intro exI[of _ a] exI[of _ 0] exI[of _ b] exI[of _ cs]) (simp add: on_sender_def sent_def)
qed

lemma accounts_immediate:
  assumes "library_accounts env"
  shows "accounts_for env (on_sender (send_immediate env cfg rs)) (length rs)"
  unfolding accounts_for_def
proof
  fix w :: world
  obtain a b cs where "send_immediate env cfg rs (w_summary w, w_calls w) = (Inr (),
      ((w_summary w)\<lparr>s_sent_immediate := s_sent_immediate (w_summary w) + a,
         s_sender_failures := s_sender_failures (w_summary w) + b\<rparr>, cs))"
    and "a + b = int (length rs)" "counts_failures env \<longrightarrow> 0 \<le> b"
    using send_immediate_accounts[OF assms] by blast
  then show "\<exists>a i b cs. on_sender (send_immediate env cfg rs) w = (Inr (),
        w\<lparr>w_summary := sent a i b (w_summary w), w_calls := cs\<rparr>)
      \<and> a + i + b = int (length rs) \<and> (counts_failures env \<longrightarrow> 0 \<le> b)"
    by (intro exI[of _ 0] exI[of _ a] exI[of _ b] exI[of _ cs]) (simp add: on_sender_def sent_def)
qed

lemma send_results_accounts:
  assumes "library_accounts (mn_send env)" and "0 < b_send_max_size (cfg_batching cfg)"
  shows "accounts_for (mn_send env) (send_results env cfg batch immediate) (length batch + length immediate)"
proof -
  note b = accounts_batch[OF assms] and i = accounts_immediate[OF assms(1), of cfg immediate]
  have bat: "accounts_for (mn_send env) (if batch \<noteq> [] then on_sender (send_batch (mn_send env) cfg batch) else ret ()) (length batch)"
    using b[of batch] accounts_ret by auto
  show ?thesis
  proof (cases "b_flush_immediate_separately (cfg_batching cfg)")
    case True
    have "accounts_for (mn_send env) (if immediate \<noteq> [] then on_sender (send_immediate (mn_send env) cfg immediate) else ret ()) (length immediate)"
      using i accounts_ret by auto
    then have "accounts_for (mn_send env) (bindM (if immediate \<noteq> [] then on_sender (send_immediate (mn_send env) cfg immediate) else ret ())
        (\<lambda>_. if batch \<noteq> [] then on_sender (send_batch (mn_send env) cfg batch) else ret ())) (length immediate + length batch)"
      using bat by (rule accounts_bind)
    from accounts_bind[OF this accounts_ret] show ?thesis using True
      by (cases "batch = []"; cases "immediate = []") (simp_all add: send_results_def Let_def add.commute)
  next
    case False
    have "accounts_for (mn_send env) (if immediate \<noteq> [] then on_sender (send_batch (mn_send env) cfg immediate) else ret ()) (length immediate)"
      using b[of immediate] accounts_ret by auto
    from accounts_bind[OF bat this] show ?thesis using False
      by (simp add: send_results_def Let_def)
  qed
qed

text \<open>The steps of a run that ends normally.\<close>

lemma collect_returns:
  assumes "collect env cfg metrics w = (Inr r, w')"
  shows "run_all_collectors ((mn_run env)\<lparr>env_registry := w_registry w\<rparr>) metrics cfg = Inr r"
    and "w' = w\<lparr>w_started := w_started w @ map m_id metrics, w_conns := mn_conns env\<rparr>"
    and "\<not> mn_cut env"
  using assms by (auto simp: collect_def bindM_def split: if_splits)

lemma on_output_summary: "on_output m w = (r, w') \<Longrightarrow> w_summary w' = w_summary w \<and> w_calls w' = w_calls w"
  by (auto simp: on_output_def split: prod.splits)

lemma output_results_summary:
  assumes "output_results env args rs w = (r, w')"
  shows "w_summary w' = w_summary w" and "w_calls w' = w_calls w"
  using assms by (auto simp: output_results_def dest!: on_output_summary split: option.splits if_splits)

lemma finish_duration [simp]: "finish env (s\<lparr>s_duration := d\<rparr>) = finish env s"
  by (simp add: finish_def all_good_def)

lemma run_async_steps:
  assumes "run_async env cfg metrics args w = (Inr c, w')"
  obtains imm bat w1 w2 w3 where
    "run_all_collectors ((mn_run env)\<lparr>env_registry := w_registry w\<rparr>) metrics cfg = Inr (imm, bat)"
    "w_summary w1 = update_summary (w_summary w) imm bat" "w_calls w1 = w_calls w"
    "send_results env cfg (filter goes_batch (imm @ bat)) (filter goes_immediate (imm @ bat)) w1 = (Inr (), w2)"
    "self_monitor env cfg w2 = (Inr (), w3)"
    "w' = w3\<lparr>w_summary := finish env (w_summary w3)\<rparr>" "c = exit_code (w_summary w')"
proof -
  let ?last = "\<lambda>_. bindM (on_summary (finish env)) (\<lambda>_. bindM getM (\<lambda>w. ret (exit_code (w_summary w))))"
  from assms obtain imm bat u where 1: "collect env cfg metrics w = (Inr (imm, bat), u)"
    and 2: "bindM (output_results env args (imm @ bat)) (\<lambda>_.
        bindM (modifyM (\<lambda>w. w\<lparr>w_conns := close_all (w_conns w)\<rparr>)) (\<lambda>_.
        bindM (send_results env cfg (filter goes_batch (imm @ bat)) (filter goes_immediate (imm @ bat))) (\<lambda>_.
        bindM (self_monitor env cfg) ?last)))
      (u\<lparr>w_summary := update_summary (w_summary u) imm bat\<rparr>) = (Inr c, w')"
    unfolding run_async_def route_filter prod.case by (elim bindM_InrE) (auto simp: on_summary_def)
  from 2 obtain v where 3: "output_results env args (imm @ bat)
        (u\<lparr>w_summary := update_summary (w_summary u) imm bat\<rparr>) = (Inr (), v)"
    and 4: "bindM (send_results env cfg (filter goes_batch (imm @ bat)) (filter goes_immediate (imm @ bat))) (\<lambda>_.
        bindM (self_monitor env cfg) ?last) (v\<lparr>w_conns := close_all (w_conns v)\<rparr>) = (Inr c, w')"
    by (elim bindM_InrE) auto
  from 4 obtain w2 where 5: "send_results env cfg (filter goes_batch (imm @ bat)) (filter goes_immediate (imm @ bat))
      (v\<lparr>w_conns := close_all (w_conns v)\<rparr>) = (Inr (), w2)"
    and 6: "bindM (self_monitor env cfg) ?last w2 = (Inr c, w')"
    by (elim bindM_InrE) auto
  from 6 obtain w3 where 7: "self_monitor env cfg w2 = (Inr (), w3)"
    and 8: "w' = w3\<lparr>w_summary := finish env (w_summary w3)\<rparr>" "c = exit_code (w_summary w')"
    by (elim bindM_InrE) (auto simp: on_summary_def)
  show ?thesis
  proof (rule that[OF collect_returns(1)[OF 1] _ _ 5 7 8])
    show "w_summary (v\<lparr>w_conns := close_all (w_conns v)\<rparr>) = update_summary (w_summary w) imm bat"
      "w_calls (v\<lparr>w_conns := close_all (w_conns v)\<rparr>) = w_calls w"
      using output_results_summary[OF 3] collect_returns(2)[OF 1] by simp_all
  qed
qed

lemma self_monitor_summary:
  assumes "self_monitor env cfg w = (r, w')"
  shows "finish env (w_summary w') = finish env (w_summary w)"
proof (cases "ft_self_monitoring (cfg_features cfg)")
  case True
  obtain r cs where m: "send_self_metrics (mn_send env) cfg (mn_now env)
      ((w_summary w)\<lparr>s_duration := mn_elapsed env\<rparr>, w_calls w)
      = (r, ((w_summary w)\<lparr>s_duration := mn_elapsed env\<rparr>, w_calls w @ cs))"
    using send_self_metrics_state by blast
  then have "w_summary w' = (w_summary w)\<lparr>s_duration := mn_elapsed env\<rparr>"
    using assms True by (auto simp: self_monitor_def on_summary_def on_sender_def bindM_def)
  then show ?thesis by simp
qed (use assms in \<open>simp add: self_monitor_def\<close>)

text \<open>A summary that no collection and no sending has touched yet.\<close>

definition fresh_summary :: "run_summary \<Rightarrow> bool" where
  "fresh_summary s \<longleftrightarrow> s_collected_failed s = 0 \<and> s_collected_timeout s = 0 \<and> s_sender_failures s = 0
     \<and> s_sent_batch s = 0 \<and> s_sent_immediate s = 0"

lemma update_summary_fields:
  "s_collected_failed (update_summary s i b) = s_collected_failed s + count_status RESULT_FAILED (i @ b)"
  "s_collected_timeout (update_summary s i b) = s_collected_timeout s + count_status RESULT_TIMEOUT (i @ b)"
  "s_sender_failures (update_summary s i b) = s_sender_failures s"
  "s_sent_batch (update_summary s i b) = s_sent_batch s"
  "s_sent_immediate (update_summary s i b) = s_sent_immediate s"
  by (simp_all add: update_summary_def foldl_count_result del: foldl_append)

lemma count_status_nonneg [simp]: "0 \<le> count_status st rs"
  by (simp add: count_status_def)

lemma count_status_0: "count_status st rs = 0 \<longleftrightarrow> (\<forall>r \<in> set rs. r_status r \<noteq> st)"
  by (simp add: count_status_def filter_empty_conv)

text \<open>When the steps raise nothing, the run returns.\<close>

lemma self_monitor_returns:
  assumes "library_accounts (mn_send env)" and "mn_elapsed env = Fin d"
  shows "\<exists>w'. self_monitor env cfg w = (Inr (), w')"
proof -
  have "\<exists>kvs. self_items ((w_summary w)\<lparr>s_duration := Fin d\<rparr>) = Inr kvs"
    by (simp add: self_items_def)
  then obtain kvs where k: "self_items ((w_summary w)\<lparr>s_duration := Fin d\<rparr>) = Inr kvs" by blast
  obtain p cs where "send (mn_send env) cfg (map (self_result (mn_now env)) kvs) = (Inr p, cs)"
    using send_accounts[OF assms(1)] by (metis prod.exhaust_sel)
  then show ?thesis using k assms(2)
    by (simp add: self_monitor_def send_self_metrics_def on_summary_def on_sender_def bindM_def)
qed

lemma run_async_returns:
  assumes "\<not> mn_cut env"
    and "run_all_collectors ((mn_run env)\<lparr>env_registry := w_registry w\<rparr>) metrics cfg = Inr (imm, bat)"
    and "library_accounts (mn_send env)" and "0 < b_send_max_size (cfg_batching cfg)"
    and "\<forall>r \<in> set (imm @ bat). printable r"
    and "\<And>e. mn_output_error env = Some e \<Longrightarrow> is_os_error e"
    and "mn_elapsed env = Fin d"
  shows "\<exists>c w'. run_async env cfg metrics args w = (Inr c, w')"
proof -
  have 1: "collect env cfg metrics w = (Inr (imm, bat),
      w\<lparr>w_started := w_started w @ map m_id metrics, w_conns := mn_conns env\<rparr>)"
    using assms(1,2) by (simp add: collect_def bindM_def)
  have "fst (write_output (mn_exc_text env) (mn_output_error env) (ra_format args) (imm @ bat) f) = Inr ()" for f
    by (rule write_output_returns[OF assms(5,6)])
  then have "\<exists>t. write_output (mn_exc_text env) (mn_output_error env) (ra_format args) (imm @ bat) f = (Inr (), t)" for f
    by (metis prod.collapse)
  then have 2: "\<exists>v. output_results env args (imm @ bat) u = (Inr (), v)" for u
    unfolding output_results_def on_output_def by (auto split: option.split) (metis prod.case)
  have 3: "\<exists>v. send_results env cfg b i u = (Inr (), v)" for b i u
    using send_results_accounts[OF assms(3,4)] unfolding accounts_for_def by meson
  obtain v where v: "output_results env args (imm @ bat) (w\<lparr>w_started := w_started w @ map m_id metrics,
      w_conns := mn_conns env, w_summary := update_summary (w_summary w) imm bat\<rparr>) = (Inr (), v)"
    using 2 by blast
  obtain v2 where v2: "send_results env cfg (filter goes_batch (imm @ bat)) (filter goes_immediate (imm @ bat))
      (v\<lparr>w_conns := close_all (w_conns v)\<rparr>) = (Inr (), v2)" using 3 by blast
  obtain v3 where v3: "self_monitor env cfg v2 = (Inr (), v3)"
    using self_monitor_returns[OF assms(3,7)] by blast
  show ?thesis unfolding run_async_def route_filter prod.case
    using 1 v v2 v3 by (simp add: on_summary_def bindM_def)
qed

lemma accountsD:
  assumes "accounts_for env m n" and "m w = (Inr (), w')" and "counts_failures env"
  obtains a i b where "w_summary w' = sent a i b (w_summary w)" "0 \<le> b" "a + i + b = int n"
proof -
  obtain a i b cs where "m w = (Inr (), w\<lparr>w_summary := sent a i b (w_summary w), w_calls := cs\<rparr>)"
    "a + i + b = int n" "counts_failures env \<longrightarrow> 0 \<le> b"
    using assms(1) unfolding accounts_for_def by meson
  then show ?thesis using that assms(2,3) by simp
qed

text \<open>The summary at the end, from the results: \<open>a\<close> and \<open>i\<close> values sent, \<open>b\<close> lost.\<close>

lemma run_async_summary:
  assumes "run_async env cfg metrics args w = (Inr c, w')"
    and "run_all_collectors ((mn_run env)\<lparr>env_registry := w_registry w\<rparr>) metrics cfg = Inr (imm, bat)"
    and "library_accounts (mn_send env)" and "counts_failures (mn_send env)"
    and "0 < b_send_max_size (cfg_batching cfg)"
  obtains a i b where "a + i + b = int (length (filter is_sendable (imm @ bat)))" "0 \<le> b"
    "w_summary w' = finish env (sent a i b (update_summary (w_summary w) imm bat))"
    "c = exit_code (w_summary w')"
proof -
  let ?b = "filter goes_batch (imm @ bat)" and ?i = "filter goes_immediate (imm @ bat)"
  from assms(1) obtain w1 w2 w3 where s1: "w_summary w1 = update_summary (w_summary w) imm bat"
    and send: "send_results env cfg ?b ?i w1 = (Inr (), w2)"
    and mon: "self_monitor env cfg w2 = (Inr (), w3)"
    and w': "w' = w3\<lparr>w_summary := finish env (w_summary w3)\<rparr>" "c = exit_code (w_summary w')"
    using assms(2) by (auto elim!: run_async_steps simp del: filter_append)
  obtain a i b where acc: "w_summary w2 = sent a i b (w_summary w1)" "0 \<le> b"
    "a + i + b = int (length ?b + length ?i)"
    using accountsD[OF send_results_accounts[OF assms(3,5)] send assms(4)] by metis
  have "a + i + b = int (length (filter is_sendable (imm @ bat)))"
    using acc(3) route_lengths[of "imm @ bat"] by (simp add: route_filter)
  moreover have "w_summary w' = finish env (sent a i b (update_summary (w_summary w) imm bat))"
    using w'(1) self_monitor_summary[OF mon] acc(1) s1 by simp
  ultimately show ?thesis using that acc(2) w'(2) by blast
qed

lemma exit_code_spec:
  assumes "\<not> mn_cut env"
    and "run_all_collectors ((mn_run env)\<lparr>env_registry := w_registry w\<rparr>) metrics cfg = Inr (imm, bat)"
    and "library_accounts (mn_send env)" and "counts_failures (mn_send env)"
    and "0 < b_send_max_size (cfg_batching cfg)"
    and "\<forall>r \<in> set (imm @ bat). printable r"
    and "\<And>e. mn_output_error env = Some e \<Longrightarrow> is_os_error e"
    and "mn_elapsed env = Fin d"
    and "fresh_summary (w_summary w)"
  shows "\<exists>c w'. run_async env cfg metrics args w = (Inr c, w')
    \<and> (c = 0 \<longleftrightarrow> (\<forall>r \<in> set (imm @ bat). r_status r \<notin> {RESULT_FAILED, RESULT_TIMEOUT})
         \<and> s_sent_batch (w_summary w') + s_sent_immediate (w_summary w')
             = int (length (filter is_sendable (imm @ bat))))
    \<and> (c = 0 \<or> c = 1) \<and> (s_success (w_summary w') \<longleftrightarrow> c = 0)"
proof -
  obtain c w' where run: "run_async env cfg metrics args w = (Inr c, w')"
    using run_async_returns[OF assms(1-3,5-8)] by blast
  obtain a i b where n: "a + i + b = int (length (filter is_sendable (imm @ bat)))" and b: "0 \<le> b"
    and s: "w_summary w' = finish env (sent a i b (update_summary (w_summary w) imm bat))"
    and code: "c = exit_code (w_summary w')"
    using run_async_summary[OF run assms(2-5)] by metis
  let ?f = "count_status RESULT_FAILED (imm @ bat)" and ?t = "count_status RESULT_TIMEOUT (imm @ bat)"
  have fields: "s_collected_failed (w_summary w') = ?f" "s_collected_timeout (w_summary w') = ?t"
    "s_sender_failures (w_summary w') = b" "s_sent_batch (w_summary w') = a"
    "s_sent_immediate (w_summary w') = i" "s_success (w_summary w') \<longleftrightarrow> ?f = 0 \<and> ?t = 0 \<and> b = 0"
    using assms(9) by (simp_all add: s finish_def all_good_def sent_def update_summary_fields
        fresh_summary_def del: count_status_append)
  have pos: "0 < count_status st rs \<longleftrightarrow> count_status st rs \<noteq> 0" for st rs
    using count_status_nonneg[of st rs] by linarith
  have "c = (if b > 0 then 1 else if ?f > 0 \<or> ?t > 0 then 1 else 0)"
    unfolding code exit_code_def fields(1-3) ..
  then have c: "(c = 0 \<longleftrightarrow> ?f = 0 \<and> ?t = 0 \<and> b = 0) \<and> (c = 0 \<or> c = 1)"
    using b unfolding pos by (auto simp del: count_status_append)
  have "?f = 0 \<and> ?t = 0 \<longleftrightarrow> (\<forall>r \<in> set (imm @ bat). r_status r \<notin> {RESULT_FAILED, RESULT_TIMEOUT})"
    unfolding count_status_0 by auto
  moreover have "b = 0 \<longleftrightarrow> a + i = int (length (filter is_sendable (imm @ bat)))" using n by linarith
  ultimately show ?thesis using run c fields(4-6) by (intro exI[of _ c] exI[of _ w']) metis
qed

text \<open>An example: one metric, whose collector works or fails.\<close>

definition load_metric :: metric_def where
  "load_metric = (example_metric ''load'' ''cpu'')\<lparr>m_error_policy := ''mark_failed''\<rparr>"

definition example_run :: "bool \<Rightarrow> run_env" where
  "example_run ok = \<lparr>env_collect = (\<lambda>c m. if ok then Inr (One (ok_result m ''cpu'' ''0.5'' [] 0 (Fin 0)))
       else Inl FileNotFoundError),
     env_now = 0, env_elapsed = (\<lambda>m. Fin 1), env_pending = (\<lambda>m. False), env_unwinding = (\<lambda>m. False),
     env_registry = empty_registry\<rparr>"

definition example_result :: "bool \<Rightarrow> metric_result" where
  "example_result ok = (let m = inject_params default_client_config load_metric in
     if ok then set_duration (Fin 1) (ok_result m ''cpu'' ''0.5'' [] 0 (Fin 0))
     else make_error m FileNotFoundError 0 (Fin 1))"

definition example_main :: "bool \<Rightarrow> main_env" where
  "example_main ok = \<lparr>mn_cfg = example_client_env, mn_dbl = example_db_env [], mn_logging = (\<lambda>c. None),
     mn_lock = \<lparr>lk_pid = 100, lk_kill = (\<lambda>p. Delivered), lk_create_error = False, lk_unlink_error = None\<rparr>,
     mn_io = io_ok, mn_send = second_accepts, mn_run = example_run ok, mn_cut = False, mn_expired = False,
     mn_conns = no_conns, mn_elapsed = Fin 5, mn_minutes = 720, mn_now = 1000, mn_today = ''2024-01-01'',
     mn_exc_text = (\<lambda>e. []), mn_output_error = None\<rparr>"

definition example_world :: world where
  "example_world = \<lparr>w_disk = (\<lambda>p. Absent), w_lock = NoLock, w_output = None, w_summary = new_summary,
     w_calls = [], w_conns = no_conns, w_registry = two_registry, w_started = []\<rparr>"

definition example_args :: run_args where
  "example_args = \<lparr>ra_config = ''client.yaml'', ra_metrics = ''metrics.yaml'', ra_databases = None,
     ra_dry_run = False, ra_log_level = None, ra_output = None, ra_format = ''json''\<rparr>"

lemma load_metric_fields [simp]:
  "m_collector load_metric = ''cpu''" "m_delivery load_metric = ''batch''" "m_error_policy load_metric = ''mark_failed''"
  "m_id load_metric = VStr ''load''" "m_key load_metric = VStr ''host.load''" "m_tags load_metric = []"
  "m_host_name load_metric = None"
  by (simp_all add: load_metric_def example_metric_def DELIVERY_BATCH_def)

lemma example_collects:
  "run_all_collectors ((mn_run (example_main ok))\<lparr>env_registry := w_registry example_world\<rparr>) [load_metric]
     default_client_config = Inr ([], [example_result ok])"
proof -
  let ?env = "(example_run ok)\<lparr>env_registry := two_registry\<rparr>"
  have "run_one ?env default_client_config load_metric = Inr [example_result ok]"
    by (simp add: run_one_def Let_def two_registry_get example_run_def example_result_def is_exception_def
        apply_error_policy_def policy_defs)
  then show ?thesis
    by (simp add: example_main_def example_world_def run_all_collectors_def run_batch_def gather_def Let_def
        batch_outcome_def task_failed_def)
      (simp add: example_run_def)
qed

lemma example_printable: "printable (example_result ok)"
  by (simp add: example_result_def Let_def inject_params_def printable_def make_error_def ok_result_def set_duration_def host_value_def is_str_iff)

lemma example_accounts: "counts_failures second_accepts"
  by (auto simp: counts_failures_def second_accepts_def split: if_splits)

lemma example_fields [simp]:
  "mn_cut (example_main ok) = False" "mn_send (example_main ok) = second_accepts"
  "mn_output_error (example_main ok) = None" "mn_elapsed (example_main ok) = Fin 5"
  "w_summary example_world = new_summary" "w_calls example_world = []"
  by (simp_all add: example_main_def example_world_def)

lemma example_status:
  "r_status (example_result True) = ''ok''" "r_status (example_result False) = ''failed''"
  "is_sendable (example_result True)"
  by (simp_all add: example_result_def set_duration_def ok_result_def make_error_def is_sendable_def result_defs Let_def)

lemma failing_example:
  "\<exists>w'. run_async (example_main False) default_client_config [load_metric] example_args example_world = (Inr 1, w')"
  using exit_code_spec[of "example_main False" example_world "[load_metric]" default_client_config
      "[]" "[example_result False]" 5 example_args]
    example_collects example_printable library_accounts_second example_accounts example_status
  by (auto simp: default_client_config_def fresh_summary_def new_summary_def result_defs)



subsection \<open>Self-monitoring\<close>

lemma run_async_success_kept:
  assumes "accounts_for env m n" and "m w = (Inr (), w')"
  shows "s_success (w_summary w') = s_success (w_summary w)" and "s_duration (w_summary w') = s_duration (w_summary w)"
proof -
  obtain a i b cs where "m w = (Inr (), w\<lparr>w_summary := sent a i b (w_summary w), w_calls := cs\<rparr>)"
    using assms(1) unfolding accounts_for_def by meson
  then show "s_success (w_summary w') = s_success (w_summary w)" "s_duration (w_summary w') = s_duration (w_summary w)"
    using assms(2) by (simp_all add: sent_def)
qed

lemma send_calls_items:
  assumes "\<not> rt_dry_run (cfg_runtime cfg)" and "z_server_hosts (cfg_zabbix cfg) \<noteq> []"
  shows "snd (send env cfg rs) \<noteq> []" and "\<forall>(h, p, items) \<in> set (snd (send env cfg rs)). items = items_of cfg rs"
proof -
  have "\<forall>(h, p, items) \<in> set (snd (try_hosts env port its rs hosts)). items = its" for port its hosts
    by (induction hosts) (auto split: sum.splits prod.splits)
  moreover have "hosts \<noteq> [] \<Longrightarrow> snd (try_hosts env port its rs hosts) \<noteq> []" for port its hosts
    by (cases hosts) (auto split: sum.splits prod.splits)
  ultimately show "snd (send env cfg rs) \<noteq> []" "\<forall>(h, p, items) \<in> set (snd (send env cfg rs)). items = items_of cfg rs"
    using assms by (simp_all add: send_def do_send_def Let_def case_prod_unfold)
qed

lemma self_monitor_calls:
  assumes "self_monitor env cfg w = (Inr (), w')" and "ft_self_monitoring (cfg_features cfg)"
    and "\<not> rt_dry_run (cfg_runtime cfg)" and "z_server_hosts (cfg_zabbix cfg) \<noteq> []"
  shows "\<exists>notice. w_calls w' = w_calls w @ notice \<and> notice \<noteq> []
    \<and> (\<forall>(h, p, items) \<in> set notice. iv_key (hd items) = VStr ''zabbig.client.run.success''
         \<and> iv_value (hd items) = Some (if s_success (w_summary w) then ''1'' else ''0''))"
proof -
  let ?s = "(w_summary w)\<lparr>s_duration := mn_elapsed env\<rparr>"
  obtain kvs where k: "self_items ?s = Inr kvs"
    using assms(1,2) by (cases "self_items ?s")
      (auto simp: self_monitor_def on_summary_def on_sender_def bindM_def send_self_metrics_def)
  then have hd: "kvs \<noteq> [] \<and> hd kvs = (''zabbig.client.run.success'', if s_success (w_summary w) then ''1'' else ''0'')"
    by (auto simp: self_items_def)
  obtain r cs where s: "send (mn_send env) cfg (map (self_result (mn_now env)) kvs) = (r, cs)" by fastforce
  have w': "w_calls w' = w_calls w @ cs"
    using assms(1,2) k s by (auto simp: self_monitor_def on_summary_def on_sender_def bindM_def send_self_metrics_def)
  let ?items = "items_of cfg (map (self_result (mn_now env)) kvs)"
  have hd: "iv_key (hd ?items) = VStr ''zabbig.client.run.success''
      \<and> iv_value (hd ?items) = Some (if s_success (w_summary w) then ''1'' else ''0'')"
    using hd by (cases kvs) (simp_all add: items_of_def self_result_def)
  have cs: "cs \<noteq> []" "\<forall>(h, p, items) \<in> set cs. items = ?items"
    using send_calls_items[OF assms(3,4), of "mn_send env" "map (self_result (mn_now env)) kvs"] s by simp_all
  have "iv_key (hd items) = VStr ''zabbig.client.run.success''
      \<and> iv_value (hd items) = Some (if s_success (w_summary w) then ''1'' else ''0'')"
    if "(h, p, items) \<in> set cs" for h p items
    using bspec[OF cs(2) that] hd by simp
  then show ?thesis using w' cs(1) by (intro exI[of _ cs] conjI ballI) (auto simp del: split_paired_All)
qed

text \<open>
  The self-monitoring metric \<open>zabbig.client.run.success\<close> is sent before the success of the run is
  computed, so a run whose summary starts as the program creates it always reports success 1, also
  when it ends with exit code 1.
\<close>

theorem self_metrics_always_claim_success:
  assumes "run_async env cfg metrics args w = (Inr c, w')" and "s_success (w_summary w)"
    and "library_accounts (mn_send env)" and "0 < b_send_max_size (cfg_batching cfg)"
    and "ft_self_monitoring (cfg_features cfg)" and "\<not> rt_dry_run (cfg_runtime cfg)"
    and "z_server_hosts (cfg_zabbix cfg) \<noteq> []"
  shows "\<exists>before notice. w_calls w' = before @ notice \<and> notice \<noteq> []
    \<and> (\<forall>(h, p, items) \<in> set notice. iv_key (hd items) = VStr ''zabbig.client.run.success''
         \<and> iv_value (hd items) = Some ''1'')"
proof -
  from assms(1) obtain imm bat w1 w2 w3 where s1: "w_summary w1 = update_summary (w_summary w) imm bat"
    and send: "send_results env cfg (filter goes_batch (imm @ bat)) (filter goes_immediate (imm @ bat)) w1 = (Inr (), w2)"
    and mon: "self_monitor env cfg w2 = (Inr (), w3)" and w': "w' = w3\<lparr>w_summary := finish env (w_summary w3)\<rparr>"
    by (rule run_async_steps)
  have "s_success (w_summary w2)"
    using run_async_success_kept(1)[OF send_results_accounts[OF assms(3,4)] send] s1 assms(2)
    by (simp add: update_summary_def foldl_count_result del: foldl_append)
  then show ?thesis using self_monitor_calls[OF mon assms(5-7)] w' by auto
qed

theorem self_metrics_always_claim_success_witness:
  "\<exists>w'. run_async (example_main False) default_client_config [load_metric] example_args example_world = (Inr 1, w')
    \<and> (\<exists>before notice. w_calls w' = before @ notice \<and> notice \<noteq> []
    \<and> (\<forall>(h, p, items) \<in> set notice. iv_key (hd items) = VStr ''zabbig.client.run.success''
         \<and> iv_value (hd items) = Some ''1''))"
proof -
  obtain w' where w': "run_async (example_main False) default_client_config [load_metric] example_args example_world = (Inr 1, w')"
    using failing_example by blast
  have cfg: "0 < b_send_max_size (cfg_batching default_client_config)"
    "ft_self_monitoring (cfg_features default_client_config)" "\<not> rt_dry_run (cfg_runtime default_client_config)"
    "z_server_hosts (cfg_zabbix default_client_config) \<noteq> []"
    by (simp_all add: default_client_config_def)
  have "s_success (w_summary example_world)" "library_accounts (mn_send (example_main False))"
    using library_accounts_second by (simp_all add: new_summary_def)
  from self_metrics_always_claim_success[OF w' this cfg] w' show ?thesis by blast
qed

subsection \<open>Claims about the lock\<close>

lemma run_keeps_lock: "w_lock (snd (run env args w)) \<in> {NoLock, w_lock w}"
proof (cases rule: run_cases[of env args w])
  case (fatal cfg)
  have "keeps w_lock (bindM (send_fatal_failure env cfg) (\<lambda>_. ret (2::int)))" by (intro keeps_intros)
  then show ?thesis using fatal by (simp add: keeps_def)
next
  case (executed cfg ms s)
  then show ?thesis using execute_frees[of env cfg args ms "w\<lparr>w_summary := s\<rparr>"] by simp
qed simp


text \<open>
  C31: while another live process holds the lock, a run starts nothing: behind the lock it returns
  exit code 2 at once, and all it can change in the world is its summary and, when its own
  configuration is broken, the calls that report the fatal failure; the files, the lock of the other
  process, the connections and the registered collectors stay as they are.
\<close>

theorem live_lock_stops_run:
  assumes "w_lock w = LockText (str_int pid)" and "lk_kill (mn_lock env) pid = Delivered"
  shows "execute env cfg args metrics w = (Inr 2, w)
    \<and> (\<exists>r s calls. run env args w = (r, w\<lparr>w_summary := s, w_calls := w_calls w @ calls\<rparr>))"
proof
  obtain msg where "acquire 2 (mn_lock env) (w_lock w) = Some (lock_error msg, w_lock w)"
    using live_lock_refuses[OF assms(2)] assms(1) by auto
  then have conflict: "execute env cfg args ms (w\<lparr>w_summary := s\<rparr>) = (Inr 2, w\<lparr>w_summary := s\<rparr>)" for cfg ms s
    by (intro execute_conflict) simp
  from conflict[of cfg metrics "w_summary w"] show "execute env cfg args metrics w = (Inr 2, w)" by simp
  show "\<exists>r s calls. run env args w = (r, w\<lparr>w_summary := s, w_calls := w_calls w @ calls\<rparr>)"
  proof (cases rule: run_cases[of env args w])
    case (stopped r)
    then have "run env args w = (r, w\<lparr>w_summary := w_summary w, w_calls := w_calls w @ []\<rparr>)" by simp
    then show ?thesis by blast
  next
    case (fatal cfg)
    obtain r w' where f: "send_fatal_failure env cfg w = (r, w')" by fastforce
    then obtain calls where w': "w' = w\<lparr>w_summary := w_summary w, w_calls := w_calls w @ calls\<rparr>"
      using fatal_failure_calls[of env cfg w] by auto
    obtain r' where "run env args w = (r', w')" using fatal f by (cases r) simp_all
    then show ?thesis unfolding w' by blast
  next
    case (executed cfg ms s)
    then have "run env args w = (Inr 2, w\<lparr>w_summary := s, w_calls := w_calls w @ []\<rparr>)"
      using conflict[of cfg ms s] by simp
    then show ?thesis by blast
  qed
qed

theorem live_lock_stops_run_witness:
  "execute (example_main True) default_client_config example_args [load_metric]
      (example_world\<lparr>w_lock := LockText (str_int 7)\<rparr>) = (Inr 2, example_world\<lparr>w_lock := LockText (str_int 7)\<rparr>)"
  using live_lock_stops_run[of "example_world\<lparr>w_lock := LockText (str_int 7)\<rparr>" 7 "example_main True"
      default_client_config example_args "[load_metric]"]
  by (simp add: example_main_def)

subsection \<open>Validation\<close>

lemma validate_outcome:
  assumes "validate env path = Inr c"
  shows "c = 2 \<and> validate_metrics_file env path = Inl FileNotFoundError
    \<or> (\<exists>issues ms. validate_metrics_file env path = Inr (issues, ms) \<and> c = (if issues = [] then 0 else 1))"
proof (cases "validate_metrics_file env path")
  case (Inl e)
  then show ?thesis using assms by (cases "e = FileNotFoundError") (simp_all add: validate_def)
next
  case (Inr r)
  obtain issues ms where r: "r = (issues, ms)" by fastforce
  have "c = (if issues = [] then 0 else 1)"
    using assms by (cases "list_all (\<lambda>m. is_str (m_id m)) ms") (simp_all add: validate_def Inr r)
  then show ?thesis using Inr r by blast
qed

text \<open>
  What \<open>--validate\<close> says: exit code 0 means that a normal run with strict checking loads the file
  without a complaint, a file that is not there gives 2, and a file with a YAML syntax error gives 1,
  like a file with issues.
\<close>

theorem validate_exit_codes:
  assumes "program env True args w = (Inr c, w')"
  shows "w' = w \<and> c \<in> {0, 1, 2}
    \<and> (c = 0 \<longrightarrow> (\<exists>mc. load_metrics_config (mn_cfg env) (ra_metrics args) True [] = (Inr mc, [])))
    \<and> (ce_read (mn_cfg env) (ra_metrics args) = None \<longrightarrow> c = 2)
    \<and> (ce_read (mn_cfg env) (ra_metrics args) = Some (Inl (YAMLError i)) \<longrightarrow> c = 1)"
proof -
  have v: "validate (mn_cfg env) (ra_metrics args) = Inr c" and w: "w' = w"
    using assms by (simp_all add: program_def)
  note out = validate_outcome[OF v]
  have "c = 2" if "ce_read (mn_cfg env) (ra_metrics args) = None"
  proof -
    have "validate_metrics_file (mn_cfg env) (ra_metrics args) = Inl FileNotFoundError"
      using that by (simp add: validate_metrics_file_def read_yaml_def)
    then show ?thesis using out by simp
  qed
  moreover have "c = 1" if "ce_read (mn_cfg env) (ra_metrics args) = Some (Inl (YAMLError i))"
  proof -
    have "\<exists>is. validate_metrics_file (mn_cfg env) (ra_metrics args) = Inr (is, []) \<and> is \<noteq> []"
      using that by (simp add: validate_metrics_file_def read_yaml_def)
    then show ?thesis using out by auto
  qed
  moreover have "\<exists>mc. load_metrics_config (mn_cfg env) (ra_metrics args) True [] = (Inr mc, [])" if "c = 0"
    using out that validator_accepts[of "mn_cfg env" "ra_metrics args"] by (auto split: if_splits)
  moreover have "c \<in> {0, 1, 2}" using out by (auto split: if_splits)
  ultimately show ?thesis using w by blast
qed

theorem validate_exit_codes_witness:
  "fst (program (example_main True\<lparr>mn_cfg := example_client_env\<lparr>ce_read := \<lambda>p. Some (Inl (YAMLError (Issue [] [])))\<rparr>\<rparr>)
     True example_args example_world) = Inr 1"
proof -
  let ?env = "example_main True\<lparr>mn_cfg := example_client_env\<lparr>ce_read := \<lambda>p. Some (Inl (YAMLError (Issue [] [])))\<rparr>\<rparr>"
  have "validate (mn_cfg ?env) (ra_metrics example_args) = Inr 1"
    by (simp add: validate_def validate_metrics_file_def read_yaml_def)
  then obtain c where c: "program ?env True example_args example_world = (Inr c, example_world)"
    by (simp add: program_def)
  from validate_exit_codes[OF c, of "Issue [] []"] have "c = 1" by simp
  then show ?thesis using c by simp
qed

end
