(* ===== verification/DayQuota.thy ===== *)
theory DayQuota
  imports MainProps
begin

section \<open>Execution quotas over the runs of a day\<close>

text \<open>
  \<open>max_executions_per_day\<close> crosses three components: the scheduler decides with the count it is
  given, the run takes the counts from the schedule file and adds the metrics it has started, and the
  state store writes them back as JSON. The lemmas follow one run through the three, with the
  schedule document in the form the program itself writes; the property is about any number of runs
  of one day.
\<close>

subsection \<open>The document of the day\<close>

definition counts_doc :: "(string \<times> nat) list \<Rightarrow> pyval" where
  "counts_doc cs = VDict (map (\<lambda>(k, c). (VStr k, VDict [(VStr ''execution_count'', VInt (int c))])) cs)"

definition day_doc :: "string \<Rightarrow> int \<Rightarrow> (string \<times> nat) list \<Rightarrow> pyval" where
  "day_doc today n cs = VDict [(VStr ''date'', VStr today), (VStr ''run_counter'', VInt n),
     (VStr ''metrics'', counts_doc cs)]"

definition count_of :: "(string \<times> nat) list \<Rightarrow> string \<Rightarrow> nat" where
  "count_of cs k = (case map_of cs k of None \<Rightarrow> 0 | Some c \<Rightarrow> c)"

lemma new_day_doc: "new_day today = day_doc today 0 []"
  by (simp add: new_day_def day_doc_def counts_doc_def)

lemma find_counts:
  "List.find (\<lambda>p. py_eq (fst p) (VStr k))
     (map (\<lambda>(k, c). (VStr k, VDict [(VStr ''execution_count'', VInt (int c))])) cs)
   = map_option (\<lambda>c. (VStr k, VDict [(VStr ''execution_count'', VInt (int c))])) (map_of cs k)"
  by (induction cs) auto

lemma execution_count_doc:
  "m_id m = VStr k \<Longrightarrow> execution_count (counts_doc cs) m = Inr (int (count_of cs k))"
  by (simp add: execution_count_def key_get_def counts_doc_def find_counts count_of_def split: option.split)

lemma key_set_counts:
  "key_set (map (\<lambda>(k, c). (VStr k, VDict [(VStr ''execution_count'', VInt (int c))])) cs) (VStr k)
       (VDict [(VStr ''execution_count'', VInt (int c))])
   = map (\<lambda>(k, c). (VStr k, VDict [(VStr ''execution_count'', VInt (int c))])) (adict_set cs k c)"
  by (induction cs) auto

lemma count_execution_doc:
  assumes "m_id m = VStr k"
  shows "count_execution m (counts_doc cs) = Inr (counts_doc (adict_set cs k (count_of cs k + 1)))"
  using assms key_set_counts[of cs k "count_of cs k + 1"]
  by (auto simp: count_execution_def key_get_def counts_doc_def find_counts count_of_def add.commute split: option.split)

lemma count_of_set: "count_of (adict_set cs k c) j = (if j = k then c else count_of cs j)"
  by (simp add: count_of_def map_of_adict_set)

text \<open>Counting the metrics of a run adds to each id how often it was scheduled.\<close>

lemma count_executions_doc:
  assumes "\<forall>m \<in> set ms. is_str (m_id m)" and "distinct (map fst cs)"
  shows "\<exists>cs'. count_executions ms (counts_doc cs) = Inr (counts_doc cs') \<and> distinct (map fst cs')
    \<and> (\<forall>k. count_of cs' k = count_of cs k + count_list (map m_id ms) (VStr k))"
  using assms
proof (induction ms arbitrary: cs)
  case (Cons m ms)
  then obtain k where k: "m_id m = VStr k" by (auto simp: is_str_iff)
  let ?cs = "adict_set cs k (count_of cs k + 1)"
  have "distinct (map fst ?cs)" using Cons.prems(2) by (rule distinct_adict_set)
  then obtain cs' where cs': "count_executions ms (counts_doc ?cs) = Inr (counts_doc cs')"
    "distinct (map fst cs')" "\<forall>j. count_of cs' j = count_of ?cs j + count_list (map m_id ms) (VStr j)"
    using Cons.IH[of ?cs] Cons.prems(1) by auto
  then show ?case by (intro exI[of _ cs']) (auto simp: count_execution_doc[OF k] k count_of_set)
qed (auto intro: exI)

text \<open>The document is written and read back as it is.\<close>

lemma json_norm_text_keys:
  assumes "\<And>k v. (k, v) \<in> set d \<Longrightarrow> is_str k \<and> json_norm v = Some v" and "distinct (map fst d)"
  shows "json_norm (VDict d) = Some (VDict d)"
proof -
  have "those (map (\<lambda>p. case json_key (fst p) of None \<Rightarrow> None
        | Some k \<Rightarrow> map_option (\<lambda>v. (VStr k, v)) (json_norm (snd p))) d) = Some d"
    using assms(1)
  proof (induction d)
    case (Cons p d)
    obtain k v where p: "p = (VStr k, v)" "json_norm v = Some v"
      using Cons.prems[of "fst p" "snd p"] by (cases p) (auto simp: is_str_iff)
    have "is_str k \<and> json_norm v = Some v" if "(k, v) \<in> set d" for k v
      using Cons.prems[of k v] that by simp
    from Cons.IH[OF this] p show ?case by simp
  qed simp
  then show ?thesis using adict_merge_distinct[of "[]" d] assms(2) by simp
qed

lemma storable_counts:
  assumes "distinct (map fst cs)"
  shows "json_norm (counts_doc cs) = Some (counts_doc cs)"
proof -
  let ?d = "map (\<lambda>(k, c). (VStr k, VDict [(VStr ''execution_count'', VInt (int c))])) cs"
  have "map fst ?d = map VStr (map fst cs)" by auto
  then have "distinct (map fst ?d)" using assms by (simp add: distinct_map inj_on_def)
  then show ?thesis unfolding counts_doc_def
    by (intro json_norm_text_keys) (auto simp: adict_merge_def is_str_def)
qed

lemma storable_day_doc: "distinct (map fst cs) \<Longrightarrow> storable (day_doc today n cs)"
  unfolding storable_def day_doc_def
  by (rule json_norm_text_keys) (auto simp: storable_counts is_str_def)

subsection \<open>One run\<close>

text \<open>The state of the schedule file: of another day, or the document of this day.\<close>

definition other_day :: "string \<Rightarrow> pyval \<Rightarrow> bool" where
  "other_day today v \<longleftrightarrow> (\<exists>d. vget v ''date'' VNone = Inr d \<and> d \<noteq> VStr today)"

lemma next_run_doc:
  "mn_today env = today \<Longrightarrow> next_run env (day_doc today n cs) = Inr (n + 1, day_doc today (n + 1) cs)"
  by (simp add: next_run_def day_doc_def Let_def)

lemma next_run_other:
  assumes "mn_today env = today" and "other_day today v"
  shows "next_run env v = Inr (1, day_doc today 1 [])"
  using assms next_run_doc[OF assms(1), of 0 "[]"]
  by (auto simp: other_day_def next_run_def new_day_doc Let_def) (simp add: day_doc_def)

lemma counts_of_doc: "vget (day_doc today n cs) ''metrics'' (VDict []) = Inr (counts_doc cs)"
  by (simp add: day_doc_def)

lemma set_counts: "item_set (day_doc today n cs) (VStr ''metrics'') (counts_doc cs') = Inr (day_doc today n cs')"
  by (simp add: day_doc_def)

text \<open>What scheduling selects, and that it only counts the metrics it skips.\<close>

lemma should_execute_quota:
  "should_execute m rc n False now = Inr (True, r) \<Longrightarrow> below_quota m n"
  unfolding quota_guard_spec[symmetric] by (auto simp: should_execute_def split: option.splits)

lemma schedule_metrics_selects:
  assumes "schedule_metrics env cfg rc (counts_doc cs) ms w = (Inr sch, w')"
    and "\<forall>m \<in> set ms. is_str (m_id m)" and "\<not> rt_dry_run (cfg_runtime cfg)"
  shows "set sch \<subseteq> set ms \<and> (distinct (map m_id ms) \<longrightarrow> distinct (map m_id sch))
    \<and> (\<forall>m \<in> set sch. \<forall>k. m_id m = VStr k \<longrightarrow> below_quota m (int (count_of cs k)))
    \<and> (\<exists>s. w' = w\<lparr>w_summary := s\<rparr>)"
  using assms(1,2)
proof (induction ms arbitrary: sch w)
  case Nil
  then have "\<exists>s. w' = w\<lparr>w_summary := s\<rparr>" by (intro exI[of _ "w_summary w"]) simp
  then show ?case using Nil by simp
next
  case (Cons m ms)
  obtain k where k: "m_id m = VStr k" using Cons.prems(2) by (auto simp: is_str_iff)
  have strs: "\<forall>m \<in> set ms. is_str (m_id m)" using Cons.prems(2) by simp
  obtain can r where d: "should_execute m rc (int (count_of cs k)) False (mn_minutes env) = Inr (can, r)"
    using Cons.prems(1) assms(3)
    by (cases "should_execute m rc (int (count_of cs k)) False (mn_minutes env)")
      (auto simp: execution_count_doc[OF k])
  show ?case
  proof (cases can)
    case True
    then obtain rest where rest: "schedule_metrics env cfg rc (counts_doc cs) ms w = (Inr rest, w')" "sch = m # rest"
      using Cons.prems(1) assms(3) d by (auto simp: execution_count_doc[OF k] elim!: bindM_InrE)
    show ?thesis using Cons.IH[OF rest(1) strs] should_execute_quota[of m rc _ "mn_minutes env" r] d True k rest(2)
      by auto
  next
    case False
    let ?w = "w\<lparr>w_summary := (w_summary w)\<lparr>s_schedule_skipped := s_schedule_skipped (w_summary w) + 1\<rparr>\<rparr>"
    have "schedule_metrics env cfg rc (counts_doc cs) ms ?w = (Inr sch, w')"
      using Cons.prems(1) assms(3) d False by (simp add: execution_count_doc[OF k] on_summary_def bindM_def)
    then show ?thesis using Cons.IH[OF _ strs, of ?w sch] by auto
  qed
qed

text \<open>A run with a timeout hands every scheduled metric to its collector, and leaves the disk alone.\<close>

lemma keeps_steps [keeps_intros]:
  "keeps w_disk (send_results env cfg b i)" "keeps w_started (send_results env cfg b i)"
  "keeps w_disk (output_results env args rs)" "keeps w_started (output_results env args rs)"
  "keeps w_disk (self_monitor env cfg)" "keeps w_started (self_monitor env cfg)"
  unfolding send_results_def output_results_def self_monitor_def Let_def by (intro keeps_intros)+

lemma run_async_frame:
  "w_started (snd (run_async env cfg ms args w)) = w_started w @ map m_id ms"
  "w_disk (snd (run_async env cfg ms args w)) = w_disk w"
proof -
  have "w_disk (snd (run_async env cfg ms args w)) = w_disk (snd (collect env cfg ms w))"
    unfolding run_async_def by (rule after_bind) (intro keeps_intros)
  moreover have "w_started (snd (run_async env cfg ms args w)) = w_started (snd (collect env cfg ms w))"
    unfolding run_async_def by (rule after_bind) (intro keeps_intros)
  ultimately show "w_started (snd (run_async env cfg ms args w)) = w_started w @ map m_id ms"
    "w_disk (snd (run_async env cfg ms args w)) = w_disk w"
    by (simp_all add: collect_def bindM_def)
qed

lemma run_with_timeout_frame:
  "w_started (snd (run_with_timeout env cfg ms args w)) = w_started w @ map m_id ms"
  "w_disk (snd (run_with_timeout env cfg ms args w)) = w_disk w"
proof -
  have h: "keeps w_disk (bindM (on_summary g) (\<lambda>_. ret (2::int)))" "keeps w_started (bindM (on_summary g) (\<lambda>_. ret (2::int)))"
    for g by (intro keeps_intros)+
  have "w_disk (snd (run_with_timeout env cfg ms args w)) = w_disk (snd (run_async env cfg ms args w))"
    unfolding run_with_timeout_def by (rule after_catch) (use h in \<open>auto simp del: st_simps split: if_splits\<close>)
  moreover have "w_started (snd (run_with_timeout env cfg ms args w)) = w_started (snd (run_async env cfg ms args w))"
    unfolding run_with_timeout_def by (rule after_catch) (use h in \<open>auto simp del: st_simps split: if_splits\<close>)
  ultimately show "w_started (snd (run_with_timeout env cfg ms args w)) = w_started w @ map m_id ms"
    "w_disk (snd (run_with_timeout env cfg ms args w)) = w_disk w"
    by (simp_all add: run_async_frame)
qed

lemma save_schedule_day:
  assumes "distinct (map fst cs)" and "save_schedule_state io_ok cfg (day_doc today n cs) d = (r, d')"
  shows "load_schedule_state cfg d' = Inr (day_doc today n cs)"
proof -
  let ?v = "day_doc today n cs"
  have "json_norm ?v = Some ?v" using storable_day_doc[OF assms(1)] by (simp add: storable_def)
  then have "d' = save_doc (schedule_path cfg) (Inr ?v) d"
    using assms(2) by (simp add: save_schedule_state_def os_makedirs_def io_ok_def[symmetric] ignore_os_error_def
        catchM_def bindM_def write_replace_ok save_doc_def) (simp add: io_ok_def)
  then show ?thesis
    using doc.load_save[of "Inr ?v"] storable_day_doc[OF assms(1)]
    by (simp add: load_schedule_state_def savable_def)
qed

lemma ignore_os_error_state: "snd (ignore_os_error m d) = snd (m d)"
  by (auto simp: ignore_os_error_def catchM_def split: prod.split sum.split)

lemma save_state_keeps_schedule:
  "load_schedule_state cfg (snd (save_state io cfg s now d)) = load_schedule_state cfg d"
proof -
  have w: "load_schedule_state cfg (snd (ignore_os_error (write_replace io (state_path cfg) v) d))
      = load_schedule_state cfg d" for v
    using write_replace_atomic(2)[OF _ state_schedule_separate, of io cfg v d]
    by (simp add: ignore_os_error_state load_schedule_state_def load_raw_def) (metis prod.collapse)
  show ?thesis using w by (auto simp: save_state_def os_makedirs_def bindM_def split: option.split sum.split)
qed

text \<open>
  One run under the lock: the schedule file holds the document of the day again, with the metrics
  that were started counted, and each of them was below its quota.
\<close>

definition day_counts :: "client_config \<Rightarrow> string \<Rightarrow> world \<Rightarrow> (string \<times> nat) list \<Rightarrow> bool" where
  "day_counts cfg today w cs \<longleftrightarrow> distinct (map fst cs) \<and> (\<exists>v. load_schedule_state cfg (w_disk w) = Inr v
     \<and> ((\<exists>n. v = day_doc today n cs) \<or> other_day today v \<and> cs = []))"

definition counted :: "metric_def list \<Rightarrow> (string \<times> nat) list \<Rightarrow> (string \<times> nat) list \<Rightarrow> metric_def list \<Rightarrow> bool" where
  "counted ms cs cs' sch \<longleftrightarrow> set sch \<subseteq> set ms \<and> (distinct (map m_id ms) \<longrightarrow> distinct (map m_id sch))
     \<and> (\<forall>k. count_of cs' k = count_of cs k + count_list (map m_id sch) (VStr k))
     \<and> (\<forall>m \<in> set sch. \<forall>k. m_id m = VStr k \<longrightarrow> below_quota m (int (count_of cs k)))"

lemma saved_day:
  assumes "on_disk (save_schedule_state io_ok cfg (day_doc today n cs)) u = (r, u')" and "distinct (map fst cs)"
  shows "day_counts cfg today u' cs" and "w_started u' = w_started u"
  using assms save_schedule_day[of cs cfg today n "w_disk u"]
  by (auto simp: on_disk_def day_counts_def split: prod.splits)

lemma idle_run_day:
  assumes "idle_run env cfg (day_doc today n cs) w = (Inr x, w')" and "distinct (map fst cs)"
    and "mn_io env = io_ok" and "\<not> rt_dry_run (cfg_runtime cfg)"
  shows "day_counts cfg today w' cs \<and> w_started w' = w_started w"
proof -
  obtain u where u: "on_disk (save_schedule_state io_ok cfg (day_doc today n cs)) w = (Inr (), u)"
    and w': "on_disk (save_state io_ok cfg (w_summary u) (mn_now env)) u = (Inr x, w')"
    using assms(1,3,4) by (auto simp: idle_run_def elim: bindM_InrE)
  have "w_started w' = w_started u" "load_schedule_state cfg (w_disk w') = load_schedule_state cfg (w_disk u)"
    using w' save_state_keeps_schedule[of cfg io_ok "w_summary u" "mn_now env" "w_disk u"]
    by (auto simp: on_disk_def split: prod.splits)
  then show ?thesis using saved_day[OF u assms(2)] by (simp add: day_counts_def)
qed

lemma busy_run_day:
  assumes "busy_run env cfg args (day_doc today n cs) (counts_doc cs) sch w = (Inr x, w')"
    and "distinct (map fst cs)" and "mn_io env = io_ok" and "\<not> rt_dry_run (cfg_runtime cfg)"
    and "\<forall>m \<in> set sch. is_str (m_id m)"
  shows "\<exists>cs'. day_counts cfg today w' cs' \<and> w_started w' = w_started w @ map m_id sch
    \<and> (\<forall>k. count_of cs' k = count_of cs k + count_list (map m_id sch) (VStr k))"
proof -
  let ?w = "w\<lparr>w_registry := load_collectors_for (remdups (map m_collector sch)) (w_registry w)\<rparr>"
  obtain u where u: "run_with_timeout env cfg sch args ?w = (Inr x, u)"
    and save: "save_counts env cfg (day_doc today n cs) (counts_doc cs) sch u = (Inr (), w')"
    using assms(1) by (auto simp: busy_run_def simp del: load_collectors_for.simps elim!: bindM_InrE)
  obtain cs' where cs': "count_executions sch (counts_doc cs) = Inr (counts_doc cs')" "distinct (map fst cs')"
    "\<forall>k. count_of cs' k = count_of cs k + count_list (map m_id sch) (VStr k)"
    using count_executions_doc[OF assms(5,2)] by blast
  have "on_disk (save_schedule_state io_ok cfg (day_doc today n cs')) u = (Inr (), w')"
    using save cs'(1) assms(3,4) set_counts by (simp add: save_counts_def)
  from saved_day[OF this cs'(2)] show ?thesis
    using run_with_timeout_frame(1)[of env cfg sch args ?w] u cs'(3) by (intro exI[of _ cs']) simp
qed

lemma run_locked_day:
  assumes run: "run_locked env cfg ms args w = (Inr x, w')"
    and env: "mn_today env = today" "mn_io env = io_ok" "\<not> rt_dry_run (cfg_runtime cfg)"
    and ids: "\<forall>m \<in> set ms. is_str (m_id m)" and day: "day_counts cfg today w cs"
  shows "\<exists>cs' sch. day_counts cfg today w' cs' \<and> counted ms cs cs' sch
    \<and> w_started w' = w_started w @ map m_id sch"
proof -
  from day obtain v where v: "load_schedule_state cfg (w_disk w) = Inr v"
    "(\<exists>n. v = day_doc today n cs) \<or> other_day today v \<and> cs = []" and d: "distinct (map fst cs)"
    by (auto simp: day_counts_def)
  then obtain rc where rc: "next_run env v = Inr (rc, day_doc today rc cs)"
    using next_run_doc[OF env(1)] next_run_other[OF env(1)] by metis
  obtain sch u where sch: "schedule_metrics env cfg rc (counts_doc cs) ms w = (Inr sch, u)"
    and rest: "(if sch = [] then bindM (idle_run env cfg (day_doc today rc cs)) (\<lambda>_. ret (0, True))
      else bindM (busy_run env cfg args (day_doc today rc cs) (counts_doc cs) sch) (\<lambda>c. ret (c, False))) u = (Inr x, w')"
    using run v(1) rc by (auto simp: run_locked_def counts_of_doc elim!: bindM_InrE[of "schedule_metrics _ _ _ _ _"])
  note sel = schedule_metrics_selects[OF sch ids env(3)]
  have started: "w_started u = w_started w" using sel by auto
  show ?thesis
  proof (cases "sch = []")
    case True
    then obtain y where "idle_run env cfg (day_doc today rc cs) u = (Inr y, w')"
      using rest by (auto elim: bindM_InrE)
    from idle_run_day[OF this d env(2,3)] show ?thesis using started True
      by (intro exI[of _ cs] exI[of _ "[]"]) (simp add: counted_def)
  next
    case False
    then obtain c where "busy_run env cfg args (day_doc today rc cs) (counts_doc cs) sch u = (Inr c, w')"
      using rest by (auto elim: bindM_InrE)
    moreover have "\<forall>m \<in> set sch. is_str (m_id m)" using sel ids by blast
    ultimately obtain cs' where "day_counts cfg today w' cs'" "w_started w' = w_started u @ map m_id sch"
      "\<forall>k. count_of cs' k = count_of cs k + count_list (map m_id sch) (VStr k)"
      using busy_run_day[OF _ d env(2,3)] by blast
    then show ?thesis using sel started by (intro exI[of _ cs'] exI[of _ sch]) (auto simp: counted_def)
  qed
qed

subsection \<open>The runs of a day\<close>

text \<open>
  What happens to the world on one day: runs that complete the locked section, runs another process
  keeps out, each in a new process, so that only the disk (and what has been started) is carried over.
\<close>

inductive day_runs :: "client_config \<Rightarrow> metric_def list \<Rightarrow> string \<Rightarrow> world \<Rightarrow> world \<Rightarrow> bool"
  for cfg ms today w
where
  none: "day_runs cfg ms today w w"
| completed: "day_runs cfg ms today w u \<Longrightarrow> w_disk v = w_disk u \<Longrightarrow> w_started v = w_started u
    \<Longrightarrow> mn_today env = today \<Longrightarrow> mn_io env = io_ok
    \<Longrightarrow> fst (with_run_lock (mn_lock env) (run_locked env cfg ms args) v) = Inr x
    \<Longrightarrow> day_runs cfg ms today w (snd (execute env cfg args ms v))"
| refused: "day_runs cfg ms today w u \<Longrightarrow> w_disk v = w_disk u \<Longrightarrow> w_started v = w_started u
    \<Longrightarrow> acquire 2 (mn_lock env) (w_lock v) = Some (lock_error msg, f)
    \<Longrightarrow> day_runs cfg ms today w (snd (execute env cfg args ms v))"

lemma with_run_lock_Inr:
  assumes "with_run_lock env body w = (Inr x, w')"
  obtains f t where "body (w\<lparr>w_lock := f\<rparr>) = (Inr x, t)" "w_disk w' = w_disk t" "w_started w' = w_started t"
  using assms by (auto simp: with_run_lock_def split: option.splits prod.splits sum.splits)

lemma after_lock_day:
  "load_schedule_state cfg (w_disk (snd (after_lock env cfg x w))) = load_schedule_state cfg (w_disk w)"
proof (cases x)
  case (Pair c saved)
  obtain r d where s: "save_state (mn_io env) cfg (w_summary w) (mn_now env) (w_disk w) = (r, d)" by fastforce
  have "load_schedule_state cfg d = load_schedule_state cfg (w_disk w)"
    using save_state_keeps_schedule[of cfg "mn_io env" "w_summary w" "mn_now env" "w_disk w"] s by simp
  then show ?thesis using s Pair by (cases r) (simp_all add: after_lock_def on_disk_def bindM_def)
qed

lemma execute_completed:
  assumes "with_run_lock (mn_lock env) (run_locked env cfg ms args) w = (Inr x, w')"
  shows "snd (execute env cfg args ms w) = snd (after_lock env cfg x w')"
proof -
  have "snd (execute env cfg args ms w) = snd (bindM (with_run_lock (mn_lock env) (run_locked env cfg ms args))
      (after_lock env cfg) w)"
    unfolding execute_def by (rule after_catch[where f = "\<lambda>w. w"]) (erule keeps_conflict)
  then show ?thesis using assms by simp
qed

lemma execute_day:
  assumes "fst (with_run_lock (mn_lock env) (run_locked env cfg ms args) w) = Inr x"
    and "mn_today env = today" "mn_io env = io_ok" "\<not> rt_dry_run (cfg_runtime cfg)"
    and "\<forall>m \<in> set ms. is_str (m_id m)" and "day_counts cfg today w cs"
  shows "\<exists>cs' sch. day_counts cfg today (snd (execute env cfg args ms w)) cs' \<and> counted ms cs cs' sch
    \<and> w_started (snd (execute env cfg args ms w)) = w_started w @ map m_id sch"
proof -
  obtain w' where l: "with_run_lock (mn_lock env) (run_locked env cfg ms args) w = (Inr x, w')"
    using assms(1) by (metis prod.collapse)
  then obtain f t where t: "run_locked env cfg ms args (w\<lparr>w_lock := f\<rparr>) = (Inr x, t)"
    "w_disk w' = w_disk t" "w_started w' = w_started t" by (rule with_run_lock_Inr)
  have "day_counts cfg today (w\<lparr>w_lock := f\<rparr>) cs" using assms(6) by (simp add: day_counts_def)
  from run_locked_day[OF t(1) assms(2-5) this] obtain cs' sch where
    r: "day_counts cfg today t cs'" "counted ms cs cs' sch" "w_started t = w_started w @ map m_id sch" by auto
  have "w_started (snd (execute env cfg args ms w)) = w_started w'"
    using execute_completed[OF l] keeps_after_lock(2)[of env cfg x] by (simp add: keeps_def)
  moreover have "day_counts cfg today (snd (execute env cfg args ms w)) cs'"
    using r(1) t(2) execute_completed[OF l] after_lock_day[of cfg env x w'] by (simp add: day_counts_def)
  ultimately show ?thesis using r t(3) by auto
qed

text \<open>What holds between the runs.\<close>

definition within_quota :: "metric_def list \<Rightarrow> world \<Rightarrow> bool" where
  "within_quota ms w \<longleftrightarrow> (\<forall>m \<in> set ms. \<forall>q. m_max_executions m = Some q \<longrightarrow> 0 < q
     \<longrightarrow> int (count_list (w_started w) (m_id m)) \<le> q)"

lemma count_list_le_1: "distinct xs \<Longrightarrow> count_list xs x \<le> 1"
  by (induction xs) (auto simp: count_list_0_iff)

lemma counted_within_quota:
  assumes "counted ms cs cs' sch" and "distinct (map m_id ms)" and "\<forall>m \<in> set ms. is_str (m_id m)"
    and "\<forall>k. count_of cs k = count_list (w_started w) (VStr k)" and "within_quota ms w"
    and "w_started w' = w_started w @ map m_id sch"
  shows "within_quota ms w'"
  unfolding within_quota_def
proof (intro ballI allI impI)
  fix m q assume m: "m \<in> set ms" and q: "m_max_executions m = Some q" "0 < q"
  obtain k where k: "m_id m = VStr k" using assms(3) m by (auto simp: is_str_iff)
  show "int (count_list (w_started w') (m_id m)) \<le> q"
  proof (cases "m_id m \<in> m_id ` set sch")
    case True
    then have "m \<in> set sch" using assms(1,2) m
      by (auto simp: counted_def distinct_map inj_on_def)
    then have "below_quota m (int (count_list (w_started w) (m_id m)))"
      using assms(1,4) k by (auto simp: counted_def)
    moreover have "count_list (map m_id sch) (m_id m) \<le> 1"
      using assms(1,2) by (intro count_list_le_1) (simp add: counted_def)
    ultimately show ?thesis using q by (simp add: below_quota_def assms(6))
  next
    case False
    then have "count_list (map m_id sch) (m_id m) = 0" by (simp add: count_list_0_iff)
    then show ?thesis using assms(5) m q by (simp add: within_quota_def assms(6))
  qed
qed

lemma day_runs_invariant:
  assumes "day_runs cfg ms today w w'" and "\<not> rt_dry_run (cfg_runtime cfg)"
    and "\<forall>m \<in> set ms. is_str (m_id m)" and "distinct (map m_id ms)"
    and "load_schedule_state cfg (w_disk w) = Inr v" "other_day today v" "w_started w = []"
  shows "\<exists>cs. day_counts cfg today w' cs \<and> (\<forall>k. count_of cs k = count_list (w_started w') (VStr k))
    \<and> within_quota ms w'"
  using assms(1)
proof induction
  case none
  then show ?case using assms(5-7)
    by (intro exI[of _ "[]"]) (auto simp: day_counts_def count_of_def within_quota_def)
next
  case (completed u v env args x)
  then obtain cs where cs: "day_counts cfg today u cs" "\<forall>k. count_of cs k = count_list (w_started u) (VStr k)"
    "within_quota ms u" by blast
  have v: "day_counts cfg today v cs" using cs(1) completed.hyps by (simp add: day_counts_def)
  obtain cs' sch where r: "day_counts cfg today (snd (execute env cfg args ms v)) cs'" "counted ms cs cs' sch"
    "w_started (snd (execute env cfg args ms v)) = w_started u @ map m_id sch"
    using execute_day[OF completed.hyps(6,4,5) assms(2,3) v] completed.hyps(3) by auto
  then show ?case using counted_within_quota[OF r(2) assms(4,3) cs(2,3) r(3)] cs(2)
    by (intro exI[of _ cs']) (auto simp: counted_def)
next
  case (refused u v env msg f args)
  then have "snd (execute env cfg args ms v) = v" using execute_conflict by simp
  then show ?case using refused by (auto simp: day_counts_def within_quota_def)
qed

subsection \<open>Properties\<close>

text \<open>An example: the first run of a metric that may run once a day.\<close>

definition once_metric :: metric_def where
  "once_metric = load_metric\<lparr>m_max_executions := Some 1\<rparr>"

definition morning :: world where
  "morning = example_world\<lparr>w_registry := empty_registry\<rparr>"

definition cpu_registry :: registry_state where
  "cpu_registry = load_collectors_for [''cpu''] empty_registry"

definition once_result :: metric_result where
  "once_result = set_duration (Fin 1)
     (ok_result (inject_params default_client_config once_metric) ''cpu'' ''0.5'' [] 0 (Fin 0))"

lemma once_metric_fields [simp]:
  "m_id once_metric = VStr ''load''" "m_collector once_metric = ''cpu''" "m_delivery once_metric = ''batch''"
  "m_max_executions once_metric = Some 1" "m_time_window_from once_metric = None"
  "m_time_window_till once_metric = None" "m_run_frequency once_metric = None"
  by (simp_all add: once_metric_def) (simp_all add: load_metric_def example_metric_def)

lemma once_printable: "printable once_result"
  by (simp add: once_result_def once_metric_def inject_params_def Let_def printable_def ok_result_def
      set_duration_def host_value_def is_str_iff)

lemma once_collects:
  "run_all_collectors ((mn_run (example_main True))\<lparr>env_registry := cpu_registry\<rparr>)
     [once_metric] default_client_config = Inr ([], [once_result])"
proof -
  let ?env = "(example_run True)\<lparr>env_registry := cpu_registry\<rparr>"
  have "get_collector cpu_registry ''cpu'' = Inr CpuCollector"
    using get_collector_loaded[OF registry_ok_empty, of "''cpu''" "[''cpu'']"]
    by (simp add: cpu_registry_def VALID_COLLECTORS_def module_class_def del: load_collectors_for.simps)
  then have "run_one ?env default_client_config once_metric = Inr [once_result]"
    by (simp add: run_one_def Let_def example_run_def once_result_def)
  then show ?thesis
    by (simp add: example_main_def run_all_collectors_def run_batch_def gather_def Let_def
        batch_outcome_def task_failed_def)
      (simp add: example_run_def)
qed

lemma once_runs:
  "\<exists>c w'. run_with_timeout (example_main True) default_client_config [once_metric] example_args
     (morning\<lparr>w_lock := f, w_registry := cpu_registry\<rparr>) = (Inr c, w')"
proof -
  let ?w = "morning\<lparr>w_lock := f, w_registry := cpu_registry\<rparr>"
  have cfg: "0 < b_send_max_size (cfg_batching default_client_config)" by (simp add: default_client_config_def)
  have col: "run_all_collectors ((mn_run (example_main True))\<lparr>env_registry := w_registry ?w\<rparr>)
      [once_metric] default_client_config = Inr ([], [once_result])"
    using once_collects by simp
  have "\<exists>c w'. run_async (example_main True) default_client_config [once_metric] example_args ?w = (Inr c, w')"
    by (rule run_async_returns[where d = 5, OF _ col]) (use once_printable library_accounts_second cfg in simp_all)
  then show ?thesis by (auto simp: run_with_timeout_def catchM_def)
qed

lemma load_morning: "load_schedule_state cfg (w_disk morning) = Inr (VDict [])"
  by (simp add: morning_def example_world_def load_schedule_state_def load_raw_def)

lemma other_day_empty: "other_day today (VDict [])"
  by (simp add: other_day_def)

lemma save_schedule_ok:
  "distinct (map fst cs) \<Longrightarrow> \<exists>d'. save_schedule_state io_ok cfg (day_doc today n cs) d = (Inr (), d')"
  using storable_day_doc[of cs today n]
  by (auto simp: storable_def save_schedule_state_def os_makedirs_def ignore_os_error_def catchM_def bindM_def
      write_replace_ok) (simp add: io_ok_def)

lemma once_scheduled:
  "schedule_metrics (example_main True) default_client_config 1 (counts_doc []) [once_metric] w = (Inr [once_metric], w)"
proof -
  have "count_of [] ''load'' = 0" by (simp add: count_of_def)
  moreover have "should_execute once_metric 1 0 False 720 = Inr (True, None)"
    by (simp add: should_execute_def window_guard_def quota_guard_def frequency_guard_def)
  ultimately show ?thesis
    by (simp add: execution_count_doc) (simp add: example_main_def default_client_config_def)
qed

lemma once_busy:
  "\<exists>c w'. busy_run (example_main True) default_client_config example_args (day_doc today 1 []) (counts_doc [])
     [once_metric] (morning\<lparr>w_lock := f\<rparr>) = (Inr c, w')"
proof -
  obtain c u where u: "run_with_timeout (example_main True) default_client_config [once_metric] example_args
      (morning\<lparr>w_lock := f, w_registry := cpu_registry\<rparr>) = (Inr c, u)"
    using once_runs by blast
  obtain cs where cs: "count_executions [once_metric] (counts_doc []) = Inr (counts_doc cs)" "distinct (map fst cs)"
    using count_executions_doc[of "[once_metric]" "[]"] by (auto simp: is_str_iff)
  obtain d where "save_schedule_state io_ok default_client_config (day_doc today 1 cs) (w_disk u) = (Inr (), d)"
    using save_schedule_ok[OF cs(2)] by blast
  then have "save_counts (example_main True) default_client_config (day_doc today 1 []) (counts_doc []) [once_metric] u
      = (Inr (), u\<lparr>w_disk := d\<rparr>)"
    using cs(1) set_counts[of today 1 "[]" cs]
    by (simp add: save_counts_def on_disk_def del: count_executions.simps item_set.simps)
      (simp add: example_main_def default_client_config_def)
  moreover have "load_collectors_for (remdups (map m_collector [once_metric])) (w_registry morning) = cpu_registry"
    by (simp add: cpu_registry_def morning_def del: load_collectors_for.simps)
  ultimately show ?thesis using u
    by (simp add: busy_run_def bindM_def del: load_collectors_for.simps)
qed

lemma once_completes:
  "\<exists>x. fst (with_run_lock (mn_lock (example_main True))
     (run_locked (example_main True) default_client_config [once_metric] example_args) morning) = Inr x"
proof -
  let ?m = "example_main True"
  have "acquire 2 (mn_lock ?m) (w_lock morning) = Some (Inr (), LockText (str_int (lk_pid (mn_lock ?m))))"
    by (simp add: acquire_2 morning_def example_world_def) (simp add: example_main_def)
  moreover have "\<exists>x w'. run_locked ?m default_client_config [once_metric] example_args (morning\<lparr>w_lock := f\<rparr>) = (Inr x, w')" for f
  proof -
    obtain c w' where "busy_run ?m default_client_config example_args (day_doc (mn_today ?m) 1 []) (counts_doc [])
        [once_metric] (morning\<lparr>w_lock := f\<rparr>) = (Inr c, w')" using once_busy by blast
    then show ?thesis
      using load_morning[of default_client_config] next_run_other[OF refl other_day_empty, of ?m] once_scheduled
      by (intro exI[of _ "(c, False)"] exI[of _ w'])
        (simp add: run_locked_def counts_of_doc bindM_def del: schedule_metrics.simps)
  qed
  ultimately show ?thesis by (auto simp: with_run_lock_def split: prod.split) (metis fst_conv)
qed



text \<open>What is read from a JSON file has texts as keys, everywhere.\<close>

fun text_keys :: "pyval \<Rightarrow> bool" where
  "text_keys (VList xs) = list_all text_keys xs"
| "text_keys (VDict d) = list_all (\<lambda>p. is_str (fst p) \<and> text_keys (snd p)) d"
| "text_keys v = True"

lemma those_set: "those xs = Some ys \<Longrightarrow> y \<in> set ys \<Longrightarrow> Some y \<in> set xs"
  by (induction xs arbitrary: ys) (auto split: option.splits)

lemma json_norm_text_keys_result: "json_norm v = Some w \<Longrightarrow> text_keys w"
proof (induction v arbitrary: w rule: json_norm.induct)
  case (1 xs)
  then obtain ys where ys: "those (map json_norm xs) = Some ys" "w = VList ys" by auto
  have "text_keys y" if "y \<in> set ys" for y
    using those_set[OF ys(1) that] 1(1) by auto
  then show ?case using ys(2) by (simp add: list_all_iff)
next
  case (2 d)
  then obtain ps where ps: "those (map (\<lambda>p. case json_key (fst p) of None \<Rightarrow> None
      | Some k \<Rightarrow> map_option (\<lambda>v. (VStr k, v)) (json_norm (snd p))) d) = Some ps" "w = VDict (adict_merge [] ps)"
    by auto
  have "is_str (fst p) \<and> text_keys (snd p)" if p: "p \<in> set ps" for p
  proof -
    obtain q where q: "q \<in> set d" "Some p = (case json_key (fst q) of None \<Rightarrow> None
        | Some k \<Rightarrow> map_option (\<lambda>v. (VStr k, v)) (json_norm (snd q)))"
      using those_set[OF ps(1) p] by auto
    then obtain k v where kv: "json_key (fst q) = Some k" "json_norm (snd q) = Some v" "p = (VStr k, v)"
      by (cases "json_norm (snd q)") (auto split: option.splits)
    then show ?thesis using 2(1)[OF q(1)] by (simp add: is_str_def)
  qed
  then show ?case using set_adict_merge[of "[]" ps] ps(2) by (auto simp: list_all_iff)
qed auto

lemma text_keys_member:
  assumes "vget v k (VDict []) = Inr u" and "text_keys v"
  shows "text_keys u"
  using assms by (cases v) (auto simp: dget_def list_all_iff split: option.splits dest!: map_of_SomeD)

lemma text_not_int: "\<not> py_eq (VStr s) (VInt i)"
  by (simp add: py_eq_def)

lemma integer_key_missing:
  assumes "execution_count counts m = Inr n" and "m_id m = VInt i" and "text_keys counts"
  shows "n = 0"
proof (cases counts)
  case (VDict ps)
  have "list_all (\<lambda>p. is_str (fst p)) ps" using assms(3) by (simp add: VDict list_all_iff)
  then have "List.find (\<lambda>p. py_eq (fst p) (VInt i)) ps = None"
    by (induction ps) (auto simp: is_str_iff text_not_int)
  then show ?thesis using assms(1,2) by (simp add: VDict execution_count_def key_get_def)
qed (use assms(1,2) in \<open>simp_all add: execution_count_def key_get_def\<close>)

text \<open>
  C39: the quota needs textual ids. JSON turns the keys of the saved counts into texts, so a metric
  whose id is an integer (\<open>id: 7\<close> in YAML) is looked up in vain by every later run: whatever the run
  before has saved, the execution count reads 0, and no quota ever stops the metric.
\<close>

theorem integer_id_escapes_quota:
  assumes "save_schedule_state io_ok cfg state d = (Inr (), d')" and "load_schedule_state cfg d' = Inr v"
    and "vget v ''metrics'' (VDict []) = Inr counts" and "execution_count counts m = Inr n"
    and "m_id m = VInt i" and "schedule_valid m"
  shows "n = 0 \<and> (\<exists>b r. should_execute m run_counter n False now = Inr (b, r)
    \<and> (b \<longleftrightarrow> in_window m now \<and> on_cadence m run_counter))"
proof -
  have "\<exists>w. json_norm state = Some w \<and> load_schedule_state cfg d' = Inr w"
    using assms(1) by (auto simp: save_schedule_state_def os_makedirs_def ignore_os_error_def catchM_def bindM_def
        load_schedule_state_def load_raw_def write_replace_def json_dump_def os_replace_def
        io_ok_def split: option.splits)
  then have "text_keys v" using assms(2) json_norm_text_keys_result by auto
  then have n: "n = 0" using text_keys_member[OF assms(3)] integer_key_missing[OF assms(4,5)] by blast
  have "below_quota m 0" by (auto simp: below_quota_def split: option.split)
  then show ?thesis using should_execute_spec[OF assms(6), of run_counter 0 False now] n
    by (auto simp: schedule_allows_def)
qed

definition saved_integer_count :: pyval where
  "saved_integer_count = VDict [(VStr ''date'', VStr ''d''), (VStr ''run_counter'', VInt 5),
     (VStr ''metrics'', VDict [(VInt 7, VDict [(VStr ''execution_count'', VInt 5)])])]"

theorem integer_id_escapes_quota_witness:
  "\<exists>r. should_execute (once_metric\<lparr>m_id := VInt 7\<rparr>) 6 0 False 720 = Inr (True, r)"
proof -
  let ?v = "VDict [(VStr ''date'', VStr ''d''), (VStr ''run_counter'', VInt 5),
     (VStr ''metrics'', VDict [(VStr (str_int 7), VDict [(VStr ''execution_count'', VInt 5)])])]"
  let ?c = "VDict [(VStr (str_int 7), VDict [(VStr ''execution_count'', VInt 5)])]"
  have norm: "json_norm saved_integer_count = Some ?v" by (simp add: saved_integer_count_def adict_merge_def)
  obtain d' where d': "save_schedule_state io_ok default_client_config saved_integer_count (\<lambda>p. Absent) = (Inr (), d')"
      "load_schedule_state default_client_config d' = Inr ?v"
    using norm by (auto simp: save_schedule_state_def os_makedirs_def ignore_os_error_def catchM_def bindM_def
        write_replace_ok load_schedule_state_def load_raw_def) (simp add: io_ok_def)
  have "execution_count ?c (once_metric\<lparr>m_id := VInt 7\<rparr>) = Inr 0"
    by (simp add: execution_count_def key_get_def text_not_int)
  from integer_id_escapes_quota[OF d' _ this, of 7 6 720] show ?thesis
    by (auto simp: schedule_valid_def in_window_def on_cadence_def)
qed

end
