(* ===== verification/Triples.thy ===== *)
theory Triples
  imports Prelude
begin

section \<open>Pre- and postconditions of computations with exceptions\<close>

text \<open>
  \<open>triple P m Q E\<close>: started in a state with \<open>P\<close>, the computation \<open>m\<close> either returns a value and a
  state related by \<open>Q\<close>, or raises an exception and leaves a state related by \<open>E\<close>. The rules in
  \<open>triple_intros\<close> follow the structure of a computation; a loop is proved with an invariant.
\<close>

named_theorems triple_intros \<open>rules for the structure of a computation\<close>

definition triple ::
  "('s \<Rightarrow> bool) \<Rightarrow> ('e, 's, 'a) st \<Rightarrow> ('a \<Rightarrow> 's \<Rightarrow> bool) \<Rightarrow> ('e \<Rightarrow> 's \<Rightarrow> bool) \<Rightarrow> bool" where
  "triple P m Q E \<longleftrightarrow> (\<forall>s. P s \<longrightarrow> (case m s of (Inl e, t) \<Rightarrow> E e t | (Inr a, t) \<Rightarrow> Q a t))"

lemma tripleI:
  assumes "\<And>s a t. P s \<Longrightarrow> m s = (Inr a, t) \<Longrightarrow> Q a t"
    and "\<And>s e t. P s \<Longrightarrow> m s = (Inl e, t) \<Longrightarrow> E e t"
  shows "triple P m Q E"
  using assms by (fastforce simp: triple_def split: prod.splits sum.splits)

lemma triple_returns: "triple P m Q E \<Longrightarrow> P s \<Longrightarrow> m s = (Inr a, t) \<Longrightarrow> Q a t"
  by (fastforce simp: triple_def)

lemma triple_raises: "triple P m Q E \<Longrightarrow> P s \<Longrightarrow> m s = (Inl e, t) \<Longrightarrow> E e t"
  by (fastforce simp: triple_def)

lemma triple_conseq:
  assumes "triple P' m Q' E'" and "\<And>s. P s \<Longrightarrow> P' s"
    and "\<And>a s. Q' a s \<Longrightarrow> Q a s" and "\<And>e s. E' e s \<Longrightarrow> E e s"
  shows "triple P m Q E"
  by (rule tripleI) (meson assms triple_returns triple_raises)+

lemma triple_ret [triple_intros]: "(\<And>s. P s \<Longrightarrow> Q a s) \<Longrightarrow> triple P (ret a) Q E"
  by (simp add: triple_def)

lemma triple_raise [triple_intros]: "(\<And>s. P s \<Longrightarrow> E e s) \<Longrightarrow> triple P (raise e) Q E"
  by (simp add: triple_def)

lemma triple_lift [triple_intros]:
  assumes "\<And>a s. r = Inr a \<Longrightarrow> P s \<Longrightarrow> Q a s" and "\<And>e s. r = Inl e \<Longrightarrow> P s \<Longrightarrow> E e s"
  shows "triple P (lift r) Q E"
  by (rule tripleI) (use assms in auto)

lemma triple_Pair [triple_intros]:
  "(\<And>s. P s \<Longrightarrow> Q a s) \<Longrightarrow> triple P (Pair (Inr a)) Q E"
  "(\<And>s. P s \<Longrightarrow> E e s) \<Longrightarrow> triple P (Pair (Inl e)) Q E"
  by (simp_all add: triple_def)

lemma triple_modifyM [triple_intros]: "(\<And>s. P s \<Longrightarrow> Q () (f s)) \<Longrightarrow> triple P (modifyM f) Q E"
  by (simp add: triple_def)

lemma triple_bind [triple_intros]:
  assumes "triple P m R E" and "\<And>a. triple (R a) (k a) Q E"
  shows "triple P (bindM m k) Q E"
  using assms by (auto intro!: tripleI elim!: bindM_InrE bindM_InlE dest: triple_returns triple_raises)

lemma triple_if [triple_intros]:
  assumes "c \<Longrightarrow> triple P m Q E" and "\<not> c \<Longrightarrow> triple P m' Q E"
  shows "triple P (if c then m else m') Q E"
  using assms by simp

lemma triple_catch:
  assumes "triple P m Q F" and "\<And>e. case h e of None \<Rightarrow> (\<forall>s. F e s \<longrightarrow> E e s) | Some k \<Rightarrow> triple (F e) k Q E"
  shows "triple P (catchM m h) Q E"
  unfolding triple_def
proof (intro allI impI)
  fix s assume "P s"
  obtain r t where run: "m s = (r, t)" by fastforce
  show "case catchM m h s of (Inl e, t) \<Rightarrow> E e t | (Inr a, t) \<Rightarrow> Q a t"
  proof (cases r)
    case (Inr a)
    with run triple_returns[OF assms(1) \<open>P s\<close>] show ?thesis by (simp add: catchM_def)
  next
    case (Inl e)
    with run triple_raises[OF assms(1) \<open>P s\<close>] have "F e t" by simp
    with Inl run assms(2)[of e] show ?thesis
      by (cases "h e") (simp_all add: catchM_def triple_def)
  qed
qed

lemma triple_both:
  assumes "triple P m Q E" and "triple P' m Q' E'"
  shows "triple (\<lambda>s. P s \<and> P' s) m (\<lambda>a s. Q a s \<and> Q' a s) (\<lambda>e s. E e s \<and> E' e s)"
  using assms by (intro tripleI) (auto dest: triple_returns triple_raises)

lemma triple_forM:
  assumes "\<And>x. x \<in> set xs \<Longrightarrow> triple I (f x) (\<lambda>_. I) E"
  shows "triple I (forM f xs) (\<lambda>_. I) E"
  using assms by (induction xs) (auto intro!: triple_intros)

lemma triple_foldM:
  assumes "\<And>x b. x \<in> set xs \<Longrightarrow> triple I (f x b) (\<lambda>_. I) E"
  shows "triple I (foldM f xs b) (\<lambda>_. I) E"
  using assms by (induction xs arbitrary: b) (auto intro!: triple_intros)

text \<open>A loop with an accumulator, whose invariant speaks of the elements seen so far.\<close>

lemma triple_foldM_prefix:
  assumes "\<And>pre x post b. xs = pre @ x # post \<Longrightarrow> triple (I pre b) (f x b) (I (pre @ [x])) E"
  shows "triple (I [] b) (foldM f xs b) (I xs) E"
proof -
  have "xs = pre @ ys \<Longrightarrow> triple (I pre c) (foldM f ys c) (I xs) E" for pre ys c
    by (induction ys arbitrary: pre c) (auto intro!: triple_ret triple_bind[OF assms])
  from this[of "[]" xs b] show ?thesis by simp
qed

lemma triple_getM: "(\<And>l. triple P (k l) Q E) \<Longrightarrow> triple P (bindM getM k) Q E"
  by (auto simp: triple_def)

lemma triple_pure: "triple P m Q E \<Longrightarrow> triple (\<lambda>s. P s \<and> J) m (\<lambda>a s. Q a s \<and> J) E"
  by (cases J) (simp_all add: triple_def)

lemma triple_mapM:
  assumes "\<And>x. x \<in> set xs \<Longrightarrow> triple I (f x) (\<lambda>_. I) E"
  shows "triple I (mapM f xs) (\<lambda>_. I) E"
  using assms
proof (induction xs)
  case (Cons x xs)
  have "triple I (mapM f xs) (\<lambda>_. I) E" using Cons by simp
  moreover have "triple I (f x) (\<lambda>_. I) E" using Cons.prems by simp
  ultimately show ?case by (auto intro!: triple_bind[where R = "\<lambda>_. I"] triple_ret simp del: st_simps)
qed (auto intro: triple_intros)

text \<open>
  A loop that establishes \<open>G x\<close> for every element \<open>x\<close>, where later iterations keep what earlier
  ones established.
\<close>

lemma triple_forM_each:
  assumes each: "\<And>x. x \<in> set xs \<Longrightarrow> triple I (f x) (\<lambda>_ s. I s \<and> G x s) E"
    and stable: "\<And>x y. x \<in> set xs \<Longrightarrow> y \<in> set xs \<Longrightarrow> triple (\<lambda>s. I s \<and> G y s) (f x) (\<lambda>_. G y) E"
  shows "triple I (forM f xs) (\<lambda>_ s. I s \<and> (\<forall>x \<in> set xs. G x s)) E"
  using assms
proof (induction xs)
  case Nil
  show ?case by (auto intro: triple_intros)
next
  case (Cons x xs)
  have keep: "triple (\<lambda>s. I s \<and> G x s) (forM f xs) (\<lambda>_ s. I s \<and> G x s) E"
  proof (rule triple_forM)
    fix y assume "y \<in> set xs"
    then show "triple (\<lambda>s. I s \<and> G x s) (f y) (\<lambda>_ s. I s \<and> G x s) E"
      using Cons.prems(1)[of y] Cons.prems(2)[of y x]
      by (intro tripleI) (auto dest: triple_returns triple_raises)
  qed
  have rest: "triple I (forM f xs) (\<lambda>_ s. I s \<and> (\<forall>x \<in> set xs. G x s)) E"
    by (rule Cons.IH) (simp_all add: Cons.prems)
  have "triple (\<lambda>s. I s \<and> G x s) (forM f xs) (\<lambda>_ s. I s \<and> (\<forall>x \<in> set (x # xs). G x s)) E"
    using keep rest by (intro tripleI) (auto dest: triple_returns triple_raises)
  then show ?case using Cons.prems(1)[of x] by (auto intro: triple_bind)
qed

subsection \<open>\<open>try ... finally\<close>\<close>

definition finallyM :: "('e, 's, 'a) st \<Rightarrow> ('e, 's, unit) st \<Rightarrow> ('e, 's, 'a) st" where
  \<comment> \<open>The clean-up runs in every case; what it raises replaces the outcome of the block.\<close>
  "finallyM m k = (\<lambda>s. case m s of (r, t) \<Rightarrow>
     (case k t of (Inl e, u) \<Rightarrow> (Inl e, u) | (Inr _, u) \<Rightarrow> (r, u)))"

lemma finallyM_cases:
  assumes "finallyM m k s = (r, u)"
  obtains r' t where "m s = (r', t)" "k t = (Inr (), u)" "r = r'"
  | r' t e where "m s = (r', t)" "k t = (Inl e, u)" "r = Inl e"
  using assms by (auto simp: finallyM_def split: prod.splits sum.splits)

lemma triple_finally:
  assumes "triple P m (\<lambda>_. R) (\<lambda>_. R)" and "triple R k (\<lambda>_. R) (\<lambda>_. R)"
  shows "triple P (finallyM m k) (\<lambda>_. R) (\<lambda>_. R)"
proof (rule tripleI)
  fix s a t assume "P s" and "finallyM m k s = (Inr a, t)"
  then show "R t" using assms by (elim finallyM_cases) (metis obj_sumE triple_raises triple_returns)+
next
  fix s e t assume "P s" and "finallyM m k s = (Inl e, t)"
  then show "R t" using assms by (elim finallyM_cases) (metis obj_sumE triple_raises triple_returns)+
qed

subsection \<open>Invariants of computations\<close>

text \<open>\<open>steady I m\<close>: \<open>m\<close> keeps \<open>I\<close>, whether it returns or raises.\<close>

named_theorems steady_intros \<open>rules for invariants of computations\<close>

definition steady :: "('s \<Rightarrow> bool) \<Rightarrow> ('e, 's, 'a) st \<Rightarrow> bool" where
  "steady I m \<longleftrightarrow> triple I m (\<lambda>_. I) (\<lambda>_. I)"

lemma steady_basic [steady_intros]:
  "steady I (ret a)" "steady I (raise e)" "steady I (lift r)" "steady I (Pair r)"
  by (auto simp: steady_def triple_def split: sum.split)

lemma steady_bind [steady_intros]: "steady I m \<Longrightarrow> (\<And>a. steady I (k a)) \<Longrightarrow> steady I (bindM m k)"
  unfolding steady_def by (rule triple_bind)

lemma steady_if [steady_intros]: "(c \<Longrightarrow> steady I m) \<Longrightarrow> (\<not> c \<Longrightarrow> steady I m') \<Longrightarrow> steady I (if c then m else m')"
  by simp

lemma steady_case [steady_intros]:
  "(\<And>x y. steady I (g x y)) \<Longrightarrow> steady I (case p of (x, y) \<Rightarrow> g x y)"
  "steady I m \<Longrightarrow> (\<And>x. steady I (h x)) \<Longrightarrow> steady I (case v of None \<Rightarrow> m | Some x \<Rightarrow> h x)"
  by (cases p; simp) (cases v; simp)

lemma steady_loops [steady_intros]:
  "(\<And>x. steady I (f x)) \<Longrightarrow> steady I (forM f xs)"
  "(\<And>x b. steady I (g x b)) \<Longrightarrow> steady I (foldM g ys b)"
  "(\<And>x. steady I (h x)) \<Longrightarrow> steady I (mapM h zs)"
  unfolding steady_def by (rule triple_forM triple_foldM triple_mapM, assumption)+

lemma steady_catch [steady_intros]:
  assumes "steady I m" and "\<And>e k. h e = Some k \<Longrightarrow> steady I k"
  shows "steady I (catchM m h)"
  unfolding steady_def
proof (rule triple_catch[where F = "\<lambda>_. I"])
  show "triple I m (\<lambda>_. I) (\<lambda>_. I)" using assms(1) by (simp add: steady_def)
  show "case h e of None \<Rightarrow> \<forall>s. I s \<longrightarrow> I s | Some k \<Rightarrow> triple I k (\<lambda>_. I) (\<lambda>_. I)" for e
    using assms(2)[of e] by (cases "h e") (simp_all add: steady_def)
qed

lemma steady_both: "steady I m \<Longrightarrow> steady J m \<Longrightarrow> steady (\<lambda>s. I s \<and> J s) m"
  unfolding steady_def by (rule triple_both)

lemma steady_finally [steady_intros]: "steady I m \<Longrightarrow> steady I k \<Longrightarrow> steady I (finallyM m k)"
  unfolding steady_def by (rule triple_finally)

end
