(* ===== verification/ZabbixApi.thy ===== *)
theory ZabbixApi
  imports PyValue Triples
begin

section \<open>The client of the Zabbix API (\<open>src/zabbix_update/_common.py\<close>)\<close>

text \<open>
  The class \<open>ZabbixAPI\<close> shared by the provisioning scripts: JSON-RPC calls, login and logout, and the
  operations that look an object up and create it when it is missing.

  A script runs against a server \<open>srv\<close>, a function from its state and the payload posted to a reply
  and the next state; \<open>zapi\<close> is the client object together with that server: its token, the number of
  the last request, the payloads posted so far on its session, and the server's state. \<open>Body\<close> is the
  decoded JSON of a response; \<open>Failed\<close> a \<open>requests.RequestException\<close> (the connection, or a status
  code that \<open>raise_for_status\<close> refuses), \<open>Broken\<close> any other exception of posting or decoding, such as
  a body that is not JSON. Log messages are left out.
\<close>

datatype reply = Body pyval | Failed issue | Broken exn

type_synonym 's server = "'s \<Rightarrow> pyval \<Rightarrow> reply \<times> 's"

record 's zapi =
  za_auth :: pyval
  za_req_id :: int
  za_posted :: "pyval list"
  za_server :: 's

type_synonym ('s, 'a) api = "(exn, 's zapi, 'a) st"

subsection \<open>Calls\<close>

definition new_api :: "'s \<Rightarrow> 's zapi" where
  "new_api t = \<lparr>za_auth = VNone, za_req_id = 0, za_posted = [], za_server = t\<rparr>"

definition rpc_payload :: "string \<Rightarrow> pyval \<Rightarrow> int \<Rightarrow> pyval \<Rightarrow> pyval" where
  "rpc_payload method params i token = VDict
     ([(VStr ''jsonrpc'', VStr ''2.0''), (VStr ''method'', VStr method), (VStr ''params'', params),
       (VStr ''id'', VInt i)] @ (if truthy token then [(VStr ''auth'', token)] else []))"

definition rpc_result :: "string \<Rightarrow> pyval \<Rightarrow> pyval res" where
  "rpc_result method data = rbind (vhas data ''error'') (\<lambda>err.
     if err then
       rbind (vindex data ''error'') (\<lambda>e.
       rbind (vget e ''message'' VNone) (\<lambda>msg.
       rbind (vget e ''data'' VNone) (\<lambda>dat.
       Inl (RuntimeError (Issue ''Zabbix API error'' [VStr method, msg, dat])))))
     else vindex data ''result'')"

fun reply_result :: "string \<Rightarrow> reply \<Rightarrow> pyval res" where
  "reply_result method (Body data) = rpc_result method data"
| "reply_result method (Failed (Issue msg vs)) =
     Inl (RuntimeError (Issue ''HTTP error calling'' (VStr method # VStr msg # vs)))"
| "reply_result method (Broken e) = Inl e"

definition post :: "'s server \<Rightarrow> pyval \<Rightarrow> ('s, reply) api" where
  "post srv payload = (\<lambda>api. case srv (za_server api) payload of (r, t) \<Rightarrow>
     (Inr r, api\<lparr>za_posted := za_posted api @ [payload], za_server := t\<rparr>))"

definition call :: "'s server \<Rightarrow> string \<Rightarrow> pyval \<Rightarrow> ('s, pyval) api" where
  "call srv method params =
     bindM (modifyM (\<lambda>api. api\<lparr>za_req_id := za_req_id api + 1\<rparr>)) (\<lambda>_.
     bindM getM (\<lambda>api.
     bindM (post srv (rpc_payload method params (za_req_id api) (za_auth api))) (\<lambda>r.
     lift (reply_result method r))))"

text \<open>\<open>v[0]\<close>.\<close>

fun vfirst :: "pyval \<Rightarrow> pyval res" where
  "vfirst (VList xs) = (case xs of [] \<Rightarrow> Inl IndexError | x # _ \<Rightarrow> Inr x)"
| "vfirst (VStr s) = (case s of [] \<Rightarrow> Inl IndexError | c # _ \<Rightarrow> Inr (VStr [c]))"
| "vfirst (VDict d) = (case List.find (\<lambda>p. py_eq (fst p) (VInt 0)) d of
     None \<Rightarrow> Inl KeyError | Some p \<Rightarrow> Inr (snd p))"
| "vfirst v = Inl TypeError"

text \<open>\<open>r[0][field] if r else None\<close> and \<open>r[field][0]\<close>.\<close>

definition find_id :: "'s server \<Rightarrow> string \<Rightarrow> pyval \<Rightarrow> string \<Rightarrow> ('s, pyval) api" where
  "find_id srv method params field = bindM (call srv method params) (\<lambda>r.
     if truthy r then lift (rbind (vfirst r) (\<lambda>x. vindex x field)) else ret VNone)"

definition create_id :: "'s server \<Rightarrow> string \<Rightarrow> pyval \<Rightarrow> string \<Rightarrow> ('s, pyval) api" where
  "create_id srv method params field = bindM (call srv method params) (\<lambda>r.
     lift (rbind (vindex r field) vfirst))"

subsection \<open>The session\<close>

fun on_runtime_error :: "'a \<Rightarrow> exn \<Rightarrow> 'a option" where
  "on_runtime_error k e = (if is_runtime_error e then Some k else None)"

definition set_auth :: "pyval \<Rightarrow> ('s, unit) api" where
  "set_auth token = modifyM (\<lambda>api. api\<lparr>za_auth := token\<rparr>)"

definition login :: "'s server \<Rightarrow> pyval \<Rightarrow> pyval \<Rightarrow> ('s, unit) api" where
  "login srv user password = catchM
     (bindM (call srv ''user.login'' (VDict [(VStr ''username'', user), (VStr ''password'', password)])) set_auth)
     (on_runtime_error
       (bindM (call srv ''user.login'' (VDict [(VStr ''user'', user), (VStr ''password'', password)])) set_auth))"

definition logout :: "'s server \<Rightarrow> ('s, unit) api" where
  "logout srv = bindM getM (\<lambda>api.
     if truthy (za_auth api) then
       bindM (catchM (bindM (call srv ''user.logout'' (VList [])) (\<lambda>_. ret ()))
                (on_runtime_error (ret ()))) (\<lambda>_.
       set_auth VNone)
     else ret ())"

subsection \<open>Objects that are looked up by name and created when missing\<close>

definition name_filter :: "string \<Rightarrow> pyval \<Rightarrow> string \<Rightarrow> pyval" where
  "name_filter field name out = VDict [(VStr ''filter'', VDict [(VStr field, VList [name])]),
     (VStr ''output'', VList [VStr out])]"

definition or_create :: "('s, pyval) api \<Rightarrow> ('s, pyval) api \<Rightarrow> ('s, pyval) api" where
  "or_create look build = bindM look (\<lambda>i. if truthy i then ret i else build)"

definition get_hostgroup_id :: "'s server \<Rightarrow> pyval \<Rightarrow> ('s, pyval) api" where
  "get_hostgroup_id srv name = find_id srv ''hostgroup.get'' (name_filter ''name'' name ''groupid'') ''groupid''"

definition ensure_hostgroup :: "'s server \<Rightarrow> pyval \<Rightarrow> ('s, pyval) api" where
  "ensure_hostgroup srv name = or_create (get_hostgroup_id srv name)
     (create_id srv ''hostgroup.create'' (VDict [(VStr ''name'', name)]) ''groupids'')"

definition get_templategroup_id :: "'s server \<Rightarrow> pyval \<Rightarrow> ('s, pyval) api" where
  "get_templategroup_id srv name =
     find_id srv ''templategroup.get'' (name_filter ''name'' name ''groupid'') ''groupid''"

definition ensure_templategroup :: "'s server \<Rightarrow> pyval \<Rightarrow> ('s, pyval) api" where
  "ensure_templategroup srv name = or_create (get_templategroup_id srv name)
     (create_id srv ''templategroup.create'' (VDict [(VStr ''name'', name)]) ''groupids'')"

definition get_template_id :: "'s server \<Rightarrow> pyval \<Rightarrow> ('s, pyval) api" where
  "get_template_id srv name = find_id srv ''template.get'' (name_filter ''host'' name ''templateid'') ''templateid''"

definition group_list :: "pyval \<Rightarrow> pyval" where
  "group_list gid = VList [VDict [(VStr ''groupid'', gid)]]"

definition ensure_template :: "'s server \<Rightarrow> pyval \<Rightarrow> pyval \<Rightarrow> pyval \<Rightarrow> ('s, pyval) api" where
  "ensure_template srv name gid description = or_create (get_template_id srv name)
     (create_id srv ''template.create'' (VDict [(VStr ''host'', name), (VStr ''name'', name),
        (VStr ''description'', description), (VStr ''groups'', group_list gid)]) ''templateids'')"

definition get_host_id :: "'s server \<Rightarrow> pyval \<Rightarrow> ('s, pyval) api" where
  "get_host_id srv name = find_id srv ''host.get'' (name_filter ''host'' name ''hostid'') ''hostid''"

definition agent_interface :: pyval where
  "agent_interface = VDict [(VStr ''type'', VInt 1), (VStr ''main'', VInt 1), (VStr ''useip'', VInt 1),
     (VStr ''ip'', VStr ''127.0.0.1''), (VStr ''dns'', VStr ''''), (VStr ''port'', VStr ''10050'')]"

definition ensure_host :: "'s server \<Rightarrow> pyval \<Rightarrow> pyval \<Rightarrow> ('s, pyval) api" where
  "ensure_host srv name gid = or_create (get_host_id srv name)
     (create_id srv ''host.create'' (VDict [(VStr ''host'', name), (VStr ''name'', name),
        (VStr ''groups'', group_list gid), (VStr ''interfaces'', VList [agent_interface])]) ''hostids'')"

text \<open>Items: an existing item has its tags replaced; a new one is a trapper item.\<close>

type_synonym item_def = "(pyval \<times> pyval) list"

definition get_item_id :: "'s server \<Rightarrow> pyval \<Rightarrow> pyval \<Rightarrow> ('s, pyval) api" where
  "get_item_id srv owner key = find_id srv ''item.get'' (VDict [(VStr ''hostids'', VList [owner]),
     (VStr ''filter'', VDict [(VStr ''key_'', VList [key])]), (VStr ''output'', VList [VStr ''itemid''])])
     ''itemid''"

definition item_tags :: "item_def \<Rightarrow> pyval" where
  "item_tags d = (case dget d ''tags'' of None \<Rightarrow> VList [] | Some t \<Rightarrow> t)"

definition new_item :: "pyval \<Rightarrow> item_def \<Rightarrow> item_def" where
  "new_item owner d = adict_merge
     [(VStr ''hostid'', owner), (VStr ''type'', VInt 2), (VStr ''delay'', VStr ''0'')] d"

definition ensure_item :: "'s server \<Rightarrow> pyval \<Rightarrow> item_def \<Rightarrow> ('s, pyval) api" where
  "ensure_item srv owner d = bindM (lift (vindex (VDict d) ''key_'')) (\<lambda>key.
     bindM (get_item_id srv owner key) (\<lambda>iid.
     if truthy iid then
       bindM (call srv ''item.update'' (VDict [(VStr ''itemid'', iid), (VStr ''tags'', item_tags d)]))
         (\<lambda>_. ret iid)
     else create_id srv ''item.create'' (VDict (new_item owner d)) ''itemids''))"

text \<open>Triggers, found by description on a host or template.\<close>

definition get_trigger_id :: "'s server \<Rightarrow> pyval \<Rightarrow> pyval \<Rightarrow> ('s, pyval) api" where
  "get_trigger_id srv description host = find_id srv ''trigger.get'' (VDict
     [(VStr ''filter'', VDict [(VStr ''description'', VList [description])]), (VStr ''host'', host),
      (VStr ''output'', VList [VStr ''triggerid''])]) ''triggerid''"

text \<open>\<open>{k: v for k, v in d.items() if not k.startswith("_")}\<close>, for a dict with string keys.\<close>

fun internal_key :: "pyval \<Rightarrow> bool" where
  "internal_key (VStr s) = startswith s ''_''"
| "internal_key v = False"

definition public_params :: "(pyval \<times> pyval) list \<Rightarrow> (pyval \<times> pyval) list" where
  "public_params d = filter (\<lambda>p. \<not> internal_key (fst p)) d"

definition ensure_trigger :: "'s server \<Rightarrow> (pyval \<times> pyval) list \<Rightarrow> ('s, pyval) api" where
  "ensure_trigger srv d = bindM (lift (vindex (VDict d) ''description'')) (\<lambda>desc.
     bindM (lift (vget (VDict d) ''_host'' VNone)) (\<lambda>host.
     or_create (get_trigger_id srv desc host)
       (create_id srv ''trigger.create'' (VDict (public_params d)) ''triggerids'')))"

text \<open>Dashboards.\<close>

definition get_dashboard_id :: "'s server \<Rightarrow> pyval \<Rightarrow> ('s, pyval) api" where
  "get_dashboard_id srv name =
     find_id srv ''dashboard.get'' (name_filter ''name'' name ''dashboardid'') ''dashboardid''"

definition create_dashboard :: "'s server \<Rightarrow> (pyval \<times> pyval) list \<Rightarrow> ('s, pyval) api" where
  "create_dashboard srv d = create_id srv ''dashboard.create'' (VDict d) ''dashboardids''"

definition update_dashboard :: "'s server \<Rightarrow> pyval \<Rightarrow> (pyval \<times> pyval) list \<Rightarrow> ('s, unit) api" where
  "update_dashboard srv did d = bindM
     (call srv ''dashboard.update'' (VDict (adict_merge [(VStr ''dashboardid'', did)] d))) (\<lambda>_. ret ())"

end
