(* ===== verification/ZabbixServer.thy ===== *)
theory ZabbixServer
  imports ZabbixApi
begin

section \<open>What the scripts rely on of a Zabbix server\<close>

text \<open>
  The server is a parameter. \<open>documented srv ids\<close> states what the Zabbix API documentation promises of
  the calls the scripts make, where \<open>ids s k\<close> is the id under which the state \<open>s\<close> of the server knows
  the object \<open>k\<close>: an answered lookup tells the truth, an answered creation has created the object and
  returns its id, and no call of the scripts makes an object disappear. A call may fail at any time;
  nothing is promised of its reply then.

  The interface \<open>ensured\<close> is what a script relies on of a get-or-create operation: it returns the id of
  an object that exists afterwards, and creates nothing when the object existed. Every \<open>ensure_\<close>
  operation of the client provides it.
\<close>

datatype obj =
    HostGroup pyval
  | TemplateGroup pyval
  | TemplateObj pyval
  | HostObj pyval
  | ItemObj pyval pyval
  | DashboardObj pyval
  | TemplateDashboardObj pyval pyval

text \<open>The two queries of the dashboard scripts.\<close>

definition dashboard_query :: "pyval \<Rightarrow> pyval" where
  "dashboard_query name = VDict [(VStr ''output'', VList [VStr ''dashboardid'']),
     (VStr ''filter'', VDict [(VStr ''name'', name)])]"

definition template_dashboard_query :: "pyval \<Rightarrow> pyval \<Rightarrow> pyval" where
  "template_dashboard_query tid name = VDict [(VStr ''output'', VStr ''extend''),
     (VStr ''templateids'', VList [tid]), (VStr ''filter'', VDict [(VStr ''name'', name)])]"

fun lookup_call :: "obj \<Rightarrow> string \<times> pyval \<times> string" where
  "lookup_call (HostGroup n) = (''hostgroup.get'', name_filter ''name'' n ''groupid'', ''groupid'')"
| "lookup_call (TemplateGroup n) = (''templategroup.get'', name_filter ''name'' n ''groupid'', ''groupid'')"
| "lookup_call (TemplateObj n) = (''template.get'', name_filter ''host'' n ''templateid'', ''templateid'')"
| "lookup_call (HostObj n) = (''host.get'', name_filter ''host'' n ''hostid'', ''hostid'')"
| "lookup_call (ItemObj owner key) = (''item.get'', VDict [(VStr ''hostids'', VList [owner]),
     (VStr ''filter'', VDict [(VStr ''key_'', VList [key])]), (VStr ''output'', VList [VStr ''itemid''])], ''itemid'')"
| "lookup_call (DashboardObj n) = (''dashboard.get'', dashboard_query n, ''dashboardid'')"
| "lookup_call (TemplateDashboardObj tid n) = (''templatedashboard.get'', template_dashboard_query tid n, ''dashboardid'')"

text \<open>The answer \<open>a\<close> to a lookup tells that the object has the given id, or that there is none.\<close>

definition tells :: "string \<Rightarrow> pyval option \<Rightarrow> pyval \<Rightarrow> bool" where
  "tells f known a \<longleftrightarrow> (case known of None \<Rightarrow> a = VList []
     | Some i \<Rightarrow> (\<exists>d rest. a = VList (VDict d # rest) \<and> dget d f = Some i))"

definition field :: "pyval \<Rightarrow> string \<Rightarrow> pyval" where
  "field v k = (case v of VDict d \<Rightarrow> (case dget d k of None \<Rightarrow> VNone | Some w \<Rightarrow> w) | _ \<Rightarrow> VNone)"

definition method_of :: "pyval \<Rightarrow> string" where
  "method_of p = (case field p ''method'' of VStr m \<Rightarrow> m | _ \<Rightarrow> [])"

definition is_creation :: "pyval \<Rightarrow> bool" where
  "is_creation p \<longleftrightarrow> endswith (method_of p) ''.create''"

lemma field_VDict [simp]: "field (VDict d) k = (case dget d k of None \<Rightarrow> VNone | Some w \<Rightarrow> w)"
  by (simp add: field_def)

text \<open>The object a payload asks to create, and the field of the answer that holds its id.\<close>

definition creation_of :: "string \<Rightarrow> pyval \<Rightarrow> (obj \<times> string) option" where
  "creation_of m q = (
     if m = ''hostgroup.create'' then Some (HostGroup (field q ''name''), ''groupids'')
     else if m = ''templategroup.create'' then Some (TemplateGroup (field q ''name''), ''groupids'')
     else if m = ''template.create'' then Some (TemplateObj (field q ''host''), ''templateids'')
     else if m = ''host.create'' then Some (HostObj (field q ''host''), ''hostids'')
     else if m = ''item.create'' then Some (ItemObj (field q ''hostid'') (field q ''key_''), ''itemids'')
     else if m = ''dashboard.create'' then Some (DashboardObj (field q ''name''), ''dashboardids'')
     else if m = ''templatedashboard.create'' then
       Some (TemplateDashboardObj (field q ''templateid'') (field q ''name''), ''dashboardids'')
     else None)"

definition created_by :: "pyval \<Rightarrow> (obj \<times> string) option" where
  "created_by p = creation_of (method_of p) (field p ''params'')"

definition documented :: "'s server \<Rightarrow> ('s \<Rightarrow> obj \<Rightarrow> pyval option) \<Rightarrow> bool" where
  "documented srv ids \<longleftrightarrow>
     (\<forall>s k i. ids s k = Some i \<longrightarrow> truthy i)
     \<and> (\<forall>s p k i. ids s k = Some i \<longrightarrow> ids (snd (srv s p)) k = Some i)
     \<and> (\<forall>s k m q f n token a. lookup_call k = (m, q, f) \<longrightarrow>
          reply_result m (fst (srv s (rpc_payload m q n token))) = Inr a \<longrightarrow> tells f (ids s k) a)
     \<and> (\<forall>s p k f m a. created_by p = Some (k, f) \<longrightarrow> reply_result m (fst (srv s p)) = Inr a \<longrightarrow>
          (\<exists>i. a = VDict [(VStr f, VList [i])] \<and> ids (snd (srv s p)) k = Some i))"

lemma documented_truthy: "documented srv ids \<Longrightarrow> ids s k = Some i \<Longrightarrow> truthy i"
  by (auto simp: documented_def)

lemma documented_lookup:
  "documented srv ids \<Longrightarrow> lookup_call k = (m, q, f) \<Longrightarrow>
     reply_result m (fst (srv s (rpc_payload m q n token))) = Inr a \<Longrightarrow> tells f (ids s k) a"
  by (auto simp: documented_def)

lemma documented_keeps: "documented srv ids \<Longrightarrow> ids s k = Some i \<Longrightarrow> ids (snd (srv s p)) k = Some i"
  by (auto simp: documented_def)

lemma documented_creation:
  assumes "documented srv ids" and "created_by p = Some (k, f)" and "reply_result m (fst (srv s p)) = Inr a"
  obtains i where "a = VDict [(VStr f, VList [i])]" and "ids (snd (srv s p)) k = Some i"
  using assms unfolding documented_def by blast

subsection \<open>Calls\<close>

lemma call_eq: "call srv m q api = (let p = rpc_payload m q (za_req_id api + 1) (za_auth api) in
    (reply_result m (fst (srv (za_server api) p)),
     api\<lparr>za_req_id := za_req_id api + 1, za_posted := za_posted api @ [p], za_server := snd (srv (za_server api) p)\<rparr>))"
  by (simp add: call_def bindM_def post_def Let_def split: prod.split)

lemma method_of_rpc [simp]: "method_of (rpc_payload m q n token) = m"
  by (simp add: method_of_def field_def rpc_payload_def)

lemma params_of_rpc [simp]: "field (rpc_payload m q n token) ''params'' = q"
  by (simp add: field_def rpc_payload_def)

text \<open>The objects \<open>K\<close> have ids; the payloads posted so far create something only by the methods \<open>M\<close>.\<close>

definition exist :: "('s \<Rightarrow> obj \<Rightarrow> pyval option) \<Rightarrow> (obj \<times> pyval) set \<Rightarrow> 's zapi \<Rightarrow> bool" where
  "exist ids K api \<longleftrightarrow> (\<forall>(k, i) \<in> K. ids (za_server api) k = Some i)"

definition limited :: "string set \<Rightarrow> 's zapi \<Rightarrow> bool" where
  "limited M api \<longleftrightarrow> (\<forall>p \<in> set (za_posted api). is_creation p \<longrightarrow> method_of p \<in> M)"

lemma triple_call:
  assumes "\<And>s p a. P s \<Longrightarrow> p = rpc_payload m q (za_req_id s + 1) (za_auth s) \<Longrightarrow>
      reply_result m (fst (srv (za_server s) p)) = Inr a \<Longrightarrow>
      Q a (s\<lparr>za_req_id := za_req_id s + 1, za_posted := za_posted s @ [p], za_server := snd (srv (za_server s) p)\<rparr>)"
    and "\<And>s p e. P s \<Longrightarrow> p = rpc_payload m q (za_req_id s + 1) (za_auth s) \<Longrightarrow>
      reply_result m (fst (srv (za_server s) p)) = Inl e \<Longrightarrow>
      E e (s\<lparr>za_req_id := za_req_id s + 1, za_posted := za_posted s @ [p], za_server := snd (srv (za_server s) p)\<rparr>)"
  shows "triple P (call srv m q) Q E"
  unfolding triple_def call_eq using assms by (auto simp: Let_def split: sum.split)

lemma call_keeps:
  assumes "documented srv ids"
  shows "triple (exist ids K) (call srv m q) (\<lambda>_. exist ids K) (\<lambda>_. exist ids K)"
  by (rule triple_call) (auto simp: exist_def documented_keeps[OF assms])

lemma call_reads:
  assumes "\<not> endswith m ''.create''"
  shows "triple (limited M) (call srv m q) (\<lambda>_. limited M) (\<lambda>_. limited M)"
  by (rule triple_call) (use assms in \<open>auto simp: limited_def is_creation_def\<close>)

lemma call_limited:
  assumes "m \<in> M"
  shows "triple (limited M) (call srv m q) (\<lambda>_. limited M) (\<lambda>_. limited M)"
  by (rule triple_call) (use assms in \<open>auto simp: limited_def\<close>)

text \<open>An assertion that every call but a creation leaves alone.\<close>

definition reading :: "'s server \<Rightarrow> ('s zapi \<Rightarrow> bool) \<Rightarrow> bool" where
  "reading srv I \<longleftrightarrow> (\<forall>m q. \<not> endswith m ''.create'' \<longrightarrow> steady I (call srv m q))"

lemma reading_exist: "documented srv ids \<Longrightarrow> reading srv (exist ids K)"
  by (simp add: reading_def steady_def call_keeps)

lemma reading_limited: "reading srv (limited M)"
  by (simp add: reading_def steady_def call_reads)

lemma reading_conj: "reading srv I \<Longrightarrow> reading srv J \<Longrightarrow> reading srv (\<lambda>s. I s \<and> J s)"
  by (simp add: reading_def steady_both)

lemma readingD: "reading srv I \<Longrightarrow> \<not> endswith m ''.create'' \<Longrightarrow> steady I (call srv m q)"
  by (simp add: reading_def)

lemma reading_find: "reading srv I \<Longrightarrow> \<not> endswith m ''.create'' \<Longrightarrow> steady I (find_id srv m q f)"
  unfolding find_id_def by (intro steady_intros readingD)

lemma reading_create: "steady I (call srv m q) \<Longrightarrow> steady I (create_id srv m q f)"
  unfolding create_id_def by (intro steady_intros)

subsection \<open>Looking up and creating\<close>

lemma find_keeps:
  assumes "documented srv ids"
  shows "triple (exist ids K) (find_id srv m q f) (\<lambda>_. exist ids K) (\<lambda>_. exist ids K)"
  unfolding find_id_def
  by (rule triple_bind[OF call_keeps[OF assms]]) (auto intro!: triple_intros)

lemma create_keeps:
  assumes "documented srv ids"
  shows "triple (exist ids K) (create_id srv m q f) (\<lambda>_. exist ids K) (\<lambda>_. exist ids K)"
  unfolding create_id_def
  by (rule triple_bind[OF call_keeps[OF assms]]) (auto intro!: triple_intros)

lemma find_reads:
  assumes "\<not> endswith m ''.create''"
  shows "triple (limited M) (find_id srv m q f) (\<lambda>_. limited M) (\<lambda>_. limited M)"
  unfolding find_id_def
  by (rule triple_bind[OF call_reads[OF assms]]) (auto intro!: triple_intros)

lemma call_tells:
  assumes doc: "documented srv ids" and k: "lookup_call k = (m, q, f)"
  shows "triple (\<lambda>_. True) (call srv m q)
     (\<lambda>r s. r = VList [] \<or> (\<exists>i. tells f (Some i) r \<and> exist ids {(k, i)} s)) (\<lambda>_ _. True)"
proof (rule triple_call)
  fix s :: "'a zapi" and p a
  assume "p = rpc_payload m q (za_req_id s + 1) (za_auth s)"
    and a: "reply_result m (fst (srv (za_server s) p)) = Inr a"
  then have "tells f (ids (za_server s) k) a" using documented_lookup[OF doc k] by blast
  then show "a = VList [] \<or> (\<exists>i. tells f (Some i) a \<and> exist ids {(k, i)}
      (s\<lparr>za_req_id := za_req_id s + 1, za_posted := za_posted s @ [p], za_server := snd (srv (za_server s) p)\<rparr>))"
    by (cases "ids (za_server s) k") (auto simp: tells_def exist_def documented_keeps[OF doc])
qed simp

lemma call_tells_existing:
  assumes doc: "documented srv ids" and k: "lookup_call k = (m, q, f)"
  shows "triple (exist ids {(k, i)}) (call srv m q) (\<lambda>r _. tells f (Some i) r) (\<lambda>_ _. True)"
  by (rule triple_call) (auto simp: exist_def dest: documented_lookup[OF doc k])

lemma find_truth:
  assumes doc: "documented srv ids" and k: "lookup_call k = (m, q, f)"
  shows "triple (\<lambda>_. True) (find_id srv m q f) (\<lambda>i s. truthy i \<longrightarrow> exist ids {(k, i)} s) (\<lambda>_ _. True)"
  unfolding find_id_def
  by (rule triple_bind[OF call_tells[OF assms]]) (intro triple_intros; auto simp: tells_def)

lemma find_existing:
  assumes doc: "documented srv ids" and k: "lookup_call k = (m, q, f)"
  shows "triple (exist ids {(k, i)}) (find_id srv m q f) (\<lambda>j _. j = i) (\<lambda>_ _. True)"
  unfolding find_id_def
  by (rule triple_bind[OF call_tells_existing[OF assms]]) (intro triple_intros; auto simp: tells_def)

lemma create_truth:
  assumes doc: "documented srv ids"
    and p: "\<And>n token. created_by (rpc_payload m q n token) = Some (k, f)"
  shows "triple (\<lambda>_. True) (create_id srv m q f) (\<lambda>i. exist ids {(k, i)}) (\<lambda>_ _. True)"
  unfolding create_id_def
proof (rule triple_bind)
  show "triple (\<lambda>_. True) (call srv m q)
     (\<lambda>r s. \<exists>i. r = VDict [(VStr f, VList [i])] \<and> exist ids {(k, i)} s) (\<lambda>_ _. True)"
    by (rule triple_call) (use documented_creation[OF doc p] in \<open>fastforce simp: exist_def\<close>)+
next
  fix r
  show "triple (\<lambda>s. \<exists>i. r = VDict [(VStr f, VList [i])] \<and> exist ids {(k, i)} s)
     (lift (rbind (vindex r f) vfirst)) (\<lambda>i. exist ids {(k, i)}) (\<lambda>_ _. True)"
    by (intro triple_intros) auto
qed

lemma or_create_truth:
  assumes doc: "documented srv ids" and k: "lookup_call k = (m, q, f)"
    and p: "\<And>n token. created_by (rpc_payload m' q' n token) = Some (k, f')"
  shows "triple (\<lambda>_. True) (or_create (find_id srv m q f) (create_id srv m' q' f'))
     (\<lambda>i. exist ids {(k, i)}) (\<lambda>_ _. True)"
  unfolding or_create_def
proof (rule triple_bind[OF find_truth[OF doc k]])
  fix i
  show "triple (\<lambda>s. truthy i \<longrightarrow> exist ids {(k, i)} s)
     (if truthy i then ret i else create_id srv m' q' f') (\<lambda>i. exist ids {(k, i)}) (\<lambda>_ _. True)"
    by (intro triple_if triple_ret triple_conseq[OF create_truth[OF doc p]]) auto
qed

lemma or_create_existing:
  assumes doc: "documented srv ids" and k: "lookup_call k = (m, q, f)" and m: "\<not> endswith m ''.create''"
  shows "triple (\<lambda>s. exist ids {(k, i)} s \<and> limited M s) (or_create (find_id srv m q f) build)
     (\<lambda>j s. j = i \<and> limited M s) (\<lambda>_. limited M)"
proof (cases "truthy i")
  case True
  show ?thesis unfolding or_create_def
  proof (rule triple_bind)
    show "triple (\<lambda>s. exist ids {(k, i)} s \<and> limited M s) (find_id srv m q f)
       (\<lambda>j s. j = i \<and> limited M s) (\<lambda>_. limited M)"
      using triple_both[OF find_existing[OF doc k, where i = i] find_reads[OF m]]
      by (rule triple_conseq) auto
    show "triple (\<lambda>s. j = i \<and> limited M s) (if truthy j then ret j else build)
       (\<lambda>j s. j = i \<and> limited M s) (\<lambda>_. limited M)" for j
      by (cases "j = i") (use True in \<open>auto simp: triple_def\<close>)
  qed
next
  case False
  then have "\<not> exist ids {(k, i)} s" for s using documented_truthy[OF doc] by (auto simp: exist_def)
  then show ?thesis by (simp add: triple_def)
qed

lemma or_create_keeps:
  assumes doc: "documented srv ids"
  shows "triple (exist ids K) (or_create (find_id srv m q f) (create_id srv m' q' f'))
     (\<lambda>_. exist ids K) (\<lambda>_. exist ids K)"
  unfolding or_create_def
  by (rule triple_bind[OF find_keeps[OF doc]]) (auto intro: triple_intros create_keeps[OF doc])

subsection \<open>The interface of a get-or-create operation\<close>

locale ensured =
  fixes ensure :: "'s server \<Rightarrow> 'k \<Rightarrow> ('s, pyval) api" and obj :: "'k \<Rightarrow> obj" and wf :: "'k \<Rightarrow> bool"
  assumes returns_id: "documented srv ids \<Longrightarrow> wf k \<Longrightarrow>
      triple (\<lambda>_. True) (ensure srv k) (\<lambda>i. exist ids {(obj k, i)}) (\<lambda>_ _. True)"
    and reads_existing: "documented srv ids \<Longrightarrow> wf k \<Longrightarrow>
      triple (\<lambda>s. exist ids {(obj k, i)} s \<and> limited M s) (ensure srv k) (\<lambda>j s. j = i \<and> limited M s) (\<lambda>_. limited M)"
    and keeps: "documented srv ids \<Longrightarrow>
      triple (exist ids K) (ensure srv k) (\<lambda>_. exist ids K) (\<lambda>_. exist ids K)"
begin

lemma ensures:
  assumes "documented srv ids" and "wf k"
  shows "triple (exist ids K) (ensure srv k) (\<lambda>i. exist ids (insert (obj k, i) K)) (\<lambda>_ _. True)"
  using triple_both[OF returns_id[OF assms] keeps[OF assms(1), where K = K]]
  by (rule triple_conseq) (auto simp: exist_def)

lemma again:
  assumes "documented srv ids" and "wf k" and "(obj k, i) \<in> K"
  shows "triple (\<lambda>s. exist ids K s \<and> limited M s) (ensure srv k)
     (\<lambda>j s. j = i \<and> exist ids K s \<and> limited M s) (\<lambda>_. limited M)"
  using triple_both[OF reads_existing[OF assms(1,2), where i = i] keeps[OF assms(1), where K = K]]
  by (rule triple_conseq) (use assms(3) in \<open>auto simp: exist_def\<close>)

lemma ensure_each:
  assumes "documented srv ids" and "\<forall>k \<in> set ks. wf k"
  shows "triple (exist ids K) (forM (\<lambda>k. bindM (ensure srv k) (\<lambda>_. ret ())) ks)
     (\<lambda>_ s. exist ids K s \<and> (\<forall>k \<in> set ks. \<exists>i. exist ids {(obj k, i)} s)) (\<lambda>_ _. True)"
proof (rule triple_forM_each)
  fix k assume "k \<in> set ks"
  then have "wf k" using assms(2) by simp
  then show "triple (exist ids K) (bindM (ensure srv k) (\<lambda>_. ret ()))
     (\<lambda>_ s. exist ids K s \<and> (\<exists>i. exist ids {(obj k, i)} s)) (\<lambda>_ _. True)"
    by (intro triple_bind[OF ensures[OF assms(1)]] triple_ret) (auto simp: exist_def)
next
  fix x y
  have "triple (\<lambda>s. \<exists>i. exist ids {(obj y, i)} s) (ensure srv x) (\<lambda>_ s. \<exists>i. exist ids {(obj y, i)} s) (\<lambda>_ _. True)"
    using keeps[OF assms(1)] by (intro tripleI) (blast dest: triple_returns)+
  then show "triple (\<lambda>s. exist ids K s \<and> (\<exists>i. exist ids {(obj y, i)} s)) (bindM (ensure srv x) (\<lambda>_. ret ()))
     (\<lambda>_ s. \<exists>i. exist ids {(obj y, i)} s) (\<lambda>_ _. True)"
    by (intro triple_bind[where R = "\<lambda>_ s. \<exists>i. exist ids {(obj y, i)} s"] triple_ret) (auto elim: triple_conseq)
qed

lemma each_again:
  assumes "documented srv ids" and "\<forall>k \<in> set ks. wf k \<and> (\<exists>i. (obj k, i) \<in> K)"
  shows "triple (\<lambda>s. exist ids K s \<and> limited M s) (forM (\<lambda>k. bindM (ensure srv k) (\<lambda>_. ret ())) ks)
     (\<lambda>_ s. exist ids K s \<and> limited M s) (\<lambda>_. limited M)"
proof (rule triple_forM)
  fix k assume "k \<in> set ks"
  then obtain i where "wf k" "(obj k, i) \<in> K" using assms(2) by blast
  then show "triple (\<lambda>s. exist ids K s \<and> limited M s) (bindM (ensure srv k) (\<lambda>_. ret ()))
     (\<lambda>_ s. exist ids K s \<and> limited M s) (\<lambda>_. limited M)"
    by (intro triple_bind[OF again[OF assms(1)]] triple_ret) auto
qed

end

subsection \<open>The operations of the client provide it\<close>

lemma item_update_keeps:
  "documented srv ids \<Longrightarrow> triple (exist ids K) (ensure_item srv owner d) (\<lambda>_. exist ids K) (\<lambda>_. exist ids K)"
  unfolding ensure_item_def get_item_id_def
  by (intro triple_bind[OF _ triple_bind[OF find_keeps]] triple_if create_keeps
      triple_bind[OF call_keeps] triple_lift triple_ret) auto

definition item_key :: "item_def \<Rightarrow> pyval" where
  "item_key d = (case dget d ''key_'' of None \<Rightarrow> VNone | Some k \<Rightarrow> k)"

definition plain_item :: "item_def \<Rightarrow> bool" where
  "plain_item d \<longleftrightarrow> dict_keys_distinct d \<and> dget d ''hostid'' = None"

lemma map_of_rev_distinct: "distinct (map fst d) \<Longrightarrow> map_of (rev d) k = map_of d k"
proof (cases "map_of d k")
  case None
  then have "map_of (rev d) k = None" by (metis map_of_eq_None_iff set_rev)
  then show ?thesis using None by simp
next
  case (Some v)
  assume "distinct (map fst d)"
  then have "distinct (map fst (rev d))" by (metis distinct_rev rev_map)
  then show ?thesis using Some by (simp add: map_of_SomeD)
qed

lemma created_item:
  assumes "plain_item d" and "dget d ''key_'' = Some key"
  shows "created_by (rpc_payload ''item.create'' (VDict (new_item owner d)) n token) = Some (ItemObj owner key, ''itemids'')"
proof -
  have "map_of (rev d) k = map_of d k" for k
    using assms(1) by (simp add: plain_item_def dict_keys_distinct_def map_of_rev_distinct)
  then show ?thesis using assms
    by (simp add: created_by_def creation_of_def new_item_def dget_def map_of_adict_merge plain_item_def)
qed

lemma ensure_item_truth:
  assumes doc: "documented srv ids" and d: "plain_item d"
  shows "triple (\<lambda>_. True) (ensure_item srv owner d) (\<lambda>i. exist ids {(ItemObj owner (item_key d), i)}) (\<lambda>_ _. True)"
proof (cases "dget d ''key_''")
  case None
  then show ?thesis by (simp add: ensure_item_def triple_def raise_def)
next
  case (Some key)
  have look: "lookup_call (ItemObj owner key) = (''item.get'', VDict [(VStr ''hostids'', VList [owner]),
     (VStr ''filter'', VDict [(VStr ''key_'', VList [key])]), (VStr ''output'', VList [VStr ''itemid''])], ''itemid'')"
    by simp
  have "triple (\<lambda>s. truthy i \<longrightarrow> exist ids {(ItemObj owner key, i)} s)
     (if truthy i then bindM (call srv ''item.update'' (VDict [(VStr ''itemid'', i), (VStr ''tags'', item_tags d)]))
         (\<lambda>_. ret i)
      else create_id srv ''item.create'' (VDict (new_item owner d)) ''itemids'')
     (\<lambda>i. exist ids {(ItemObj owner key, i)}) (\<lambda>_ _. True)" for i
  proof (rule triple_if)
    assume "truthy i"
    show "triple (\<lambda>s. truthy i \<longrightarrow> exist ids {(ItemObj owner key, i)} s)
      (bindM (call srv ''item.update'' (VDict [(VStr ''itemid'', i), (VStr ''tags'', item_tags d)])) (\<lambda>_. ret i))
      (\<lambda>i. exist ids {(ItemObj owner key, i)}) (\<lambda>_ _. True)"
      using \<open>truthy i\<close> by (intro triple_bind[OF triple_conseq[OF call_keeps[OF doc]]] triple_ret) auto
  next
    assume "\<not> truthy i"
    then show "triple (\<lambda>s. truthy i \<longrightarrow> exist ids {(ItemObj owner key, i)} s)
      (create_id srv ''item.create'' (VDict (new_item owner d)) ''itemids'')
      (\<lambda>i. exist ids {(ItemObj owner key, i)}) (\<lambda>_ _. True)"
      by (intro triple_conseq[OF create_truth[OF doc created_item[OF d Some]]]) auto
  qed
  then show ?thesis using Some
    by (auto simp: ensure_item_def get_item_id_def item_key_def intro!: triple_bind[OF find_truth[OF doc look]])
qed

lemma ensure_item_existing:
  assumes doc: "documented srv ids" and d: "plain_item d"
  shows "triple (\<lambda>s. exist ids {(ItemObj owner (item_key d), i)} s \<and> limited M s) (ensure_item srv owner d)
     (\<lambda>j s. j = i \<and> limited M s) (\<lambda>_. limited M)"
proof (cases "dget d ''key_''")
  case None
  then show ?thesis by (simp add: ensure_item_def triple_def raise_def)
next
  case (Some key)
  have look: "lookup_call (ItemObj owner key) = (''item.get'', VDict [(VStr ''hostids'', VList [owner]),
     (VStr ''filter'', VDict [(VStr ''key_'', VList [key])]), (VStr ''output'', VList [VStr ''itemid''])], ''itemid'')"
    by simp
  have reads: "\<not> endswith ''item.get'' ''.create''" "\<not> endswith ''item.update'' ''.create''"
    by (simp_all add: endswith_def startswith_def)
  show ?thesis
  proof (cases "truthy i")
    case False
    then have "\<not> exist ids {(k, i)} s" for k s using documented_truthy[OF doc] by (auto simp: exist_def)
    then show ?thesis by (simp add: triple_def)
  next
    case True
    have find: "triple (\<lambda>s. exist ids {(ItemObj owner key, i)} s \<and> limited M s) (get_item_id srv owner key)
       (\<lambda>j s. j = i \<and> limited M s) (\<lambda>_. limited M)"
      using triple_both[OF find_existing[OF doc look, where i = i] find_reads[OF reads(1)]]
      unfolding get_item_id_def by (rule triple_conseq) auto
    have update: "triple (\<lambda>s. j = i \<and> limited M s)
       (if truthy j then bindM (call srv ''item.update'' (VDict [(VStr ''itemid'', j), (VStr ''tags'', item_tags d)]))
           (\<lambda>_. ret j)
        else create_id srv ''item.create'' (VDict (new_item owner d)) ''itemids'')
       (\<lambda>j s. j = i \<and> limited M s) (\<lambda>_. limited M)" for j
    proof (cases "j = i")
      case False
      then show ?thesis by (simp add: triple_def)
    next
      case True
      then show ?thesis using \<open>truthy i\<close> by (auto intro: triple_bind[OF call_reads[OF reads(2)]] triple_ret)
    qed
    show ?thesis using Some triple_bind[OF find update]
      by (simp add: ensure_item_def item_key_def)
  qed
qed

interpretation host_groups: ensured ensure_hostgroup HostGroup "\<lambda>_. True"
  unfolding ensure_hostgroup_def get_hostgroup_id_def
  by unfold_locales (rule or_create_truth or_create_existing or_create_keeps,
      simp_all add: created_by_def creation_of_def Let_def endswith_def startswith_def)+

interpretation template_groups: ensured ensure_templategroup TemplateGroup "\<lambda>_. True"
  unfolding ensure_templategroup_def get_templategroup_id_def
  by unfold_locales (rule or_create_truth or_create_existing or_create_keeps,
      simp_all add: created_by_def creation_of_def Let_def endswith_def startswith_def)+

interpretation templates: ensured "\<lambda>srv (name, gid, description). ensure_template srv name gid description"
    "\<lambda>(name, gid, description). TemplateObj name" "\<lambda>_. True"
  unfolding ensure_template_def get_template_id_def case_prod_unfold
  by unfold_locales (rule or_create_truth or_create_existing or_create_keeps,
      simp_all add: created_by_def creation_of_def Let_def endswith_def startswith_def)+

interpretation hosts: ensured "\<lambda>srv (name, gid). ensure_host srv name gid" "\<lambda>(name, gid). HostObj name" "\<lambda>_. True"
  unfolding ensure_host_def get_host_id_def case_prod_unfold
  by unfold_locales (rule or_create_truth or_create_existing or_create_keeps,
      simp_all add: created_by_def creation_of_def Let_def endswith_def startswith_def)+

interpretation items: ensured "\<lambda>srv (owner, d). ensure_item srv owner d" "\<lambda>(owner, d). ItemObj owner (item_key d)"
    "\<lambda>(owner, d). plain_item d"
  unfolding case_prod_unfold
  by unfold_locales (rule ensure_item_truth ensure_item_existing item_update_keeps, simp_all)+

subsection \<open>A server that keeps the promises\<close>

text \<open>
  A small server for the witnesses: it numbers the objects it is asked to create, refuses to create one
  twice, knows and accepts no triggers, and accepts every other call.
\<close>

fun only_entry :: "pyval \<Rightarrow> pyval" where
  "only_entry (VList [x]) = x"
| "only_entry v = VNone"

definition query_of :: "string \<Rightarrow> pyval \<Rightarrow> pyval \<Rightarrow> (obj \<times> string) option" where
  "query_of m q flt = (
     if m = ''hostgroup.get'' then Some (HostGroup (only_entry (field flt ''name'')), ''groupid'')
     else if m = ''templategroup.get'' then Some (TemplateGroup (only_entry (field flt ''name'')), ''groupid'')
     else if m = ''template.get'' then Some (TemplateObj (only_entry (field flt ''host'')), ''templateid'')
     else if m = ''host.get'' then Some (HostObj (only_entry (field flt ''host'')), ''hostid'')
     else if m = ''item.get'' then
       Some (ItemObj (only_entry (field q ''hostids'')) (only_entry (field flt ''key_'')), ''itemid'')
     else if m = ''dashboard.get'' then Some (DashboardObj (field flt ''name''), ''dashboardid'')
     else if m = ''templatedashboard.get'' then
       Some (TemplateDashboardObj (only_entry (field q ''templateids'')) (field flt ''name''), ''dashboardid'')
     else None)"

definition asked_for :: "pyval \<Rightarrow> (obj \<times> string) option" where
  "asked_for p = query_of (method_of p) (field p ''params'') (field (field p ''params'') ''filter'')"

definition example_ids :: "(obj \<times> int) list \<Rightarrow> obj \<Rightarrow> pyval option" where
  "example_ids t k = map_option (\<lambda>n. VStr (CHR ''#'' # str_int n)) (map_of t k)"

fun found :: "string \<Rightarrow> pyval option \<Rightarrow> pyval" where
  "found f None = VList []"
| "found f (Some i) = VList [VDict [(VStr f, i)]]"

definition result_of :: "pyval \<Rightarrow> reply" where
  "result_of v = Body (VDict [(VStr ''result'', v)])"

definition example_server :: "(obj \<times> int) list server" where
  "example_server t p = (case created_by p of
     Some (k, f) \<Rightarrow> if map_of t k = None
       then (result_of (VDict [(VStr f, VList [VStr (CHR ''#'' # str_int (int (length t)))])]), (k, int (length t)) # t)
       else (Body (VDict [(VStr ''error'', VDict [])]), t)
   | None \<Rightarrow> (case asked_for p of
       Some (k, f) \<Rightarrow> (result_of (found f (example_ids t k)), t)
     | None \<Rightarrow> if method_of p = ''trigger.create'' then (Body (VDict [(VStr ''error'', VDict [])]), t)
         else if method_of p = ''trigger.get'' then (result_of (VList []), t)
         else (result_of (VStr ''ok''), t)))"

lemma reply_result_of [simp]: "reply_result m (result_of v) = Inr v"
  by (simp add: result_of_def rpc_result_def)

lemma asked_for_lookup:
  "lookup_call k = (m, q, f) \<Longrightarrow>
     asked_for (rpc_payload m q n token) = Some (k, f) \<and> created_by (rpc_payload m q n token) = None"
  by (cases k; clarsimp; simp add: asked_for_def query_of_def created_by_def creation_of_def name_filter_def
      dashboard_query_def template_dashboard_query_def)

lemma example_server_documented: "documented example_server example_ids"
  unfolding documented_def
proof (intro conjI allI impI)
  fix s k i assume "example_ids s k = Some i"
  then show "truthy i" by (auto simp: example_ids_def)
next
  fix s p k i assume "example_ids s k = Some i"
  then show "example_ids (snd (example_server s p)) k = Some i"
    by (auto simp: example_server_def example_ids_def split: option.split)
next
  fix s k m q f n token a
  assume "lookup_call k = (m, q, f)"
    and "reply_result m (fst (example_server s (rpc_payload m q n token))) = Inr a"
  then have "a = found f (example_ids s k)" using asked_for_lookup[of k m q f n token]
    by (simp add: example_server_def)
  then show "tells f (example_ids s k) a" by (cases "example_ids s k") (simp_all add: tells_def)
next
  fix s p k f m a
  assume "created_by p = Some (k, f)" and "reply_result m (fst (example_server s p)) = Inr a"
  then show "\<exists>i. a = VDict [(VStr f, VList [i])] \<and> example_ids (snd (example_server s p)) k = Some i"
    by (auto simp: example_server_def example_ids_def rpc_result_def split: if_splits)
qed

end
