(* ===== verification/ZabbixScripts.thy ===== *)
theory ZabbixScripts
  imports ZabbixServer ConfigLoader
begin

section \<open>What the provisioning scripts share (\<open>src/zabbix_update/_common.py\<close>)\<close>

text \<open>
  Loading of YAML files, the wait for the web interface, credentials, and the session every \<open>main\<close>
  opens and closes. \<open>script_env\<close> is what surrounds a script: the files (as in \<open>cfg_env\<close>), environment
  variables, what the user types, and the web interface: \<open>se_probe k url\<close> answers the \<open>k\<close>-th GET of the
  wait, \<open>se_extra k\<close> is the time in milliseconds that round \<open>k\<close> takes beyond its sleep of five seconds
  (the clock is not set back while a script waits).
\<close>

datatype probe = Status int | Unreachable | ProbeBroken exn

record script_env =
  se_cfg :: cfg_env
  se_getenv :: "string \<Rightarrow> string option"
  se_input :: "string res"
  se_getpass :: "string res"
  se_probe :: "nat \<Rightarrow> string \<Rightarrow> probe"
  se_extra :: "nat \<Rightarrow> nat"

record script_args =
  sa_api_url :: "string option"
  sa_user :: "string option"
  sa_password :: "string option"
  sa_no_wait :: bool
  sa_config :: string
  sa_template :: string
  sa_metrics :: string
  sa_only_enabled :: bool
  sa_triggers :: string
  sa_target :: string
  sa_dashboard :: string
  sa_host :: "string option"

subsection \<open>Files\<close>

definition exists_file :: "script_env \<Rightarrow> string \<Rightarrow> bool" where
  "exists_file env path \<longleftrightarrow> ce_read (se_cfg env) path \<noteq> None"

definition load_yaml :: "script_env \<Rightarrow> string \<Rightarrow> pyval res" where
  "load_yaml env path = (case ce_read (se_cfg env) path of
     None \<Rightarrow> Inl FileNotFoundError
   | Some r \<Rightarrow> rbind r (\<lambda>v. Inr (if truthy v then v else VDict [])))"

definition server_host_from_config :: "script_env \<Rightarrow> string \<Rightarrow> string" where
  "server_host_from_config env path =
     (case rbind (load_yaml env path) (\<lambda>data.
           rbind (vget data ''zabbix'' (VDict [])) (\<lambda>z.
           rbind (vget z ''server_host'' (VList [VStr ''127.0.0.1''])) (\<lambda>raw. Inr (case raw of
             VList hs \<Rightarrow> (case hs of [] \<Rightarrow> ''127.0.0.1'' | h # _ \<Rightarrow> py_str h)
           | _ \<Rightarrow> py_str raw))))
      of Inl e \<Rightarrow> ''127.0.0.1'' | Inr s \<Rightarrow> s)"

fun pick_metrics :: "bool \<Rightarrow> pyval list \<Rightarrow> pyval list res" where
  "pick_metrics only_enabled [] = Inr []"
| "pick_metrics only_enabled (m # ms) =
     rbind (if only_enabled then rbind (vget m ''enabled'' (VBool True)) (\<lambda>e. Inr (e = VBool False))
            else Inr False) (\<lambda>skip.
     if skip then pick_metrics only_enabled ms
     else rbind (vget m ''key'' VNone) (\<lambda>key.
          rbind (pick_metrics only_enabled ms) (\<lambda>rest. Inr (if truthy key then m # rest else rest))))"

definition load_metrics :: "script_env \<Rightarrow> string \<Rightarrow> bool \<Rightarrow> pyval list res" where
  "load_metrics env path only_enabled =
     rbind (load_yaml env path) (\<lambda>data.
     rbind (vget data ''metrics'' (VList [])) (\<lambda>ms.
     rbind (py_iter ms) (pick_metrics only_enabled)))"

subsection \<open>Waiting for the web interface\<close>

text \<open>\<open>re.sub(r"api_jsonrpc\.php$", "index.php", url)\<close>: the pattern also matches before a final newline.\<close>

definition ui_url :: "string \<Rightarrow> string" where
  "ui_url url = (let tail = ''api_jsonrpc.php''; nl = [CHR 0x0A] in
     if endswith url tail then take (length url - length tail) url @ ''index.php''
     else if endswith url (tail @ nl) then take (length url - length tail - 1) url @ ''index.php'' @ nl
     else url)"

text \<open>Result and number of probes; times in milliseconds.\<close>

function wait_loop :: "script_env \<Rightarrow> string \<Rightarrow> int \<Rightarrow> int \<Rightarrow> nat \<Rightarrow> unit res \<times> nat" where
  "wait_loop env url deadline now k =
     (if now < deadline then
        (case se_probe env k url of
           Status c \<Rightarrow> if c < 500 then (Inr (), k + 1)
             else wait_loop env url deadline (now + 5000 + int (se_extra env k)) (k + 1)
         | Unreachable \<Rightarrow> wait_loop env url deadline (now + 5000 + int (se_extra env k)) (k + 1)
         | ProbeBroken e \<Rightarrow> (Inl e, k + 1))
      else (Inl (RuntimeError (Issue ''Zabbix API did not respond'' [])), k))"
  by pat_completeness auto
termination
  by (relation "measure (\<lambda>(env, url, deadline, now, k). nat (deadline - now))") auto

declare wait_loop.simps [simp del]

definition wait_for_api :: "script_env \<Rightarrow> string \<Rightarrow> int \<Rightarrow> unit res" where
  "wait_for_api env api_url max_wait = fst (wait_loop env (ui_url api_url) (max_wait * 1000) 0 0)"

definition wait_unless :: "script_env \<Rightarrow> script_args \<Rightarrow> string \<Rightarrow> unit res" where
  "wait_unless env args api_url = (if sa_no_wait args then Inr () else wait_for_api env api_url 120)"

subsection \<open>Credentials and address\<close>

definition text_or :: "string option \<Rightarrow> string option \<Rightarrow> string option" where
  \<comment> \<open>\<open>a or b\<close>, where an empty text counts as missing\<close>
  "text_or a b = (case a of None \<Rightarrow> b | Some s \<Rightarrow> if s = [] then b else a)"

definition resolve_credentials :: "script_env \<Rightarrow> string option \<Rightarrow> string option \<Rightarrow> (string \<times> string) res" where
  "resolve_credentials env args_user args_password =
     (let user = text_or args_user (se_getenv env ''ZABBIX_ADMIN_USER'');
          password = text_or args_password (se_getenv env ''ZABBIX_ADMIN_PASSWORD'') in
      rbind (case text_or user None of Some u \<Rightarrow> Inr u
        | None \<Rightarrow> rbind (se_input env) (\<lambda>line. Inr (if py_strip line = [] then ''Admin'' else py_strip line))) (\<lambda>u.
      rbind (case text_or password None of Some p \<Rightarrow> Inr p | None \<Rightarrow> se_getpass env) (\<lambda>p.
      Inr (u, p))))"

definition resolve_api_url :: "script_env \<Rightarrow> string option \<Rightarrow> pyval \<Rightarrow> string" where
  "resolve_api_url env args_api_url server_host =
     (case text_or (text_or args_api_url (se_getenv env ''ZABBIX_API_URL'')) None of
        Some u \<Rightarrow> u | None \<Rightarrow> ''http://'' @ py_str server_host @ '':8080/api_jsonrpc.php'')"

subsection \<open>The session of a script\<close>

text \<open>
  \<open>try: login; body; except RuntimeError: return 1; finally: logout\<close>, then \<open>return 0\<close>.
\<close>

definition with_session :: "'s server \<Rightarrow> string \<times> string \<Rightarrow> ('s, unit) api \<Rightarrow> ('s, int) api" where
  "with_session srv creds body = finallyM
     (catchM (bindM (login srv (VStr (fst creds)) (VStr (snd creds))) (\<lambda>_. bindM body (\<lambda>_. ret 0)))
        (on_runtime_error (ret 1)))
     (logout srv)"

definition connect_and :: "'s server \<Rightarrow> script_env \<Rightarrow> script_args \<Rightarrow> pyval \<Rightarrow> ('s, unit) api \<Rightarrow> ('s, int) api" where
  \<comment> \<open>The end of every \<open>main\<close>: address, wait, credentials, session.\<close>
  "connect_and srv env args server_host body =
     bindM (lift (wait_unless env args (resolve_api_url env (sa_api_url args) server_host))) (\<lambda>_.
     bindM (lift (resolve_credentials env (sa_user args) (sa_password args))) (\<lambda>creds.
     with_session srv creds body))"

definition first_missing :: "script_env \<Rightarrow> string list \<Rightarrow> string option" where
  "first_missing env paths = List.find (\<lambda>p. \<not> exists_file env p) paths"

subsection \<open>The wait ends\<close>

lemma wait_loop_probes:
  "now < deadline + 5000 \<Longrightarrow> 5000 * int (snd (wait_loop env url deadline now k) - k) < deadline + 5000 - now
     \<and> k \<le> snd (wait_loop env url deadline now k)"
proof (induction env url deadline now k rule: wait_loop.induct)
  case (1 env url deadline now k)
  let ?later = "now + 5000 + int (se_extra env k)"
  show ?case
  proof (cases "now < deadline \<and> (case se_probe env k url of Status c \<Rightarrow> \<not> c < 500 | Unreachable \<Rightarrow> True | ProbeBroken e \<Rightarrow> False)")
    case True
    then have eq: "wait_loop env url deadline now k = wait_loop env url deadline ?later (k + 1)"
      by (subst wait_loop.simps) (auto split: probe.splits)
    show ?thesis
    proof (cases "?later < deadline + 5000")
      case later: True
      then have "5000 * int (snd (wait_loop env url deadline ?later (k + 1)) - (k + 1)) < deadline + 5000 - ?later
          \<and> k + 1 \<le> snd (wait_loop env url deadline ?later (k + 1))"
        using True "1.IH" by (auto split: probe.splits)
      then show ?thesis unfolding eq by auto
    next
      case False
      then have "snd (wait_loop env url deadline ?later (k + 1)) = k + 1"
        by (subst wait_loop.simps) simp
      then show ?thesis using True unfolding eq by simp
    qed
  next
    case False
    then show ?thesis using "1.prems" by (subst (1 2) wait_loop.simps) (auto split: probe.splits)
  qed
qed

lemma wait_loop_ready:
  "wait_loop env url deadline now k = (Inr (), n) \<Longrightarrow> \<exists>c. k < n \<and> se_probe env (n - 1) url = Status c \<and> c < 500"
proof (induction env url deadline now k rule: wait_loop.induct)
  case (1 env url deadline now k)
  show ?case
    using "1.prems" by (subst (asm) wait_loop.simps)
      (auto split: if_splits probe.splits dest: "1.IH"(1) "1.IH"(2))
qed

text \<open>
  The wait for the web interface ends: it asks at most once per five seconds of the time allowed,
  so at most 24 times in the two minutes the scripts allow. When it succeeds, its last question was
  answered with a status below 500; when it fails without an unexpected exception, it raises a
  \<open>RuntimeError\<close>.
\<close>

theorem wait_is_bounded:
  "5 * snd (wait_loop env url (120 * 1000) 0 0) < 125
   \<and> (case wait_loop env url (120 * 1000) 0 0 of
        (Inr u, n) \<Rightarrow> (\<exists>c. se_probe env (n - 1) url = Status c \<and> c < 500)
      | (Inl e, n) \<Rightarrow> is_runtime_error e \<or> (\<exists>k. se_probe env k url = ProbeBroken e))"
proof -
  have fails: "wait_loop env url deadline now k = (Inl e, n) \<Longrightarrow>
      is_runtime_error e \<or> (\<exists>k. se_probe env k url = ProbeBroken e)" for deadline now k e n
  proof (induction env url deadline now k rule: wait_loop.induct)
    case (1 env url deadline now k)
    show ?case
      using "1.prems" by (subst (asm) wait_loop.simps)
        (auto split: if_splits probe.splits dest: "1.IH"(1) "1.IH"(2))
  qed
  obtain r n where run: "wait_loop env url (120 * 1000) 0 0 = (r, n)" by fastforce
  show ?thesis
  proof (cases r)
    case (Inl e)
    with run show ?thesis using wait_loop_probes[of 0 "120 * 1000" env url 0] fails by auto
  next
    case (Inr u)
    with run show ?thesis using wait_loop_probes[of 0 "120 * 1000" env url 0] wait_loop_ready by auto
  qed
qed

subsection \<open>The session is closed\<close>

lemma call_auth [simp]: "za_auth (snd (call srv m q api)) = za_auth api"
  by (simp add: call_eq Let_def)

lemma logout_cases:
  assumes "logout srv api = (r, api')"
  shows "case r of Inr u \<Rightarrow> \<not> truthy (za_auth api')
     | Inl e \<Rightarrow> \<not> is_runtime_error e \<and> truthy (za_auth api)"
proof (cases "truthy (za_auth api)")
  case False
  with assms show ?thesis by (auto simp: logout_def bindM_def)
next
  case True
  obtain q t where call: "call srv ''user.logout'' (VList []) api = (q, t)" by fastforce
  show ?thesis
    using assms True call
    by (cases q) (auto simp: logout_def bindM_def catchM_def set_auth_def split: if_splits)
qed

lemma with_session_cases:
  assumes "with_session srv creds body api = (r, api')"
  defines "work \<equiv> bindM (login srv (VStr (fst creds)) (VStr (snd creds))) (\<lambda>_. body)"
  obtains (failed) e where "r = Inl e" and "\<not> is_runtime_error e"
  | (completed) t where "r = Inr 0" and "work api = (Inr (), t)" and "logout srv t = (Inr (), api')"
      and "\<not> truthy (za_auth api')"
  | (refused) e t where "r = Inr 1" and "work api = (Inl e, t)" and "is_runtime_error e"
      and "logout srv t = (Inr (), api')" and "\<not> truthy (za_auth api')"
proof -
  let ?attempt = "catchM (bindM (login srv (VStr (fst creds)) (VStr (snd creds))) (\<lambda>_. bindM body (\<lambda>_. ret 0)))
      (on_runtime_error (ret (1::int)))"
  have attempt_eq: "?attempt = catchM (bindM work (\<lambda>_. ret 0)) (on_runtime_error (ret 1))"
    by (simp add: work_def bindM_assoc)
  obtain q t where work: "work api = (q, t)" by fastforce
  obtain q' t' where tried: "?attempt api = (q', t')" by fastforce
  have q': "q' = (case q of Inr u \<Rightarrow> Inr 0 | Inl e \<Rightarrow> if is_runtime_error e then Inr 1 else Inl e)"
    using tried work unfolding attempt_eq by (cases q) (auto simp: catchM_def bindM_def)
  obtain z u where out: "logout srv t' = (z, u)" by fastforce
  have same: "t' = t" if "q = Inr v \<or> (q = Inl e \<and> is_runtime_error e)" for v e
    using tried work that unfolding attempt_eq by (auto simp: catchM_def bindM_def)
  have r: "r = (case z of Inl e \<Rightarrow> Inl e | Inr _ \<Rightarrow> q')" "api' = u"
    using assms(1) tried out by (auto simp: with_session_def finallyM_def split: sum.splits)
  note closed = logout_cases[OF out]
  show thesis
  proof (cases z)
    case (Inl e)
    then show thesis using closed r failed by simp
  next
    case ok: (Inr y)
    show thesis
    proof (cases q)
      case (Inr v)
      then show thesis using ok out closed r q' work same[of v] completed by simp
    next
      case (Inl e)
      then show thesis using ok out closed r q' work same[of _ e] failed refused by (cases "is_runtime_error e") auto
    qed
  qed
qed


definition refusing_server :: "unit server" where
  "refusing_server s p = (Body (VDict [(VStr ''error'', VDict [(VStr ''message'', VStr ''no'')])]), s)"


subsection \<open>Rules for sessions\<close>

definition grows :: "('s \<Rightarrow> obj \<Rightarrow> pyval option) \<Rightarrow> 's zapi \<Rightarrow> 's zapi \<Rightarrow> bool" where
  "grows ids api api' \<longleftrightarrow> (\<forall>k i. ids (za_server api) k = Some i \<longrightarrow> ids (za_server api') k = Some i)"

lemma growsI:
  assumes "\<And>K. triple (exist ids K) m (\<lambda>_. exist ids K) (\<lambda>_. exist ids K)" and "m api = (r, api')"
  shows "grows ids api api'"
  unfolding grows_def
proof (intro allI impI)
  fix k i assume "ids (za_server api) k = Some i"
  then have "exist ids {(k, i)} api" by (simp add: exist_def)
  then have "exist ids {(k, i)} api'"
    using assms by (cases r) (blast dest: triple_returns triple_raises)+
  then show "ids (za_server api') k = Some i" by (simp add: exist_def)
qed

lemma growsD: "grows ids api api' \<Longrightarrow> ids (za_server api) k = Some i \<Longrightarrow> ids (za_server api') k = Some i"
  by (simp add: grows_def)

context ensured
begin

lemma ensure_grows: "documented srv ids \<Longrightarrow> ensure srv k api = (r, api') \<Longrightarrow> grows ids api api'"
  using growsI[of ids "ensure srv k", OF keeps] by blast

end

lemma set_auth_keeps [triple_intros]: "triple (exist ids K) (set_auth t) (\<lambda>_. exist ids K) E"
  by (simp add: set_auth_def triple_def exist_def)

lemma set_auth_reads [triple_intros]: "triple (limited M) (set_auth t) (\<lambda>_. limited M) E"
  by (simp add: set_auth_def triple_def limited_def)

lemma triple_on_runtime_error:
  assumes "triple P m Q (\<lambda>_. R)" and "triple R k Q (\<lambda>_. R)"
  shows "triple P (catchM m (on_runtime_error k)) Q (\<lambda>_. R)"
  by (rule triple_catch[OF assms(1)]) (use assms(2) in simp)

lemma login_keeps:
  "documented srv ids \<Longrightarrow> triple (exist ids K) (login srv u p) (\<lambda>_. exist ids K) (\<lambda>_. exist ids K)"
  unfolding login_def by (intro triple_on_runtime_error triple_bind[OF call_keeps] set_auth_keeps)

lemma login_reads: "triple (limited M) (login srv u p) (\<lambda>_. limited M) (\<lambda>_. limited M)"
  unfolding login_def
  by (intro triple_on_runtime_error triple_bind[OF call_reads] set_auth_reads)
    (simp_all add: endswith_def startswith_def)

lemma triple_logout:
  assumes "triple I (call srv ''user.logout'' (VList [])) (\<lambda>_. I) (\<lambda>_. I)"
    and "triple I (set_auth VNone) (\<lambda>_. I) (\<lambda>_. I)"
  shows "triple I (logout srv) (\<lambda>_. I) (\<lambda>_. I)"
proof -
  have close: "triple I (bindM (catchM (bindM (call srv ''user.logout'' (VList [])) (\<lambda>_. ret ()))
      (on_runtime_error (ret ()))) (\<lambda>_. set_auth VNone)) (\<lambda>_. I) (\<lambda>_. I)"
  proof (rule triple_bind[where R = "\<lambda>_. I"])
    show "triple I (catchM (bindM (call srv ''user.logout'' (VList [])) (\<lambda>_. ret ())) (on_runtime_error (ret ())))
       (\<lambda>_. I) (\<lambda>_. I)"
      by (rule triple_on_runtime_error[OF triple_bind[OF assms(1)]]) (rule triple_ret, assumption)+
  qed (rule assms(2))
  show ?thesis
    using close by (fastforce simp: logout_def triple_def bindM_def)
qed

lemma logout_keeps:
  "documented srv ids \<Longrightarrow> triple (exist ids K) (logout srv) (\<lambda>_. exist ids K) (\<lambda>_. exist ids K)"
  by (intro triple_logout call_keeps set_auth_keeps)

lemma logout_reads: "triple (limited M) (logout srv) (\<lambda>_. limited M) (\<lambda>_. limited M)"
  by (intro triple_logout call_reads set_auth_reads) (simp add: endswith_def startswith_def)

lemma session_reads:
  assumes doc: "documented srv ids"
    and body: "triple (\<lambda>s. exist ids K s \<and> limited M s) body (\<lambda>_. limited M) (\<lambda>_. limited M)"
  shows "triple (\<lambda>s. exist ids K s \<and> limited M s) (with_session srv creds body) (\<lambda>_. limited M) (\<lambda>_. limited M)"
  unfolding with_session_def
proof (rule triple_finally[OF triple_on_runtime_error logout_reads])
  show "triple (\<lambda>s. exist ids K s \<and> limited M s)
    (bindM (login srv (VStr (fst creds)) (VStr (snd creds))) (\<lambda>_. bindM body (\<lambda>_. ret 0))) (\<lambda>_. limited M) (\<lambda>_. limited M)"
  proof (rule triple_bind)
    show "triple (\<lambda>s. exist ids K s \<and> limited M s) (login srv (VStr (fst creds)) (VStr (snd creds)))
        (\<lambda>_ s. exist ids K s \<and> limited M s) (\<lambda>_. limited M)"
      using triple_both[OF login_keeps[OF doc] login_reads] by (rule triple_conseq) auto
    show "triple (\<lambda>s. exist ids K s \<and> limited M s) (bindM body (\<lambda>_. ret 0)) (\<lambda>_. limited M) (\<lambda>_. limited M)"
      by (intro triple_bind[OF body] triple_ret)
  qed
qed (rule triple_ret)

lemma connect_reads:
  assumes "documented srv ids"
    and "triple (\<lambda>s. exist ids K s \<and> limited M s) body (\<lambda>_. limited M) (\<lambda>_. limited M)"
  shows "triple (\<lambda>s. exist ids K s \<and> limited M s) (connect_and srv env args h body) (\<lambda>_. limited M) (\<lambda>_. limited M)"
proof -
  note session = session_reads[OF assms]
  show ?thesis unfolding connect_and_def
    using session by (auto simp: triple_def bindM_def split: sum.split)
qed

lemma session_completed:
  assumes "documented srv ids" and "with_session srv creds body (new_api t) = (Inr 0, api')"
  obtains s u where "login srv (VStr (fst creds)) (VStr (snd creds)) (new_api t) = (Inr (), s)"
    and "body s = (Inr (), u)" and "grows ids u api'"
  using assms(2)
proof (cases rule: with_session_cases)
  case (completed v)
  then obtain s where "login srv (VStr (fst creds)) (VStr (snd creds)) (new_api t) = (Inr (), s)" "body s = (Inr (), v)"
    by (auto elim: bindM_InrE)
  then show thesis using that growsI[OF logout_keeps[OF assms(1)] completed(3)] by blast
qed simp_all

lemma connect_completed:
  assumes "documented srv ids" and "connect_and srv env args h body (new_api t) = (Inr 0, api')"
  obtains creds s u where "login srv (VStr (fst creds)) (VStr (snd creds)) (new_api t) = (Inr (), s)"
    and "body s = (Inr (), u)" and "grows ids u api'"
proof -
  obtain creds where "with_session srv creds body (new_api t) = (Inr 0, api')"
    using assms(2) by (auto simp: connect_and_def bindM_def split: sum.splits)
  then show thesis using session_completed[OF assms(1)] that by metis
qed

end
