(* ===== verification/TemplateItems.thy ===== *)
theory TemplateItems
  imports ZabbixScripts
begin

section \<open>Templates and trapper items (\<open>create_template.py\<close>, \<open>create_trapper_items.py\<close>)\<close>

text \<open>
  The item definitions built from \<open>metrics.yaml\<close> and \<open>template.yaml\<close>, and the two scripts that create
  them on a template or directly on a host. The builders of \<open>create_trapper_items.py\<close> are copies of
  those of \<open>create_template.py\<close> and are the same functions here. The properties: what an item
  definition is made of, and that a script can be run again: it then creates nothing.
\<close>

subsection \<open>Item definitions\<close>

definition VT_FLOAT :: int where "VT_FLOAT = 0"
definition VT_INT :: int where "VT_INT = 3"
definition VT_TEXT :: int where "VT_TEXT = 4"

definition YAML_VT_MAP :: "(string \<times> int) list" where
  "YAML_VT_MAP = [(''float'', VT_FLOAT), (''int'', VT_INT), (''string'', VT_TEXT)]"

definition value_type_code :: "pyval \<Rightarrow> int" where
  "value_type_code v = (case map_of YAML_VT_MAP (py_lower (py_str v)) of None \<Rightarrow> VT_FLOAT | Some c \<Rightarrow> c)"

definition item_defaults :: "pyval \<Rightarrow> (pyval \<times> pyval \<times> pyval) res" where
  "item_defaults tpl =
     rbind (vget tpl ''item_defaults'' (VDict [])) (\<lambda>d.
     rbind (vget d ''history'' (VStr ''7d'')) (\<lambda>h.
     rbind (vget d ''trends'' (VStr ''365d'')) (\<lambda>t.
     rbind (vget d ''tags'' (VList [])) (\<lambda>g. Inr (h, t, g)))))"

text \<open>The definition of one item: texts, history, trends and tags from \<open>src\<close>, with their defaults.\<close>

definition describe_item :: "pyval \<Rightarrow> pyval \<Rightarrow> int \<Rightarrow> pyval \<times> pyval \<times> pyval \<Rightarrow> item_def res" where
  "describe_item key src vt dflt = (case dflt of (h, t, g) \<Rightarrow>
     rbind (vget src ''name'' key) (\<lambda>name.
     rbind (vget src ''description'' (VStr '''')) (\<lambda>description.
     rbind (vget src ''history'' h) (\<lambda>history.
     rbind (vget src ''trends'' t) (\<lambda>trends.
     rbind (vget src ''tags'' g) (\<lambda>tags.
     Inr ([(VStr ''key_'', key), (VStr ''name'', name), (VStr ''description'', description),
           (VStr ''value_type'', VInt vt), (VStr ''history'', history), (VStr ''trends'', trends)]
          @ (if truthy tags then [(VStr ''tags'', tags)] else []))))))))"

fun item_overrides :: "pyval list \<Rightarrow> (pyval \<times> pyval) list \<Rightarrow> (pyval \<times> pyval) list res" where
  "item_overrides [] ov = Inr ov"
| "item_overrides (item # rest) ov =
     rbind (vindex item ''key'') (\<lambda>key.
     if hashable key then item_overrides rest (key_set ov key item) else Inl TypeError)"

definition metric_item :: "(pyval \<times> pyval) list \<Rightarrow> pyval \<times> pyval \<times> pyval \<Rightarrow> pyval \<Rightarrow> item_def res" where
  "metric_item overrides dflt m =
     rbind (vindex m ''key'') (\<lambda>key.
     rbind (key_get (VDict overrides) key (VDict [])) (\<lambda>ov.
     rbind (vget m ''value_type'' (VStr ''float'')) (\<lambda>vt.
     describe_item key ov (value_type_code vt) dflt)))"

definition build_item_defs :: "pyval list \<Rightarrow> pyval \<Rightarrow> item_def list res" where
  "build_item_defs metrics tpl =
     rbind (item_defaults tpl) (\<lambda>dflt.
     rbind (vget tpl ''items'' (VList [])) (\<lambda>its.
     rbind (py_iter its) (\<lambda>items.
     rbind (item_overrides items []) (\<lambda>overrides.
     rmapM (metric_item overrides dflt) metrics))))"

definition own_item :: "pyval \<times> pyval \<times> pyval \<Rightarrow> pyval \<Rightarrow> item_def res" where
  \<comment> \<open>an entry that describes itself, its \<open>value_type\<close> an integer unless given\<close>
  "own_item dflt entry =
     rbind (vget entry ''value_type'' (VStr ''int'')) (\<lambda>vt.
     rbind (vindex entry ''key'') (\<lambda>key.
     describe_item key entry (value_type_code vt) dflt))"

definition build_self_mon_defs :: "pyval \<Rightarrow> item_def list res" where
  "build_self_mon_defs tpl =
     rbind (vget tpl ''self_monitoring_items'' (VList [])) (\<lambda>its.
     rbind (py_iter its) (rmapM (own_item (VStr ''7d'', VStr ''365d'', VNone))))"

definition build_additional_item_defs :: "pyval \<Rightarrow> item_def list res" where
  "build_additional_item_defs tpl =
     rbind (item_defaults tpl) (\<lambda>dflt.
     rbind (vget tpl ''additional_items'' (VList [])) (\<lambda>its.
     rbind (py_iter its) (rmapM (own_item dflt))))"

subsection \<open>The scripts\<close>

definition ensure_items :: "'s server \<Rightarrow> pyval \<Rightarrow> item_def list \<Rightarrow> ('s, unit) api" where
  "ensure_items srv owner ds = forM (\<lambda>d. bindM (ensure_item srv owner d) (\<lambda>_. ret ())) ds"

definition template_header :: "pyval \<Rightarrow> (pyval \<times> pyval \<times> pyval) res" where
  "template_header tpl =
     rbind (vindex tpl ''template'') (\<lambda>t.
     rbind (vindex t ''name'') (\<lambda>name.
     rbind (vindex t ''group'') (\<lambda>gr.
     rbind (vget t ''description'' (VStr '''')) (\<lambda>desc. Inr (name, gr, desc)))))"

text \<open>The work of the script; the value is the id of the template.\<close>

definition template_objects :: "'s server \<Rightarrow> pyval \<Rightarrow> pyval list \<Rightarrow> ('s, pyval) api" where
  "template_objects srv tpl metrics = bindM (lift (template_header tpl)) (\<lambda>(name, gr, desc).
     bindM (ensure_templategroup srv gr) (\<lambda>gid.
     bindM (ensure_template srv name gid desc) (\<lambda>tid.
     bindM (lift (build_item_defs metrics tpl)) (\<lambda>ds.
     bindM (ensure_items srv tid ds) (\<lambda>_.
     bindM (lift (build_self_mon_defs tpl)) (\<lambda>sm.
     bindM (ensure_items srv tid sm) (\<lambda>_.
     bindM (lift (build_additional_item_defs tpl)) (\<lambda>add.
     bindM (ensure_items srv tid add) (\<lambda>_. ret tid)))))))))"

definition template_run :: "'s server \<Rightarrow> pyval \<Rightarrow> pyval list \<Rightarrow> ('s, unit) api" where
  "template_run srv tpl metrics = bindM (template_objects srv tpl metrics) (\<lambda>_. ret ())"

definition template_main :: "'s server \<Rightarrow> script_env \<Rightarrow> script_args \<Rightarrow> ('s, int) api" where
  "template_main srv env args =
     (if first_missing env [sa_template args, sa_metrics args] \<noteq> None then ret 1
      else bindM (lift (load_yaml env (sa_template args))) (\<lambda>tpl.
           bindM (lift (load_metrics env (sa_metrics args) (sa_only_enabled args))) (\<lambda>metrics.
           connect_and srv env args (VStr (server_host_from_config env (sa_config args)))
             (template_run srv tpl metrics))))"

definition trapper_run ::
  "'s server \<Rightarrow> pyval \<Rightarrow> pyval \<Rightarrow> item_def list \<Rightarrow> item_def list \<Rightarrow> item_def list \<Rightarrow> ('s, unit) api" where
  "trapper_run srv host_name host_group item_defs sm_defs add_defs =
     bindM (ensure_hostgroup srv host_group) (\<lambda>gid.
     bindM (ensure_host srv host_name gid) (\<lambda>hid.
     bindM (ensure_items srv hid item_defs) (\<lambda>_.
     bindM (ensure_items srv hid sm_defs) (\<lambda>_.
     ensure_items srv hid add_defs))))"

text \<open>
  \<open>main\<close> of \<open>create_trapper_items.py\<close>. It reads \<open>zbx.server_host\<close>, but the dataclass \<open>ZabbixConfig\<close> has
  a field \<open>server_hosts\<close> only: the attribute access raises.
\<close>

definition zabbix_attribute :: "zabbix_config \<Rightarrow> string \<Rightarrow> pyval res" where
  "zabbix_attribute z name =
     (if name = ''server_hosts'' then Inr (VList (map VStr (z_server_hosts z)))
      else if name = ''server_port'' then Inr (VInt (z_server_port z))
      else if name = ''host_name'' then Inr (VStr (z_host_name z))
      else if name = ''host_group'' then Inr (VStr (z_host_group z))
      else if name = ''connect_timeout_seconds'' then Inr (VFloat (z_connect_timeout z))
      else if name = ''send_timeout_seconds'' then Inr (VFloat (z_send_timeout z))
      else Inl AttributeError)"

definition trapper_main :: "'s server \<Rightarrow> script_env \<Rightarrow> script_args \<Rightarrow> ('s, int) api" where
  "trapper_main srv env args =
     (if first_missing env [sa_config args, sa_template args, sa_metrics args] \<noteq> None then ret 1
      else case load_client_config (se_cfg env) (sa_config args) of
        Inl e \<Rightarrow> if is_exception e then ret 1 else raise e
      | Inr cfg \<Rightarrow> let zbx = cfg_zabbix cfg in
          bindM (lift (load_yaml env (sa_template args))) (\<lambda>tpl.
          bindM (lift (load_metrics env (sa_metrics args) (sa_only_enabled args))) (\<lambda>metrics.
          bindM (lift (build_item_defs metrics tpl)) (\<lambda>item_defs.
          bindM (lift (build_self_mon_defs tpl)) (\<lambda>sm_defs.
          bindM (lift (build_additional_item_defs tpl)) (\<lambda>add_defs.
          bindM (lift (zabbix_attribute zbx ''server_host'')) (\<lambda>server_host.
          connect_and srv env args server_host
            (trapper_run srv (VStr (z_host_name zbx)) (VStr (z_host_group zbx)) item_defs sm_defs add_defs))))))))"

subsection \<open>What an item definition holds\<close>

lemma describe_item_plain: "describe_item key src vt dflt = Inr d \<Longrightarrow> plain_item d \<and> item_key d = key"
  by (auto simp: describe_item_def plain_item_def dict_keys_distinct_def item_key_def split: prod.splits if_splits)

lemma own_item_plain: "own_item dflt e = Inr d \<Longrightarrow> plain_item d"
  by (auto simp: own_item_def dest: describe_item_plain)

lemma built_items_plain:
  "build_item_defs metrics tpl = Inr ds \<Longrightarrow> d \<in> set ds \<Longrightarrow> plain_item d"
  "build_self_mon_defs tpl = Inr ds \<Longrightarrow> d \<in> set ds \<Longrightarrow> plain_item d"
  "build_additional_item_defs tpl = Inr ds \<Longrightarrow> d \<in> set ds \<Longrightarrow> plain_item d"
  by (auto simp: build_item_defs_def build_self_mon_defs_def build_additional_item_defs_def metric_item_def
      dest!: rmapM_set own_item_plain describe_item_plain)

subsection \<open>Running a script again\<close>

definition items_there :: "(obj \<Rightarrow> pyval option) \<Rightarrow> pyval \<Rightarrow> item_def list \<Rightarrow> bool" where
  "items_there known owner ds \<longleftrightarrow> (\<forall>d \<in> set ds. known (ItemObj owner (item_key d)) \<noteq> None)"

lemma forM_map: "forM f (map g xs) = forM (\<lambda>x. f (g x)) xs"
  by (induction xs) simp_all

lemma ensure_items_eq: "ensure_items srv owner ds =
    forM (\<lambda>k. bindM (case k of (owner, d) \<Rightarrow> ensure_item srv owner d) (\<lambda>_. ret ())) (map (Pair owner) ds)"
  by (simp add: ensure_items_def forM_map)

lemma ensure_items_keeps:
  assumes "documented srv ids"
  shows "triple (exist ids K) (ensure_items srv owner ds) (\<lambda>_. exist ids K) (\<lambda>_. exist ids K)"
  unfolding ensure_items_def
  by (intro triple_forM triple_bind[OF item_update_keeps[OF assms]] triple_ret)

lemma ensure_items_done:
  assumes "documented srv ids" and "\<forall>d \<in> set ds. plain_item d"
    and "ensure_items srv owner ds s = (Inr (), t)"
  shows "items_there (ids (za_server t)) owner ds"
proof -
  have "\<forall>k \<in> set (map (Pair owner) ds). case k of (owner, d) \<Rightarrow> plain_item d" using assms(2) by auto
  from triple_returns[OF items.ensure_each[OF assms(1) this, where K = "{}"]]
  have "\<forall>k \<in> set (map (Pair owner) ds). \<exists>i. exist ids {(case k of (owner, d) \<Rightarrow> ItemObj owner (item_key d), i)} t"
    using assms(3) unfolding ensure_items_eq by (simp add: exist_def)
  then show ?thesis by (auto simp: items_there_def exist_def)
qed

lemma ensure_items_again:
  assumes "documented srv ids" and "\<forall>d \<in> set ds. plain_item d"
    and "\<forall>d \<in> set ds. \<exists>i. (ItemObj owner (item_key d), i) \<in> K"
  shows "triple (\<lambda>s. exist ids K s \<and> limited M s) (ensure_items srv owner ds)
     (\<lambda>_ s. exist ids K s \<and> limited M s) (\<lambda>_. limited M)"
proof -
  have "\<forall>k \<in> set (map (Pair owner) ds). (case k of (owner, d) \<Rightarrow> plain_item d)
      \<and> (\<exists>i. (case k of (owner, d) \<Rightarrow> ItemObj owner (item_key d), i) \<in> K)"
    using assms(2,3) by auto
  from items.each_again[OF assms(1) this] show ?thesis by (simp add: ensure_items_eq)
qed

lemma ensure_items_grow: "documented srv ids \<Longrightarrow> ensure_items srv owner ds s = (r, t) \<Longrightarrow> grows ids s t"
  using growsI[of ids "ensure_items srv owner ds", OF ensure_items_keeps] by blast

lemma items_there_mono:
  "items_there known owner ds \<Longrightarrow> (\<And>k i. known k = Some i \<Longrightarrow> known' k = Some i) \<Longrightarrow> items_there known' owner ds"
  by (fastforce simp: items_there_def)

lemma items_there_grow:
  "items_there (ids (za_server s)) owner ds \<Longrightarrow> grows ids s t \<Longrightarrow> items_there (ids (za_server t)) owner ds"
  by (erule items_there_mono) (erule growsD)

text \<open>The group, the template and its items exist.\<close>

definition template_there :: "pyval \<Rightarrow> pyval list \<Rightarrow> pyval \<Rightarrow> (obj \<Rightarrow> pyval option) \<Rightarrow> bool" where
  "template_there tpl metrics tid known \<longleftrightarrow> (\<exists>name gr desc gid ds sm add.
     template_header tpl = Inr (name, gr, desc) \<and> build_item_defs metrics tpl = Inr ds
     \<and> build_self_mon_defs tpl = Inr sm \<and> build_additional_item_defs tpl = Inr add
     \<and> known (TemplateGroup gr) = Some gid \<and> known (TemplateObj name) = Some tid
     \<and> items_there known tid (ds @ sm @ add))"

lemma template_there_grow:
  "template_there tpl metrics tid known \<Longrightarrow> (\<And>k i. known k = Some i \<Longrightarrow> known' k = Some i) \<Longrightarrow>
     template_there tpl metrics tid known'"
  unfolding template_there_def by (elim exE conjE) (simp, blast intro: items_there_mono)

lemma template_objects_done:
  assumes doc: "documented srv ids" and run: "template_objects srv tpl metrics s = (Inr tid, u)"
  shows "template_there tpl metrics tid (ids (za_server u))"
proof -
  from run obtain name gr desc gid ds sm add s1 s2 s3 s4 where
    built: "template_header tpl = Inr (name, gr, desc)" "build_item_defs metrics tpl = Inr ds"
      "build_self_mon_defs tpl = Inr sm" "build_additional_item_defs tpl = Inr add"
    and steps: "ensure_templategroup srv gr s = (Inr gid, s1)" "ensure_template srv name gid desc s1 = (Inr tid, s2)"
      "ensure_items srv tid ds s2 = (Inr (), s3)" "ensure_items srv tid sm s3 = (Inr (), s4)"
      "ensure_items srv tid add s4 = (Inr (), u)"
    unfolding template_objects_def by (auto elim!: bindM_InrE split: prod.splits)
  have grow: "grows ids s1 s2" "grows ids s2 s3" "grows ids s3 s4" "grows ids s4 u"
    using templates.ensure_grows[OF doc, where k = "(name, gid, desc)"] ensure_items_grow[OF doc] steps by auto
  have "ids (za_server s1) (TemplateGroup gr) = Some gid"
    using triple_returns[OF template_groups.returns_id[OF doc] _ steps(1)] by (simp add: exist_def)
  moreover have "ids (za_server s2) (TemplateObj name) = Some tid"
    using triple_returns[OF templates.returns_id[OF doc, of "(name, gid, desc)"]] steps(2) by (simp add: exist_def)
  moreover have "items_there (ids (za_server s3)) tid ds" "items_there (ids (za_server s4)) tid sm"
    "items_there (ids (za_server u)) tid add"
    using ensure_items_done[OF doc _ steps(3)] ensure_items_done[OF doc _ steps(4)]
      ensure_items_done[OF doc _ steps(5)] built_items_plain built by blast+
  ultimately have "ids (za_server u) (TemplateGroup gr) = Some gid" "ids (za_server u) (TemplateObj name) = Some tid"
    "items_there (ids (za_server u)) tid (ds @ sm @ add)"
    using grow items_there_grow[OF _ grow(3)] items_there_grow[OF _ grow(4)]
    by (auto simp: grows_def items_there_def Ball_def)
  then show ?thesis using built unfolding template_there_def by blast
qed

lemma template_objects_again:
  assumes doc: "documented srv ids" and there: "template_there tpl metrics tid known"
  defines "K \<equiv> {(k, i). known k = Some i}"
  shows "triple (\<lambda>s. exist ids K s \<and> limited M s) (template_objects srv tpl metrics)
     (\<lambda>j s. j = tid \<and> exist ids K s \<and> limited M s) (\<lambda>_. limited M)"
proof -
  from there obtain name gr desc gid ds sm add where
    built: "template_header tpl = Inr (name, gr, desc)" "build_item_defs metrics tpl = Inr ds"
      "build_self_mon_defs tpl = Inr sm" "build_additional_item_defs tpl = Inr add"
    and known: "(TemplateGroup gr, gid) \<in> K" "(TemplateObj name, tid) \<in> K"
      "\<forall>d \<in> set (ds @ sm @ add). \<exists>i. (ItemObj tid (item_key d), i) \<in> K"
    unfolding template_there_def items_there_def K_def by auto
  let ?I = "\<lambda>s. exist ids K s \<and> limited M s"
  have items: "triple ?I (ensure_items srv tid xs) (\<lambda>_. ?I) (\<lambda>_. limited M)" if "xs \<in> {ds, sm, add}" for xs
    using that known(3) built_items_plain built by (intro ensure_items_again[OF doc]) auto
  let ?Q = "\<lambda>j s. j = tid \<and> ?I s"
  let ?all = "\<lambda>o'. bindM (ensure_items srv o' ds) (\<lambda>_. bindM (ensure_items srv o' sm) (\<lambda>_.
      bindM (ensure_items srv o' add) (\<lambda>_. ret o')))"
  have tail: "triple ?I (?all tid) ?Q (\<lambda>_. limited M)"
    by (intro triple_bind[OF items] triple_ret) simp_all
  have tail_any: "triple (\<lambda>s. j = tid \<and> ?I s) (?all j) ?Q (\<lambda>_. limited M)" for j
    using tail by (cases "j = tid") (auto simp: triple_def)
  have template: "triple (\<lambda>s. g = gid \<and> ?I s) (ensure_template srv name g desc) (\<lambda>j s. j = tid \<and> ?I s) (\<lambda>_. limited M)" for g
    by (rule triple_conseq[OF templates.again[OF doc, of "(name, g, desc)" tid K, simplified]]) (use known(2) in auto)
  have "triple ?I (bindM (ensure_templategroup srv gr) (\<lambda>gid. bindM (ensure_template srv name gid desc) ?all)) ?Q (\<lambda>_. limited M)"
    by (rule triple_bind[OF template_groups.again[OF doc _ known(1)] triple_bind[OF template tail_any]]) simp
  then show ?thesis using built by (simp add: template_objects_def)
qed

lemma template_run_body:
  assumes "template_run srv tpl metrics s = (Inr (), u)"
  obtains tid where "template_objects srv tpl metrics s = (Inr tid, u)"
  using assms by (auto simp: template_run_def elim!: bindM_InrE)

lemma template_main_body:
  assumes "template_main srv env args (new_api t) = (Inr 0, api)"
  obtains tpl metrics where "template_main srv env args = connect_and srv env args
      (VStr (server_host_from_config env (sa_config args))) (template_run srv tpl metrics)"
proof -
  have none: "first_missing env [sa_template args, sa_metrics args] = None"
    using assms by (auto simp: template_main_def split: if_splits)
  moreover obtain tpl metrics where "load_yaml env (sa_template args) = Inr tpl"
    "load_metrics env (sa_metrics args) (sa_only_enabled args) = Inr metrics"
    using assms none by (auto simp: template_main_def elim!: bindM_InrE)
  ultimately show thesis by (intro that) (simp add: template_main_def)
qed

text \<open>
  \<open>create_template.py\<close> can be run again. If a run against a server that keeps the promises of the
  Zabbix API ended with exit code 0, then a later run with the same files, however it ends, posts no
  request that creates anything, as long as nobody has deleted the objects in between.
\<close>

theorem template_script_is_idempotent:
  assumes doc: "documented srv ids"
    and first: "template_main srv env args (new_api t) = (Inr 0, api)"
    and kept: "\<And>k i. ids (za_server api) k = Some i \<Longrightarrow> ids t' k = Some i"
    and second: "template_main srv env args (new_api t') = (r, api')"
  shows "\<forall>p \<in> set (za_posted api'). \<not> is_creation p"
proof -
  let ?host = "VStr (server_host_from_config env (sa_config args))"
  obtain tpl metrics where body: "template_main srv env args = connect_and srv env args ?host (template_run srv tpl metrics)"
    using template_main_body[OF first] .
  note run = first[unfolded body]
  obtain s u where done_run: "template_run srv tpl metrics s = (Inr (), u)" and grow: "grows ids u api"
    using connect_completed[OF doc run] by metis
  obtain tid where work: "template_objects srv tpl metrics s = (Inr tid, u)"
    using template_run_body[OF done_run] .
  have there: "template_there tpl metrics tid (ids t')"
    using template_there_grow[OF template_objects_done[OF doc work]] growsD[OF grow] kept by metis
  let ?K = "{(k, i). ids t' k = Some i}"
  have start: "exist ids ?K (new_api t') \<and> limited {} (new_api t')"
    by (simp add: exist_def limited_def new_api_def)
  have "triple (\<lambda>s. exist ids ?K s \<and> limited {} s) (template_run srv tpl metrics) (\<lambda>_. limited {}) (\<lambda>_. limited {})"
    unfolding template_run_def by (rule triple_bind[OF template_objects_again[OF doc there]]) (intro triple_ret, simp)
  note again = connect_reads[OF doc this]
  have "limited {} api'"
    using second start triple_returns[OF again] triple_raises[OF again] unfolding body by (cases r) blast+
  then show ?thesis by (simp add: limited_def)
qed

definition example_template :: pyval where
  "example_template = VDict [(VStr ''template'', VDict [(VStr ''name'', VStr ''T''), (VStr ''group'', VStr ''G'')]),
     (VStr ''items'', VList [VDict [(VStr ''key'', VStr ''cpu''), (VStr ''name'', VStr ''CPU'')]])]"

definition example_metrics :: pyval where
  "example_metrics = VDict [(VStr ''metrics'', VList
     [VDict [(VStr ''key'', VStr ''cpu''), (VStr ''value_type'', VStr ''Float'')], VDict [(VStr ''key'', VStr ''mem'')]])]"

definition example_script_env :: script_env where
  "example_script_env = \<lparr>se_cfg = example_client_env\<lparr>ce_read := (\<lambda>p.
       if p = ''t'' then Some (Inr example_template) else if p = ''m'' then Some (Inr example_metrics) else None)\<rparr>,
     se_getenv = (\<lambda>v. None), se_input = Inr '' '', se_getpass = Inr ''pw'',
     se_probe = (\<lambda>k url. Status 200), se_extra = (\<lambda>k. 0)\<rparr>"

definition example_script_args :: script_args where
  "example_script_args = \<lparr>sa_api_url = None, sa_user = None, sa_password = None, sa_no_wait = False,
     sa_config = ''c'', sa_template = ''t'', sa_metrics = ''m'', sa_only_enabled = False, sa_triggers = ''r'',
     sa_target = ''template'', sa_dashboard = ''d'', sa_host = None\<rparr>"

definition first_template_run :: "exn + int" where
  "first_template_run = fst (template_main example_server example_script_env example_script_args (new_api []))"

lemma first_template_run: "first_template_run = Inr 0"
  by code_simp

theorem template_script_is_idempotent_witness:
  "\<exists>api r api'. template_main example_server example_script_env example_script_args (new_api []) = (Inr 0, api)
     \<and> template_main example_server example_script_env example_script_args (new_api (za_server api)) = (r, api')
     \<and> (\<forall>p \<in> set (za_posted api'). \<not> is_creation p)"
proof -
  obtain api where first: "template_main example_server example_script_env example_script_args (new_api []) = (Inr 0, api)"
    using first_template_run unfolding first_template_run_def by (metis prod.collapse)
  obtain r api' where second:
    "template_main example_server example_script_env example_script_args (new_api (za_server api)) = (r, api')"
    by fastforce
  show ?thesis
    using template_script_is_idempotent[OF example_server_documented first _ second] first second by blast
qed

subsection \<open>The definition of a metric's item\<close>

text \<open>The entry of \<open>template.yaml\<close> that describes the item \<open>key\<close>: the last one with that key.\<close>

definition override_for :: "pyval list \<Rightarrow> string \<Rightarrow> pyval" where
  "override_for items key =
     (case List.find (\<lambda>it. vindex it ''key'' = Inr (VStr key)) (rev items) of None \<Rightarrow> VDict [] | Some it \<Rightarrow> it)"

lemma find_append: "List.find P (xs @ ys) = (case List.find P xs of None \<Rightarrow> List.find P ys | Some x \<Rightarrow> Some x)"
  by (induction xs) auto

lemma py_eq_VStr_left: "py_eq (VStr a) b \<longleftrightarrow> b = VStr a"
  by (cases b) (auto simp: py_eq_def)

lemma describe_item_new:
  assumes "describe_item key src vt dflt = Inr d"
  shows "new_item owner d = [(VStr ''hostid'', owner), (VStr ''type'', VInt 2), (VStr ''delay'', VStr ''0'')] @ d
    \<and> dget d ''key_'' = Some key"
proof -
  have "distinct (map fst ([(VStr ''hostid'', owner), (VStr ''type'', VInt 2), (VStr ''delay'', VStr ''0'')] @ d))
      \<and> dget d ''key_'' = Some key"
    using assms by (auto simp: describe_item_def split: prod.splits)
  then show ?thesis unfolding new_item_def by (simp only: adict_merge_distinct)
qed

lemma key_get_key_set:
  "key_get (VDict (key_set ov k item)) (VStr s) v = (if k = VStr s then Inr item else key_get (VDict ov) (VStr s) v)"
  by (induction ov) (auto simp: key_get_def py_eq_VStr_right py_eq_VStr_left split: option.splits)

lemma item_overrides_get:
  "item_overrides items ov = Inr ov' \<Longrightarrow> key_get (VDict ov') (VStr s) (VDict []) =
     (case List.find (\<lambda>it. vindex it ''key'' = Inr (VStr s)) (rev items) of
        None \<Rightarrow> key_get (VDict ov) (VStr s) (VDict []) | Some it \<Rightarrow> Inr it)"
proof (induction items arbitrary: ov)
  case Nil
  then show ?case by simp
next
  case (Cons it items)
  then obtain k where k: "vindex it ''key'' = Inr k" and rest: "item_overrides items (key_set ov k it) = Inr ov'"
    by (auto split: if_splits)
  show ?case using Cons.IH[OF rest] k
    by (auto simp: find_append key_get_key_set split: option.splits)
qed

text \<open>
  The items created for the metrics are exactly the metrics, in order. Each has its metric's key and
  the Zabbix type of its \<open>value_type\<close> (a float unless it says otherwise, in any letter case); its texts,
  history, trends and tags come from the last entry of \<open>template.yaml\<close> with that key, and what this entry
  lacks from \<open>item_defaults\<close>. No field that the script adds itself (\<open>hostid\<close>, \<open>type\<close>, \<open>delay\<close>) is overridden.
\<close>

theorem item_defs_follow_metrics:
  assumes built: "build_item_defs metrics tpl = Inr ds" and i: "i < length metrics"
    and key: "vindex (metrics ! i) ''key'' = Inr (VStr key)"
  shows "length ds = length metrics
    \<and> (\<exists>dflt items vt. item_defaults tpl = Inr dflt \<and> rbind (vget tpl ''items'' (VList [])) py_iter = Inr items
        \<and> vget (metrics ! i) ''value_type'' (VStr ''float'') = Inr vt
        \<and> describe_item (VStr key) (override_for items key) (value_type_code vt) dflt = Inr (ds ! i)
        \<and> value_type_code vt \<in> {VT_FLOAT, VT_INT, VT_TEXT})
    \<and> dget (new_item owner (ds ! i)) ''key_'' = Some (VStr key)
    \<and> dget (new_item owner (ds ! i)) ''hostid'' = Some owner
    \<and> dget (new_item owner (ds ! i)) ''type'' = Some (VInt 2) \<and> dget (new_item owner (ds ! i)) ''delay'' = Some (VStr ''0'')"
proof -
  obtain dflt items ov where dflt: "item_defaults tpl = Inr dflt"
    and items: "rbind (vget tpl ''items'' (VList [])) py_iter = Inr items"
    and ov: "item_overrides items [] = Inr ov" and ds: "rmapM (metric_item ov dflt) metrics = Inr ds"
    using built by (auto simp: build_item_defs_def)
  have "key_get (VDict ov) (VStr key) (VDict []) = Inr (override_for items key)"
    using item_overrides_get[OF ov] by (auto simp: override_for_def key_get_def split: option.splits)
  then obtain vt where vt: "vget (metrics ! i) ''value_type'' (VStr ''float'') = Inr vt"
    and d: "describe_item (VStr key) (override_for items key) (value_type_code vt) dflt = Inr (ds ! i)"
    using rmapM_nth[OF ds i] key by (auto simp: metric_item_def)
  have code: "value_type_code vt \<in> {VT_FLOAT, VT_INT, VT_TEXT}"
    by (auto simp: value_type_code_def YAML_VT_MAP_def split: option.split dest: map_of_SomeD)
  have fields: "dget (new_item owner (ds ! i)) ''key_'' = Some (VStr key)"
    "dget (new_item owner (ds ! i)) ''hostid'' = Some owner"
    "dget (new_item owner (ds ! i)) ''type'' = Some (VInt 2)" "dget (new_item owner (ds ! i)) ''delay'' = Some (VStr ''0'')"
    using describe_item_new[OF d, of owner] by simp_all
  show ?thesis by (intro conjI exI) (rule rmapM_length[OF ds] dflt items vt d code fields)+
qed

definition example_metric_list :: "pyval list" where
  "example_metric_list = [VDict [(VStr ''key'', VStr ''cpu''), (VStr ''value_type'', VStr ''INT'')]]"

theorem item_defs_follow_metrics_witness:
  "\<exists>ds. build_item_defs example_metric_list example_template = Inr ds
     \<and> dget (new_item (VStr ''1'') (ds ! 0)) ''key_'' = Some (VStr ''cpu'')
     \<and> dget (ds ! 0) ''name'' = Some (VStr ''CPU'') \<and> dget (ds ! 0) ''value_type'' = Some (VInt 3)"
proof -
  have "case build_item_defs example_metric_list example_template of Inl e \<Rightarrow> False | Inr ds \<Rightarrow>
     dget (ds ! 0) ''name'' = Some (VStr ''CPU'') \<and> dget (ds ! 0) ''value_type'' = Some (VInt 3)"
    by code_simp
  then obtain ds where ds: "build_item_defs example_metric_list example_template = Inr ds"
    and f: "dget (ds ! 0) ''name'' = Some (VStr ''CPU'')" "dget (ds ! 0) ''value_type'' = Some (VInt 3)"
    by (auto split: sum.splits)
  have "vindex (example_metric_list ! 0) ''key'' = Inr (VStr ''cpu'')" by (simp add: example_metric_list_def)
  from item_defs_follow_metrics[OF ds _ this, of "VStr ''1''"] show ?thesis
    using ds f by (auto simp: example_metric_list_def)
qed

text \<open>
  \<open>create_trapper_items.py\<close> cannot succeed: whatever the files, the arguments and the server, it
  never sends a request and never ends with exit code 0. It reads an attribute of the client
  configuration that does not exist.
\<close>

theorem trapper_script_never_connects:
  "fst (trapper_main srv env args (new_api t)) \<noteq> Inr 0 \<and> snd (trapper_main srv env args (new_api t)) = new_api t"
proof -
  have "zabbix_attribute z ''server_host'' = Inl AttributeError" for z
    by (simp add: zabbix_attribute_def)
  then show ?thesis
    by (auto simp: trapper_main_def bindM_def Let_def split: sum.split)
qed

end
