(* ===== verification/Triggers.thy ===== *)
theory Triggers
  imports ZabbixScripts
begin

section \<open>Triggers (\<open>create_triggers.py\<close>)\<close>

text \<open>
  Triggers from \<open>triggers.yaml\<close>, created in the order of the file on a template or a host. A trigger
  that exists is skipped, one that the server refuses is skipped too; the ids of both kinds of existing
  triggers are kept for the dependencies of the later ones.
\<close>

definition SEVERITY_MAP :: "(string \<times> int) list" where
  "SEVERITY_MAP = [(''not_classified'', 0), (''info'', 1), (''warning'', 2), (''average'', 3),
     (''high'', 4), (''disaster'', 5)]"

fun severity_code :: "pyval \<Rightarrow> int res" where
  "severity_code (VStr s) = Inr (case map_of SEVERITY_MAP s of None \<Rightarrow> 2 | Some c \<Rightarrow> c)"
| "severity_code v = (if hashable v then Inr 2 else Inl TypeError)"

text \<open>\<open>expression.replace(template_name, target_name)\<close>.\<close>

definition rename_host :: "pyval \<Rightarrow> pyval \<Rightarrow> pyval \<Rightarrow> pyval res" where
  "rename_host e old new = (case e of
     VStr s \<Rightarrow> (case old of
        VStr a \<Rightarrow> (case new of VStr b \<Rightarrow> Inr (VStr (str_replace a b s)) | _ \<Rightarrow> Inl TypeError)
      | _ \<Rightarrow> Inl TypeError)
   | _ \<Rightarrow> Inl AttributeError)"

fun dependency_links :: "(pyval \<times> pyval) list \<Rightarrow> pyval list \<Rightarrow> pyval list res" where
  "dependency_links ids [] = Inr []"
| "dependency_links ids (n # ns) =
     rbind (key_get (VDict ids) n VNone) (\<lambda>i.
     rbind (dependency_links ids ns) (\<lambda>rest.
     Inr (if truthy i then VDict [(VStr ''triggerid'', i)] # rest else rest)))"

definition build_trigger_params ::
  "pyval \<Rightarrow> pyval \<Rightarrow> pyval \<Rightarrow> bool \<Rightarrow> (pyval \<times> pyval) list \<Rightarrow> (pyval \<times> pyval) list res" where
  "build_trigger_params trigger target_name template_name on_template dependencies =
     rbind (vindex trigger ''expression'') (\<lambda>e.
     rbind (if on_template then Inr e else rename_host e template_name target_name) (\<lambda>expression.
     rbind (vindex trigger ''name'') (\<lambda>name.
     rbind (rbind (vget trigger ''severity'' (VStr ''warning'')) severity_code) (\<lambda>priority.
     rbind (vget trigger ''description'' (VStr '''')) (\<lambda>comments.
     rbind (vget trigger ''enabled'' (VBool True)) (\<lambda>enabled.
     rbind (vget trigger ''recovery_expression'' (VStr '''')) (\<lambda>recovery.
     rbind (rbind (vget trigger ''depends_on'' (VList [])) py_iter) (\<lambda>dep_names.
     rbind (dependency_links dependencies dep_names) (\<lambda>dep_ids.
     Inr ([(VStr ''description'', name), (VStr ''expression'', expression), (VStr ''priority'', VInt priority),
           (VStr ''comments'', comments), (VStr ''status'', VInt (if truthy enabled then 0 else 1))]
          @ (if truthy recovery then [(VStr ''recovery_mode'', VInt 1), (VStr ''recovery_expression'', recovery)]
             else [(VStr ''recovery_mode'', VInt 0)])
          @ (if dep_ids \<noteq> [] then [(VStr ''dependencies'', VList dep_ids)] else [])
          @ [(VStr ''_host'', target_name)]))))))))))"

definition remember_id :: "pyval \<Rightarrow> pyval \<Rightarrow> (pyval \<times> pyval) list \<Rightarrow> (pyval \<times> pyval) list res" where
  "remember_id name i ids = (if hashable name then Inr (key_set ids name i) else Inl TypeError)"

definition create_trigger ::
  "'s server \<Rightarrow> pyval \<Rightarrow> pyval \<Rightarrow> bool \<Rightarrow> pyval \<Rightarrow> (pyval \<times> pyval) list \<Rightarrow> ('s, (pyval \<times> pyval) list) api" where
  "create_trigger srv target_name template_name on_template trigger created =
     bindM (lift (build_trigger_params trigger target_name template_name on_template created)) (\<lambda>params.
     bindM (lift (vindex (VDict params) ''description'')) (\<lambda>name.
     bindM (get_trigger_id srv name target_name) (\<lambda>tid.
     if truthy tid then lift (remember_id name tid created)
     else catchM
       (bindM (create_id srv ''trigger.create'' (VDict (public_params params)) ''triggerids'') (\<lambda>new.
        lift (remember_id name new created)))
       (on_runtime_error (ret created)))))"

definition create_triggers ::
  "'s server \<Rightarrow> pyval \<Rightarrow> pyval \<Rightarrow> bool \<Rightarrow> pyval list \<Rightarrow> ('s, (pyval \<times> pyval) list) api" where
  "create_triggers srv target_name template_name on_template triggers =
     foldM (create_trigger srv target_name template_name on_template) triggers []"

definition check_target :: "'s server \<Rightarrow> bool \<Rightarrow> pyval \<Rightarrow> pyval \<Rightarrow> ('s, unit) api" where
  "check_target srv on_template template_name host_name =
     bindM (if on_template then get_template_id srv template_name else get_host_id srv host_name) (\<lambda>i.
     if truthy i then ret ()
     else raise (RuntimeError (Issue ''not found in Zabbix'' [if on_template then template_name else host_name])))"

definition trigger_run :: "'s server \<Rightarrow> pyval \<Rightarrow> string \<Rightarrow> pyval \<Rightarrow> ('s, unit) api" where
  "trigger_run srv data target host_name =
     bindM (lift (vget data ''template_name'' (VStr ''zabbig Linux Host''))) (\<lambda>template_name.
     let on_template = (target = ''template'');
         target_name = (if on_template then template_name else host_name) in
     bindM (check_target srv on_template template_name host_name) (\<lambda>_.
     bindM (lift (rbind (vget data ''triggers'' (VList [])) py_iter)) (\<lambda>triggers.
     bindM (create_triggers srv target_name template_name on_template triggers) (\<lambda>_. ret ()))))"

definition trigger_main :: "'s server \<Rightarrow> script_env \<Rightarrow> script_args \<Rightarrow> ('s, int) api" where
  "trigger_main srv env args =
     (if sa_target args = ''host'' \<and> text_or (sa_host args) None = None then ret 1
      else if \<not> exists_file env (sa_triggers args) then ret 1
      else bindM (lift (load_yaml env (sa_triggers args))) (\<lambda>data.
           connect_and srv env args (VStr (server_host_from_config env (sa_config args)))
             (trigger_run srv data (sa_target args)
                (VStr (case text_or (sa_host args) None of None \<Rightarrow> '''' | Some h \<Rightarrow> h)))))"

subsection \<open>Dependencies\<close>

lemma key_set_members: "(k, i) \<in> set (key_set d n v) \<Longrightarrow> (k, i) \<in> set d \<or> (py_eq k n \<or> k = n) \<and> i = v"
  by (induction d) (auto split: if_splits)

lemma key_set_keys: "fst ` set (key_set d n v) \<subseteq> insert n (fst ` set d)"
  by (induction d) auto

definition named_in :: "pyval list \<Rightarrow> pyval \<Rightarrow> bool" where
  "named_in ts n \<longleftrightarrow> (\<exists>t \<in> set ts. vindex t ''name'' = Inr n)"

lemma build_trigger_params_name:
  "build_trigger_params t target tpl ot created = Inr params \<Longrightarrow> vindex t ''name'' = vindex (VDict params) ''description''"
  by (auto simp: build_trigger_params_def)

lemma create_trigger_names:
  assumes "create_trigger srv target tpl ot t created api = (Inr created', api')"
    and "\<forall>n \<in> fst ` set created. named_in ts n" and "t \<in> set ts"
  shows "\<forall>n \<in> fst ` set created'. named_in ts n"
proof -
  obtain params name where params: "build_trigger_params t target tpl ot created = Inr params"
    "vindex (VDict params) ''description'' = Inr name"
    using assms(1) by (auto simp: create_trigger_def simp del: vindex.simps elim!: bindM_InrE)
  have "returns (create_trigger srv target tpl ot t created)
      (\<lambda>c. c = created \<or> (\<exists>i. c = key_set created name i))"
    unfolding create_trigger_def using params
    by (auto simp: returns_def catchM_def remember_id_def bindM_def simp del: vindex.simps
        split: prod.splits sum.splits if_splits)
  from returnsD[OF this assms(1)] consider "created' = created" | i where "created' = key_set created name i"
    by blast
  moreover have "named_in ts name"
    using build_trigger_params_name[OF params(1)] params(2) assms(3) by (auto simp: named_in_def)
  ultimately show ?thesis using assms(2) key_set_keys by cases fastforce+
qed

lemma created_names:
  assumes "create_triggers srv target tpl ot ts api = (Inr created, api')"
  shows "\<forall>n \<in> fst ` set created. named_in ts n"
  using foldM_invariant[OF assms[unfolded create_triggers_def], where P = "\<lambda>c s. \<forall>n \<in> fst ` set c. named_in ts n"]
    create_trigger_names by fastforce

lemma dependency_links_from:
  assumes "dependency_links ids ns = Inr links" and "VDict [(VStr ''triggerid'', i)] \<in> set links"
  shows "\<exists>n \<in> set ns. \<exists>k. (k, i) \<in> set ids \<and> py_eq k n"
  using assms
proof (induction ns arbitrary: links)
  case Nil
  then show ?case by simp
next
  case (Cons n ns)
  then show ?case
    by (fastforce simp: key_get_def find_Some_iff split: if_splits option.splits)
qed

lemma dependency_links_shape:
  "dependency_links ids ns = Inr links \<Longrightarrow> l \<in> set links \<Longrightarrow> \<exists>i. truthy i \<and> l = VDict [(VStr ''triggerid'', i)]"
  by (induction ns arbitrary: links) (auto split: if_splits)


text \<open>
  On a host target the name of the template is replaced in \<open>expression\<close>, but not in
  \<open>recovery_expression\<close>: a custom recovery expression still refers to the template's items.
\<close>

theorem recovery_expression_keeps_template:
  assumes "build_trigger_params t (VStr host) (VStr tpl) False created = Inr params"
    and "vget t ''recovery_expression'' (VStr '''') = Inr (VStr recovery)" and "recovery \<noteq> ''''"
  shows "dget params ''recovery_expression'' = Some (VStr recovery)
    \<and> (\<exists>e. vindex t ''expression'' = Inr (VStr e) \<and> dget params ''expression'' = Some (VStr (str_replace tpl host e)))"
proof -
  obtain e x where e: "vindex t ''expression'' = Inr e" "rename_host e (VStr tpl) (VStr host) = Inr x"
    and "dget params ''expression'' = Some x" and "dget params ''recovery_expression'' = Some (VStr recovery)"
    using assms by (auto simp: build_trigger_params_def)
  then show ?thesis by (cases e) (auto simp: rename_host_def)
qed

definition trigger_server :: "nat server" where
  "trigger_server n p = (result_of (if method_of p = ''trigger.create''
     then VDict [(VStr ''triggerids'', VList [VStr (CHR ''#'' # str_int (int n))])] else VList []), n + 1)"

definition first_trigger :: pyval where
  "first_trigger = VDict [(VStr ''name'', VStr ''warn''), (VStr ''expression'', VStr ''last(/T/cpu)>80'')]"

definition second_trigger :: pyval where
  "second_trigger = VDict [(VStr ''name'', VStr ''crit''), (VStr ''expression'', VStr ''last(/T/cpu)>95''),
     (VStr ''recovery_expression'', VStr ''last(/T/cpu)<90''), (VStr ''depends_on'', VList [VStr ''warn'', VStr ''later''])]"

definition first_created :: "(pyval \<times> pyval) list" where
  "first_created = [(VStr ''warn'', VStr ''#1'')]"

definition second_params :: "(pyval \<times> pyval) list" where
  "second_params = [(VStr ''description'', VStr ''crit''), (VStr ''expression'', VStr ''last(/T/cpu)>95''),
     (VStr ''priority'', VInt 2), (VStr ''comments'', VStr ''''), (VStr ''status'', VInt 0),
     (VStr ''recovery_mode'', VInt 1), (VStr ''recovery_expression'', VStr ''last(/T/cpu)<90''),
     (VStr ''dependencies'', VList [VDict [(VStr ''triggerid'', VStr ''#1'')]]), (VStr ''_host'', VStr ''T'')]"

lemma second_trigger_params:
  "build_trigger_params second_trigger (VStr ''T'') (VStr ''T'') True first_created = Inr second_params"
  by code_simp

lemma first_trigger_run: "fst (create_triggers trigger_server (VStr ''T'') (VStr ''T'') True [first_trigger] (new_api 0)) = Inr first_created"
  by code_simp


theorem recovery_expression_keeps_template_witness:
  "\<exists>params. build_trigger_params second_trigger (VStr ''web1'') (VStr ''T'') False [] = Inr params
    \<and> dget params ''expression'' = Some (VStr ''last(/web1/cpu)>95'')
    \<and> dget params ''recovery_expression'' = Some (VStr ''last(/T/cpu)<90'')"
proof -
  have "case build_trigger_params second_trigger (VStr ''web1'') (VStr ''T'') False [] of Inl e \<Rightarrow> False
     | Inr params \<Rightarrow> dget params ''expression'' = Some (VStr ''last(/web1/cpu)>95'')"
    by code_simp
  then obtain params where params: "build_trigger_params second_trigger (VStr ''web1'') (VStr ''T'') False [] = Inr params"
    and e: "dget params ''expression'' = Some (VStr ''last(/web1/cpu)>95'')"
    by (auto split: sum.splits)
  have "vget second_trigger ''recovery_expression'' (VStr '''') = Inr (VStr ''last(/T/cpu)<90'')"
    by (simp add: second_trigger_def)
  from recovery_expression_keeps_template[OF params this] params e show ?thesis by auto
qed

end
