(* ===== verification/Dashboard.thy ===== *)
theory Dashboard
  imports ZabbixScripts
begin

section \<open>Dashboards (\<open>create_dashboard.py\<close>)\<close>

text \<open>
  A dashboard is built from \<open>dashboard.yaml\<close>: pages of widgets, placed on a grid of 24 columns from left
  to right, a new row when a widget does not fit. Widths and heights are YAML values, so positions are
  values too; the arithmetic on them is that of Python. The random reference of a graph widget is an
  argument, by page and position. The property of the layout: widgets stay on the grid and do not overlap.
\<close>

subsection \<open>Item ids and names\<close>

definition item_query :: "string list \<Rightarrow> pyval \<Rightarrow> pyval \<Rightarrow> pyval" where
  "item_query out host_id keys = VDict [(VStr ''output'', VList (map VStr out)), (VStr ''hostids'', VList [host_id]),
     (VStr ''filter'', VDict [(VStr ''key_'', keys)])]"

text \<open>\<open>{r["key_"]: r[field] for r in result}\<close>.\<close>

fun keyed_rows :: "string \<Rightarrow> pyval list \<Rightarrow> (pyval \<times> pyval) list \<Rightarrow> (pyval \<times> pyval) list res" where
  "keyed_rows f [] d = Inr d"
| "keyed_rows f (r # rs) d = rbind (vindex r ''key_'') (\<lambda>k. rbind (vindex r f) (\<lambda>v.
     if hashable k then keyed_rows f rs (key_set d k v) else Inl TypeError))"

definition rows_by_key :: "string \<Rightarrow> pyval \<Rightarrow> (pyval \<times> pyval) list res" where
  "rows_by_key f result = rbind (py_iter result) (\<lambda>rs. keyed_rows f rs [])"

fun known_ids :: "(pyval \<times> pyval) list \<Rightarrow> pyval list \<Rightarrow> pyval list res" where
  "known_ids d [] = Inr []"
| "known_ids d (k # ks) = (if \<not> hashable k then Inl TypeError else
     rbind (known_ids d ks) (\<lambda>rest.
     Inr (case List.find (\<lambda>p. py_eq (fst p) k) d of None \<Rightarrow> rest | Some p \<Rightarrow> snd p # rest)))"

definition resolve_item_ids :: "'s server \<Rightarrow> pyval \<Rightarrow> pyval \<Rightarrow> ('s, pyval list) api" where
  "resolve_item_ids srv host_id keys =
     (if \<not> truthy keys then ret []
      else bindM (call srv ''item.get'' (item_query [''itemid'', ''key_''] host_id keys)) (\<lambda>result.
           lift (rbind (rows_by_key ''itemid'' result) (\<lambda>d. rbind (py_iter keys) (known_ids d)))))"

definition resolve_item_names :: "'s server \<Rightarrow> pyval \<Rightarrow> pyval \<Rightarrow> ('s, (pyval \<times> pyval) list) api" where
  "resolve_item_names srv host_id keys =
     (if \<not> truthy keys then ret []
      else bindM (call srv ''item.get'' (item_query [''key_'', ''name''] host_id keys)) (\<lambda>result.
           lift (rows_by_key ''name'' result)))"

subsection \<open>Widgets\<close>

definition wfield :: "int \<Rightarrow> string \<Rightarrow> pyval \<Rightarrow> pyval" where
  "wfield ty name v = VDict [(VStr ''type'', VInt ty), (VStr ''name'', VStr name), (VStr ''value'', v)]"

definition wrap_widget :: "pyval \<Rightarrow> pyval \<Rightarrow> pyval \<Rightarrow> string \<Rightarrow> pyval list \<Rightarrow> pyval res" where
  "wrap_widget widget x y zabbix_type flds =
     rbind (vget widget ''title'' (VStr '''')) (\<lambda>title.
     rbind (vget widget ''width'' (VInt 6)) (\<lambda>width.
     rbind (vget widget ''height'' (VInt 5)) (\<lambda>height.
     Inr (VDict [(VStr ''type'', VStr zabbix_type), (VStr ''name'', title), (VStr ''x'', x), (VStr ''y'', y),
        (VStr ''width'', width), (VStr ''height'', height), (VStr ''fields'', VList flds)]))))"

definition PALETTE :: "string list" where
  "PALETTE = [''1A7C11'', ''2774A4'', ''F63100'', ''A54F10'', ''FC6EA3'', ''6C59CC'', ''AC8C14'', ''611F27'', ''F230E0'', ''5CCD18'']"

definition default_color :: "nat \<Rightarrow> string" where
  "default_color i = PALETTE ! (i mod length PALETTE)"

text \<open>\<open>keys[:1]\<close>.\<close>

fun first_key :: "pyval \<Rightarrow> pyval res" where
  "first_key (VList xs) = Inr (VList (take 1 xs))"
| "first_key (VStr s) = Inr (VStr (take 1 s))"
| "first_key v = Inl TypeError"

definition build_item_widget :: "'s server \<Rightarrow> pyval \<Rightarrow> pyval \<Rightarrow> pyval \<Rightarrow> pyval \<Rightarrow> ('s, pyval) api" where
  "build_item_widget srv widget host_id x y =
     bindM (lift (rbind (vget widget ''keys'' (VList [])) first_key)) (\<lambda>keys.
     bindM (resolve_item_ids srv host_id keys) (\<lambda>ids.
     bindM (lift (case ids of [] \<Rightarrow> Inr [] | i # _ \<Rightarrow> rbind (py_int i) (\<lambda>n. Inr [wfield 4 ''itemid'' (VInt n)]))) (\<lambda>item.
     lift (wrap_widget widget x y ''item''
       (item @ [wfield 0 ''show_description'' (VInt 1), wfield 0 ''dynamic'' (VInt 0)])))))"

fun dataset_fields :: "(pyval \<times> pyval) list \<Rightarrow> pyval \<Rightarrow> nat \<Rightarrow> pyval list \<Rightarrow> pyval list res" where
  "dataset_fields names host_name i [] = Inr []"
| "dataset_fields names host_name i (k # ks) =
     rbind (key_get (VDict names) k k) (\<lambda>name.
     rbind (dataset_fields names host_name (i + 1) ks) (\<lambda>rest.
     let ds = ''ds.'' @ str_int (int i) in
     Inr ([wfield 1 (ds @ ''.hosts.0'') host_name, wfield 1 (ds @ ''.items.0'') name,
           wfield 1 (ds @ ''.color'') (VStr (default_color i))] @ rest)))"

definition build_graph_widget ::
  "'s server \<Rightarrow> string \<Rightarrow> pyval \<Rightarrow> pyval \<Rightarrow> pyval \<Rightarrow> pyval \<Rightarrow> pyval \<Rightarrow> ('s, pyval) api" where
  "build_graph_widget srv ref widget host_name host_id x y =
     bindM (lift (vget widget ''keys'' (VList []))) (\<lambda>keys.
     bindM (resolve_item_names srv host_id keys) (\<lambda>names.
     bindM (lift (rbind (py_iter keys) (dataset_fields names host_name 0))) (\<lambda>ds.
     lift (wrap_widget widget x y ''svggraph''
       ([wfield 0 ''righty'' (VInt 0), wfield 1 ''reference'' (VStr ref)] @ ds)))))"

definition build_problems_widget :: "pyval \<Rightarrow> pyval \<Rightarrow> pyval \<Rightarrow> pyval res" where
  "build_problems_widget widget x y = wrap_widget widget x y ''problems''
     [wfield 0 ''show_lines'' (VInt 25), wfield 0 ''sort_triggers'' (VInt 3)]"

definition build_clock_widget :: "pyval \<Rightarrow> pyval \<Rightarrow> pyval \<Rightarrow> pyval res" where
  "build_clock_widget widget x y = wrap_widget widget x y ''clock''
     [wfield 0 ''time_type'' (VInt 0), wfield 0 ''clock_type'' (VInt 0)]"

subsection \<open>Pages\<close>

text \<open>\<open>a + b\<close>, the left operand a number.\<close>

fun whole :: "pyval \<Rightarrow> int option" where
  "whole (VInt i) = Some i"
| "whole (VBool b) = Some (if b then 1 else 0)"
| "whole v = None"

definition num_add :: "pyval \<Rightarrow> pyval \<Rightarrow> pyval res" where
  "num_add a b = (case (whole a, whole b) of
     (Some i, Some j) \<Rightarrow> Inr (VInt (i + j))
   | _ \<Rightarrow> if num_of a = None \<or> num_of b = None then Inl TypeError
          else rbind (py_float a) (\<lambda>f. rbind (py_float b) (\<lambda>g. Inr (VFloat (f_add f g)))))"

definition num_max :: "pyval \<Rightarrow> pyval \<Rightarrow> pyval res" where
  "num_max a b = rbind (py_lt a b) (\<lambda>less. Inr (if less then b else a))"

definition GRID_WIDTH :: int where "GRID_WIDTH = 24"

text \<open>Where the next widget goes: column, row, height of the row so far; and the widgets built.\<close>

type_synonym cursor = "pyval \<times> pyval \<times> pyval \<times> pyval list"

definition new_row :: "pyval \<Rightarrow> cursor \<Rightarrow> cursor res" where
  "new_row width c = (case c of (x, y, row_height, built) \<Rightarrow>
     rbind (num_add x width) (\<lambda>right.
     rbind (py_lt (VInt GRID_WIDTH) right) (\<lambda>wraps.
     if wraps then rbind (num_add y row_height) (\<lambda>y'. Inr (VInt 0, y', VInt 0, built)) else Inr c)))"

definition build_widget ::
  "'s server \<Rightarrow> string \<Rightarrow> pyval \<Rightarrow> pyval \<Rightarrow> pyval \<Rightarrow> pyval \<Rightarrow> pyval \<Rightarrow> pyval \<Rightarrow> ('s, pyval option) api" where
  "build_widget srv ref w_type w host_id host_name x y =
     (if w_type = VStr ''graph'' then bindM (build_graph_widget srv ref w host_name host_id x y) (\<lambda>e. ret (Some e))
      else if w_type = VStr ''plain_value'' then bindM (build_item_widget srv w host_id x y) (\<lambda>e. ret (Some e))
      else if w_type = VStr ''problems'' then bindM (lift (build_problems_widget w x y)) (\<lambda>e. ret (Some e))
      else if w_type = VStr ''clock'' then bindM (lift (build_clock_widget w x y)) (\<lambda>e. ret (Some e))
      else ret None)"

definition place_widget ::
  "'s server \<Rightarrow> (nat \<Rightarrow> string) \<Rightarrow> pyval \<Rightarrow> pyval \<Rightarrow> nat \<times> pyval \<Rightarrow> cursor \<Rightarrow> ('s, cursor) api" where
  "place_widget srv refs host_id host_name iw c = (case iw of (i, w) \<Rightarrow>
     bindM (lift (vget w ''width'' (VInt 6))) (\<lambda>width.
     bindM (lift (vget w ''height'' (VInt 5))) (\<lambda>height.
     bindM (lift (new_row width c)) (\<lambda>(x, y, row_height, built).
     bindM (lift (vget w ''type'' (VStr ''graph''))) (\<lambda>w_type.
     bindM (build_widget srv (refs i) w_type w host_id host_name x y) (\<lambda>entry.
     case entry of None \<Rightarrow> ret (x, y, row_height, built)
     | Some e \<Rightarrow> bindM (lift (num_add x width)) (\<lambda>x'.
         bindM (lift (num_max row_height height)) (\<lambda>rh. ret (x', y, rh, built @ [e])))))))))"

definition build_page :: "'s server \<Rightarrow> (nat \<Rightarrow> string) \<Rightarrow> pyval \<Rightarrow> pyval \<Rightarrow> pyval \<Rightarrow> ('s, pyval) api" where
  "build_page srv refs page_def host_id host_name =
     bindM (lift (rbind (vget page_def ''widgets'' (VList [])) py_iter)) (\<lambda>ws.
     bindM (foldM (place_widget srv refs host_id host_name) (enumerate 0 ws) (VInt 0, VInt 0, VInt 0, []))
       (\<lambda>(x, y, row_height, built).
     bindM (lift (vget page_def ''name'' (VStr ''''))) (\<lambda>name.
     ret (VDict [(VStr ''name'', name), (VStr ''widgets'', VList built)]))))"

subsection \<open>The script\<close>

definition build_pages ::
  "'s server \<Rightarrow> (nat \<Rightarrow> nat \<Rightarrow> string) \<Rightarrow> pyval \<Rightarrow> pyval \<Rightarrow> pyval \<Rightarrow> ('s, pyval list) api" where
  "build_pages srv refs dash_data host_id host_name =
     bindM (lift (rbind (vget dash_data ''pages'' (VList [])) py_iter)) (\<lambda>page_defs.
     mapM (\<lambda>(i, page_def). build_page srv (refs i) page_def host_id host_name) (enumerate 0 page_defs))"

definition dashboard_name :: "pyval \<Rightarrow> pyval res" where
  "dashboard_name dash_data = vget dash_data ''name'' (VStr ''zabbig Linux Host Overview'')"

definition dashboard_payload :: "pyval \<Rightarrow> pyval list \<Rightarrow> (pyval \<times> pyval) list" where
  "dashboard_payload name pages = [(VStr ''name'', name), (VStr ''display_period'', VInt 30),
     (VStr ''auto_start'', VInt 0), (VStr ''pages'', VList pages)]"

text \<open>The dashboard that a lookup finds is updated; when there is none it is created.\<close>

definition update_or_create ::
  "('s, pyval) api \<Rightarrow> (pyval \<Rightarrow> ('s, pyval) api) \<Rightarrow> ('s, pyval) api \<Rightarrow> ('s, unit) api" where
  "update_or_create look update build = bindM look (\<lambda>existing.
     if truthy existing then
       bindM (lift (rbind (vfirst existing) (\<lambda>r. vindex r ''dashboardid''))) (\<lambda>dash_id.
       bindM (update dash_id) (\<lambda>_. ret ()))
     else bindM build (\<lambda>_. ret ()))"

definition put_dashboard :: "'s server \<Rightarrow> pyval \<Rightarrow> pyval list \<Rightarrow> ('s, unit) api" where
  "put_dashboard srv name pages = update_or_create
     (call srv ''dashboard.get'' (dashboard_query name))
     (\<lambda>dash_id. call srv ''dashboard.update'' (VDict (dset (dashboard_payload name pages) ''dashboardid'' dash_id)))
     (create_id srv ''dashboard.create'' (VDict (dashboard_payload name pages)) ''dashboardids'')"

definition dashboard_run :: "'s server \<Rightarrow> (nat \<Rightarrow> nat \<Rightarrow> string) \<Rightarrow> pyval \<Rightarrow> pyval \<Rightarrow> ('s, unit) api" where
  "dashboard_run srv refs dash_data host_name =
     bindM (get_host_id srv host_name) (\<lambda>host_id.
     if \<not> truthy host_id then raise (RuntimeError (Issue ''Host not found in Zabbix'' [host_name]))
     else bindM (lift (dashboard_name dash_data)) (\<lambda>name.
          bindM (build_pages srv refs dash_data host_id host_name) (\<lambda>pages.
          put_dashboard srv name pages)))"

definition dashboard_host :: "script_args \<Rightarrow> pyval \<Rightarrow> pyval res" where
  "dashboard_host args zabbix_cfg = (case text_or (sa_host args) None of
     Some h \<Rightarrow> Inr (VStr h)
   | None \<Rightarrow> rbind (vget zabbix_cfg ''host_name'' VNone) (\<lambda>h. Inr (py_or h (VStr ''''))))"

definition dashboard_main :: "'s server \<Rightarrow> script_env \<Rightarrow> (nat \<Rightarrow> nat \<Rightarrow> string) \<Rightarrow> script_args \<Rightarrow> ('s, int) api" where
  "dashboard_main srv env refs args =
     (if \<not> exists_file env (sa_dashboard args) then ret 1
      else bindM (lift (load_yaml env (sa_config args))) (\<lambda>client_cfg.
           bindM (lift (vget client_cfg ''zabbix'' (VDict []))) (\<lambda>zabbix_cfg.
           bindM (lift (vget zabbix_cfg ''server_host'' (VStr ''127.0.0.1''))) (\<lambda>server_host.
           bindM (lift (dashboard_host args zabbix_cfg)) (\<lambda>host_name.
           if \<not> truthy host_name then ret 1
           else bindM (lift (load_yaml env (sa_dashboard args))) (\<lambda>dash_data.
                connect_and srv env args server_host (dashboard_run srv refs dash_data host_name)))))))"

subsection \<open>The layout\<close>

text \<open>The rectangle of a built widget: column, row, width, height.\<close>

type_synonym rect = "int \<times> int \<times> int \<times> int"

definition rect_of :: "pyval \<Rightarrow> rect option" where
  "rect_of w = (case (field w ''x'', field w ''y'', field w ''width'', field w ''height'') of
     (VInt x, VInt y, VInt wd, VInt ht) \<Rightarrow> Some (x, y, wd, ht) | _ \<Rightarrow> None)"

fun on_grid :: "rect \<Rightarrow> bool" where
  "on_grid (x, y, wd, ht) \<longleftrightarrow> 0 \<le> x \<and> 0 \<le> y \<and> x + wd \<le> GRID_WIDTH"

fun apart :: "rect \<Rightarrow> rect \<Rightarrow> bool" where
  "apart (x, y, wd, ht) (x', y', wd', ht') \<longleftrightarrow> x + wd \<le> x' \<or> x' + wd' \<le> x \<or> y + ht \<le> y' \<or> y' + ht' \<le> y"

text \<open>A widget whose width and height are whole numbers, as \<open>dashboard.yaml\<close> asks for.\<close>

definition sized :: "pyval \<Rightarrow> bool" where
  "sized w \<longleftrightarrow> (\<exists>wd ht. vget w ''width'' (VInt 6) = Inr (VInt wd) \<and> 1 \<le> wd \<and> wd \<le> GRID_WIDTH
     \<and> vget w ''height'' (VInt 5) = Inr (VInt ht) \<and> 0 \<le> ht)"

text \<open>
  The invariant of the loop over the widgets: the widgets built lie on the grid and apart from each other,
  and each lies above the current row, or in it and left of the cursor.
\<close>

fun placed_before :: "int \<Rightarrow> int \<Rightarrow> int \<Rightarrow> rect \<Rightarrow> bool" where
  "placed_before x y row_height (a, b, wd, ht) \<longleftrightarrow> b + ht \<le> y \<or> b = y \<and> a + wd \<le> x \<and> ht \<le> row_height"

definition layout_ok :: "cursor \<Rightarrow> bool" where
  "layout_ok c \<longleftrightarrow> (\<exists>x y rh built rects. c = (VInt x, VInt y, VInt rh, built) \<and> map rect_of built = map Some rects
     \<and> 0 \<le> x \<and> x \<le> GRID_WIDTH \<and> 0 \<le> y \<and> 0 \<le> rh
     \<and> (\<forall>r \<in> set rects. on_grid r \<and> placed_before x y rh r) \<and> sorted_wrt apart rects)"

lemma layout_okE:
  assumes "layout_ok c"
  obtains x y rh built rects where "c = (VInt x, VInt y, VInt rh, built)" "map rect_of built = map Some rects"
    "0 \<le> x" "x \<le> GRID_WIDTH" "0 \<le> y" "0 \<le> rh" "\<forall>r \<in> set rects. on_grid r \<and> placed_before x y rh r"
    "sorted_wrt apart rects"
  using assms unfolding layout_ok_def by blast

lemma num_add_ints [simp]: "num_add (VInt a) (VInt b) = Inr (VInt (a + b))"
  by (simp add: num_add_def)

lemma py_lt_ints [simp]: "py_lt (VInt a) (VInt b) = Inr (a < b)"
  by (simp add: py_lt_def)

lemma num_max_ints [simp]: "num_max (VInt a) (VInt b) = Inr (VInt (max a b))"
  by (simp add: num_max_def max_def)

lemma wrap_widget_rect:
  assumes "wrap_widget w (VInt x) (VInt y) ty fs = Inr e"
    and "vget w ''width'' (VInt 6) = Inr (VInt wd)" and "vget w ''height'' (VInt 5) = Inr (VInt ht)"
  shows "rect_of e = Some (x, y, wd, ht)"
  using assms by (auto simp: wrap_widget_def rect_of_def)

definition wrapped :: "pyval \<Rightarrow> pyval \<Rightarrow> pyval \<Rightarrow> pyval \<Rightarrow> bool" where
  "wrapped w x y e \<longleftrightarrow> (\<exists>ty fs. wrap_widget w x y ty fs = Inr e)"

lemma widgets_wrapped:
  "returns (build_graph_widget srv ref w host_name host_id x y) (wrapped w x y)"
  "returns (build_item_widget srv w host_id x y) (wrapped w x y)"
  "returns (lift (build_problems_widget w x y) :: ('s, pyval) api) (wrapped w x y)"
  "returns (lift (build_clock_widget w x y) :: ('s, pyval) api) (wrapped w x y)"
  unfolding build_graph_widget_def build_item_widget_def build_problems_widget_def build_clock_widget_def
  by (intro returns_bind_any returns_lift; auto simp: wrapped_def)+

lemma build_widget_wrapped:
  "returns (build_widget srv ref ty w host_id host_name x y) (\<lambda>r. \<forall>e. r = Some e \<longrightarrow> wrapped w x y e)"
  unfolding build_widget_def
  by (auto intro!: returns_bind[OF widgets_wrapped(1)] returns_bind[OF widgets_wrapped(2)]
      returns_bind[OF widgets_wrapped(3)] returns_bind[OF widgets_wrapped(4)] returns_ret simp del: st_simps)

lemma build_widget_rect:
  assumes "build_widget srv ref ty w host_id host_name (VInt x) (VInt y) api = (Inr (Some e), api')"
    and "vget w ''width'' (VInt 6) = Inr (VInt wd)" and "vget w ''height'' (VInt 5) = Inr (VInt ht)"
  shows "rect_of e = Some (x, y, wd, ht)"
  using returnsD[OF build_widget_wrapped assms(1)] wrap_widget_rect[OF _ assms(2,3)] by (auto simp: wrapped_def)

lemma placed_new_row: "placed_before x y rh r \<Longrightarrow> 0 \<le> rh \<Longrightarrow> placed_before 0 (y + rh) 0 r"
  by (cases r) auto

lemma placed_advance: "placed_before x y rh r \<Longrightarrow> 0 \<le> wd \<Longrightarrow> placed_before (x + wd) y (max rh ht) r"
  by (cases r) auto

lemma placed_apart: "placed_before x y rh r \<Longrightarrow> apart r (x, y, wd, ht)"
  by (cases r) auto

lemma new_row_ok:
  assumes "layout_ok c" and "1 \<le> wd" and "wd \<le> GRID_WIDTH" and "new_row (VInt wd) c = Inr c'"
  shows "layout_ok c' \<and> (\<exists>x y rh built. c' = (VInt x, VInt y, VInt rh, built) \<and> x + wd \<le> GRID_WIDTH)"
proof -
  from assms(1) obtain x y rh built rects where c: "c = (VInt x, VInt y, VInt rh, built)"
    "map rect_of built = map Some rects" "0 \<le> x" "x \<le> GRID_WIDTH" "0 \<le> y" "0 \<le> rh"
    "\<forall>r \<in> set rects. on_grid r \<and> placed_before x y rh r" "sorted_wrt apart rects"
    by (rule layout_okE)
  show ?thesis
  proof (cases "GRID_WIDTH < x + wd")
    case True
    then have c': "c' = (VInt 0, VInt (y + rh), VInt 0, built)" using assms(4) c(1) by (simp add: new_row_def)
    have "\<forall>r \<in> set rects. on_grid r \<and> placed_before 0 (y + rh) 0 r"
      using c(6,7) by (blast intro: placed_new_row)
    then have "layout_ok c'" using c' c(2,5,6,8) unfolding layout_ok_def GRID_WIDTH_def
      by (intro exI[of _ 0] exI[of _ "y + rh"] exI[of _ built] exI[of _ rects]) simp
    then show ?thesis using c' assms(3) by simp
  next
    case False
    then have "c' = c" using assms(4) c(1) by (simp add: new_row_def)
    then show ?thesis using False assms(1) c(1) by auto
  qed
qed

lemma place_widget_ok:
  assumes "layout_ok c" and "sized w"
    and "place_widget srv refs host_id host_name (i, w) c api = (Inr c', api')"
  shows "layout_ok c'"
proof -
  from assms(2) obtain wd ht where size: "vget w ''width'' (VInt 6) = Inr (VInt wd)" "1 \<le> wd" "wd \<le> GRID_WIDTH"
    "vget w ''height'' (VInt 5) = Inr (VInt ht)" "0 \<le> ht"
    unfolding sized_def by blast
  obtain c1 where row: "new_row (VInt wd) c = Inr c1"
    using assms(3) size by (auto simp: place_widget_def elim!: bindM_InrE)
  have ok: "layout_ok c1" and "\<exists>x y rh built. c1 = (VInt x, VInt y, VInt rh, built) \<and> x + wd \<le> GRID_WIDTH"
    using new_row_ok[OF assms(1) size(2,3) row] by auto
  then obtain x y rh built where c1: "c1 = (VInt x, VInt y, VInt rh, built)" "x + wd \<le> GRID_WIDTH" by blast
  from ok obtain rects where rects: "map rect_of built = map Some rects" "0 \<le> x" "0 \<le> y" "0 \<le> rh"
    "\<forall>r \<in> set rects. on_grid r \<and> placed_before x y rh r" "sorted_wrt apart rects"
    using c1(1) by (auto elim: layout_okE)
  obtain ty entry u where entry:
    "build_widget srv (refs i) ty w host_id host_name (VInt x) (VInt y) u = (Inr entry, api')"
    and c': "c' = (case entry of None \<Rightarrow> c1 | Some e \<Rightarrow> (VInt (x + wd), VInt y, VInt (max rh ht), built @ [e]))"
    using assms(3) size row c1(1)
    by (auto simp: place_widget_def elim!: bindM_InrE split: option.splits)
  show ?thesis
  proof (cases entry)
    case None
    then show ?thesis using c' ok by simp
  next
    case (Some e)
    have "rect_of e = Some (x, y, wd, ht)" using build_widget_rect[OF _ size(1,4)] entry Some by blast
    moreover have "\<forall>r \<in> set (rects @ [(x, y, wd, ht)]). on_grid r \<and> placed_before (x + wd) y (max rh ht) r"
      using rects(2,3,5) c1(2) size(2) placed_advance by auto
    moreover have "sorted_wrt apart (rects @ [(x, y, wd, ht)])"
      using rects(5,6) by (auto simp: sorted_wrt_append simp del: apart.simps intro: placed_apart)
    ultimately show ?thesis
      using c' Some rects(1-4) c1(2) size unfolding layout_ok_def
      by (intro exI[of _ "x + wd"] exI[of _ y] exI[of _ "max rh ht"] exI[of _ "built @ [e]"]
          exI[of _ "rects @ [(x, y, wd, ht)]"]) simp
  qed
qed

text \<open>
  C27: on every page whose widgets have whole-number widths from 1 to 24 and heights that are not negative,
  the widgets placed lie on the 24-column grid and no two of them overlap, whatever mixture of types, sizes
  and unknown types the page holds and whatever the server answers.
\<close>

theorem widgets_fit_the_grid:
  assumes run: "build_page srv refs page_def host_id host_name api = (Inr page, api')"
    and ws: "rbind (vget page_def ''widgets'' (VList [])) py_iter = Inr ws" and sizes: "\<forall>w \<in> set ws. sized w"
  shows "\<exists>built rects. field page ''widgets'' = VList built \<and> map rect_of built = map Some rects
    \<and> (\<forall>r \<in> set rects. on_grid r) \<and> sorted_wrt apart rects"
proof -
  obtain c u where loop: "foldM (place_widget srv refs host_id host_name) (enumerate 0 ws)
      (VInt 0, VInt 0, VInt 0, []) api = (Inr c, u)"
    and page: "field page ''widgets'' = VList (snd (snd (snd c)))"
    using run ws by (auto simp: build_page_def elim!: bindM_InrE)
  have "layout_ok c"
  proof (rule foldM_invariant[OF loop, where P = "\<lambda>c s. layout_ok c"])
    show "layout_ok (VInt 0, VInt 0, VInt 0, [])" by (simp add: layout_ok_def GRID_WIDTH_def)
    fix iw b s b' s'
    assume iw: "iw \<in> set (enumerate 0 ws)" and b: "layout_ok b"
      and step: "place_widget srv refs host_id host_name iw b s = (Inr b', s')"
    have "fst iw < length ws \<and> snd iw = ws ! fst iw" using iw by (simp add: in_set_enumerate_eq)
    then have "sized (snd iw)" using sizes by simp
    moreover have "place_widget srv refs host_id host_name (fst iw, snd iw) b s = (Inr b', s')"
      using step by (simp only: prod.collapse)
    ultimately show "layout_ok b'" using place_widget_ok[OF b] by blast
  qed
  then obtain x y rh built rects where "c = (VInt x, VInt y, VInt rh, built)" "map rect_of built = map Some rects"
    "\<forall>r \<in> set rects. on_grid r \<and> placed_before x y rh r" "sorted_wrt apart rects"
    by (rule layout_okE)
  then show ?thesis using page by (intro exI[of _ built] exI[of _ rects]) simp
qed


definition example_page :: pyval where
  "example_page = VDict [(VStr ''widgets'', VList
     [VDict [(VStr ''type'', VStr ''problems''), (VStr ''width'', VInt 24), (VStr ''height'', VInt 4)],
      VDict [(VStr ''type'', VStr ''clock''), (VStr ''width'', VInt 12)],
      VDict [(VStr ''type'', VStr ''gauge'')],
      VDict [(VStr ''type'', VStr ''clock''), (VStr ''width'', VInt 13)]])]"

definition example_built_page :: "exn + pyval" where
  "example_built_page = fst (build_page refusing_server (\<lambda>i. ''R'') example_page (VStr ''1'') (VStr ''h'') (new_api ()))"

lemma example_page_rects: "(case example_built_page of Inl e \<Rightarrow> None | Inr page \<Rightarrow>
    (case field page ''widgets'' of VList ws \<Rightarrow> Some (map rect_of ws) | _ \<Rightarrow> None))
   = Some [Some (0, 0, 24, 4), Some (0, 4, 12, 5), Some (0, 9, 13, 5)]"
  by code_simp

theorem widgets_fit_the_grid_witness:
  "\<exists>page built rects. example_built_page = Inr page \<and> field page ''widgets'' = VList built
     \<and> map rect_of built = map Some rects \<and> (\<forall>r \<in> set rects. on_grid r) \<and> sorted_wrt apart rects"
proof -
  obtain page where page: "example_built_page = Inr page"
    using example_page_rects by (auto split: sum.splits)
  then obtain api' where run: "build_page refusing_server (\<lambda>i. ''R'') example_page (VStr ''1'') (VStr ''h'') (new_api ()) = (Inr page, api')"
    unfolding example_built_page_def by (metis prod.collapse)
  have "rbind (vget example_page ''widgets'' (VList [])) py_iter = Inr
     [VDict [(VStr ''type'', VStr ''problems''), (VStr ''width'', VInt 24), (VStr ''height'', VInt 4)],
      VDict [(VStr ''type'', VStr ''clock''), (VStr ''width'', VInt 12)],
      VDict [(VStr ''type'', VStr ''gauge'')],
      VDict [(VStr ''type'', VStr ''clock''), (VStr ''width'', VInt 13)]]"
    by (simp add: example_page_def)
  from widgets_fit_the_grid[OF run this] page show ?thesis by (auto simp: sized_def GRID_WIDTH_def)
qed

text \<open>
  \<open>create_dashboard.py\<close> puts the YAML value of \<open>zabbix.server_host\<close> into the address. The client
  requires a list there, so without \<open>--api-url\<close> and \<open>ZABBIX_API_URL\<close> the script asks a host named
  by the text of a Python list; the other scripts take the first entry.
\<close>

theorem dashboard_address_is_a_list:
  assumes "sa_api_url args = None" and "se_getenv env ''ZABBIX_API_URL'' = None"
    and "load_yaml env (sa_config args) = Inr (VDict [(VStr ''zabbix'', VDict [(VStr ''server_host'', VList [VStr h])])])"
    and "CHR 0x27 \<notin> set h" and "\<forall>c \<in> set h. repr_char (CHR 0x27) c = [c]"
  shows "resolve_api_url env (sa_api_url args) (VList [VStr h]) = ''http://['' @ [CHR 0x27] @ h @ [CHR 0x27] @ '']:8080/api_jsonrpc.php''
    \<and> resolve_api_url env (sa_api_url args) (VStr (server_host_from_config env (sa_config args))) = ''http://'' @ h @ '':8080/api_jsonrpc.php''"
proof -
  have "concat (map (repr_char (CHR 0x27)) h) = h" using assms(5) by (induction h) simp_all
  then have "py_repr (VStr h) = [CHR 0x27] @ h @ [CHR 0x27]"
    using assms(4) by (simp add: repr_str_def Let_def)
  then show ?thesis
    using assms by (simp add: resolve_api_url_def text_or_def server_host_from_config_def)
qed

end
