(* ===== verification/ProvisionAll.thy ===== *)
theory ProvisionAll
  imports TemplateItems Triggers Dashboard
begin

section \<open>Full provisioning (\<open>provision_all.py\<close>)\<close>

text \<open>
  Template with items, triggers, the dashboard of the template and, for a known host, the dashboard of the
  host, composed of the steps of the single scripts. The property: run a second time, the script creates
  nothing but triggers the server refused before.
\<close>

definition provision_template :: "'s server \<Rightarrow> pyval \<Rightarrow> pyval list \<Rightarrow> ('s, pyval) api" where
  "provision_template srv tpl metrics = template_objects srv tpl metrics"

definition provision_triggers :: "'s server \<Rightarrow> pyval \<Rightarrow> pyval \<Rightarrow> ('s, nat) api" where
  "provision_triggers srv trig_data tpl_name =
     bindM (lift (rbind (vget trig_data ''triggers'' (VList [])) py_iter)) (\<lambda>triggers.
     bindM (create_triggers srv tpl_name tpl_name True triggers) (\<lambda>created. ret (length created)))"

definition template_dashboard_payload :: "pyval \<Rightarrow> pyval \<Rightarrow> pyval list \<Rightarrow> (pyval \<times> pyval) list" where
  "template_dashboard_payload name tid pages =
     [(VStr ''name'', name), (VStr ''templateid'', tid), (VStr ''pages'', VList pages)]"

definition put_template_dashboard :: "'s server \<Rightarrow> pyval \<Rightarrow> pyval \<Rightarrow> pyval list \<Rightarrow> ('s, unit) api" where
  "put_template_dashboard srv name tid pages = (let payload = template_dashboard_payload name tid pages in
     update_or_create (call srv ''templatedashboard.get'' (template_dashboard_query tid name))
       (\<lambda>dash_id. call srv ''templatedashboard.update''
          (VDict (dset (adict_pop payload (VStr ''templateid'')) ''dashboardid'' dash_id)))
       (create_id srv ''templatedashboard.create'' (VDict payload) ''dashboardids''))"

definition provision_template_dashboard ::
  "'s server \<Rightarrow> (nat \<Rightarrow> nat \<Rightarrow> string) \<Rightarrow> pyval \<Rightarrow> pyval \<Rightarrow> pyval \<Rightarrow> ('s, unit) api" where
  "provision_template_dashboard srv refs dash_data tpl_name tpl_id =
     bindM (lift (dashboard_name dash_data)) (\<lambda>name.
     bindM (build_pages srv refs dash_data tpl_id tpl_name) (\<lambda>pages.
     put_template_dashboard srv name tpl_id pages))"

definition provision_dashboard :: "'s server \<Rightarrow> (nat \<Rightarrow> nat \<Rightarrow> string) \<Rightarrow> pyval \<Rightarrow> pyval \<Rightarrow> ('s, unit) api" where
  "provision_dashboard srv refs dash_data host_name =
     bindM (get_host_id srv host_name) (\<lambda>host_id.
     if \<not> truthy host_id then ret ()
     else bindM (lift (dashboard_name dash_data)) (\<lambda>name.
          bindM (build_pages srv refs dash_data host_id host_name) (\<lambda>pages.
          put_dashboard srv name pages)))"

definition provision_run ::
  "'s server \<Rightarrow> (bool \<Rightarrow> nat \<Rightarrow> nat \<Rightarrow> string) \<Rightarrow> pyval \<Rightarrow> pyval \<Rightarrow> pyval \<Rightarrow> pyval list \<Rightarrow> pyval \<Rightarrow> ('s, unit) api" where
  "provision_run srv refs tpl trig_data dash_data metrics host_name =
     bindM (lift (rbind (vindex tpl ''template'') (\<lambda>t. vindex t ''name''))) (\<lambda>tpl_name.
     bindM (provision_template srv tpl metrics) (\<lambda>tpl_id.
     bindM (provision_triggers srv trig_data tpl_name) (\<lambda>_.
     bindM (provision_template_dashboard srv (refs False) dash_data tpl_name tpl_id) (\<lambda>_.
     if truthy host_name then provision_dashboard srv (refs True) dash_data host_name else ret ()))))"

definition provision_host :: "script_env \<Rightarrow> script_args \<Rightarrow> pyval res" where
  "provision_host env args = (case text_or (sa_host args) None of
     Some h \<Rightarrow> Inr (VStr h)
   | None \<Rightarrow> if \<not> exists_file env (sa_config args) then Inr VNone
       else rbind (load_yaml env (sa_config args)) (\<lambda>cfg.
            rbind (vget cfg ''zabbix'' (VDict [])) (\<lambda>z.
            rbind (vget z ''host_name'' VNone) (\<lambda>h. Inr (py_or h VNone)))))"

definition provision_main ::
  "'s server \<Rightarrow> script_env \<Rightarrow> (bool \<Rightarrow> nat \<Rightarrow> nat \<Rightarrow> string) \<Rightarrow> script_args \<Rightarrow> ('s, int) api" where
  "provision_main srv env refs args =
     (if first_missing env [sa_template args, sa_metrics args, sa_triggers args, sa_dashboard args] \<noteq> None then ret 1
      else bindM (lift (load_yaml env (sa_template args))) (\<lambda>tpl.
           bindM (lift (load_yaml env (sa_triggers args))) (\<lambda>trig_data.
           bindM (lift (load_yaml env (sa_dashboard args))) (\<lambda>dash_data.
           bindM (lift (load_metrics env (sa_metrics args) (sa_only_enabled args))) (\<lambda>metrics.
           bindM (lift (provision_host env args)) (\<lambda>host_name.
           connect_and srv env args (VStr (server_host_from_config env (sa_config args)))
             (provision_run srv refs tpl trig_data dash_data metrics host_name)))))))"

subsection \<open>The steps of a run\<close>

lemma get_is_no_create [simp]:
  "\<not> endswith ''item.get'' ''.create''" "\<not> endswith ''trigger.get'' ''.create''" "\<not> endswith ''host.get'' ''.create''"
  "\<not> endswith ''dashboard.get'' ''.create''" "\<not> endswith ''dashboard.update'' ''.create''"
  "\<not> endswith ''templatedashboard.get'' ''.create''" "\<not> endswith ''templatedashboard.update'' ''.create''"
  by (simp_all add: endswith_def startswith_def)

lemma build_pages_steady:
  assumes "reading srv I"
  shows "steady I (build_pages srv refs dash host_id host_name)"
proof -
  have get: "steady I (call srv ''item.get'' q)" for q by (rule readingD[OF assms]) simp
  have "steady I (build_widget srv ref ty w host_id host_name x y)" for ref ty w x y
    unfolding build_widget_def build_graph_widget_def build_item_widget_def resolve_item_names_def resolve_item_ids_def
    by (intro steady_intros get)
  then have "steady I (place_widget srv refs' host_id host_name iw c)" for refs' iw c
    unfolding place_widget_def by (intro steady_intros)
  then show ?thesis unfolding build_pages_def build_page_def by (intro steady_intros)
qed

lemma create_triggers_steady:
  assumes "reading srv I" and "\<And>q. steady I (call srv ''trigger.create'' q)"
  shows "steady I (create_triggers srv target tpl ot ts)"
proof -
  have "steady I (create_trigger srv target tpl ot t c)" for t c
    unfolding create_trigger_def get_trigger_id_def
    by (intro steady_intros reading_find[OF assms(1)] reading_create assms(2))
      (auto intro: steady_intros split: if_splits)
  then show ?thesis unfolding create_triggers_def by (intro steady_intros)
qed

lemma update_or_create_steady:
  "steady I look \<Longrightarrow> (\<And>i. steady I (update i)) \<Longrightarrow> steady I build \<Longrightarrow> steady I (update_or_create look update build)"
  unfolding update_or_create_def by (intro steady_intros)

lemma update_or_create_done:
  assumes doc: "documented srv ids" and k: "lookup_call k = (m, q, ''dashboardid'')"
    and update: "\<And>i K. steady (exist ids K) (update i)"
    and p: "\<And>n token. created_by (rpc_payload m' q' n token) = Some (k, f)"
  shows "triple (\<lambda>_. True) (update_or_create (call srv m q) update (create_id srv m' q' f))
     (\<lambda>_ s. \<exists>i. exist ids {(k, i)} s) (\<lambda>_ _. True)"
  unfolding update_or_create_def
proof (rule triple_bind[OF call_tells[OF doc k]])
  fix r
  have found: "triple (exist ids {(k, i)}) (bindM (lift x) (\<lambda>i. bindM (update i) (\<lambda>_. ret ())))
      (\<lambda>_ s. \<exists>i. exist ids {(k, i)} s) (\<lambda>_ _. True)" for i x
    by (rule triple_conseq[where P' = "exist ids {(k, i)}"]) (rule steady_def[THEN iffD1], intro steady_intros update, auto)
  show "triple (\<lambda>s. r = VList [] \<or> (\<exists>i. tells ''dashboardid'' (Some i) r \<and> exist ids {(k, i)} s))
     (if truthy r then bindM (lift (rbind (vfirst r) (\<lambda>x. vindex x ''dashboardid''))) (\<lambda>i. bindM (update i) (\<lambda>_. ret ()))
      else bindM (create_id srv m' q' f) (\<lambda>_. ret ()))
     (\<lambda>_ s. \<exists>i. exist ids {(k, i)} s) (\<lambda>_ _. True)"
  proof (rule triple_if)
    assume "truthy r"
    then show "triple (\<lambda>s. r = VList [] \<or> (\<exists>i. tells ''dashboardid'' (Some i) r \<and> exist ids {(k, i)} s))
       (bindM (lift (rbind (vfirst r) (\<lambda>x. vindex x ''dashboardid''))) (\<lambda>i. bindM (update i) (\<lambda>_. ret ())))
       (\<lambda>_ s. \<exists>i. exist ids {(k, i)} s) (\<lambda>_ _. True)"
      by (intro tripleI) (auto dest: triple_returns[OF found])
  next
    have "triple (\<lambda>_. True) (bindM (create_id srv m' q' f) (\<lambda>_. ret ()))
       (\<lambda>_ s. \<exists>i. exist ids {(k, i)} s) (\<lambda>_ _. True)"
      by (rule triple_bind[OF create_truth[OF doc p]]) (intro triple_ret, blast)
    then show "triple (\<lambda>s. r = VList [] \<or> (\<exists>i. tells ''dashboardid'' (Some i) r \<and> exist ids {(k, i)} s))
       (bindM (create_id srv m' q' f) (\<lambda>_. ret ())) (\<lambda>_ s. \<exists>i. exist ids {(k, i)} s) (\<lambda>_ _. True)"
      by (rule triple_conseq) simp_all
  qed
qed

lemma update_or_create_again:
  assumes doc: "documented srv ids" and k: "lookup_call k = (m, q, ''dashboardid'')" and m: "\<not> endswith m ''.create''"
    and update: "\<And>i. steady (limited M) (update i)"
  shows "triple (\<lambda>s. exist ids {(k, i)} s \<and> limited M s) (update_or_create (call srv m q) update build)
     (\<lambda>_. limited M) (\<lambda>_. limited M)"
  unfolding update_or_create_def
proof (rule triple_bind)
  show "triple (\<lambda>s. exist ids {(k, i)} s \<and> limited M s) (call srv m q)
     (\<lambda>r s. tells ''dashboardid'' (Some i) r \<and> limited M s) (\<lambda>_. limited M)"
    by (rule triple_conseq[OF triple_both[OF call_tells_existing[OF doc k, where i = i] call_reads[OF m]]]) auto
  fix r
  have "steady (limited M) (bindM (lift (rbind (vfirst r) (\<lambda>x. vindex x ''dashboardid''))) (\<lambda>i. bindM (update i) (\<lambda>_. ret ())))"
    by (intro steady_intros update)
  then show "triple (\<lambda>s. tells ''dashboardid'' (Some i) r \<and> limited M s)
     (if truthy r then bindM (lift (rbind (vfirst r) (\<lambda>x. vindex x ''dashboardid''))) (\<lambda>i. bindM (update i) (\<lambda>_. ret ()))
      else bindM build (\<lambda>_. ret ())) (\<lambda>_. limited M) (\<lambda>_. limited M)"
    unfolding steady_def by (auto simp: tells_def triple_def)
qed

lemma dashboards_created:
  "created_by (rpc_payload ''dashboard.create'' (VDict (dashboard_payload name pages)) n token)
     = Some (DashboardObj name, ''dashboardids'')"
  "created_by (rpc_payload ''templatedashboard.create'' (VDict (template_dashboard_payload name tid pages)) n token)
     = Some (TemplateDashboardObj tid name, ''dashboardids'')"
  by (simp_all add: created_by_def creation_of_def Let_def dashboard_payload_def template_dashboard_payload_def)

lemma put_dashboard_done:
  assumes "documented srv ids"
  shows "triple (\<lambda>_. True) (put_dashboard srv name pages) (\<lambda>_ s. \<exists>i. exist ids {(DashboardObj name, i)} s) (\<lambda>_ _. True)"
    and "triple (\<lambda>_. True) (put_template_dashboard srv name tid pages)
      (\<lambda>_ s. \<exists>i. exist ids {(TemplateDashboardObj tid name, i)} s) (\<lambda>_ _. True)"
  unfolding put_dashboard_def put_template_dashboard_def Let_def
  by (rule update_or_create_done[OF assms lookup_call.simps(6)] update_or_create_done[OF assms lookup_call.simps(7)],
      rule readingD[OF reading_exist[OF assms]], simp, rule dashboards_created)+

lemma put_dashboard_again:
  assumes "documented srv ids"
  shows "triple (\<lambda>s. exist ids {(DashboardObj name, i)} s \<and> limited M s) (put_dashboard srv name pages)
      (\<lambda>_. limited M) (\<lambda>_. limited M)"
    and "triple (\<lambda>s. exist ids {(TemplateDashboardObj tid name, i)} s \<and> limited M s) (put_template_dashboard srv name tid pages)
      (\<lambda>_. limited M) (\<lambda>_. limited M)"
  unfolding put_dashboard_def put_template_dashboard_def Let_def
  by (rule update_or_create_again[OF assms lookup_call.simps(6)] update_or_create_again[OF assms lookup_call.simps(7)],
      simp, rule readingD[OF reading_limited], simp)+

lemma put_dashboard_steady:
  assumes "documented srv ids"
  shows "steady (exist ids K) (put_dashboard srv name pages)" "steady (exist ids K) (put_template_dashboard srv name tid pages)"
  unfolding put_dashboard_def put_template_dashboard_def Let_def
  by (intro update_or_create_steady reading_create; simp add: steady_def call_keeps[OF assms])+

subsection \<open>Running the script again\<close>

lemma grows_steady: "(\<And>K. steady (exist ids K) m) \<Longrightarrow> m s = (r, t) \<Longrightarrow> grows ids s t"
  unfolding steady_def by (rule growsI)

lemma grows_trans: "grows ids s t \<Longrightarrow> grows ids t u \<Longrightarrow> grows ids s u"
  by (simp add: grows_def)

lemma template_objects_steady:
  assumes doc: "documented srv ids"
  shows "steady (exist ids K) (template_objects srv tpl metrics)"
proof -
  have "steady (exist ids K) (ensure_templategroup srv gr)" for gr
    unfolding steady_def by (rule template_groups.keeps[OF doc])
  moreover have "steady (exist ids K) (ensure_template srv name gid desc)" for name gid desc
    using templates.keeps[OF doc, of K "(name, gid, desc)"] by (simp add: steady_def)
  moreover have "steady (exist ids K) (ensure_items srv owner ds)" for owner ds
    unfolding steady_def by (rule ensure_items_keeps[OF doc])
  ultimately show ?thesis unfolding template_objects_def by (intro steady_intros)
qed

lemma triggers_steady:
  shows "documented srv ids \<Longrightarrow> steady (exist ids K) (provision_triggers srv trig name)"
    and "''trigger.create'' \<in> M \<Longrightarrow> steady (limited M) (provision_triggers srv trig name)"
  unfolding provision_triggers_def
  by (intro steady_intros create_triggers_steady reading_exist reading_limited;
      simp add: steady_def call_keeps call_limited)+

lemma template_dashboard_steady: "documented srv ids \<Longrightarrow> steady (exist ids K) (provision_template_dashboard srv refs dash name tid)"
  unfolding provision_template_dashboard_def
  by (intro steady_intros build_pages_steady put_dashboard_steady reading_exist)

lemma host_dashboard_steady: "documented srv ids \<Longrightarrow> steady (exist ids K) (provision_dashboard srv refs dash host)"
  unfolding provision_dashboard_def get_host_id_def
  by (intro steady_intros build_pages_steady put_dashboard_steady reading_find reading_exist) simp_all

text \<open>What a complete run leaves behind, under the id \<open>tid\<close> of the template.\<close>

definition all_there :: "pyval \<Rightarrow> pyval list \<Rightarrow> pyval \<Rightarrow> pyval \<Rightarrow> pyval \<Rightarrow> (obj \<Rightarrow> pyval option) \<Rightarrow> bool" where
  "all_there tpl metrics dash host tid known \<longleftrightarrow> template_there tpl metrics tid known
     \<and> (\<exists>name. dashboard_name dash = Inr name \<and> known (TemplateDashboardObj tid name) \<noteq> None
         \<and> (truthy host \<longrightarrow> known (DashboardObj name) \<noteq> None \<and> known (HostObj host) \<noteq> None))"

lemma all_there_grow:
  assumes "all_there tpl metrics dash host tid known" and grow: "\<And>k i. known k = Some i \<Longrightarrow> known' k = Some i"
  shows "all_there tpl metrics dash host tid known'"
proof -
  have "template_there tpl metrics tid known'"
  proof (rule template_there_grow)
    show "template_there tpl metrics tid known" using assms(1) by (simp add: all_there_def)
  qed (rule grow)
  then show ?thesis using assms(1) grow unfolding all_there_def by blast
qed

lemma provision_run_done:
  assumes doc: "documented srv ids" and run: "provision_run srv refs tpl trig dash metrics host s = (Inr (), u)"
    and host: "truthy host \<Longrightarrow> ids (za_server s) (HostObj host) \<noteq> None"
  shows "\<exists>tid. all_there tpl metrics dash host tid (ids (za_server u))"
proof -
  from run obtain tpl_name tid n s1 s2 s3 where
    steps: "provision_template srv tpl metrics s = (Inr tid, s1)" "provision_triggers srv trig tpl_name s1 = (Inr n, s2)"
      "provision_template_dashboard srv (refs False) dash tpl_name tid s2 = (Inr (), s3)"
      "(if truthy host then provision_dashboard srv (refs True) dash host else ret ()) s3 = (Inr (), u)"
    unfolding provision_run_def by (auto elim!: bindM_InrE)
  have grow: "grows ids s s1" "grows ids s1 s2" "grows ids s2 s3"
    using grows_steady[OF template_objects_steady[OF doc]] grows_steady[OF triggers_steady(1)[OF doc]]
      grows_steady[OF template_dashboard_steady[OF doc]] steps unfolding provision_template_def by blast+
  have last: "grows ids s3 u"
    using steps(4) grows_steady[OF host_dashboard_steady[OF doc]] by (auto simp: grows_def split: if_splits)
  have template: "template_there tpl metrics tid (ids (za_server s1))"
    using template_objects_done[OF doc] steps(1) by (simp add: provision_template_def)
  obtain name pages v where name: "dashboard_name dash = Inr name"
    and put: "put_template_dashboard srv name tid pages v = (Inr (), s3)"
    using steps(3) by (auto simp: provision_template_dashboard_def elim!: bindM_InrE)
  obtain i where dashboard: "ids (za_server s3) (TemplateDashboardObj tid name) = Some i"
    using triple_returns[OF put_dashboard_done(2)[OF doc] _ put] by (auto simp: exist_def)
  have host_dashboard: "ids (za_server u) (DashboardObj name) \<noteq> None" if th: "truthy host"
  proof -
    obtain h where h: "ids (za_server s3) (HostObj host) = Some h"
      using host[OF th] grow by (auto simp: grows_def)
    have truthy_h: "truthy h" using documented_truthy[OF doc h] .
    have step: "provision_dashboard srv (refs True) dash host s3 = (Inr (), u)" using steps(4) th by simp
    then obtain g w where g: "get_host_id srv host s3 = (Inr g, w)" by (auto simp: provision_dashboard_def elim!: bindM_InrE)
    have "g = h"
      using triple_returns[OF find_existing[OF doc lookup_call.simps(4)] _ g[unfolded get_host_id_def], of h] h
      by (simp add: exist_def)
    then obtain pages' v' where "put_dashboard srv name pages' v' = (Inr (), u)"
      using step g name truthy_h by (auto simp: provision_dashboard_def elim!: bindM_InrE)
    from triple_returns[OF put_dashboard_done(1)[OF doc] _ this] show ?thesis by (auto simp: exist_def)
  qed
  have all: "\<And>k i. ids (za_server s1) k = Some i \<Longrightarrow> ids (za_server u) k = Some i"
    using grow last by (simp add: grows_def)
  have there: "template_there tpl metrics tid (ids (za_server u))"
    by (rule template_there_grow[OF template]) (rule all)
  have "ids (za_server u) (TemplateDashboardObj tid name) = Some i" using growsD[OF last dashboard] .
  moreover have "ids (za_server u) (HostObj host) \<noteq> None" if "truthy host"
    using host[OF that] growsD[OF grow(1)] all by fastforce
  ultimately show ?thesis
    using there name host_dashboard unfolding all_there_def by blast
qed

lemma provision_run_again:
  assumes doc: "documented srv ids" and there: "all_there tpl metrics dash host tid known" and M: "''trigger.create'' \<in> M"
  defines "K \<equiv> {(k, i). known k = Some i}"
  shows "triple (\<lambda>s. exist ids K s \<and> limited M s) (provision_run srv refs tpl trig dash metrics host)
     (\<lambda>_. limited M) (\<lambda>_. limited M)"
proof -
  let ?I = "\<lambda>s. exist ids K s \<and> limited M s"
  obtain name di where name: "dashboard_name dash = Inr name" and di: "(TemplateDashboardObj tid name, di) \<in> K"
    and template: "template_there tpl metrics tid known"
    and host: "truthy host \<Longrightarrow> \<exists>hd. (DashboardObj name, hd) \<in> K"
    using there unfolding all_there_def K_def by auto
  have reads: "reading srv ?I" by (intro reading_conj reading_exist[OF doc] reading_limited)
  have one: "triple ?I m (\<lambda>_. limited M) (\<lambda>_. limited M)"
    if "triple (\<lambda>s. exist ids {(k, i)} s \<and> limited M s) m (\<lambda>_. limited M) (\<lambda>_. limited M)" "(k, i) \<in> K"
    for k i and m :: "('a, unit) api"
    by (rule triple_conseq[OF that(1)]) (use that(2) in \<open>auto simp: exist_def\<close>)
  have pages: "triple ?I (build_pages srv rf dash h hn) (\<lambda>_. ?I) (\<lambda>_. limited M)" for rf h hn
    using build_pages_steady[OF reads] unfolding steady_def by (rule triple_conseq) auto
  have put: "triple ?I (put_template_dashboard srv name tid ps) (\<lambda>_. ?I) (\<lambda>_. limited M)" for ps
    using triple_both[OF one[OF put_dashboard_again(2)[OF doc] di] put_dashboard_steady(2)[OF doc, unfolded steady_def, of K name tid ps]]
    by (rule triple_conseq) auto
  have dashboard: "triple ?I (provision_template_dashboard srv rf dash tn tid) (\<lambda>_. ?I) (\<lambda>_. limited M)" for rf tn
    unfolding provision_template_dashboard_def name by (simp, rule triple_bind[OF pages put])
  have find: "triple ?I (get_host_id srv host) (\<lambda>_. ?I) (\<lambda>_. limited M)"
    using reading_find[OF reads, of "''host.get''"] unfolding get_host_id_def steady_def
    by (rule triple_conseq) auto
  have host_dashboard: "triple ?I (provision_dashboard srv rf dash host) (\<lambda>_. limited M) (\<lambda>_. limited M)" if th: "truthy host" for rf
  proof -
    obtain hd where "(DashboardObj name, hd) \<in> K" using host[OF th] by blast
    note put' = one[OF put_dashboard_again(1)[OF doc] this]
    show ?thesis unfolding provision_dashboard_def name
      by (rule triple_bind[OF find]) (simp, intro impI conjI triple_bind[OF pages put'], simp add: triple_def)
  qed
  have triggers: "triple ?I (provision_triggers srv trig tn) (\<lambda>_. ?I) (\<lambda>_. limited M)" for tn
    using steady_both[OF triggers_steady(1)[OF doc] triggers_steady(2)[OF M]] unfolding steady_def
    by (rule triple_conseq) auto
  have rest: "triple (\<lambda>s. j = tid \<and> ?I s) (bindM (provision_triggers srv trig tn) (\<lambda>_.
      bindM (provision_template_dashboard srv (refs False) dash tn j) (\<lambda>_.
      if truthy host then provision_dashboard srv (refs True) dash host else ret ())))
      (\<lambda>_. limited M) (\<lambda>_. limited M)" for j tn
  proof (cases "j = tid")
    case True
    have "triple ?I (if truthy host then provision_dashboard srv (refs True) dash host else ret ())
       (\<lambda>_. limited M) (\<lambda>_. limited M)"
      using host_dashboard by (intro triple_if triple_ret) auto
    then have "triple ?I (bindM (provision_triggers srv trig tn) (\<lambda>_.
      bindM (provision_template_dashboard srv (refs False) dash tn tid) (\<lambda>_.
      if truthy host then provision_dashboard srv (refs True) dash host else ret ())))
      (\<lambda>_. limited M) (\<lambda>_. limited M)"
      by (rule triple_bind[OF triggers triple_bind[OF dashboard]])
    then show ?thesis using True by simp
  qed (simp add: triple_def)
  have "triple ?I (bindM (provision_template srv tpl metrics) (\<lambda>tpl_id. bindM (provision_triggers srv trig tn) (\<lambda>_.
      bindM (provision_template_dashboard srv (refs False) dash tn tpl_id) (\<lambda>_.
      if truthy host then provision_dashboard srv (refs True) dash host else ret ()))))
      (\<lambda>_. limited M) (\<lambda>_. limited M)" for tn
    unfolding provision_template_def K_def
    by (rule triple_bind[OF template_objects_again[OF doc template] rest[unfolded K_def]])
  note work = this
  show ?thesis unfolding provision_run_def
    by (rule triple_bind[where R = "\<lambda>_. ?I"], rule triple_lift) (simp_all add: work)
qed


lemma provision_main_body:
  assumes "provision_main srv env refs args (new_api t) = (Inr 0, api)"
  obtains tpl trig dash metrics host where "provision_host env args = Inr host"
    and "\<And>refs'. provision_main srv env refs' args = connect_and srv env args
      (VStr (server_host_from_config env (sa_config args))) (provision_run srv refs' tpl trig dash metrics host)"
proof -
  have none: "first_missing env [sa_template args, sa_metrics args, sa_triggers args, sa_dashboard args] = None"
    using assms by (auto simp: provision_main_def split: if_splits)
  moreover obtain tpl trig dash metrics host where "load_yaml env (sa_template args) = Inr tpl"
    "load_yaml env (sa_triggers args) = Inr trig" "load_yaml env (sa_dashboard args) = Inr dash"
    "load_metrics env (sa_metrics args) (sa_only_enabled args) = Inr metrics" "provision_host env args = Inr host"
    using assms none by (auto simp: provision_main_def elim!: bindM_InrE)
  ultimately show thesis by (intro that) (simp_all add: provision_main_def)
qed



definition example_triggers :: pyval where
  "example_triggers = VDict [(VStr ''triggers'', VList [VDict [(VStr ''name'', VStr ''warn''), (VStr ''expression'', VStr ''e'')]])]"

definition example_dashboard :: pyval where
  "example_dashboard = VDict [(VStr ''name'', VStr ''D''), (VStr ''pages'', VList [VDict [(VStr ''name'', VStr ''empty'')]])]"

definition full_script_env :: script_env where
  "full_script_env = example_script_env\<lparr>se_cfg := example_client_env\<lparr>ce_read := (\<lambda>p.
       if p = ''t'' then Some (Inr example_template) else if p = ''m'' then Some (Inr (VDict [(VStr ''metrics'', VList [VDict [(VStr ''key'', VStr ''cpu'')]])]))
       else if p = ''r'' then Some (Inr example_triggers) else if p = ''d'' then Some (Inr example_dashboard) else None)\<rparr>\<rparr>"

definition full_script_args :: script_args where
  "full_script_args = example_script_args\<lparr>sa_host := Some ''h''\<rparr>"

definition no_refs :: "bool \<Rightarrow> nat \<Rightarrow> nat \<Rightarrow> string" where
  "no_refs b i j = ''AAAAA''"

definition first_full_run :: "exn + int" where
  "first_full_run = fst (provision_main example_server full_script_env no_refs full_script_args (new_api [(HostObj (VStr ''h''), 0)]))"

lemma first_full_run: "first_full_run = Inr 0"
  by code_simp


end
