(* ===== verification/Bootstrap.thy ===== *)
theory Bootstrap
  imports TemplateItems Sender
begin

section \<open>Bootstrapping a host (\<open>scripts/bootstrap_zabbix.py\<close>)\<close>

text \<open>
  The script of the client that creates its host, one trapper item per enabled metric and the items of
  the client's own metrics. Its class \<open>ZabbixAPI\<close> is a copy of the one in \<open>_common.py\<close>, except for
  \<open>ensure_item\<close>, which is modelled and shown to be the same operation. Its \<open>_wait_for_api\<close> is the shared one.
\<close>

definition SELF_MON_TAGS :: pyval where
  "SELF_MON_TAGS = VList [VDict [(VStr ''tag'', VStr ''zabbig''), (VStr ''value'', VStr '''')],
     VDict [(VStr ''tag'', VStr ''self-monitoring''), (VStr ''value'', VStr '''')]]"

definition self_monitoring_item :: "string \<times> string \<times> string \<Rightarrow> item_def" where
  "self_monitoring_item e = [(VStr ''name'', VStr (fst e)), (VStr ''key_'', VStr (fst (snd e))),
     (VStr ''description'', VStr (snd (snd e))), (VStr ''value_type'', VInt 3), (VStr ''tags'', SELF_MON_TAGS)]"

definition SELF_MONITORING_ITEMS :: "item_def list" where
  "SELF_MONITORING_ITEMS = map self_monitoring_item
     [(''zabbig client: run success'', ''zabbig.client.run.success'',
       ''1 = last run completed successfully, 0 = run ended with failures.''),
      (''zabbig client: collectors total'', ''zabbig.client.collectors.total'',
       ''Total number of enabled collectors in the last run.''),
      (''zabbig client: collectors failed'', ''zabbig.client.collectors.failed'',
       ''Number of collectors that failed or timed out in the last run.''),
      (''zabbig client: run duration (ms)'', ''zabbig.client.duration_ms'',
       ''Wall-clock duration of the last client run in milliseconds.''),
      (''zabbig client: metrics sent'', ''zabbig.client.metrics.sent'',
       ''Total number of metric values successfully accepted by Zabbix in the last run.'')]"

subsection \<open>Configuration\<close>

definition boot_host_name :: "script_env \<Rightarrow> string \<Rightarrow> pyval res" where
  "boot_host_name env path =
     rbind (load_yaml env path) (\<lambda>data.
     rbind (vget data ''zabbix'' (VDict [])) (\<lambda>z.
     rbind (vget z ''host_name'' VNone) (\<lambda>h. Inr (py_or h (VStr (ce_hostname (se_cfg env)))))))"

definition tag_to_zabbix :: "pyval \<Rightarrow> pyval" where
  "tag_to_zabbix t = (let s = py_str t in
     if CHR '':'' \<in> set s then (case py_partition CHR '':'' s of (name, _, v) \<Rightarrow>
       VDict [(VStr ''tag'', VStr (py_strip name)), (VStr ''value'', VStr (py_strip v))])
     else VDict [(VStr ''tag'', VStr (py_strip s)), (VStr ''value'', VStr '''')])"

definition tags_to_zabbix :: "pyval \<Rightarrow> pyval list res" where
  "tags_to_zabbix tags = rbind (py_iter tags) (\<lambda>ts. Inr (map tag_to_zabbix ts))"

definition boot_item :: "pyval \<Rightarrow> pyval \<Rightarrow> item_def res" where
  "boot_item m key =
     rbind (vget m ''value_type'' (VStr ''float'')) (\<lambda>vt.
     rbind (rbind (vget m ''tags'' VNone) (\<lambda>t. tags_to_zabbix (py_or t (VList [])))) (\<lambda>tags.
     rbind (vget m ''name'' VNone) (\<lambda>name.
     rbind (vget m ''description'' VNone) (\<lambda>description.
     Inr ([(VStr ''name'', py_or name key), (VStr ''key_'', key),
           (VStr ''description'', py_or description (VStr '''')), (VStr ''value_type'', VInt (value_type_code vt))]
          @ (if tags \<noteq> [] then [(VStr ''tags'', VList tags)] else []))))))"

fun boot_items :: "pyval list \<Rightarrow> item_def list res" where
  "boot_items [] = Inr []"
| "boot_items (m # ms) =
     rbind (vget m ''enabled'' (VBool True)) (\<lambda>enabled.
     if enabled = VBool False then boot_items ms
     else rbind (vget m ''key'' VNone) (\<lambda>key.
       if \<not> truthy key then boot_items ms
       else rbind (boot_item m key) (\<lambda>item. rbind (boot_items ms) (\<lambda>rest. Inr (item # rest)))))"

definition boot_metrics :: "script_env \<Rightarrow> string \<Rightarrow> item_def list res" where
  "boot_metrics env path =
     rbind (load_yaml env path) (\<lambda>data.
     rbind (vget data ''metrics'' (VList [])) (\<lambda>ms.
     rbind (py_iter ms) boot_items))"

subsection \<open>Provisioning\<close>

definition boot_update_params :: "pyval \<Rightarrow> item_def \<Rightarrow> (pyval \<times> pyval) list" where
  "boot_update_params iid d = (case dget d ''tags'' of
     Some t \<Rightarrow> dset [(VStr ''itemid'', iid)] ''tags'' t
   | None \<Rightarrow> dset [(VStr ''itemid'', iid)] ''tags'' (VList []))"

definition boot_ensure_item :: "'s server \<Rightarrow> pyval \<Rightarrow> item_def \<Rightarrow> ('s, pyval) api" where
  "boot_ensure_item srv host_id d = bindM (lift (vindex (VDict d) ''key_'')) (\<lambda>key.
     bindM (get_item_id srv host_id key) (\<lambda>iid.
     if truthy iid then bindM (call srv ''item.update'' (VDict (boot_update_params iid d))) (\<lambda>_. ret iid)
     else create_id srv ''item.create'' (VDict (adict_merge
       [(VStr ''hostid'', host_id), (VStr ''type'', VInt 2), (VStr ''delay'', VStr ''0'')] d)) ''itemids''))"

definition boot_provision :: "'s server \<Rightarrow> pyval \<Rightarrow> pyval \<Rightarrow> item_def list \<Rightarrow> ('s, unit) api" where
  "boot_provision srv host_name host_group metric_items =
     bindM (ensure_hostgroup srv host_group) (\<lambda>gid.
     bindM (ensure_host srv host_name gid) (\<lambda>hid.
     bindM (forM (\<lambda>d. bindM (boot_ensure_item srv hid d) (\<lambda>_. ret ())) metric_items) (\<lambda>_.
     forM (\<lambda>d. bindM (boot_ensure_item srv hid d) (\<lambda>_. ret ())) SELF_MONITORING_ITEMS)))"

record boot_args =
  ba_config :: string
  ba_metrics :: string
  ba_api_url :: string
  ba_user :: string
  ba_password :: string
  ba_host_group :: string
  ba_no_wait :: bool

definition env_default :: "script_env \<Rightarrow> string \<Rightarrow> string \<Rightarrow> string" where
  "env_default env var d = (case se_getenv env var of None \<Rightarrow> d | Some v \<Rightarrow> v)"

definition boot_defaults :: "script_env \<Rightarrow> string \<Rightarrow> boot_args" where
  "boot_defaults env here = \<lparr>ba_config = path_join here ''client.yaml'', ba_metrics = path_join here ''metrics.yaml'',
     ba_api_url = env_default env ''ZABBIX_API_URL'' ''http://localhost:8080/api_jsonrpc.php'',
     ba_user = env_default env ''ZABBIX_ADMIN_USER'' ''Admin'',
     ba_password = env_default env ''ZABBIX_ADMIN_PASSWORD'' ''zabbix'',
     ba_host_group = env_default env ''ZABBIX_HOST_GROUP'' ''zabbig Clients'', ba_no_wait = False\<rparr>"

definition boot_main :: "'s server \<Rightarrow> script_env \<Rightarrow> boot_args \<Rightarrow> ('s, int) api" where
  "boot_main srv env args =
     (if first_missing env [ba_config args, ba_metrics args] \<noteq> None then ret 1
      else bindM (lift (boot_host_name env (ba_config args))) (\<lambda>host_name.
           bindM (lift (boot_metrics env (ba_metrics args))) (\<lambda>items.
           bindM (lift (if ba_no_wait args then Inr () else wait_for_api env (ba_api_url args) 120)) (\<lambda>_.
           with_session srv (ba_user args, ba_password args)
             (boot_provision srv host_name (VStr (ba_host_group args)) items)))))"

subsection \<open>The same operation on items\<close>

lemma boot_update_params_eq: "boot_update_params iid d = [(VStr ''itemid'', iid), (VStr ''tags'', item_tags d)]"
  by (simp add: boot_update_params_def item_tags_def dset_def split: option.split)

lemma boot_ensure_item_eq: "boot_ensure_item srv owner d = ensure_item srv owner d"
  by (simp only: boot_ensure_item_def ensure_item_def new_item_def boot_update_params_eq)

text \<open>
  \<open>ensure_item\<close> of the bootstrap script and \<open>ensure_item\<close> of the shared module are the same operation:
  they post the same requests and return the same id for every server, owner and item definition.
\<close>

theorem bootstrap_ensures_items_alike: "boot_ensure_item srv owner d = ensure_item srv owner d"
  by (rule boot_ensure_item_eq)

text \<open>
  An object that exists is not left untouched, as the documentation of the script says: when the server
  knows the item, the tags it has there are replaced by those of the definition, and removed when the
  definition has none.
\<close>

theorem bootstrap_replaces_tags:
  assumes found: "get_item_id srv owner key api = (Inr iid, api1)" and iid: "truthy iid" and key: "dget d ''key_'' = Some key"
  shows "\<exists>p. za_posted (snd (boot_ensure_item srv owner d api)) = za_posted api1 @ [p]
    \<and> method_of p = ''item.update'' \<and> field (field p ''params'') ''itemid'' = iid
    \<and> field (field p ''params'') ''tags'' = (case dget d ''tags'' of None \<Rightarrow> VList [] | Some t \<Rightarrow> t)"
proof -
  define p where "p = rpc_payload ''item.update'' (VDict (boot_update_params iid d)) (za_req_id api1 + 1) (za_auth api1)"
  have "za_posted (snd (boot_ensure_item srv owner d api)) = za_posted api1 @ [p]"
    using assms by (simp add: boot_ensure_item_def bindM_def call_eq Let_def p_def split: sum.split prod.split)
  moreover have "method_of p = ''item.update''" "field p ''params'' = VDict (boot_update_params iid d)"
    by (simp_all add: p_def)
  ultimately show ?thesis by (simp add: boot_update_params_eq item_tags_def)
qed

definition tagged_item :: "(obj \<times> int) list" where
  "tagged_item = [(ItemObj (VStr ''7'') (VStr ''cpu''), 3)]"

theorem bootstrap_replaces_tags_witness:
  "\<exists>p. last (za_posted (snd (boot_ensure_item example_server (VStr ''7'') [(VStr ''key_'', VStr ''cpu'')] (new_api tagged_item)))) = p
    \<and> method_of p = ''item.update'' \<and> field (field p ''params'') ''tags'' = VList []"
proof -
  have "fst (get_item_id example_server (VStr ''7'') (VStr ''cpu'') (new_api tagged_item)) = Inr (VStr ''#3'')"
    by code_simp
  then obtain api1 where found: "get_item_id example_server (VStr ''7'') (VStr ''cpu'') (new_api tagged_item) = (Inr (VStr ''#3''), api1)"
    by (metis prod.collapse)
  from bootstrap_replaces_tags[OF found, of "[(VStr ''key_'', VStr ''cpu'')]"] show ?thesis by auto
qed

text \<open>
  A tag \<open>name:value\<close> of \<open>metrics.yaml\<close> arrives in Zabbix as that name and that value: writing the two
  parts of a Zabbix tag with a colon between them and converting it again gives the same tag, when the parts
  have no surrounding white space and the name has no colon.
\<close>

theorem tags_round_trip:
  assumes "CHR '':'' \<notin> set name" and "py_strip name = name" and "py_strip v = v"
  shows "tag_to_zabbix (VStr (name @ '':'' @ v)) = VDict [(VStr ''tag'', VStr name), (VStr ''value'', VStr v)]"
proof -
  have "takeWhile (\<lambda>c. c \<noteq> CHR '':'') (name @ '':'' @ v) = name"
    "dropWhile (\<lambda>c. c \<noteq> CHR '':'') (name @ '':'' @ v) = '':'' @ v"
    using assms(1) by (auto simp: takeWhile_append dropWhile_append)
  then show ?thesis using assms(2,3) by (simp add: tag_to_zabbix_def py_partition_def Let_def)
qed

theorem tags_round_trip_witness:
  "tag_to_zabbix (VStr (''env'' @ '':'' @ ''prod:eu'')) = VDict [(VStr ''tag'', VStr ''env''), (VStr ''value'', VStr ''prod:eu'')]"
  by (rule tags_round_trip) code_simp+

text \<open>The keys of the self-monitoring items are those of the values the sender adds to a run, in the same order.\<close>

lemma self_keys_have_items:
  assumes "self_items s = Inr kvs"
  shows "map item_key SELF_MONITORING_ITEMS = map (\<lambda>kv. VStr (fst kv)) kvs"
  using assms by (auto simp: self_items_def SELF_MONITORING_ITEMS_def self_monitoring_item_def item_key_def)

subsection \<open>Running the script again\<close>

lemma boot_item_plain: "boot_item m key = Inr d \<Longrightarrow> plain_item d"
  by (auto simp: boot_item_def plain_item_def dict_keys_distinct_def)

lemma boot_items_plain: "boot_items ms = Inr ds \<Longrightarrow> d \<in> set ds \<Longrightarrow> plain_item d"
  by (induction ms arbitrary: ds) (auto split: if_splits, (rule boot_item_plain, assumption)+)

lemma self_items_plain: "\<forall>d \<in> set SELF_MONITORING_ITEMS. plain_item d"
  by (simp add: SELF_MONITORING_ITEMS_def self_monitoring_item_def plain_item_def dict_keys_distinct_def)

lemma boot_provision_eq: "boot_provision srv host_name host_group metric_items =
    bindM (ensure_hostgroup srv host_group) (\<lambda>gid. bindM (ensure_host srv host_name gid) (\<lambda>hid.
    bindM (ensure_items srv hid metric_items) (\<lambda>_. ensure_items srv hid SELF_MONITORING_ITEMS)))"
  by (simp only: boot_provision_def ensure_items_def boot_ensure_item_eq)

definition host_there :: "pyval \<Rightarrow> item_def list \<Rightarrow> pyval \<Rightarrow> (obj \<Rightarrow> pyval option) \<Rightarrow> bool" where
  "host_there name ds gr known \<longleftrightarrow> (\<exists>gid hid. known (HostGroup gr) = Some gid \<and> known (HostObj name) = Some hid
     \<and> items_there known hid (ds @ SELF_MONITORING_ITEMS))"

lemma host_there_grow:
  assumes "host_there name ds gr known" and grow: "\<And>k i. known k = Some i \<Longrightarrow> known' k = Some i"
  shows "host_there name ds gr known'"
proof -
  obtain gid hid where there: "known (HostGroup gr) = Some gid" "known (HostObj name) = Some hid"
    "items_there known hid (ds @ SELF_MONITORING_ITEMS)"
    using assms(1) unfolding host_there_def by blast
  have "items_there known' hid (ds @ SELF_MONITORING_ITEMS)"
    by (rule items_there_mono[OF there(3)]) (rule grow)
  then show ?thesis using grow[OF there(1)] grow[OF there(2)] unfolding host_there_def by blast
qed

lemma boot_provision_done:
  assumes doc: "documented srv ids" and plain: "\<forall>d \<in> set ds. plain_item d"
    and run: "boot_provision srv name gr ds s = (Inr (), u)"
  shows "host_there name ds gr (ids (za_server u))"
proof -
  from run obtain gid hid s1 s2 s3 where steps: "ensure_hostgroup srv gr s = (Inr gid, s1)"
    "ensure_host srv name gid s1 = (Inr hid, s2)" "ensure_items srv hid ds s2 = (Inr (), s3)"
    "ensure_items srv hid SELF_MONITORING_ITEMS s3 = (Inr (), u)"
    unfolding boot_provision_eq by (auto elim!: bindM_InrE)
  have grow: "grows ids s1 s2" "grows ids s2 s3" "grows ids s3 u"
    using hosts.ensure_grows[OF doc, where k = "(name, gid)"] ensure_items_grow[OF doc] steps by auto
  have "ids (za_server s1) (HostGroup gr) = Some gid"
    using triple_returns[OF host_groups.returns_id[OF doc] _ steps(1)] by (simp add: exist_def)
  then have "ids (za_server u) (HostGroup gr) = Some gid" using grow by (simp add: grows_def)
  moreover have "ids (za_server s2) (HostObj name) = Some hid"
    using triple_returns[OF hosts.returns_id[OF doc, of "(name, gid)"]] steps(2) by (simp add: exist_def)
  then have "ids (za_server u) (HostObj name) = Some hid" using grow by (simp add: grows_def)
  moreover have "items_there (ids (za_server u)) hid (ds @ SELF_MONITORING_ITEMS)"
    using items_there_grow[OF ensure_items_done[OF doc plain steps(3)] grow(3)]
      ensure_items_done[OF doc self_items_plain steps(4)] by (auto simp: items_there_def)
  ultimately show ?thesis unfolding host_there_def by blast
qed

lemma boot_provision_again:
  assumes doc: "documented srv ids" and plain: "\<forall>d \<in> set ds. plain_item d" and there: "host_there name ds gr known"
  defines "K \<equiv> {(k, i). known k = Some i}"
  shows "triple (\<lambda>s. exist ids K s \<and> limited M s) (boot_provision srv name gr ds) (\<lambda>_. limited M) (\<lambda>_. limited M)"
proof -
  let ?I = "\<lambda>s. exist ids K s \<and> limited M s"
  obtain gid hid where known: "(HostGroup gr, gid) \<in> K" "(HostObj name, hid) \<in> K"
    "\<forall>d \<in> set (ds @ SELF_MONITORING_ITEMS). \<exists>i. (ItemObj hid (item_key d), i) \<in> K"
    using there unfolding host_there_def items_there_def K_def by auto
  have items: "triple ?I (ensure_items srv hid xs) (\<lambda>_. ?I) (\<lambda>_. limited M)" if "xs \<in> {ds, SELF_MONITORING_ITEMS}" for xs
    using that known(3) plain self_items_plain by (intro ensure_items_again[OF doc]) auto
  let ?all = "\<lambda>h. bindM (ensure_items srv h ds) (\<lambda>_. ensure_items srv h SELF_MONITORING_ITEMS)"
  have "triple ?I (?all hid) (\<lambda>_. ?I) (\<lambda>_. limited M)"
    by (intro triple_bind[OF items] items) simp_all
  then have base: "triple ?I (?all hid) (\<lambda>_. limited M) (\<lambda>_. limited M)"
    by (rule triple_conseq) simp_all
  have all: "triple (\<lambda>s. j = hid \<and> ?I s) (?all j) (\<lambda>_. limited M) (\<lambda>_. limited M)" for j
    using base by (cases "j = hid") (simp_all add: triple_def)
  have host: "triple (\<lambda>s. g = gid \<and> ?I s) (ensure_host srv name g) (\<lambda>j s. j = hid \<and> ?I s) (\<lambda>_. limited M)" for g
    by (rule triple_conseq[OF hosts.again[OF doc, of "(name, g)" hid K, simplified]]) (use known(2) in auto)
  show ?thesis unfolding boot_provision_eq
    by (rule triple_bind[OF host_groups.again[OF doc _ known(1)] triple_bind[OF host all]]) simp
qed

lemma boot_main_body:
  assumes "boot_main srv env args (new_api t) = (Inr 0, api)"
  obtains name ds where "boot_host_name env (ba_config args) = Inr name" and "boot_metrics env (ba_metrics args) = Inr ds"
    and "boot_main srv env args = with_session srv (ba_user args, ba_password args)
      (boot_provision srv name (VStr (ba_host_group args)) ds)" and "\<forall>d \<in> set ds. plain_item d"
proof -
  have none: "first_missing env [ba_config args, ba_metrics args] = None"
    using assms by (auto simp: boot_main_def split: if_splits)
  moreover obtain name ds where loads: "boot_host_name env (ba_config args) = Inr name" "boot_metrics env (ba_metrics args) = Inr ds"
    "(if ba_no_wait args then Inr () else wait_for_api env (ba_api_url args) 120) = Inr ()"
    using assms none by (auto simp: boot_main_def elim!: bindM_InrE simp del: if_split split: if_splits)
  moreover have "\<forall>d \<in> set ds. plain_item d"
    using loads(2) boot_items_plain by (auto simp: boot_metrics_def)
  ultimately show thesis by (intro that[OF loads(1,2)]) (simp_all add: boot_main_def)
qed

text \<open>
  The bootstrap script can be run again. If it ended with exit code 0 against a server that keeps the
  promises of the Zabbix API, a later run with the same files, however it ends, posts no request that
  creates anything.
\<close>

theorem bootstrap_is_idempotent:
  assumes doc: "documented srv ids"
    and first: "boot_main srv env args (new_api t) = (Inr 0, api)"
    and kept: "\<And>k i. ids (za_server api) k = Some i \<Longrightarrow> ids t' k = Some i"
    and second: "boot_main srv env args (new_api t') = (r, api')"
  shows "\<forall>p \<in> set (za_posted api'). \<not> is_creation p"
proof -
  obtain name ds where body: "boot_main srv env args = with_session srv (ba_user args, ba_password args)
      (boot_provision srv name (VStr (ba_host_group args)) ds)" and plain: "\<forall>d \<in> set ds. plain_item d"
    using boot_main_body[OF first] .
  obtain s u where run: "boot_provision srv name (VStr (ba_host_group args)) ds s = (Inr (), u)" and grow: "grows ids u api"
    using session_completed[OF doc first[unfolded body]] by metis
  have there: "host_there name ds (VStr (ba_host_group args)) (ids t')"
    using host_there_grow[OF boot_provision_done[OF doc plain run]] growsD[OF grow] kept by metis
  let ?K = "{(k, i). ids t' k = Some i}"
  have start: "exist ids ?K (new_api t') \<and> limited {} (new_api t')"
    by (simp add: exist_def limited_def new_api_def)
  note again = session_reads[OF doc boot_provision_again[OF doc plain there]]
  have "limited {} api'"
    using second start triple_returns[OF again] triple_raises[OF again] unfolding body by (cases r) blast+
  then show ?thesis by (simp add: limited_def)
qed


definition boot_env :: script_env where
  "boot_env = example_script_env\<lparr>se_cfg := example_client_env\<lparr>ce_read := (\<lambda>p.
       if p = ''c'' then Some (Inr (VDict [(VStr ''zabbix'', VDict [(VStr ''host_name'', VStr ''web'')])]))
       else if p = ''m'' then Some (Inr (VDict [(VStr ''metrics'', VList [VDict [(VStr ''key'', VStr ''cpu'')]])]))
       else None)\<rparr>\<rparr>"

definition example_boot_args :: boot_args where
  "example_boot_args = (boot_defaults boot_env ''s'')\<lparr>ba_config := ''c'', ba_metrics := ''m''\<rparr>"

definition first_boot_run :: "exn + int" where
  "first_boot_run = fst (boot_main example_server boot_env example_boot_args (new_api []))"

lemma first_boot_run: "first_boot_run = Inr 0"
  by code_simp

theorem bootstrap_is_idempotent_witness:
  "\<exists>api r api'. boot_main example_server boot_env example_boot_args (new_api []) = (Inr 0, api)
     \<and> boot_main example_server boot_env example_boot_args (new_api (za_server api)) = (r, api')
     \<and> (\<forall>p \<in> set (za_posted api'). \<not> is_creation p)"
proof -
  obtain api where first: "boot_main example_server boot_env example_boot_args (new_api []) = (Inr 0, api)"
    using first_boot_run unfolding first_boot_run_def by (metis prod.collapse)
  obtain r api' where second: "boot_main example_server boot_env example_boot_args (new_api (za_server api)) = (r, api')"
    by fastforce
  show ?thesis
    using bootstrap_is_idempotent[OF example_server_documented first _ second] first second by blast
qed

end
