(* ===== verification/ItemCoverage.thy ===== *)
theory ItemCoverage
  imports Bootstrap MetricsLoader
begin

section \<open>Items for what the client sends\<close>

text \<open>
  The client and the bootstrap script read the same \<open>metrics.yaml\<close> with different code: the loader of the
  configuration (\<open>load_metrics_config\<close> in \<open>config_loader.py\<close>) and a loader of the script. A Zabbix server
  accepts a value only for a key that has an item on the host. The properties: after a bootstrap every metric
  of the main file that the client may send has its item, and so has every value the client sends about
  itself; a metric of an included file has none.
\<close>

subsection \<open>Where the client's metrics come from\<close>

definition stated_by :: "pyval list \<Rightarrow> metric_def \<Rightarrow> bool" where
  "stated_by es m \<longleftrightarrow> (\<exists>raw. VDict raw \<in> set es \<and> dget raw ''key'' = Some (m_key m) \<and> truthy (m_key m)
     \<and> (m_enabled m \<longrightarrow> dget raw ''enabled'' \<noteq> Some (VBool False)))"

lemma parse_valid_metric_source:
  "returns (parse_valid_metric strict raw defaults cds mid collector key)
     (\<lambda>m. m_key m = key \<and> (m_enabled m \<longrightarrow> dget raw ''enabled'' \<noteq> Some (VBool False)))"
proof -
  let ?Q = "\<lambda>m. m_key m = key \<and> (m_enabled m \<longrightarrow> dget raw ''enabled'' \<noteq> Some (VBool False))"
  have rest: "returns (ret m) ?Q" if "m_key m = key" "m_enabled m \<longrightarrow> dget raw ''enabled'' \<noteq> Some (VBool False)" for m
    using that by (simp add: returns_ret)
  show ?thesis
    unfolding parse_valid_metric_def
    by (rule returns_bind[OF returns_lift_Inr]) (intro returns_bind_any rest; auto simp: entry_get_def)
qed

lemma parse_metric_source:
  assumes "entry \<in> set es"
  shows "returns (parse_metric entry defaults cds strict) (\<lambda>r. \<forall>m. r = Some m \<longrightarrow> stated_by es m)"
proof (cases "\<exists>raw. entry = VDict raw")
  case False
  then show ?thesis by (cases entry) (auto simp: parse_metric_def returns_raise)
next
  case True
  then obtain raw where entry: "entry = VDict raw" by blast
  have none: "returns (bindM (config_error strict msg vs) (\<lambda>_. ret None)) (\<lambda>r. \<forall>m. r = Some m \<longrightarrow> stated_by es m)" for msg vs
    by (intro returns_bind_any returns_ret) simp
  have "returns (bindM (parse_valid_metric strict raw defaults cds mid c (pget raw ''key'' VNone)) (\<lambda>m. ret (Some m)))
      (\<lambda>r. \<forall>m. r = Some m \<longrightarrow> stated_by es m)" if "truthy (pget raw ''key'' VNone)" for mid c
  proof (rule returns_bind[OF parse_valid_metric_source], intro returns_ret allI impI)
    fix m m' :: metric_def assume "m_key m = pget raw ''key'' VNone \<and> (m_enabled m \<longrightarrow> dget raw ''enabled'' \<noteq> Some (VBool False))"
      and "Some m = Some m'"
    then show "stated_by es m'"
      using that assms entry unfolding stated_by_def pget_def
      by (intro exI[of _ raw]) (auto split: option.splits)
  qed
  then show ?thesis
    by (auto simp: parse_metric_def entry Let_def intro!: none returns_bind_any)
qed

lemma add_main_metric_source:
  assumes "entry \<in> set es" and "\<forall>m \<in> set (fst acc). stated_by es m"
  shows "returns (add_main_metric defaults cds strict entry acc) (\<lambda>acc. \<forall>m \<in> set (fst acc). stated_by es m)"
proof -
  obtain ms ids ks where acc: "acc = (ms, ids, ks)" by (cases acc)
  show ?thesis
    unfolding add_main_metric_def acc prod.case
    by (rule returns_bind[OF parse_metric_source[OF assms(1)]])
      (use assms(2) in \<open>auto intro!: returns_bind_any returns_ret simp: acc split: option.splits\<close>)
qed

lemma main_metrics_source:
  assumes "load_metrics_config env path strict w = (Inr mc, w')" and "mc_include mc = []"
  obtains raw es where "read_yaml env path = Inr raw" and "py_iter (pget raw ''metrics'' (VList [])) = Inr es"
    and "\<forall>m \<in> set (mc_metrics mc). stated_by es m"
proof -
  from assms obtain raw es cds acc w1 w2 where raw: "read_yaml env path = Inr raw"
    and es: "py_iter (pget raw ''metrics'' (VList [])) = Inr es"
    and loop: "foldM (add_main_metric (pget raw ''defaults'' (VDict [])) cds strict) es ([], [], []) w1 = (Inr acc, w2)"
    and mc: "mc_metrics mc = fst acc"
    unfolding load_metrics_config_def Let_def by (auto elim!: bindM_InrE split: pyval.splits)
  have "returns (foldM (add_main_metric (pget raw ''defaults'' (VDict [])) cds strict) es ([], [], []))
      (\<lambda>acc. \<forall>m \<in> set (fst acc). stated_by es m)"
    by (intro returns_foldM add_main_metric_source) simp_all
  from returnsD[OF this loop] raw es mc show thesis by (intro that) simp_all
qed

subsection \<open>What the bootstrap makes of them\<close>

lemma boot_item_key: "boot_item m key = Inr d \<Longrightarrow> item_key d = key"
  by (auto simp: boot_item_def item_key_def)

lemma boot_items_cover:
  assumes "boot_items es = Inr ds" and "VDict raw \<in> set es" and "dget raw ''key'' = Some key" and "truthy key"
    and "dget raw ''enabled'' \<noteq> Some (VBool False)"
  shows "\<exists>d \<in> set ds. item_key d = key"
  using assms
proof (induction es arbitrary: ds)
  case (Cons e es)
  show ?case
  proof (cases "e = VDict raw")
    case True
    then obtain d where "boot_item e key = Inr d" and "d \<in> set ds"
      using Cons.prems by (auto split: option.splits)
    then show ?thesis using boot_item_key by blast
  next
    case False
    then have "\<exists>ds'. boot_items es = Inr ds' \<and> set ds' \<subseteq> set ds"
      using Cons.prems(1) by (auto split: if_splits)
    then obtain ds' where "boot_items es = Inr ds'" and "set ds' \<subseteq> set ds" by blast
    then show ?thesis using Cons.IH[of ds'] Cons.prems False by auto
  qed
qed simp

lemma boot_metrics_cover:
  assumes "load_metrics_config (se_cfg env) path strict w = (Inr mc, w')" and "mc_include mc = []"
    and "boot_metrics env path = Inr ds" and "m \<in> set (mc_metrics mc)" and "m_enabled m"
  shows "\<exists>d \<in> set ds. item_key d = m_key m"
proof -
  obtain raw es where raw: "read_yaml (se_cfg env) path = Inr raw"
    and es: "py_iter (pget raw ''metrics'' (VList [])) = Inr es" and source: "\<forall>m \<in> set (mc_metrics mc). stated_by es m"
    using main_metrics_source[OF assms(1,2)] .
  have "load_yaml env path = Inr (VDict raw)"
    using raw by (auto simp: read_yaml_def load_yaml_def split: option.splits sum.splits exn.splits pyval.splits)
  then have "boot_items es = Inr ds"
    using assms(3) es by (simp add: boot_metrics_def pget_def)
  then show ?thesis
    using source assms(4,5) boot_items_cover unfolding stated_by_def by blast
qed

text \<open>
  C33: what the client sends has an item. After a bootstrap that ended with exit code 0, against a server that keeps
  the promises of the Zabbix API, the host exists and has an item for the key of every enabled metric the
  client loads from the same \<open>metrics.yaml\<close>, if that file includes no other, and for every value the
  client sends about itself, whatever the run.
\<close>

theorem sent_values_have_items:
  assumes doc: "documented srv ids" and boot: "boot_main srv env args (new_api t) = (Inr 0, api)"
    and client: "load_metrics_config (se_cfg env) (ba_metrics args) strict w = (Inr mc, w')" and "mc_include mc = []"
    and own: "self_items s = Inr kvs"
  shows "\<exists>name hid. boot_host_name env (ba_config args) = Inr name \<and> ids (za_server api) (HostObj name) = Some hid
    \<and> (\<forall>m \<in> set (mc_metrics mc). m_enabled m \<longrightarrow> ids (za_server api) (ItemObj hid (m_key m)) \<noteq> None)
    \<and> (\<forall>kv \<in> set kvs. ids (za_server api) (ItemObj hid (VStr (fst kv))) \<noteq> None)"
proof -
  obtain name ds where name: "boot_host_name env (ba_config args) = Inr name"
    and ds: "boot_metrics env (ba_metrics args) = Inr ds"
    and body: "boot_main srv env args = with_session srv (ba_user args, ba_password args)
      (boot_provision srv name (VStr (ba_host_group args)) ds)" and plain: "\<forall>d \<in> set ds. plain_item d"
    using boot_main_body[OF boot] .
  obtain s' u where run: "boot_provision srv name (VStr (ba_host_group args)) ds s' = (Inr (), u)" and grow: "grows ids u api"
    using session_completed[OF doc boot[unfolded body]] by metis
  have "host_there name ds (VStr (ba_host_group args)) (ids (za_server api))"
    using host_there_grow[OF boot_provision_done[OF doc plain run]] growsD[OF grow] by metis
  then obtain hid where hid: "ids (za_server api) (HostObj name) = Some hid"
    and items: "\<And>d. d \<in> set ds \<union> set SELF_MONITORING_ITEMS \<Longrightarrow> ids (za_server api) (ItemObj hid (item_key d)) \<noteq> None"
    unfolding host_there_def items_there_def by auto
  have "ids (za_server api) (ItemObj hid (m_key m)) \<noteq> None" if "m \<in> set (mc_metrics mc)" "m_enabled m" for m
    using boot_metrics_cover[OF client assms(4) ds that] items by (metis UnI1)
  moreover have "ids (za_server api) (ItemObj hid (VStr (fst kv))) \<noteq> None" if "kv \<in> set kvs" for kv
  proof -
    have "VStr (fst kv) \<in> set (map item_key SELF_MONITORING_ITEMS)"
      using that unfolding self_keys_have_items[OF own] by simp
    then show ?thesis using items by auto
  qed
  ultimately show ?thesis using name hid by blast
qed

text \<open>A main file with one metric, alone or with a second file of one metric that it includes.\<close>

definition metric_entry :: "string \<Rightarrow> pyval" where
  "metric_entry k = VDict [(VStr ''id'', VStr k), (VStr ''collector'', VStr ''cpu''), (VStr ''key'', VStr k)]"

definition included_env :: "bool \<Rightarrow> script_env" where
  "included_env inc = boot_env\<lparr>se_cfg := (se_cfg boot_env)\<lparr>ce_glob := (\<lambda>g. [''x'']), ce_read := (\<lambda>p.
       if p = ''c'' then Some (Inr (VDict [(VStr ''zabbix'', VDict [(VStr ''host_name'', VStr ''web'')])]))
       else if p = ''m'' then Some (Inr (VDict ((VStr ''metrics'', VList [metric_entry ''cpu''])
         # (if inc then [(VStr ''include'', VList [VStr ''more.yaml''])] else []))))
       else if p = ''x'' then Some (Inr (VDict [(VStr ''metrics'', VList [metric_entry ''mem''])]))
       else None)\<rparr>\<rparr>"

definition client_metrics :: "bool \<Rightarrow> metric_def list option" where
  "client_metrics inc = (case load_metrics_config (se_cfg (included_env inc)) ''m'' True [] of
     (Inr mc, w) \<Rightarrow> (if inc \<or> mc_include mc = [] then Some (mc_metrics mc) else None) | _ \<Rightarrow> None)"

definition booted :: "bool \<Rightarrow> (obj \<times> int) list option" where
  "booted inc = (case boot_main example_server (included_env inc) example_boot_args (new_api []) of
     (Inr n, api) \<Rightarrow> if n = 0 then Some (za_server api) else None | _ \<Rightarrow> None)"

lemma booted_alone:
  "booted False \<noteq> None" "map_option (map m_key) (client_metrics False) = Some [VStr ''cpu'']"
  by code_simp+

lemma booted_with_include:
  "case (booted True, client_metrics True) of (Some known, Some [_, m]) \<Rightarrow> m_enabled m \<and> m_key m = VStr ''mem''
     \<and> example_ids known (HostObj (VStr ''web'')) = Some (VStr ''#1'')
     \<and> example_ids known (ItemObj (VStr ''#1'') (VStr ''mem'')) = None | _ \<Rightarrow> False"
  by code_simp

theorem sent_values_have_items_witness:
  "\<exists>api mc w kvs name hid. boot_main example_server (included_env False) example_boot_args (new_api []) = (Inr 0, api)
     \<and> load_metrics_config (se_cfg (included_env False)) ''m'' True [] = (Inr mc, w)
     \<and> self_items new_summary = Inr kvs \<and> boot_host_name (included_env False) (ba_config example_boot_args) = Inr name
     \<and> example_ids (za_server api) (HostObj name) = Some hid
     \<and> (\<forall>m \<in> set (mc_metrics mc). m_enabled m \<longrightarrow> example_ids (za_server api) (ItemObj hid (m_key m)) \<noteq> None)
     \<and> (\<forall>kv \<in> set kvs. example_ids (za_server api) (ItemObj hid (VStr (fst kv))) \<noteq> None)"
proof -
  obtain api where boot: "boot_main example_server (included_env False) example_boot_args (new_api []) = (Inr 0, api)"
    using booted_alone(1) by (auto simp: booted_def split: prod.splits sum.splits if_splits)
  have m: "ba_metrics example_boot_args = ''m''" by (simp add: example_boot_args_def)
  obtain mc w where client: "load_metrics_config (se_cfg (included_env False)) (ba_metrics example_boot_args) True [] = (Inr mc, w)"
    and alone: "mc_include mc = []"
    using booted_alone(2) unfolding m by (auto simp: client_metrics_def split: prod.splits sum.splits if_splits)
  obtain kvs where own: "self_items new_summary = Inr kvs" by (simp add: self_items_def new_summary_def)
  from sent_values_have_items[OF example_server_documented boot client alone own] obtain name hid
    where "boot_host_name (included_env False) (ba_config example_boot_args) = Inr name"
      "example_ids (za_server api) (HostObj name) = Some hid"
      "\<forall>m \<in> set (mc_metrics mc). m_enabled m \<longrightarrow> example_ids (za_server api) (ItemObj hid (m_key m)) \<noteq> None"
      "\<forall>kv \<in> set kvs. example_ids (za_server api) (ItemObj hid (VStr (fst kv))) \<noteq> None" by (elim exE conjE)
  then show ?thesis
    by (intro exI[of _ api] exI[of _ mc] exI[of _ w] exI[of _ kvs] exI[of _ name] exI[of _ hid] conjI boot client[unfolded m] own)
qed

text \<open>
  A metric of an included file has no item. The bootstrap script reads the main file only and ignores its
  \<open>include\<close>: there are files for which the script ends with exit code 0 and the client, in strict mode, loads an
  enabled metric whose key has no item on the host of the client.
\<close>

theorem included_metrics_have_no_item:
  "\<exists>env args api mc w m hid. boot_main example_server env args (new_api []) = (Inr 0, api)
     \<and> load_metrics_config (se_cfg env) (ba_metrics args) True [] = (Inr mc, w)
     \<and> m \<in> set (mc_metrics mc) \<and> m_enabled m
     \<and> example_ids (za_server api) (HostObj (VStr ''web'')) = Some hid
     \<and> example_ids (za_server api) (ItemObj hid (m_key m)) = None"
proof -
  have m: "ba_metrics example_boot_args = ''m''" by (simp add: example_boot_args_def)
  obtain known ms m0 m where known: "booted True = Some known" and ms: "client_metrics True = Some [m0, m]"
    and m_facts: "m_enabled m" "m_key m = VStr ''mem''" "example_ids known (HostObj (VStr ''web'')) = Some (VStr ''#1'')"
      "example_ids known (ItemObj (VStr ''#1'') (VStr ''mem'')) = None"
    using booted_with_include by (auto split: option.splits list.splits)
  obtain api where "boot_main example_server (included_env True) example_boot_args (new_api []) = (Inr 0, api)"
    and "za_server api = known"
    using known by (auto simp: booted_def split: prod.splits sum.splits if_splits)
  moreover obtain mc w where "load_metrics_config (se_cfg (included_env True)) (ba_metrics example_boot_args) True [] = (Inr mc, w)"
    and "mc_metrics mc = [m0, m]"
    using ms unfolding m by (auto simp: client_metrics_def split: prod.splits sum.splits if_splits)
  ultimately show ?thesis using m_facts
    by (intro exI[of _ "included_env True"] exI[of _ example_boot_args] exI[of _ api] exI[of _ mc] exI[of _ w] exI[of _ m]
        exI[of _ "VStr ''#1''"]) simp
qed

end
