(* ===== verification/Inspect.thy ===== *)
theory Inspect
  imports ZabbixScripts OutputWriter
begin

section \<open>Inspection of a dashboard (\<open>inspect_dashboard.py\<close>)\<close>

text \<open>
  A script that prints the pages, widgets and fields of a dashboard. What it prints is a list of
  lines; each row of fields is one line, as each \<open>print\<close> is evaluated before anything is written. Unlike
  the other scripts it lets a \<open>RuntimeError\<close> escape. The property: it changes nothing on the server.
\<close>

record inspect_args =
  ia_api_url :: "string option"
  ia_user :: "string option"
  ia_password :: "string option"
  ia_no_wait :: bool
  ia_name :: string
  ia_widget :: "string option"
  ia_config :: string

type_synonym printing = "(exn, string list, unit) st"

definition say :: "string \<Rightarrow> printing" where
  "say line = modifyM (\<lambda>out. out @ [line])"

text \<open>\<open>{v:>2}\<close>: numbers and texts are padded on the left, other values have no format.\<close>

fun right_aligned :: "nat \<Rightarrow> pyval \<Rightarrow> string res" where
  "right_aligned n (VBool b) = Inr (replicate (n - 1) CHR '' '' @ (if b then ''1'' else ''0''))"
| "right_aligned n (VInt i) = Inr (replicate (n - length (str_int i)) CHR '' '' @ str_int i)"
| "right_aligned n (VFloat f) = Inr (replicate (n - length (str_float f)) CHR '' '' @ str_float f)"
| "right_aligned n (VStr s) = Inr (replicate (n - length s) CHR '' '' @ s)"
| "right_aligned n v = Inl TypeError"

definition show_field :: "pyval \<Rightarrow> printing" where
  "show_field f =
     bindM (lift (rbind (vindex f ''type'') (right_aligned 2))) (\<lambda>t.
     bindM (lift (vindex f ''name'')) (\<lambda>n.
     bindM (lift (vindex f ''value'')) (\<lambda>v.
     say (''      type='' @ t @ ''  name='' @ ljust 40 (py_repr n) @ ''  value='' @ py_repr v))))"

text \<open>\<open>args.widget and args.widget.lower() not in w_name.lower()\<close>.\<close>

definition hidden :: "string option \<Rightarrow> pyval \<Rightarrow> bool res" where
  "hidden wanted name = (case text_or wanted None of None \<Rightarrow> Inr False
     | Some w \<Rightarrow> (case name of VStr s \<Rightarrow> rbind (vhas (VStr (py_lower s)) (py_lower w)) (\<lambda>b. Inr (\<not> b))
         | _ \<Rightarrow> Inl AttributeError))"

definition widget_title :: "pyval \<Rightarrow> pyval \<Rightarrow> string res" where
  "widget_title name w =
     rbind (vindex w ''type'') (\<lambda>ty.
     rbind (vindex w ''x'') (\<lambda>x.
     rbind (vindex w ''y'') (\<lambda>y.
     rbind (vindex w ''width'') (\<lambda>width.
     rbind (vindex w ''height'') (\<lambda>height.
     Inr ([LF] @ ''    Widget: '' @ [CHR 0x27] @ py_str name @ [CHR 0x27] @ ''  type='' @ py_str ty @ ''  pos=('' @ py_str x
       @ '','' @ py_str y @ '')  size=('' @ py_str width @ ''x'' @ py_str height @ '')''))))))"

definition show_widget :: "string option \<Rightarrow> pyval \<Rightarrow> printing" where
  "show_widget wanted w =
     bindM (lift (vget w ''name'' (VStr ''''))) (\<lambda>name.
     bindM (lift (hidden wanted name)) (\<lambda>skip.
     if skip then ret ()
     else bindM (lift (widget_title name w)) (\<lambda>title.
          bindM (say title) (\<lambda>_.
          bindM (lift (rbind (vget w ''fields'' (VList [])) py_iter)) (\<lambda>fs.
          forM show_field fs)))))"

definition show_page :: "string option \<Rightarrow> pyval \<Rightarrow> printing" where
  "show_page wanted page =
     bindM (lift (vget page ''widgets'' (VList []))) (\<lambda>widgets.
     bindM (lift (vget page ''name'' (VStr ''(unnamed)''))) (\<lambda>name.
     bindM (say ([LF] @ ''  Page: '' @ py_str name)) (\<lambda>_.
     bindM (lift (py_iter widgets)) (\<lambda>ws.
     forM (show_widget wanted) ws))))"

definition show_dashboard :: "string option \<Rightarrow> pyval \<Rightarrow> printing" where
  "show_dashboard wanted result =
     bindM (lift (vfirst result)) (\<lambda>dash.
     bindM (lift (vindex dash ''name'')) (\<lambda>name.
     bindM (lift (vindex dash ''dashboardid'')) (\<lambda>i.
     bindM (say ([LF] @ ''Dashboard: '' @ py_str name @ ''  (id='' @ py_str i @ '')'')) (\<lambda>_.
     bindM (lift (vget dash ''pages'' VNone)) (\<lambda>pages.
     bindM (lift (py_iter (py_or pages (VList [])))) (\<lambda>ps.
     forM (show_page wanted) ps))))))"

text \<open>The script prints while it is connected: the state is the client and the lines printed so far.\<close>

definition on_api :: "('s, 'a) api \<Rightarrow> (exn, 's zapi \<times> string list, 'a) st" where
  "on_api m = (\<lambda>(api, out). case m api of (r, api') \<Rightarrow> (r, (api', out)))"

definition on_printer :: "printing \<Rightarrow> (exn, 's zapi \<times> string list, unit) st" where
  "on_printer m = (\<lambda>(api, out). case m out of (r, out') \<Rightarrow> (r, (api, out')))"

definition inspect_query :: "string \<Rightarrow> pyval" where
  "inspect_query name = VDict [(VStr ''filter'', VDict [(VStr ''name'', VStr name)]),
     (VStr ''output'', VList [VStr ''dashboardid'', VStr ''name'']), (VStr ''selectPages'', VStr ''extend'')]"

definition inspect_session ::
  "'s server \<Rightarrow> inspect_args \<Rightarrow> string \<times> string \<Rightarrow> (exn, 's zapi \<times> string list, int) st" where
  "inspect_session srv args creds = finallyM
     (bindM (on_api (login srv (VStr (fst creds)) (VStr (snd creds)))) (\<lambda>_.
      bindM (on_api (call srv ''dashboard.get'' (inspect_query (ia_name args)))) (\<lambda>result.
      if \<not> truthy result then ret 1
      else bindM (on_printer (show_dashboard (ia_widget args) result)) (\<lambda>_. ret 0))))
     (on_api (logout srv))"

definition inspect_main :: "'s server \<Rightarrow> script_env \<Rightarrow> inspect_args \<Rightarrow> (exn, 's zapi \<times> string list, int) st" where
  "inspect_main srv env args =
     bindM (lift (if ia_no_wait args then Inr () else wait_for_api env
       (resolve_api_url env (ia_api_url args) (VStr (server_host_from_config env (ia_config args)))) 120)) (\<lambda>_.
     bindM (lift (resolve_credentials env (ia_user args) (ia_password args))) (\<lambda>creds.
     inspect_session srv args creds))"

subsection \<open>It only reads\<close>

definition asks_only :: "string set \<Rightarrow> 's zapi \<Rightarrow> bool" where
  "asks_only M api \<longleftrightarrow> (\<forall>p \<in> set (za_posted api). method_of p \<in> M)"

lemma asks_only_call:
  assumes "m \<in> M"
  shows "triple (asks_only M) (call srv m q) (\<lambda>_. asks_only M) (\<lambda>_. asks_only M)"
  by (rule triple_call) (use assms in \<open>auto simp: asks_only_def\<close>)

lemma asks_only_auth: "triple (asks_only M) (set_auth t) (\<lambda>_. asks_only M) E"
  by (simp add: set_auth_def triple_def asks_only_def)

lemma asks_only_login: "''user.login'' \<in> M \<Longrightarrow> triple (asks_only M) (login srv u p) (\<lambda>_. asks_only M) (\<lambda>_. asks_only M)"
  unfolding login_def by (intro triple_on_runtime_error triple_bind[OF asks_only_call] asks_only_auth)

lemma asks_only_logout: "''user.logout'' \<in> M \<Longrightarrow> triple (asks_only M) (logout srv) (\<lambda>_. asks_only M) (\<lambda>_. asks_only M)"
  by (intro triple_logout asks_only_call asks_only_auth)

lemma steady_on_api: "triple I m (\<lambda>_. I) (\<lambda>_. I) \<Longrightarrow> steady (\<lambda>s. I (fst s)) (on_api m)"
  by (auto simp: steady_def triple_def on_api_def split: prod.splits sum.splits)

lemma steady_on_printer: "steady (\<lambda>s. I (fst s)) (on_printer m)"
  by (auto simp: steady_def triple_def on_printer_def split: prod.splits sum.splits)

lemma inspect_main_steady:
  "{''user.login'', ''dashboard.get'', ''user.logout''} \<subseteq> M \<Longrightarrow> steady (\<lambda>s. asks_only M (fst s)) (inspect_main srv env args)"
  unfolding inspect_main_def inspect_session_def
  by (intro steady_intros steady_on_printer steady_on_api asks_only_call asks_only_login asks_only_logout) auto

lemma inspect_session_cases:
  assumes "inspect_session srv args creds (api, []) = (r, (api', out))"
  shows "case r of Inl e \<Rightarrow> True | Inr n \<Rightarrow> n \<in> {0, 1} \<and> \<not> truthy (za_auth api') \<and> (n = 0 \<or> out = [])"
proof (cases r)
  case (Inr n)
  note run = assms[unfolded Inr inspect_session_def]
  then obtain t where work: "bindM (on_api (login srv (VStr (fst creds)) (VStr (snd creds)))) (\<lambda>_.
      bindM (on_api (call srv ''dashboard.get'' (inspect_query (ia_name args)))) (\<lambda>result.
      if \<not> truthy result then ret 1
      else bindM (on_printer (show_dashboard (ia_widget args) result)) (\<lambda>_. ret 0))) (api, []) = (Inr n, t)"
    and out: "on_api (logout srv) t = (Inr (), (api', out))"
    by (elim finallyM_cases) auto
  have "\<not> truthy (za_auth api') \<and> out = snd t"
    using out by (cases t) (auto simp: on_api_def split: prod.splits dest: logout_cases)
  moreover have "n \<in> {0, 1} \<and> (n = 0 \<or> snd t = [])"
    using work by (auto simp: bindM_def on_api_def split: prod.splits sum.splits if_splits)
  ultimately show ?thesis using Inr by simp
qed simp

text \<open>
  Inspection only reads: whatever the server answers, every request it is sent is a login, the query of
  the dashboard or a logout. When the script ends with an exit code, the code is 0 or 1, its token has been
  given up, and with code 1 nothing has been printed.
\<close>

theorem inspection_only_reads:
  "case inspect_main srv env args (new_api t, []) of (r, api, out) \<Rightarrow>
     method_of ` set (za_posted api) \<subseteq> {''user.login'', ''dashboard.get'', ''user.logout''}
     \<and> (case r of Inl e \<Rightarrow> True | Inr n \<Rightarrow> n \<in> {0, 1} \<and> \<not> truthy (za_auth api) \<and> (n = 0 \<or> out = []))"
proof -
  let ?M = "{''user.login'', ''dashboard.get'', ''user.logout''}"
  obtain r api out where run: "inspect_main srv env args (new_api t, []) = (r, (api, out))" by (metis prod.exhaust)
  have "asks_only ?M (fst (new_api t, []))" by (simp add: asks_only_def new_api_def)
  then have "asks_only ?M api"
    using inspect_main_steady[of ?M srv env args] run unfolding steady_def by (cases r) (fastforce dest: triple_returns triple_raises)+
  moreover have "case r of Inl e \<Rightarrow> True | Inr n \<Rightarrow> n \<in> {0, 1} \<and> \<not> truthy (za_auth api) \<and> (n = 0 \<or> out = [])"
    using run unfolding inspect_main_def
    by (auto simp: bindM_def split: prod.splits sum.splits dest!: inspect_session_cases)
  ultimately show ?thesis using run by (auto simp: asks_only_def)
qed

end
