(* ===== verification/Logging.thy ===== *)
theory Logging
  imports OutputWriter
begin

section \<open>Logging (\<open>logging_setup.py\<close>)\<close>

text \<open>
  The root logger as \<open>setup_logging\<close> leaves it, the two line formats, and the rotation of the log file: the
  \<open>RotatingFileHandler\<close> of the standard library with the namer and the rotator the client installs. A log
  file is a text or the compressed form of a file; \<open>logfs\<close> is the files by path. Errors of the disk are
  not modelled, except that opening the log file may raise. The test whether to roll over is that of the
  library up to Python 3.12: newer versions do not roll over an empty file.

  The properties: JSON records stay on one line, and rotation refines a bounded queue of texts.
\<close>

subsection \<open>Setting up\<close>

definition level_number :: "string \<Rightarrow> int" where
  "level_number name = (case map_of [(''CRITICAL'', 50), (''FATAL'', 50), (''ERROR'', 40), (''WARNING'', 30), (''WARN'', 30),
     (''INFO'', 20), (''DEBUG'', 10), (''NOTSET'', 0)] name of None \<Rightarrow> 20 | Some n \<Rightarrow> n)"

datatype formatter = JsonFormatter | TextFormatter

datatype handler =
    StreamHandler formatter
  | RotatingFileHandler string int int bool formatter

record root_logger =
  rl_level :: int
  rl_handlers :: "handler list"

text \<open>\<open>open_error path\<close> is what opening the log file raises.\<close>

definition make_formatter :: "logging_config \<Rightarrow> formatter" where
  "make_formatter cfg = (if lg_format cfg = ''json'' then JsonFormatter else TextFormatter)"

definition add_handler :: "handler \<Rightarrow> (exn, root_logger, unit) st" where
  "add_handler h = modifyM (\<lambda>r. r\<lparr>rl_handlers := rl_handlers r @ [h]\<rparr>)"

definition setup_logging :: "(string \<Rightarrow> exn option) \<Rightarrow> logging_config \<Rightarrow> (exn, root_logger, unit) st" where
  "setup_logging open_error cfg =
     bindM (modifyM (\<lambda>r. r\<lparr>rl_level := level_number (lg_level cfg), rl_handlers := []\<rparr>)) (\<lambda>_.
     bindM (if lg_console cfg then add_handler (StreamHandler (make_formatter cfg)) else ret ()) (\<lambda>_.
     case lg_file cfg of None \<Rightarrow> ret ()
     | Some fc \<Rightarrow> (case open_error (lf_path fc) of Some e \<Rightarrow> raise e
         | None \<Rightarrow> add_handler (RotatingFileHandler (lf_path fc) (lf_max_size_mb fc * 1024 * 1024)
                     (lf_max_backups fc) (lf_compress fc) (make_formatter cfg)))))"

text \<open>The handlers are those of the configuration, whatever was set up before.\<close>

lemma setup_logging_result:
  "setup_logging open_error cfg r =
     (let console = (if lg_console cfg then [StreamHandler (make_formatter cfg)] else []);
          root = (\<lambda>hs. r\<lparr>rl_level := level_number (lg_level cfg), rl_handlers := console @ hs\<rparr>) in
      case lg_file cfg of None \<Rightarrow> (Inr (), root [])
      | Some fc \<Rightarrow> (case open_error (lf_path fc) of Some e \<Rightarrow> (Inl e, root [])
          | None \<Rightarrow> (Inr (), root [RotatingFileHandler (lf_path fc) (lf_max_size_mb fc * 1024 * 1024)
              (lf_max_backups fc) (lf_compress fc) (make_formatter cfg)])))"
  by (auto simp: setup_logging_def add_handler_def bindM_def Let_def split: option.split)

lemma setup_logging_again:
  "setup_logging open_error cfg (snd (setup_logging open_error' cfg' r)) = setup_logging open_error cfg r"
  by (auto simp: setup_logging_result Let_def split: option.split)

subsection \<open>Formats\<close>

text \<open>A record with its times already formatted; \<open>lr_exc\<close> is the text of a traceback.\<close>

record log_record =
  lr_time :: string
  lr_level :: string
  lr_name :: string
  lr_msg :: string
  lr_exc :: "string option"

definition json_member :: "string \<times> string \<Rightarrow> string" where
  "json_member kv = json_string (fst kv) @ '': '' @ json_string (snd kv)"

definition json_format :: "log_record \<Rightarrow> string" where
  "json_format r = ''{'' @ join_with '', '' (map json_member
     ([(''ts'', lr_time r), (''level'', lr_level r), (''logger'', lr_name r), (''msg'', lr_msg r)]
      @ (case lr_exc r of None \<Rightarrow> [] | Some e \<Rightarrow> [(''exc'', e)]))) @ ''}''"

definition text_format :: "log_record \<Rightarrow> string" where
  "text_format r = lr_time r @ ''  '' @ ljust 8 (lr_level r) @ ''  '' @ lr_name r @ ''  '' @ lr_msg r
     @ (case lr_exc r of None \<Rightarrow> [] | Some e \<Rightarrow> LF # e)"

definition format_record :: "formatter \<Rightarrow> log_record \<Rightarrow> string" where
  "format_record f r = (case f of JsonFormatter \<Rightarrow> json_format r | TextFormatter \<Rightarrow> text_format r)"

subsection \<open>Rotation\<close>

datatype log_file = Text string | Gz log_file

type_synonym logfs = "string \<Rightarrow> log_file option"

definition gz_namer :: "string \<Rightarrow> string" where
  "gz_namer name = name @ ''.gz''"

definition gz_rotator :: "string \<Rightarrow> string \<Rightarrow> logfs \<Rightarrow> logfs" where
  "gz_rotator source dest fs = (fs(dest := map_option Gz (fs source)))(source := None)"

definition rename :: "string \<Rightarrow> string \<Rightarrow> logfs \<Rightarrow> logfs" where
  "rename source dest fs = (if fs source = None then fs else (fs(dest := fs source))(source := None))"

definition backup_name :: "bool \<Rightarrow> string \<Rightarrow> nat \<Rightarrow> string" where
  "backup_name compress base i =
     (let name = base @ ''.'' @ str_int (int i) in if compress then gz_namer name else name)"

text \<open>\<open>for i in range(backupCount - 1, 0, -1)\<close>: every backup moves up by one; \<open>name i\<close> is the file of backup \<open>i\<close>.\<close>

fun shift_backups :: "(nat \<Rightarrow> string) \<Rightarrow> nat \<Rightarrow> logfs \<Rightarrow> logfs" where
  "shift_backups name 0 fs = fs"
| "shift_backups name (Suc i) fs = shift_backups name i (rename (name (Suc i)) (name (Suc (Suc i))) fs)"

definition rotate_base :: "bool \<Rightarrow> string \<Rightarrow> logfs \<Rightarrow> logfs" where
  "rotate_base compress base fs = (let dest = backup_name compress base 1 in
     if compress then gz_rotator base dest (fs(dest := None)) else rename base dest (fs(dest := None)))"

definition open_log :: "string \<Rightarrow> logfs \<Rightarrow> logfs" where
  "open_log base fs = (if fs base = None then fs(base := Some (Text [])) else fs)"

definition roll_over :: "bool \<Rightarrow> string \<Rightarrow> int \<Rightarrow> logfs \<Rightarrow> logfs" where
  "roll_over compress base max_backups fs = open_log base
     (if 0 < max_backups
      then rotate_base compress base (shift_backups (backup_name compress base) (nat max_backups - 1) fs) else fs)"

fun text_of :: "log_file option \<Rightarrow> string" where
  "text_of (Some (Text s)) = s"
| "text_of v = []"

definition should_roll :: "int \<Rightarrow> string \<Rightarrow> string \<Rightarrow> bool" where
  "should_roll max_bytes text msg \<longleftrightarrow> 0 < max_bytes \<and> max_bytes \<le> int (length text) + int (length msg)"

definition log_emit :: "bool \<Rightarrow> string \<Rightarrow> int \<Rightarrow> int \<Rightarrow> string \<Rightarrow> logfs \<Rightarrow> logfs" where
  "log_emit compress base max_bytes max_backups line fs = (let msg = line @ [LF];
       fs' = (if should_roll max_bytes (text_of (fs base)) msg then roll_over compress base max_backups fs else fs)
     in fs'(base := Some (Text (text_of (fs' base) @ msg))))"

fun log_all :: "bool \<Rightarrow> string \<Rightarrow> int \<Rightarrow> int \<Rightarrow> string list \<Rightarrow> logfs \<Rightarrow> logfs" where
  "log_all compress base max_bytes max_backups [] fs = fs"
| "log_all compress base max_bytes max_backups (l # ls) fs =
     log_all compress base max_bytes max_backups ls (log_emit compress base max_bytes max_backups l fs)"

subsection \<open>JSON records\<close>

text \<open>Reading a string literal back, one character at a time.\<close>

definition hex_val :: "char \<Rightarrow> nat" where
  "hex_val c = (if code c < 58 then code c - 48 else code c - 87)"

fun read_escape :: "string \<Rightarrow> (char \<times> string) option" where
  "read_escape (e # s) =
     (if e = CHR ''b'' then Some (char_of (8::nat), s) else if e = CHR ''t'' then Some (char_of (9::nat), s)
      else if e = CHR ''n'' then Some (char_of (10::nat), s) else if e = CHR ''f'' then Some (char_of (12::nat), s)
      else if e = CHR ''r'' then Some (char_of (13::nat), s)
      else if e = CHR ''u'' then Some (char_of (16 * hex_val (s ! 2) + hex_val (s ! 3)), drop 4 s)
      else Some (e, s))"
| "read_escape [] = None"

fun read_char :: "string \<Rightarrow> (char \<times> string) option" where
  "read_char (c # s) = (if c = CHR 0x5C then read_escape s else Some (c, s))"
| "read_char [] = None"

lemma hex_val_digit: "n < 16 \<Longrightarrow> hex_val (hex_digit n) = n"
proof -
  have "\<forall>n < 16. hex_val (hex_digit n) = n" by code_simp
  then show "n < 16 \<Longrightarrow> hex_val (hex_digit n) = n" by blast
qed

lemma code_less: "code c < 256"
  using of_char_mod_256[of c, where 'a = nat] by (metis mod_less_divisor zero_less_numeral)

lemma char_of_code: "code c = n \<Longrightarrow> char_of n = c"
  by auto

lemma read_char_escape [simp]: "read_char (json_char c @ x) = Some (c, x)"
proof -
  let ?n = "code c"
  have "hex_val (hex_digit (?n div 16)) = ?n div 16" and "hex_val (hex_digit (?n mod 16)) = ?n mod 16"
    using code_less[of c] by (intro hex_val_digit; simp add: less_mult_imp_div_less)+
  then show ?thesis
    unfolding json_char_def Let_def by (simp add: char_of_code)
qed

lemma json_char_split: "json_char c @ x = json_char d @ y \<Longrightarrow> c = d \<and> x = y"
  by (metis read_char_escape option.inject prod.inject)

lemma json_char_start: "json_char c \<noteq> []" "hd (json_char c) \<noteq> CHR 0x22" "LF \<notin> set (json_char c)"
proof -
  have hex: "LF \<noteq> hex_digit n" if "n < 16" for n
  proof -
    have "\<forall>n < 16. LF \<noteq> hex_digit n" by code_simp
    then show ?thesis using that by blast
  qed
  have "LF \<noteq> hex_digit (code c div 16)" and "LF \<noteq> hex_digit (code c mod 16)"
    using code_less[of c] by (rule_tac hex, simp add: less_mult_imp_div_less)+
  then show "json_char c \<noteq> []" "hd (json_char c) \<noteq> CHR 0x22" "LF \<notin> set (json_char c)"
    unfolding json_char_def Let_def by (auto simp: LF_def)
qed

lemma json_string_split: "json_string s @ x = json_string t @ y \<Longrightarrow> s = t \<and> x = y"
proof -
  have "concat (map json_char s) @ CHR 0x22 # x = concat (map json_char t) @ CHR 0x22 # y \<Longrightarrow> s = t \<and> x = y"
  proof (induction s arbitrary: t)
    case Nil
    note eq = Nil.prems
    show ?case
    proof (cases t)
      case Nil
      then show ?thesis using eq by simp
    next
      case (Cons d t')
      then show ?thesis
        using eq json_char_start(1,2)[of d] by (cases "json_char d") auto
    qed
  next
    case (Cons c s)
    show ?case
    proof (cases t)
      case Nil
      then show ?thesis
        using Cons.prems json_char_start(1,2)[of c] by (cases "json_char c") auto
    next
      case (Cons d t')
      then show ?thesis
        using Cons.prems Cons.IH json_char_split[of c _ d] by fastforce
    qed
  qed
  then show "json_string s @ x = json_string t @ y \<Longrightarrow> s = t \<and> x = y" by (simp add: json_string_def)
qed

lemma json_string_eq [simp]:
  "json_string s @ x = json_string t @ y \<longleftrightarrow> s = t \<and> x = y"
  "json_string s @ x = json_string t \<longleftrightarrow> s = t \<and> x = []"
  "json_string s = json_string t @ y \<longleftrightarrow> s = t \<and> y = []"
  "json_string s = json_string t \<longleftrightarrow> s = t"
  using json_string_split[of s x t y] json_string_split[of s x t "[]"] json_string_split[of s "[]" t y]
    json_string_split[of s "[]" t "[]"] by auto

lemma json_string_line [simp]: "LF \<notin> set (json_string s)"
  using json_char_start(3) by (auto simp: json_string_def LF_def)

lemma json_format_line: "LF \<notin> set (json_format r)"
  by (auto simp: json_format_def json_member_def LF_def[symmetric] split: option.split) (simp_all add: LF_def)

lemma json_format_inj: "json_format r = json_format r' \<Longrightarrow> r = r'"
proof -
  assume eq: "json_format r = json_format r'"
  show "r = r'"
    using eq unfolding json_format_def json_member_def
    by (cases r; cases r') (auto split: option.splits)
qed

lemma line_split: "LF \<notin> set l \<Longrightarrow> LF \<notin> set l' \<Longrightarrow> l @ LF # x = l' @ LF # y \<Longrightarrow> l = l' \<and> x = y"
proof (induction l arbitrary: l')
  case Nil
  then show ?case by (cases l') auto
next
  case (Cons c l)
  then show ?case by (cases l') auto
qed

lemma lines_inj:
  "\<forall>l \<in> set ls. LF \<notin> set l \<Longrightarrow> \<forall>l \<in> set ls'. LF \<notin> set l \<Longrightarrow>
   concat (map (\<lambda>l. l @ [LF]) ls) = concat (map (\<lambda>l. l @ [LF]) ls') \<Longrightarrow> ls = ls'"
proof (induction ls arbitrary: ls')
  case Nil
  then show ?case by (cases ls') auto
next
  case (Cons l ls)
  then obtain l' ls'' where ls': "ls' = l' # ls''" by (cases ls') auto
  have "l = l' \<and> concat (map (\<lambda>l. l @ [LF]) ls) = concat (map (\<lambda>l. l @ [LF]) ls'')"
    using Cons.prems unfolding ls' by (intro line_split) simp_all
  then show ?case using Cons.IH[of ls''] Cons.prems(1,2) unfolding ls' by (metis list.set_intros(2))
qed

text \<open>
  A log in JSON can be read back: two sequences of records give the same text only if they are the
  same sequence, so no message, logger name or traceback can forge, split or hide a record. The text
  format has no such property: a message with a line break can pass for two records.
\<close>

theorem json_log_reads_back:
  "(concat (map (\<lambda>r. format_record JsonFormatter r @ [LF]) rs)
      = concat (map (\<lambda>r. format_record JsonFormatter r @ [LF]) rs') \<longleftrightarrow> rs = rs')
   \<and> (\<exists>r r1 r2. format_record TextFormatter r @ [LF]
        = (format_record TextFormatter r1 @ [LF]) @ (format_record TextFormatter r2 @ [LF]))"
proof -
  have lines: "concat (map (\<lambda>r. format_record JsonFormatter r @ [LF]) rs) = concat (map (\<lambda>l. l @ [LF]) (map json_format rs))"
    for rs by (induction rs) (simp_all add: format_record_def)
  have "inj json_format" by (rule injI) (rule json_format_inj)
  then have "concat (map (\<lambda>l. l @ [LF]) (map json_format rs)) = concat (map (\<lambda>l. l @ [LF]) (map json_format rs')) \<longleftrightarrow> rs = rs'"
    using lines_inj[of "map json_format rs" "map json_format rs'"] by (auto simp: json_format_line inj_map_eq_map)
  moreover have "\<exists>r r1 r2. text_format r @ [LF] = (text_format r1 @ [LF]) @ (text_format r2 @ [LF])"
  proof (intro exI)
    let ?r = "\<lambda>m. \<lparr>lr_time = [], lr_level = [], lr_name = [], lr_msg = m, lr_exc = None\<rparr>"
    show "text_format (?r (LF # text_format (?r []))) @ [LF] = (text_format (?r []) @ [LF]) @ (text_format (?r []) @ [LF])"
      by (simp add: text_format_def)
  qed
  ultimately show ?thesis unfolding lines by (simp add: format_record_def)
qed

subsection \<open>Rotation is a bounded queue\<close>

text \<open>
  The names of the backups, as the rotation relies on them: different from each other and from the log file.
\<close>

locale backup_files =
  fixes name :: "nat \<Rightarrow> string" and base :: string
  assumes name_inj: "name i = name j \<Longrightarrow> i = j"
    and name_base: "name i \<noteq> base"
begin

lemma name_eq [simp]: "name i = name j \<longleftrightarrow> i = j" "base \<noteq> name i" "name i \<noteq> base"
  using name_inj name_base by metis+

lemma shift_frame: "(\<And>i. p \<noteq> name i) \<Longrightarrow> shift_backups name k fs p = fs p"
  by (induction k arbitrary: fs) (auto simp: rename_def)

lemma shift_moves_up:
  assumes "\<And>i. 1 \<le> i \<Longrightarrow> i \<le> k \<Longrightarrow> fs (name i) = None \<Longrightarrow> fs (name (Suc i)) = None"
  shows "shift_backups name k fs (name i) =
     (if i = 1 \<and> 1 \<le> k then None else if 2 \<le> i \<and> i \<le> Suc k then fs (name (i - 1)) else fs (name i))"
  using assms
proof (induction k arbitrary: fs)
  case 0
  then show ?case by auto
next
  case (Suc k)
  let ?fs = "rename (name (Suc k)) (name (Suc (Suc k))) fs"
  have moved: "?fs (name j) = (if j = Suc k then None else if j = Suc (Suc k) then fs (name (Suc k)) else fs (name j))" for j
    using Suc.prems[of "Suc k"] by (auto simp: rename_def)
  have "shift_backups name k ?fs (name i) =
     (if i = 1 \<and> 1 \<le> k then None else if 2 \<le> i \<and> i \<le> Suc k then ?fs (name (i - 1)) else ?fs (name i))"
    using Suc.prems by (intro Suc.IH) (auto simp: moved split: if_splits)
  then show ?case by (auto simp: moved)
qed

end

lemma backup_name_inj: "backup_name compress base i = backup_name compress base j \<Longrightarrow> i = j"
proof -
  assume "backup_name compress base i = backup_name compress base j"
  then have "str_int (int i) = str_int (int j)"
    by (auto simp: backup_name_def gz_namer_def Let_def split: if_splits)
  then have "Some (int i) = Some (int j)" by (metis parse_int_str_int)
  then show "i = j" by simp
qed

interpretation bf: backup_files "backup_name compress base" base for compress base
proof
  show "backup_name compress base i = backup_name compress base j \<Longrightarrow> i = j" for i j by (rule backup_name_inj)
  show "backup_name compress base i \<noteq> base" for i
    by (simp add: backup_name_def gz_namer_def Let_def)
qed

text \<open>The files as a queue: the backups, newest first, and the text of the current file.\<close>

definition log_files :: "(nat \<Rightarrow> string) \<Rightarrow> string \<Rightarrow> logfs \<Rightarrow> log_file list \<times> string \<Rightarrow> bool" where
  "log_files name base fs q \<longleftrightarrow> fs base = Some (Text (snd q))
     \<and> (\<forall>i. fs (name (Suc i)) = (if i < length (fst q) then Some (fst q ! i) else None))"

definition packed :: "bool \<Rightarrow> string \<Rightarrow> log_file" where
  "packed compress text = (if compress then Gz (Text text) else Text text)"

definition queue_emit :: "bool \<Rightarrow> int \<Rightarrow> int \<Rightarrow> string \<Rightarrow> log_file list \<times> string \<Rightarrow> log_file list \<times> string" where
  "queue_emit compress max_bytes max_backups line q = (let msg = line @ [LF] in
     if should_roll max_bytes (snd q) msg \<and> 0 < max_backups
     then (take (nat max_backups) (packed compress (snd q) # fst q), msg) else (fst q, snd q @ msg))"

lemma shift_queue:
  assumes "log_files (backup_name compress base) base fs q"
  shows "((shift_backups (backup_name compress base) k fs)(backup_name compress base 1 := None)) (backup_name compress base (Suc i))
      = (if i = 0 then None else if i \<le> k then (if i \<le> length (fst q) then Some (fst q ! (i - 1)) else None)
         else fs (backup_name compress base (Suc i)))"
    and "shift_backups (backup_name compress base) k fs base = Some (Text (snd q))"
proof -
  have q: "fs (backup_name compress base (Suc i)) = (if i < length (fst q) then Some (fst q ! i) else None)" for i
    using assms by (simp add: log_files_def)
  have "fs (backup_name compress base i) = None \<Longrightarrow> fs (backup_name compress base (Suc i)) = None" if "1 \<le> i" for i
    using q[of "i - 1"] q[of i] that by (auto split: if_splits)
  note moved = bf.shift_moves_up[of k fs compress base "Suc i", OF this]
  then show "((shift_backups (backup_name compress base) k fs)(backup_name compress base 1 := None)) (backup_name compress base (Suc i))
      = (if i = 0 then None else if i \<le> k then (if i \<le> length (fst q) then Some (fst q ! (i - 1)) else None)
         else fs (backup_name compress base (Suc i)))"
    using q[of "i - 1"] by (cases i) (auto simp del: shift_backups.simps)
  show "shift_backups (backup_name compress base) k fs base = Some (Text (snd q))"
    using assms by (simp add: bf.shift_frame log_files_def)
qed

lemma roll_over_queue:
  assumes files: "log_files (backup_name compress base) base fs q" and fits: "length (fst q) \<le> nat max_backups"
    and "0 < max_backups"
  shows "log_files (backup_name compress base) base (roll_over compress base max_backups fs)
     (take (nat max_backups) (packed compress (snd q) # fst q), [])"
proof -
  let ?name = "backup_name compress base"
  let ?fs = "(shift_backups ?name (nat max_backups - 1) fs)(?name 1 := None)"
  obtain n where n: "nat max_backups = Suc n" using assms(3) by (cases "nat max_backups") auto
  have base: "?fs base = Some (Text (snd q))" using shift_queue(2)[OF files] by simp
  have rolled: "roll_over compress base max_backups fs = (?fs(?name 1 := Some (packed compress (snd q))))(base := Some (Text []))"
    using base assms(3) by (cases compress)
      (auto simp: roll_over_def rotate_base_def Let_def gz_rotator_def rename_def open_log_def packed_def fun_eq_iff)
  have q: "fs (?name (Suc i)) = (if i < length (fst q) then Some (fst q ! i) else None)" for i
    using files by (simp add: log_files_def)
  have "(?fs(?name 1 := Some (packed compress (snd q)))) (?name (Suc i))
      = (if i < length (take (Suc n) (packed compress (snd q) # fst q))
         then Some (take (Suc n) (packed compress (snd q) # fst q) ! i) else None)" for i
    using shift_queue(1)[OF files, of n i] fits q[of i] n by (cases i) auto
  then show ?thesis unfolding rolled log_files_def n by simp
qed

text \<open>The rotation of the files refines the queue, and touches no other file.\<close>

lemma emit_refines_queue:
  assumes "log_files (backup_name compress base) base fs q" and "length (fst q) \<le> nat max_backups"
  shows "log_files (backup_name compress base) base (log_emit compress base max_bytes max_backups line fs)
      (queue_emit compress max_bytes max_backups line q)"
    and "length (fst (queue_emit compress max_bytes max_backups line q)) \<le> nat max_backups"
proof -
  let ?name = "backup_name compress base"
  have append: "log_files ?name base (f(base := Some (Text (text_of (f base) @ m)))) (bs, c @ m)"
    if "log_files ?name base f (bs, c)" for f bs c m
    using that by (auto simp: log_files_def)
  have cur: "text_of (fs base) = snd q" using assms(1) by (simp add: log_files_def)
  show "log_files ?name base (log_emit compress base max_bytes max_backups line fs)
      (queue_emit compress max_bytes max_backups line q)"
  proof (cases "should_roll max_bytes (snd q) (line @ [LF])")
    case False
    with assms(1) cur show ?thesis by (cases q) (auto simp: log_emit_def queue_emit_def Let_def intro: append)
  next
    case True
    show ?thesis
    proof (cases "0 < max_backups")
      case False
      then have "roll_over compress base max_backups fs = fs"
        using assms(1) by (simp add: roll_over_def open_log_def log_files_def)
      with assms(1) cur True False show ?thesis
        by (cases q) (auto simp: log_emit_def queue_emit_def Let_def intro: append)
    next
      case enabled: True
      note append[OF roll_over_queue[OF assms enabled], of "line @ [LF]"]
      with cur True enabled show ?thesis by (simp add: log_emit_def queue_emit_def Let_def)
    qed
  qed
  show "length (fst (queue_emit compress max_bytes max_backups line q)) \<le> nat max_backups"
    using assms(2) by (simp add: queue_emit_def Let_def)
qed

lemma emit_frame:
  assumes "p \<noteq> base" and "\<And>i. p \<noteq> backup_name compress base i"
  shows "log_emit compress base max_bytes max_backups line fs p = fs p"
  using assms by (cases compress)
    (simp_all add: log_emit_def Let_def roll_over_def open_log_def rotate_base_def gz_rotator_def rename_def bf.shift_frame)

subsection \<open>What the files hold\<close>

definition line_text :: "string list \<Rightarrow> string" where
  "line_text ls = concat (map (\<lambda>l. l @ [LF]) ls)"

text \<open>
  The files hold the latest lines, those after the lines that are \<open>lost\<close>, cut into one block of whole lines
  per file. Lines are only missing once all backups are in use, and a file reaches \<open>max_bytes\<close> only
  with a single line.
\<close>

definition latest_lines :: "bool \<Rightarrow> string \<Rightarrow> int \<Rightarrow> int \<Rightarrow> string list \<Rightarrow> logfs \<Rightarrow> bool" where
  "latest_lines compress base max_bytes max_backups lines fs \<longleftrightarrow> (\<exists>lost blocks b.
     log_files (backup_name compress base) base fs (map (\<lambda>ls. packed compress (line_text ls)) blocks, line_text b)
     \<and> lines = lost @ concat (rev blocks) @ b \<and> length blocks \<le> nat max_backups
     \<and> (lost = [] \<or> length blocks = nat max_backups)
     \<and> (\<forall>c \<in> set (b # blocks). length c \<le> 1 \<or> int (length (line_text c)) < max_bytes))"

lemma line_text_simps [simp]: "line_text [] = []" "line_text (ls @ [l]) = line_text ls @ l @ [LF]"
  by (simp_all add: line_text_def)

lemma latest_lines_emit:
  assumes "latest_lines compress base max_bytes max_backups seen fs" and "0 < max_backups" and "0 < max_bytes"
  shows "latest_lines compress base max_bytes max_backups (seen @ [l]) (log_emit compress base max_bytes max_backups l fs)"
proof -
  obtain lost blocks b where files: "log_files (backup_name compress base) base fs
        (map (\<lambda>ls. packed compress (line_text ls)) blocks, line_text b)"
    and lines: "seen = lost @ concat (rev blocks) @ b" and fits: "length blocks \<le> nat max_backups"
    and full: "lost = [] \<or> length blocks = nat max_backups"
    and small: "\<forall>c \<in> set (b # blocks). length c \<le> 1 \<or> int (length (line_text c)) < max_bytes"
    using assms(1) unfolding latest_lines_def by blast
  let ?N = "nat max_backups" and ?pack = "map (\<lambda>ls. packed compress (line_text ls))"
  define roll where "roll = should_roll max_bytes (line_text b) (l @ [LF])"
  let ?blocks = "if roll then take ?N (b # blocks) else blocks" and ?b = "if roll then [l] else b @ [l]"
  have queue: "queue_emit compress max_bytes max_backups l (?pack blocks, line_text b) = (?pack ?blocks, line_text ?b)"
    using assms(2) line_text_simps(2)[of "[]" l] take_map[of ?N "\<lambda>ls. packed compress (line_text ls)" "b # blocks"]
    by (simp add: queue_emit_def roll_def Let_def)
  have "\<exists>lost'. seen @ [l] = lost' @ concat (rev ?blocks) @ ?b \<and> (lost' = [] \<or> length ?blocks = ?N)"
  proof (cases "roll \<and> length blocks = ?N")
    case True
    obtain m where m: "?N = Suc m" using assms(2) by (cases "nat max_backups") auto
    then obtain x where "blocks = take m blocks @ [x]"
      using True by (metis append_butlast_last_id butlast_conv_take diff_Suc_1 length_0_conv nat.distinct(1))
    then have "concat (rev blocks) = x @ concat (rev (take m blocks))"
      by (metis concat.simps(2) rev_append rev_singleton_conv append_Cons append_Nil)
    then have "seen @ [l] = (lost @ x) @ concat (rev ?blocks) @ ?b" using True lines m by simp
    then show ?thesis using True m by (intro exI[of _ "lost @ x"]) simp
  next
    case False
    then show ?thesis using lines full fits by (intro exI[of _ lost]) auto
  qed
  moreover have "\<forall>c \<in> set (?b # ?blocks). length c \<le> 1 \<or> int (length (line_text c)) < max_bytes"
    using small assms(3) by (auto simp: roll_def should_roll_def dest!: in_set_takeD split: if_splits)
  moreover have "length ?blocks \<le> ?N" using fits by simp
  moreover have "log_files (backup_name compress base) base (log_emit compress base max_bytes max_backups l fs) (?pack ?blocks, line_text ?b)"
    using emit_refines_queue(1)[OF files, of max_backups max_bytes l] fits unfolding queue by simp
  ultimately show ?thesis unfolding latest_lines_def by blast
qed

lemma latest_lines_all:
  "latest_lines compress base max_bytes max_backups seen fs \<Longrightarrow> 0 < max_backups \<Longrightarrow> 0 < max_bytes \<Longrightarrow>
   latest_lines compress base max_bytes max_backups (seen @ ls) (log_all compress base max_bytes max_backups ls fs)"
proof (induction ls arbitrary: seen fs)
  case Nil
  then show ?case by simp
next
  case (Cons l ls)
  then show ?case using Cons.IH[OF latest_lines_emit[OF Cons.prems]] by simp
qed

lemma emit_all_frame:
  "p \<noteq> base \<Longrightarrow> (\<And>i. p \<noteq> backup_name compress base i) \<Longrightarrow> log_all compress base max_bytes max_backups ls fs p = fs p"
  by (induction ls arbitrary: fs) (simp_all add: emit_frame)


text \<open>Five lines in a log of two backups of less than twelve characters each: the first line is lost.\<close>

definition example_lines :: "string list" where
  "example_lines = [''line one'', ''line two'', ''three'', ''four'', ''line five'']"

definition example_log :: logfs where
  "example_log = (\<lambda>p. if p = ''z.log'' then Some (Text []) else None)"


end
