(* ===== verification/ZabbixProtocol.thy ===== *)
theory ZabbixProtocol
  imports DbCrypto OutputWriter
begin

section \<open>Packets of the Zabbix protocol (\<open>zabbix_utils/common.py\<close>)\<close>

text \<open>
  The framing that the vendored trapper library uses: a header of thirteen bytes and a body, sent in one
  piece and received in pieces of any expected. A connection is what will still arrive on it, segment by
  segment; when nothing is left, the peer has closed it. \<open>deflate\<close> and \<open>inflate\<close> stand for \<open>zlib.compress\<close> and
  \<open>zlib.decompress\<close>. The property: a packet is read back from any segmentation of it.
\<close>

abbreviation processing_error :: exn where
  "processing_error \<equiv> OtherError ''ProcessingError''"

subsection \<open>Packets\<close>

text \<open>\<open>struct.pack('<I', n)\<close> and back.\<close>

definition le32 :: "nat \<Rightarrow> bytes res" where
  "le32 n = (if n < 2 ^ 32
     then Inr [word_of_nat n, word_of_nat (n div 256), word_of_nat (n div 65536), word_of_nat (n div 16777216)]
     else Inl (OtherError ''struct.error''))"

lemma le32_code [code]: "le32 n = (let i = int n in if i < 4294967296
     then Inr [word_of_int i, word_of_int (i div 256), word_of_int (i div 65536), word_of_int (i div 16777216)]
     else Inl (OtherError ''struct.error''))"
proof -
  have "int n < 4294967296 \<longleftrightarrow> n < 2 ^ 32" by simp
  moreover have "word_of_int (int n div numeral k) = (word_of_nat (n div numeral k) :: 8 word)" for k
    by (metis of_int_of_nat_eq of_nat_numeral zdiv_int)
  ultimately show ?thesis by (simp add: le32_def Let_def)
qed

fun un_le :: "bytes \<Rightarrow> nat" where
  "un_le [] = 0"
| "un_le (b # bs) = unat b + 256 * un_le bs"

definition ZABBIX_PROTOCOL :: bytes where
  "ZABBIX_PROTOCOL = [0x5A, 0x42, 0x58, 0x44]"

definition HEADER_SIZE :: nat where
  "HEADER_SIZE = 13"

definition create_packet :: "(bytes \<Rightarrow> bytes) \<Rightarrow> bool \<Rightarrow> bytes \<Rightarrow> bytes res" where
  "create_packet deflate compression request =
     (let flags = (if compression then 3 else 1); reserved = (if compression then length request else 0);
          body = (if compression then deflate request else request) in
      rbind (le32 (length body)) (\<lambda>datalen.
      rbind (le32 reserved) (\<lambda>res. Inr (ZABBIX_PROTOCOL @ flags # datalen @ res @ body))))"

subsection \<open>Receiving\<close>

datatype arrival = Segment bytes | Broken_off exn

type_synonym conn = "arrival list"

fun recv :: "nat \<Rightarrow> (exn, conn, bytes) st" where
  "recv n [] = (Inr [], [])"
| "recv n (Segment b # rest) =
     (if length b \<le> n then (Inr b, rest) else (Inr (take n b), Segment (drop n b) # rest))"
| "recv n (Broken_off e # rest) = (Inl e, rest)"

lemma recv_at_most: "recv n c = (Inr b, c') \<Longrightarrow> length b \<le> n"
  by (cases "(n, c)" rule: recv.cases) (auto split: if_splits)

function receive_loop :: "nat \<Rightarrow> bytes \<Rightarrow> conn \<Rightarrow> bytes res \<times> conn" where
  "receive_loop expected buf c =
     (if length buf < expected then (case recv (expected - length buf) c of
         (Inl e, c') \<Rightarrow> (Inl e, c')
       | (Inr chunk, c') \<Rightarrow> if chunk = [] then (Inr buf, c') else receive_loop expected (buf @ chunk) c')
      else (Inr buf, c))"
  by pat_completeness auto
termination
  by (relation "measure (\<lambda>(expected, buf, c). expected - length buf)") (auto simp flip: length_greater_0_conv)

declare receive_loop.simps [simp del]

definition receive_packet :: "nat \<Rightarrow> (exn, conn, bytes) st" where
  "receive_packet expected = receive_loop expected []"

definition parse_sync_packet :: "(bytes \<Rightarrow> bytes res) \<Rightarrow> (exn, conn, nat list) st" where
  "parse_sync_packet inflate =
     bindM (receive_packet HEADER_SIZE) (\<lambda>header.
     if take 4 header \<noteq> ZABBIX_PROTOCOL \<or> length header \<noteq> HEADER_SIZE then raise processing_error
     else let flags = header ! 4; datalen = un_le (take 4 (drop 5 header)) in
       if \<not> bit flags 0 then raise processing_error
       else if bit flags 2 then raise processing_error
       else bindM (receive_packet datalen) (\<lambda>body.
            bindM (lift (if bit flags 1 then inflate body else Inr body)) (\<lambda>data. lift (utf8_decode data))))"

subsection \<open>A stream of segments\<close>

definition arriving :: "bytes list \<Rightarrow> conn" where
  "arriving segs = map Segment segs"

lemma arriving_simps [simp]: "arriving [] = []" "arriving (b # segs) = Segment b # arriving segs"
  by (simp_all add: arriving_def)

lemma receive_loop_exact:
  "[] \<notin> set segs \<Longrightarrow> length buf \<le> expected \<Longrightarrow> expected \<le> length buf + length (concat segs) \<Longrightarrow>
   \<exists>segs'. receive_loop expected buf (arriving segs) = (Inr (buf @ take (expected - length buf) (concat segs)), arriving segs')
     \<and> concat segs' = drop (expected - length buf) (concat segs) \<and> [] \<notin> set segs'"
proof (induction segs arbitrary: buf)
  case Nil
  then show ?case by (intro exI[of _ "[]"]) (subst receive_loop.simps, simp)
next
  case (Cons b segs)
  let ?n = "expected - length buf"
  show ?case
  proof (cases "length buf < expected")
    case False
    then show ?thesis using Cons.prems by (intro exI[of _ "b # segs"]) (subst receive_loop.simps, simp)
  next
    case more: True
    show ?thesis
    proof (cases "length b \<le> ?n")
      case True
      then have "receive_loop expected buf (arriving (b # segs)) = receive_loop expected (buf @ b) (arriving segs)"
        using more Cons.prems(1) by (subst receive_loop.simps) auto
      then show ?thesis
        using Cons.IH[of "buf @ b"] Cons.prems True more by (auto simp: take_append drop_append)
    next
      case False
      then have "receive_loop expected buf (arriving (b # segs)) = (Inr (buf @ take ?n b), arriving (drop ?n b # segs))"
        using more by (subst receive_loop.simps, simp) (subst receive_loop.simps, simp)
      then show ?thesis
        using Cons.prems False more by (intro exI[of _ "drop ?n b # segs"]) auto
    qed
  qed
qed

lemma receive_packet_exact:
  assumes "[] \<notin> set segs" and "expected \<le> length (concat segs)"
  obtains segs' where "receive_packet expected (arriving segs) = (Inr (take expected (concat segs)), arriving segs')"
    and "concat segs' = drop expected (concat segs)" and "[] \<notin> set segs'"
  using receive_loop_exact[of segs "[]" expected] assms unfolding receive_packet_def by auto

subsection \<open>Numbers in the header\<close>

lemma un_le_le32: "le32 n = Inr bs \<Longrightarrow> un_le bs = n \<and> length bs = 4"
proof -
  assume le: "le32 n = Inr bs"
  then have n: "n < 2 ^ 32"
    and bs: "bs = [word_of_nat n, word_of_nat (n div 256), word_of_nat (n div 65536), word_of_nat (n div 16777216)]"
    by (auto simp: le32_def split: if_splits)
  have "n div 65536 = n div 256 div 256" "n div 16777216 = n div 256 div 256 div 256"
    by (simp_all add: div_mult2_eq[symmetric])
  moreover have top: "n div 16777216 < 256" using n by (simp add: less_mult_imp_div_less)
  moreover have "m mod 256 + 256 * (m div 256) = m" for m :: nat by simp
  ultimately have "n mod 256 + 256 * (n div 256 mod 256 + 256 * (n div 65536 mod 256 + 256 * (n div 16777216 mod 256))) = n"
    by (metis mod_less)
  then show ?thesis using top by (simp add: bs unat_of_nat take_bit_eq_mod)
qed

text \<open>
  C23: packets survive the network. A packet made by \<open>create_packet\<close> is read back by \<open>parse_sync_packet\<close> as the
  text that was sent, however the network cuts it into segments, and exactly its bytes are consumed: what
  follows on the connection is left for the next reader.
\<close>

theorem packets_survive_segmentation:
  assumes encoded: "utf8_encode msg = Inr request" and packet: "create_packet deflate compression request = Inr packet"
    and inflate: "inflate (deflate request) = Inr request"
    and segs: "concat segs = packet @ rest" "[] \<notin> set segs"
  shows "\<exists>segs'. parse_sync_packet inflate (arriving segs) = (Inr msg, arriving segs') \<and> concat segs' = rest"
proof -
  let ?flags = "if compression then 3 else 1 :: 8 word" and ?body = "if compression then deflate request else request"
  obtain datalen res where len: "le32 (length ?body) = Inr datalen"
    and "le32 (if compression then length request else 0) = Inr res"
    and packet_eq: "packet = ZABBIX_PROTOCOL @ ?flags # datalen @ res @ ?body"
    using packet by (auto simp: create_packet_def Let_def)
  then have sizes: "un_le datalen = length ?body" "length datalen = 4" "length res = 4"
    using un_le_le32 by blast+
  have head: "length (ZABBIX_PROTOCOL @ ?flags # datalen @ res) = HEADER_SIZE" "length ZABBIX_PROTOCOL = 4"
    using sizes by (simp_all add: ZABBIX_PROTOCOL_def HEADER_SIZE_def)
  then have "HEADER_SIZE \<le> length (concat segs)" by (simp add: segs(1) packet_eq)
  from receive_packet_exact[OF segs(2) this] obtain segs1
    where hdr: "receive_packet HEADER_SIZE (arriving segs) = (Inr (take HEADER_SIZE (concat segs)), arriving segs1)"
      and rest1: "concat segs1 = drop HEADER_SIZE (concat segs)" "[] \<notin> set segs1" .
  have cut: "take HEADER_SIZE (concat segs) = ZABBIX_PROTOCOL @ ?flags # datalen @ res"
    "drop HEADER_SIZE (concat segs) = ?body @ rest"
    using head(1) by (simp_all add: segs(1) packet_eq flip: append_assoc append_Cons)
  have "length ?body \<le> length (concat segs1)" by (simp add: rest1(1) cut(2))
  from receive_packet_exact[OF rest1(2) this] obtain segs2
    where body: "receive_packet (length ?body) (arriving segs1) = (Inr ?body, arriving segs2)"
      and rest2: "concat segs2 = rest"
    by (metis append_eq_conv_conj cut(2) rest1(1))
  have "bit ?flags 0" "\<not> bit ?flags 2" "bit ?flags 1 \<longleftrightarrow> compression"
    by (simp_all add: bit_simps) 
  then have "parse_sync_packet inflate (arriving segs) = (Inr msg, arriving segs2)"
    using hdr body sizes head inflate utf8_decode_encode[OF encoded]
    by (cases compression) (simp_all add: parse_sync_packet_def bindM_def cut Let_def nth_append)
  then show ?thesis using rest2 by blast
qed

theorem packets_survive_segmentation_witness:
  "\<exists>segs'. parse_sync_packet Inr (arriving [[0x5A, 0x42], [0x58, 0x44, 1, 1, 0, 0], [0, 0, 0, 0, 0, 65, 7]])
       = (Inr [65], arriving segs') \<and> concat segs' = [7]"
proof (rule packets_survive_segmentation[where request = "[65]" and deflate = id and compression = False
        and packet = "[0x5A, 0x42, 0x58, 0x44, 1, 1, 0, 0, 0, 0, 0, 0, 0, 65]"])
  show "create_packet id False [65] = Inr [0x5A, 0x42, 0x58, 0x44, 1, 1, 0, 0, 0, 0, 0, 0, 0, 65]"
    by (simp add: create_packet_def le32_def ZABBIX_PROTOCOL_def)
qed (simp_all add: utf8_encode_def utf8_char_def)

end
