(* ===== verification/TrapperTypes.thy ===== *)
theory TrapperTypes
  imports ZabbixProtocol Sender
begin

section \<open>The values of the trapper library (\<open>zabbix_utils/types.py\<close>)\<close>

text \<open>
  Item values as JSON, nodes and clusters, and the counts that the library reads from the info text of an
  answer: \<open>"processed: 1; failed: 0; total: 1; seconds spent: 0.000055"\<close>. The regular expression of
  \<open>TrapperResponse.parse\<close> is deterministic and is matched by hand; \<open>int\<close> of very long digit strings and the
  rounding of \<open>Decimal\<close> are left out.
\<close>

subsection \<open>Nodes\<close>

text \<open>A node is an object: two nodes with the same address are different keys of a dict; \<open>nd_id\<close> is its identity.\<close>

record node =
  nd_id :: nat
  nd_address :: string
  nd_port :: int

definition new_node :: "nat \<Rightarrow> string \<Rightarrow> string \<Rightarrow> node res" where
  "new_node i addr port = (case parse_int port of
     Some p \<Rightarrow> Inr \<lparr>nd_id = i, nd_address = (if addr \<noteq> ''0.0.0.0/0'' then addr else ''127.0.0.1''), nd_port = p\<rparr>
   | None \<Rightarrow> Inl TypeError)"

text \<open>\<open>Node(*text.split(':'))\<close>: the call raises unless there are two parts.\<close>

definition node_of_parts :: "nat \<Rightarrow> string \<Rightarrow> node res" where
  "node_of_parts i s = (case split_on CHR '':'' s of [addr, port] \<Rightarrow> new_node i addr port | _ \<Rightarrow> Inl TypeError)"

definition parse_node :: "nat \<Rightarrow> string \<Rightarrow> node res" where
  "parse_node i entry = (let s = py_strip entry in
     if CHR '':'' \<in> set s then node_of_parts i s else new_node i s ''10051'')"

definition parse_ha_nodes :: "nat \<Rightarrow> string list \<Rightarrow> node list res" where
  "parse_ha_nodes i entries = rmapM (\<lambda>(k, e). parse_node k e) (enumerate i entries)"

lemma split_on_count: "length (split_on sep s) = Suc (length (filter ((=) sep) s))"
  by (induction s) (auto split: list.splits)

subsection \<open>Item values\<close>

definition item_to_json :: "item_value \<Rightarrow> (string \<times> string) list" where
  "item_to_json iv = [(''host'', py_str (iv_host iv)), (''key'', py_str (iv_key iv)),
     (''value'', case iv_value iv of None \<Rightarrow> ''None'' | Some s \<Rightarrow> s)]"

text \<open>\<open>json.dumps(..., ensure_ascii=False)\<close> of a request: only quotes, backslashes and control characters are escaped.\<close>

definition plain_char :: "char \<Rightarrow> string" where
  "plain_char c = (if 126 < code c then [c] else json_char c)"

definition plain_string :: "string \<Rightarrow> string" where
  "plain_string s = CHR 0x22 # concat (map plain_char s) @ [CHR 0x22]"

definition plain_object :: "(string \<times> string) list \<Rightarrow> string" where
  "plain_object kvs = ''{'' @ join_with '', '' (map (\<lambda>kv. plain_string (fst kv) @ '': '' @ plain_string (snd kv)) kvs) @ ''}''"

definition request_text :: "item_value list \<Rightarrow> string" where
  "request_text items = ''{'' @ plain_string ''request'' @ '': '' @ plain_string ''sender data'' @ '', ''
     @ plain_string ''data'' @ '': ['' @ join_with '', '' (map (\<lambda>i. plain_object (item_to_json i)) items) @ '']}''"

subsection \<open>The info text\<close>

fun spaces :: "string \<Rightarrow> string option" where
  "spaces [] = None"
| "spaces (c # s) = (if py_isspace c then Some (dropWhile py_isspace s) else None)"

fun label :: "char \<Rightarrow> char \<Rightarrow> string \<Rightarrow> string \<Rightarrow> string option" where
  "label upper lower rest [] = None"
| "label upper lower rest (c # s) =
     (if (c = upper \<or> c = lower) \<and> startswith s rest then Some (drop (length rest) s) else None)"

definition digits :: "string \<Rightarrow> (string \<times> string) option" where
  "digits s = (let d = takeWhile is_dec s in if d = [] then None else Some (d, dropWhile is_dec s))"

fun char_is :: "char \<Rightarrow> string \<Rightarrow> string option" where
  "char_is x [] = None"
| "char_is x (c # s) = (if c = x then Some s else None)"

text \<open>\<open><label>:\s+?(?P<name>\d+)\<close>.\<close>

definition count_field :: "char \<Rightarrow> char \<Rightarrow> string \<Rightarrow> string \<Rightarrow> (string \<times> string) option" where
  "count_field upper lower rest s =
     Option.bind (label upper lower rest s) (\<lambda>s. Option.bind (spaces s) digits)"

definition separator :: "string \<Rightarrow> string option" where
  "separator s = Option.bind (char_is CHR '';'' s) spaces"

definition dec_nat :: "string \<Rightarrow> int" where
  "dec_nat d = foldl (\<lambda>a c. 10 * a + dec_val c) 0 d"

record info_counts =
  ic_processed :: int
  ic_failed :: int
  ic_total :: int
  ic_time :: rat

definition match_info :: "string \<Rightarrow> info_counts option" where
  "match_info s =
     Option.bind (count_field CHR ''P'' CHR ''p'' ''rocessed:'' s) (\<lambda>(p, s).
     Option.bind (separator s) (\<lambda>s.
     Option.bind (count_field CHR ''F'' CHR ''f'' ''ailed:'' s) (\<lambda>(f, s).
     Option.bind (separator s) (\<lambda>s.
     Option.bind (count_field CHR ''T'' CHR ''t'' ''otal:'' s) (\<lambda>(t, s).
     Option.bind (separator s) (\<lambda>s.
     Option.bind (count_field CHR ''S'' CHR ''s'' ''econds spent:'' s) (\<lambda>(w, s).
     Option.bind (char_is CHR ''.'' s) (\<lambda>s.
     Option.bind (digits s) (\<lambda>(q, s).
     Some \<lparr>ic_processed = dec_nat p, ic_failed = dec_nat f, ic_total = dec_nat t,
           ic_time = of_int (dec_nat w) + of_int (dec_nat q) / 10 ^ length q\<rparr>)))))))))"

fun search_info :: "string \<Rightarrow> info_counts option" where
  "search_info [] = match_info []"
| "search_info (c # s) = (case match_info (c # s) of None \<Rightarrow> search_info s | Some r \<Rightarrow> Some r)"

definition parse_response :: "pyval \<Rightarrow> info_counts res" where
  "parse_response response = rbind (vget response ''info'' VNone) (\<lambda>info.
     if \<not> truthy info then Inl processing_error
     else case info of
       VStr s \<Rightarrow> (case search_info s of None \<Rightarrow> Inl AttributeError | Some r \<Rightarrow> Inr r)
     | _ \<Rightarrow> Inl TypeError)"

subsection \<open>Responses\<close>

record trapper_response =
  tr_counts :: info_counts
  tr_chunk :: int

definition new_response :: "int \<Rightarrow> trapper_response" where
  "new_response chunk = \<lparr>tr_counts = \<lparr>ic_processed = 0, ic_failed = 0, ic_total = 0, ic_time = 0\<rparr>, tr_chunk = chunk\<rparr>"

definition add_counts :: "info_counts \<Rightarrow> info_counts \<Rightarrow> info_counts" where
  "add_counts a b = \<lparr>ic_processed = ic_processed a + ic_processed b, ic_failed = ic_failed a + ic_failed b,
     ic_total = ic_total a + ic_total b, ic_time = ic_time a + ic_time b\<rparr>"

definition add_response :: "trapper_response \<Rightarrow> pyval \<Rightarrow> int option \<Rightarrow> trapper_response res" where
  "add_response r response chunk = rbind (parse_response response) (\<lambda>c.
     Inr (r\<lparr>tr_counts := add_counts (tr_counts r) c, tr_chunk := (case chunk of None \<Rightarrow> tr_chunk r | Some k \<Rightarrow> k)\<rparr>))"

subsection \<open>The info text is read back\<close>

definition info_text :: "int \<Rightarrow> int \<Rightarrow> int \<Rightarrow> string \<Rightarrow> string" where
  "info_text p f t w = ''processed: '' @ str_int p @ ''; failed: '' @ str_int f @ ''; total: '' @ str_int t
     @ ''; seconds spent: '' @ w"

lemma digits_append: "list_all is_dec d \<Longrightarrow> d \<noteq> [] \<Longrightarrow> (s = [] \<or> \<not> is_dec (hd s)) \<Longrightarrow> digits (d @ s) = Some (d, s)"
proof -
  assume d: "list_all is_dec d" "d \<noteq> []" and s: "s = [] \<or> \<not> is_dec (hd s)"
  have "takeWhile is_dec s = []" "dropWhile is_dec s = s" using s by (cases s; simp)+
  then have "takeWhile is_dec (d @ s) = d" "dropWhile is_dec (d @ s) = s"
    using d(1) by (simp_all add: takeWhile_append dropWhile_append list_all_iff)
  then show ?thesis using d(2) by (simp add: digits_def Let_def)
qed

lemma dec_nat_str_int: "0 \<le> n \<Longrightarrow> dec_nat (str_int n) = n"
  by (simp add: dec_nat_def str_int_def foldl_str_nat)

lemma str_int_digits: "0 \<le> n \<Longrightarrow> list_all is_dec (str_int n)" "str_int n \<noteq> []"
  by (auto simp: str_int_def str_nat_dec str_nat_nonempty)

lemma space_is_space [simp]: "py_isspace CHR '' ''"
  by code_simp

lemma count_field_reads:
  assumes "0 \<le> n" and "s = [] \<or> \<not> is_dec (hd s)" and "c = u \<or> c = l"
  shows "count_field u l rest (c # rest @ '' '' @ str_int n @ s) = Some (str_int n, s)"
proof -
  obtain c d where d: "str_int n = c # d" "is_dec c"
    using str_int_digits(1)[OF assms(1)] str_int_digits(2)[of n] by (cases "str_int n") auto
  then have "spaces ('' '' @ str_int n @ s) = Some (str_int n @ s)"
    using dec_not_space[of c] by simp
  then show ?thesis
    using digits_append[OF str_int_digits(1)[OF assms(1)] str_int_digits(2) assms(2)] assms(3)
    by (auto simp: count_field_def startswith_def)
qed

lemma separator_reads: "\<not> py_isspace c \<Longrightarrow> separator ('';'' @ '' '' @ c # s) = Some (c # s)"
  by (simp add: separator_def)

text \<open>
  The library reads the counts of an answer. From the info text that a Zabbix server writes, whatever
  the numbers, the parser returns exactly these numbers and the time.
\<close>

theorem info_text_is_read_back:
  assumes "0 \<le> p" and "0 \<le> f" and "0 \<le> t" and "0 \<le> sec" and "list_all is_dec micro" and "micro \<noteq> []"
  shows "parse_response (VDict [(VStr ''response'', VStr ''success''),
      (VStr ''info'', VStr (info_text p f t (str_int sec @ ''.'' @ micro)))])
    = Inr \<lparr>ic_processed = p, ic_failed = f, ic_total = t, ic_time = of_int sec + of_int (dec_nat micro) / 10 ^ length micro\<rparr>"
proof -
  define s4 where "s4 = ''.'' @ micro"
  define s3 where "s3 = ''seconds spent: '' @ str_int sec @ s4"
  define s2 where "s2 = ''total: '' @ str_int t @ ''; '' @ s3"
  define s1 where "s1 = ''failed: '' @ str_int f @ ''; '' @ s2"
  define s0 where "s0 = ''processed: '' @ str_int p @ ''; '' @ s1"
  have s0: "info_text p f t (str_int sec @ ''.'' @ micro) = s0"
    by (simp add: info_text_def s0_def s1_def s2_def s3_def s4_def)
  have "count_field CHR ''P'' CHR ''p'' ''rocessed:'' s0 = Some (str_int p, ''; '' @ s1)"
    using count_field_reads[OF assms(1), of "''; '' @ s1" "CHR ''p''" "CHR ''P''" "CHR ''p''" "''rocessed:''"]
    by (simp add: s0_def is_dec_def)
  moreover have "separator (''; '' @ s1) = Some s1"
    using separator_reads[of "CHR ''f''"] by (simp add: s1_def py_isspace_def)
  moreover have "count_field CHR ''F'' CHR ''f'' ''ailed:'' s1 = Some (str_int f, ''; '' @ s2)"
    using count_field_reads[OF assms(2), of "''; '' @ s2" "CHR ''f''" "CHR ''F''" "CHR ''f''" "''ailed:''"]
    by (simp add: s1_def is_dec_def)
  moreover have "separator (''; '' @ s2) = Some s2"
    using separator_reads[of "CHR ''t''"] by (simp add: s2_def py_isspace_def)
  moreover have "count_field CHR ''T'' CHR ''t'' ''otal:'' s2 = Some (str_int t, ''; '' @ s3)"
    using count_field_reads[OF assms(3), of "''; '' @ s3" "CHR ''t''" "CHR ''T''" "CHR ''t''" "''otal:''"]
    by (simp add: s2_def is_dec_def)
  moreover have "separator (''; '' @ s3) = Some s3"
    using separator_reads[of "CHR ''s''"] by (simp add: s3_def py_isspace_def)
  moreover have "count_field CHR ''S'' CHR ''s'' ''econds spent:'' s3 = Some (str_int sec, s4)"
    using count_field_reads[OF assms(4), of s4 "CHR ''s''" "CHR ''S''" "CHR ''s''" "''econds spent:''"]
    by (simp add: s3_def s4_def is_dec_def)
  moreover have "char_is CHR ''.'' s4 = Some micro" by (simp add: s4_def)
  moreover have "digits micro = Some (micro, [])" using digits_append[OF assms(5,6), of "[]"] by simp
  ultimately have "match_info s0 = Some \<lparr>ic_processed = p, ic_failed = f, ic_total = t,
      ic_time = of_int sec + of_int (dec_nat micro) / 10 ^ length micro\<rparr>"
    using assms(1-4) by (simp add: match_info_def dec_nat_str_int del: append_Cons append_Nil)
  moreover have "s0 \<noteq> []" by (simp add: s0_def)
  ultimately have "search_info s0 = Some \<lparr>ic_processed = p, ic_failed = f, ic_total = t,
      ic_time = of_int sec + of_int (dec_nat micro) / 10 ^ length micro\<rparr>"
    by (cases s0) simp_all
  then show ?thesis using \<open>s0 \<noteq> []\<close> by (simp add: parse_response_def s0[simplified])
qed

theorem info_text_is_read_back_witness:
  "parse_response (VDict [(VStr ''response'', VStr ''success''), (VStr ''info'', VStr (info_text 1 0 1 (str_int 0 @ ''.'' @ ''000055'')))])
     = Inr \<lparr>ic_processed = 1, ic_failed = 0, ic_total = 1, ic_time = of_int 0 + of_int (dec_nat ''000055'') / 10 ^ length ''000055''\<rparr>"
  by (rule info_text_is_read_back) (simp_all add: is_dec_def)

end
