(* ===== verification/TrapperSender.thy ===== *)
theory TrapperSender
  imports TrapperTypes Triples "HOL-Library.Multiset"
begin

section \<open>The trapper library (\<open>zabbix_utils/sender.py\<close>)\<close>

text \<open>
  The class \<open>Sender\<close> as the client uses it: one server, no configuration file, no TLS, one item per chunk. The
  network is a \<open>net\<close>: what connecting to an address gives, what sending a packet there gives (the bytes that
  will arrive, or an error), with the state \<open>'w\<close> of whatever is out there; and \<open>json.loads\<close> and zlib. \<open>link\<close> is
  a \<open>Sender\<close> object at work: its clusters, the identity of the next node, and the world.
  \<open>limit\<close> is how deep Python may recurse: a server that redirects for ever ends in a \<open>RecursionError\<close>.
  The last part puts the library under the model of \<open>sender_manager.py\<close> (theory \<open>Sender\<close>).
\<close>

datatype dial = Connected | NotConnected | NoSocket | DialFailed exn

record 'w net =
  net_dial :: "string \<Rightarrow> int \<Rightarrow> 'w \<Rightarrow> dial \<times> 'w"
  net_exchange :: "string \<Rightarrow> int \<Rightarrow> bytes \<Rightarrow> 'w \<Rightarrow> (exn + conn) \<times> 'w"
  net_loads :: "nat list \<Rightarrow> pyval res"
  net_deflate :: "bytes \<Rightarrow> bytes"
  net_inflate :: "bytes \<Rightarrow> bytes res"

record 'w link =
  lk_clusters :: "node list list"
  lk_next :: nat
  lk_world :: 'w

definition on_world :: "('w \<Rightarrow> 'a \<times> 'w) \<Rightarrow> (exn, 'w link, 'a) st" where
  "on_world f = (\<lambda>l. case f (lk_world l) of (a, w) \<Rightarrow> (Inr a, l\<lparr>lk_world := w\<rparr>))"

subsection \<open>One packet to one cluster\<close>

text \<open>The index of the first node that can be connected to.\<close>

fun dial_nodes :: "'w net \<Rightarrow> node list \<Rightarrow> nat \<Rightarrow> (exn, 'w link, nat option) st" where
  "dial_nodes net [] i = ret None"
| "dial_nodes net (n # ns) i = bindM (on_world (net_dial net (nd_address n) (nd_port n))) (\<lambda>d. case d of
     Connected \<Rightarrow> ret (Some i)
   | NotConnected \<Rightarrow> dial_nodes net ns (Suc i)
   | NoSocket \<Rightarrow> raise processing_error
   | DialFailed e \<Rightarrow> raise e)"

definition swap_nodes :: "nat \<Rightarrow> nat \<Rightarrow> (exn, 'w link, unit) st" where
  "swap_nodes k i = modifyM (\<lambda>l. let ns = lk_clusters l ! k in
     l\<lparr>lk_clusters := (lk_clusters l)[k := ns[0 := ns ! i, i := ns ! 0]]\<rparr>)"

definition get_response :: "'w net \<Rightarrow> conn \<Rightarrow> pyval res" where
  "get_response net c = fst (bindM (parse_sync_packet (net_inflate net)) (\<lambda>msg. lift (net_loads net msg)) c)"

definition exchange :: "'w net \<Rightarrow> node \<Rightarrow> bytes \<Rightarrow> (exn, 'w link, pyval) st" where
  "exchange net node packet =
     bindM (on_world (net_exchange net (nd_address node) (nd_port node) packet)) (\<lambda>r. case r of
       Inl e \<Rightarrow> raise e | Inr c \<Rightarrow> lift (get_response net c))"

text \<open>The address an answer redirects to; an answer that is neither a success nor a redirect is an error.\<close>

definition redirect_of :: "pyval \<Rightarrow> string option res" where
  "redirect_of response =
     (if \<not> truthy response then Inr None
      else rbind (vget response ''response'' VNone) (\<lambda>r.
        if r = VStr ''success'' then Inr None
        else rbind (vget response ''redirect'' VNone) (\<lambda>target.
          if \<not> truthy target then Inl OSError
          else rbind (vindex target ''address'') (\<lambda>a.
               rbind (vindex target ''revision'') (\<lambda>_.
               case a of VStr s \<Rightarrow> Inr (Some s) | _ \<Rightarrow> Inl AttributeError)))))"

definition redirect_node :: "nat \<Rightarrow> string \<Rightarrow> (exn, 'w link, unit) st" where
  "redirect_node k address = bindM getM (\<lambda>l.
     bindM (lift (node_of_parts (lk_next l) address)) (\<lambda>n.
     modifyM (\<lambda>l. l\<lparr>lk_clusters := (lk_clusters l)[k := (lk_clusters l ! k)[0 := n]], lk_next := Suc (lk_next l)\<rparr>)))"

fun send_to_cluster :: "'w net \<Rightarrow> nat \<Rightarrow> nat \<Rightarrow> bytes \<Rightarrow> (exn, 'w link, node \<times> pyval) st" where
  "send_to_cluster net 0 k packet = raise (OtherError ''RecursionError'')"
| "send_to_cluster net (Suc limit) k packet = bindM getM (\<lambda>l. let nodes = lk_clusters l ! k in
     bindM (dial_nodes net nodes 0) (\<lambda>found. case found of
       None \<Rightarrow> raise (if nodes = [] then OtherError ''UnboundLocalError'' else processing_error)
     | Some i \<Rightarrow>
         bindM (swap_nodes k i) (\<lambda>_.
         bindM (exchange net (nodes ! i) packet) (\<lambda>response.
         bindM (lift (redirect_of response)) (\<lambda>redirect. case redirect of
           None \<Rightarrow> ret (nodes ! i, response)
         | Some address \<Rightarrow> bindM (redirect_node k address) (\<lambda>_. send_to_cluster net limit k packet))))))"

subsection \<open>All chunks\<close>

definition request_packet :: "'w net \<Rightarrow> item_value list \<Rightarrow> bytes res" where
  "request_packet net items =
     rbind (utf8_encode (map of_char (request_text items))) (create_packet (net_deflate net) False)"

definition chunk_send :: "'w net \<Rightarrow> nat \<Rightarrow> item_value list \<Rightarrow> (exn, 'w link, (node \<times> pyval) list) st" where
  "chunk_send net limit items = bindM (lift (request_packet net items)) (\<lambda>packet.
     bindM getM (\<lambda>l.
     foldM (\<lambda>k responses. bindM (send_to_cluster net limit k packet) (\<lambda>(node, response).
         ret (adict_set responses node response))) [0..<length (lk_clusters l)] []))"

text \<open>The merged response and, per node, the responses of its chunks.\<close>

type_synonym merged = "trapper_response \<times> (node \<times> trapper_response list) list"

fun merge_responses :: "int \<Rightarrow> int \<Rightarrow> (node \<times> pyval) list \<Rightarrow> merged \<Rightarrow> merged res" where
  "merge_responses i step [] acc = Inr acc"
| "merge_responses i step ((node, resp) # rest) (result, details) =
     rbind (add_response result resp (Some ((i + 1) * step))) (\<lambda>result'.
     rbind (add_response (new_response (i + 1)) resp None) (\<lambda>one.
     merge_responses i (step + 1) rest (result', adict_set details node
       ((case map_of details node of None \<Rightarrow> [] | Some rs \<Rightarrow> rs) @ [one]))))"

definition send_chunks :: "'w net \<Rightarrow> nat \<Rightarrow> int \<Rightarrow> item_value list \<Rightarrow> (exn, 'w link, merged) st" where
  "send_chunks net limit chunk_size items = bindM (lift (py_chunks chunk_size items)) (\<lambda>chunks.
     foldM (\<lambda>(i, chunk) acc. bindM (chunk_send net limit chunk) (\<lambda>by_node.
         lift (merge_responses (int i) 1 by_node acc))) (enumerate 0 chunks) (new_response 1, []))"

subsection \<open>As the client uses it\<close>

definition new_sender :: "string \<Rightarrow> int \<Rightarrow> node list list res" where
  "new_sender server port = rbind
     (parse_ha_nodes 0 [(if server = [] then ''127.0.0.1'' else server) @ '':'' @ str_int port]) (\<lambda>ns. Inr [ns])"

definition node_text :: "node \<Rightarrow> string" where
  "node_text n = nd_address n @ '':'' @ str_int (nd_port n)"

definition library_response :: "merged \<Rightarrow> response" where
  "library_response m = (case m of (result, details) \<Rightarrow>
     \<lparr>rsp_processed = ic_processed (tr_counts result), rsp_failed = ic_failed (tr_counts result),
      rsp_total = ic_total (tr_counts result),
      rsp_details = map (\<lambda>(n, rs). (node_text n, map (\<lambda>r. (tr_chunk r, ic_failed (tr_counts r))) rs)) details\<rparr>)"

text \<open>\<open>Sender(server=host, port=port, chunk_size=1).send(items)\<close>.\<close>

definition library_send :: "'w net \<Rightarrow> nat \<Rightarrow> string \<Rightarrow> int \<Rightarrow> item_value list \<Rightarrow> 'w \<Rightarrow> response res \<times> 'w" where
  "library_send net limit host port items w = (case new_sender host port of
     Inl e \<Rightarrow> (Inl e, w)
   | Inr clusters \<Rightarrow> (case send_chunks net limit 1 items \<lparr>lk_clusters = clusters, lk_next = 1, lk_world = w\<rparr> of
       (Inl e, l) \<Rightarrow> (Inl e, lk_world l) | (Inr m, l) \<Rightarrow> (Inr (library_response m), lk_world l)))"

definition library_env :: "'w net \<Rightarrow> nat \<Rightarrow> 'w \<Rightarrow> (metric_result list \<Rightarrow> bool) \<Rightarrow> send_env" where
  "library_env net limit w timed_out = \<lparr>se_send = (\<lambda>host port items. fst (library_send net limit host port items w)),
     se_timed_out = timed_out\<rparr>"

subsection \<open>What comes back\<close>

text \<open>\<open>answered net packet v\<close>: the value \<open>v\<close> is what some node answered to the packet.\<close>

definition answered :: "'w net \<Rightarrow> bytes \<Rightarrow> pyval \<Rightarrow> bool" where
  "answered net packet v \<longleftrightarrow> (\<exists>addr port w c.
     fst (net_exchange net addr port packet w) = Inr c \<and> get_response net c = Inr v)"

text \<open>
  What is assumed of the network and of the libraries below: they raise exceptions only. And of the server:
  its answer to a packet with one item says whether the item was processed or refused, by a \<open>verdict\<close> on it.
\<close>

definition raises_exceptions :: "'w net \<Rightarrow> bool" where
  "raises_exceptions net \<longleftrightarrow>
     (\<forall>a p w. case fst (net_dial net a p w) of DialFailed e \<Rightarrow> is_exception e | _ \<Rightarrow> True)
   \<and> (\<forall>a p m w. case fst (net_exchange net a p m w) of Inl e \<Rightarrow> is_exception e
        | Inr c \<Rightarrow> \<forall>e. Broken_off e \<in> set c \<longrightarrow> is_exception e)
   \<and> (\<forall>t e. net_loads net t = Inl e \<longrightarrow> is_exception e)
   \<and> (\<forall>b e. net_inflate net b = Inl e \<longrightarrow> is_exception e)"

definition judges :: "'w net \<Rightarrow> (item_value \<Rightarrow> bool) \<Rightarrow> bool" where
  "judges net verdict \<longleftrightarrow> (\<forall>item packet v c. request_packet net [item] = Inr packet \<longrightarrow> answered net packet v \<longrightarrow>
     parse_response v = Inr c \<longrightarrow>
       ic_processed c = (if verdict item then 1 else 0) \<and> ic_failed c = (if verdict item then 0 else 1))"

subsection \<open>Only exceptions are raised\<close>

abbreviation excepting :: "(exn, 's, 'a) st \<Rightarrow> ('s \<Rightarrow> bool) \<Rightarrow> ('a \<Rightarrow> 's \<Rightarrow> bool) \<Rightarrow> bool" where
  "excepting m P Q \<equiv> triple P m Q (\<lambda>e _. is_exception e)"

lemma exception_simps [simp]:
  "is_exception TypeError" "is_exception ValueError" "is_exception KeyError" "is_exception OSError"
  "is_exception AttributeError" "is_exception (OtherError s)"
  by (simp_all add: is_exception_def)

lemma vget_Inl: "vget v k d = Inl e \<Longrightarrow> is_exception e"
  by (cases v) auto

lemma vindex_Inl: "vindex v k = Inl e \<Longrightarrow> is_exception e"
  by (cases v) (auto split: option.splits)

lemma redirect_of_Inl: "redirect_of v = Inl e \<Longrightarrow> is_exception e"
  by (auto simp: redirect_of_def rbind_def split: if_splits sum.splits pyval.splits dest: vget_Inl vindex_Inl)

lemma parse_response_Inl: "parse_response v = Inl e \<Longrightarrow> is_exception e"
  by (auto simp: parse_response_def rbind_def split: if_splits sum.splits pyval.splits option.splits dest: vget_Inl)

lemma node_of_parts_Inl: "node_of_parts i s = Inl e \<Longrightarrow> is_exception e"
  by (auto simp: node_of_parts_def new_node_def split: list.splits option.splits)

lemma utf8_encode_Inl: "utf8_encode s = Inl e \<Longrightarrow> e = ValueError"
proof -
  have "rmapM utf8_char s = Inl e \<Longrightarrow> e = ValueError"
    by (induction s) (auto simp: rbind_def utf8_char_def split: sum.splits if_splits)
  then show "utf8_encode s = Inl e \<Longrightarrow> e = ValueError"
    by (auto simp: utf8_encode_def rbind_def split: sum.splits)
qed

lemma request_packet_Inl: "request_packet net items = Inl e \<Longrightarrow> is_exception e"
  by (auto simp: request_packet_def create_packet_def le32_def rbind_def Let_def split: sum.splits if_splits
      dest: utf8_encode_Inl)

lemma utf8_decode_Inl: "utf8_decode bs = Inl e \<Longrightarrow> e = ValueError"
proof (induction "length bs" arbitrary: bs rule: less_induct)
  case less
  show ?case
  proof (cases bs)
    case (Cons b rest)
    then have "e = ValueError \<or> (\<exists>cs. utf8_decode cs = Inl e \<and> length cs < length bs)"
      using less.prems unfolding Cons utf8_decode.simps(2)
      by (simp add: rbind_eq_Inl in_range_def del: utf8_decode.simps split: if_splits list.splits)
        (fastforce simp del: utf8_decode.simps)+
    then show ?thesis using less.hyps by blast
  qed (use less.prems in simp)
qed

lemma new_sender_Inl: "new_sender host port = Inl e \<Longrightarrow> is_exception e"
  by (auto simp: new_sender_def parse_ha_nodes_def parse_node_def new_node_def rbind_def Let_def
      split: sum.splits if_splits option.splits dest: node_of_parts_Inl)

text \<open>What may still break off a connection is what could at its start.\<close>

definition breaks_ok :: "conn \<Rightarrow> bool" where
  "breaks_ok c \<longleftrightarrow> (\<forall>e. Broken_off e \<in> set c \<longrightarrow> is_exception e)"

lemma raises_exceptionsD:
  assumes "raises_exceptions net"
  shows "fst (net_dial net a p w) = DialFailed e \<Longrightarrow> is_exception e"
    and "fst (net_exchange net a p m w) = Inl e \<Longrightarrow> is_exception e"
    and "fst (net_exchange net a p m w) = Inr c \<Longrightarrow> breaks_ok c"
    and "net_loads net t = Inl e \<Longrightarrow> is_exception e"
    and "net_inflate net b = Inl e \<Longrightarrow> is_exception e"
proof -
  note raises = assms[unfolded raises_exceptions_def]
  have "case fst (net_dial net a p w) of DialFailed e \<Rightarrow> is_exception e | _ \<Rightarrow> True" using raises by blast
  then show "fst (net_dial net a p w) = DialFailed e \<Longrightarrow> is_exception e" by simp
  have "case fst (net_exchange net a p m w) of Inl e \<Rightarrow> is_exception e
      | Inr c \<Rightarrow> \<forall>e. Broken_off e \<in> set c \<longrightarrow> is_exception e" using raises by blast
  then show "fst (net_exchange net a p m w) = Inl e \<Longrightarrow> is_exception e"
    and "fst (net_exchange net a p m w) = Inr c \<Longrightarrow> breaks_ok c" by (simp_all add: breaks_ok_def)
  show "net_loads net t = Inl e \<Longrightarrow> is_exception e" and "net_inflate net b = Inl e \<Longrightarrow> is_exception e"
    using raises by blast+
qed

lemma recv_breaks: "breaks_ok c \<Longrightarrow> recv n c = (r, c') \<Longrightarrow> breaks_ok c' \<and> (\<forall>e. r = Inl e \<longrightarrow> is_exception e)"
  by (cases "(n, c)" rule: recv.cases) (auto simp: breaks_ok_def split: if_splits)

lemma receive_loop_breaks:
  "breaks_ok c \<Longrightarrow> receive_loop n buf c = (r, c') \<Longrightarrow> breaks_ok c' \<and> (\<forall>e. r = Inl e \<longrightarrow> is_exception e)"
proof (induction n buf c rule: receive_loop.induct)
  case (1 n buf c)
  obtain r1 c1 where step: "recv (n - length buf) c = (r1, c1)" by fastforce
  note ok = recv_breaks[OF 1(2) step]
  show ?case
  proof (cases "length buf < n \<and> (\<exists>b. r1 = Inr b \<and> b \<noteq> [])")
    case True
    then obtain b where b: "r1 = Inr b" "b \<noteq> []" by blast
    then have "receive_loop n (buf @ b) c1 = (r, c')"
      using 1(3) True step by (subst (asm) receive_loop.simps) auto
    then show ?thesis using 1(1)[OF _ step[symmetric] b(1)] True b ok by blast
  next
    case False
    then show ?thesis using 1(2,3) step ok
      by (subst (asm) receive_loop.simps) (auto split: if_splits sum.splits)
  qed
qed

lemma receive_packet_excepts: "excepting (receive_packet n) breaks_ok (\<lambda>_. breaks_ok)"
  unfolding receive_packet_def by (rule tripleI) (auto dest: receive_loop_breaks)

lemma parse_sync_packet_excepts:
  assumes "\<And>b e. inflate b = Inl e \<Longrightarrow> is_exception e"
  shows "excepting (parse_sync_packet inflate) breaks_ok (\<lambda>_ _. True)"
  unfolding parse_sync_packet_def Let_def
  by (intro triple_bind[OF receive_packet_excepts] triple_if triple_raise triple_lift
      triple_bind[where R = "\<lambda>_ _. True" and m = "lift r" for r])
    (auto dest: assms utf8_decode_Inl split: if_splits)

lemma get_response_Inl:
  assumes "raises_exceptions net" and "breaks_ok c" and "get_response net c = Inl e"
  shows "is_exception e"
proof -
  have "excepting (bindM (parse_sync_packet (net_inflate net)) (\<lambda>msg. lift (net_loads net msg))) breaks_ok (\<lambda>_ _. True)"
    by (intro triple_bind[OF parse_sync_packet_excepts] triple_lift) (auto dest: raises_exceptionsD(4,5)[OF assms(1)])
  from triple_raises[OF this assms(2)] show ?thesis
    using assms(3) unfolding get_response_def by (metis prod.collapse)
qed

text \<open>The operations keep the number of clusters; what \<open>send_to_cluster\<close> returns is an answer to the packet.\<close>

abbreviation has_clusters :: "nat \<Rightarrow> 'w link \<Rightarrow> bool" where
  "has_clusters n l \<equiv> length (lk_clusters l) = n"

lemma on_world_excepts:
  "excepting (on_world f) (has_clusters n) (\<lambda>a l. has_clusters n l \<and> (\<exists>w. fst (f w) = a))"
  by (rule tripleI) (auto simp: on_world_def split: prod.splits, metis fst_conv)

lemma dial_nodes_excepts:
  assumes "raises_exceptions net"
  shows "excepting (dial_nodes net ns i) (has_clusters n) (\<lambda>_. has_clusters n)"
proof (induction ns arbitrary: i)
  case (Cons nd ns)
  have "excepting (case d of Connected \<Rightarrow> ret (Some i) | NotConnected \<Rightarrow> dial_nodes net ns (Suc i)
      | NoSocket \<Rightarrow> raise processing_error | DialFailed e \<Rightarrow> raise e)
    (\<lambda>l. has_clusters n l \<and> (\<exists>w. fst (net_dial net (nd_address nd) (nd_port nd) w) = d)) (\<lambda>_. has_clusters n)" for d
  proof (cases d)
    case NotConnected
    then show ?thesis using Cons[of "Suc i"] by (auto intro: triple_conseq)
  next
    case (DialFailed e)
    then show ?thesis using raises_exceptionsD(1)[OF assms] by (auto intro: triple_raise)
  qed (auto intro: triple_intros)
  then show ?case unfolding dial_nodes.simps by (rule triple_bind[OF on_world_excepts])
qed (auto intro: triple_intros)

lemma exchange_excepts:
  assumes "raises_exceptions net"
  shows "excepting (exchange net node packet) (has_clusters n) (\<lambda>v l. has_clusters n l \<and> answered net packet v)"
proof -
  have "excepting (case r of Inl e \<Rightarrow> raise e | Inr c \<Rightarrow> lift (get_response net c))
    (\<lambda>l. has_clusters n l \<and> (\<exists>w. fst (net_exchange net (nd_address node) (nd_port node) packet w) = r))
    (\<lambda>v l. has_clusters n l \<and> answered net packet v)" for r
  proof (cases r)
    case (Inl e)
    then show ?thesis using raises_exceptionsD(2)[OF assms] by (auto intro: triple_raise)
  next
    case (Inr c)
    then have "breaks_ok c" if "\<exists>w. fst (net_exchange net (nd_address node) (nd_port node) packet w) = r"
      using that raises_exceptionsD(3)[OF assms] by blast
    then have "is_exception e" if "\<exists>w. fst (net_exchange net (nd_address node) (nd_port node) packet w) = r"
        "get_response net c = Inl e" for e
      using assms that get_response_Inl by blast
    moreover have "answered net packet v" if "\<exists>w. fst (net_exchange net (nd_address node) (nd_port node) packet w) = r"
        "get_response net c = Inr v" for v
      using that Inr unfolding answered_def by blast
    ultimately show ?thesis unfolding Inr sum.case by (intro triple_lift) auto
  qed
  then show ?thesis unfolding exchange_def by (rule triple_bind[OF on_world_excepts])
qed

lemma redirect_node_excepts: "excepting (redirect_node k addr) (has_clusters n) (\<lambda>_. has_clusters n)"
  unfolding redirect_node_def
  by (intro triple_getM triple_bind[where R = "\<lambda>_. has_clusters n"] triple_lift triple_modifyM)
    (auto dest: node_of_parts_Inl)

lemma send_to_cluster_excepts:
  assumes "raises_exceptions net"
  shows "excepting (send_to_cluster net limit k packet) (has_clusters n)
    (\<lambda>r l. has_clusters n l \<and> answered net packet (snd r))"
proof (induction limit)
  case 0
  show ?case by (auto intro: triple_intros)
next
  case (Suc limit)
  have swap: "excepting (swap_nodes k i) (has_clusters n) (\<lambda>_. has_clusters n)" for i
    by (auto simp: swap_nodes_def Let_def intro: triple_modifyM)
  have redirected: "excepting (case r of None \<Rightarrow> ret (node, v)
      | Some a \<Rightarrow> bindM (redirect_node k a) (\<lambda>_. send_to_cluster net limit k packet))
    (\<lambda>l. has_clusters n l \<and> answered net packet v) (\<lambda>r l. has_clusters n l \<and> answered net packet (snd r))" for r node v
    by (cases r) (auto intro!: triple_ret triple_bind[OF triple_conseq[OF redirect_node_excepts] Suc])
  have answer: "excepting (bindM (lift (redirect_of v)) (\<lambda>r. case r of None \<Rightarrow> ret (node, v)
      | Some a \<Rightarrow> bindM (redirect_node k a) (\<lambda>_. send_to_cluster net limit k packet)))
    (\<lambda>l. has_clusters n l \<and> answered net packet v) (\<lambda>r l. has_clusters n l \<and> answered net packet (snd r))" for node v
    by (rule triple_bind[OF triple_lift redirected]) (auto dest: redirect_of_Inl)
  show ?case
    unfolding send_to_cluster.simps Let_def
  proof (rule triple_getM, rule triple_bind[OF dial_nodes_excepts[OF assms]])
    fix l :: "'a link" and found
    show "excepting (case found of
        None \<Rightarrow> raise (if lk_clusters l ! k = [] then OtherError ''UnboundLocalError'' else processing_error)
      | Some i \<Rightarrow> bindM (swap_nodes k i) (\<lambda>_. bindM (exchange net (lk_clusters l ! k ! i) packet)
          (\<lambda>v. bindM (lift (redirect_of v)) (\<lambda>r. case r of None \<Rightarrow> ret (lk_clusters l ! k ! i, v)
            | Some a \<Rightarrow> bindM (redirect_node k a) (\<lambda>_. send_to_cluster net limit k packet)))))
      (has_clusters n) (\<lambda>r l. has_clusters n l \<and> answered net packet (snd r))"
      by (cases found) (auto intro!: triple_raise triple_bind[OF swap] triple_bind[OF exchange_excepts[OF assms] answer])
  qed
qed

lemma chunk_send_excepts:
  assumes "raises_exceptions net"
  shows "excepting (chunk_send net limit items) (has_clusters 1)
    (\<lambda>rs l. has_clusters 1 l \<and> (\<exists>node v packet. rs = [(node, v)] \<and> request_packet net items = Inr packet \<and> answered net packet v))"
proof (cases "request_packet net items")
  case (Inl e)
  then show ?thesis by (auto simp: chunk_send_def triple_def dest: request_packet_Inl)
next
  case (Inr packet)
  show ?thesis
  proof (rule tripleI)
    fix l :: "'a link" and rs t assume l: "has_clusters 1 l" and run: "chunk_send net limit items l = (Inr rs, t)"
    have "[0..<length (lk_clusters l)] = [0]" using l by simp
    with run have "\<exists>node v. rs = [(node, v)] \<and> send_to_cluster net limit 0 packet l = (Inr (node, v), t)"
      by (auto simp: chunk_send_def Inr getM_def elim!: bindM_InrE split: prod.splits)
    then show "has_clusters 1 t \<and> (\<exists>node v packet. rs = [(node, v)] \<and> request_packet net items = Inr packet \<and> answered net packet v)"
      using triple_returns[OF send_to_cluster_excepts[OF assms] l] Inr by fastforce
  next
    fix l :: "'a link" and e t assume l: "has_clusters 1 l" and run: "chunk_send net limit items l = (Inl e, t)"
    have "[0..<length (lk_clusters l)] = [0]" using l by simp
    with run have "send_to_cluster net limit 0 packet l = (Inl e, t)"
      by (auto simp: chunk_send_def Inr getM_def elim!: bindM_InlE split: prod.splits)
    then show "is_exception e" using triple_raises[OF send_to_cluster_excepts[OF assms] l] by blast
  qed
qed

subsection \<open>The merged answer\<close>

definition numbered :: "(item_value \<Rightarrow> bool) \<Rightarrow> item_value list \<Rightarrow> (int \<times> int) list" where
  "numbered verdict items = map (\<lambda>i. (int i + 1, if verdict (items ! i) then 0 else 1)) [0..<length items]"

lemma numbered_simps [simp]:
  "numbered verdict [] = []"
  "numbered verdict (items @ [item]) = numbered verdict items @ [(int (length items) + 1, if verdict item then 0 else 1)]"
  by (simp_all add: numbered_def nth_append)

definition chunk_verdicts :: "(node \<times> trapper_response list) list \<Rightarrow> (int \<times> int) list" where
  "chunk_verdicts details = map (\<lambda>r. (tr_chunk r, ic_failed (tr_counts r))) (concat (map snd details))"

text \<open>\<open>judged verdict items m\<close>: the merged answer counts the verdicts on the items, and names each by its position.\<close>

definition judged :: "(item_value \<Rightarrow> bool) \<Rightarrow> item_value list \<Rightarrow> merged \<Rightarrow> bool" where
  "judged verdict items m \<longleftrightarrow>
     ic_processed (tr_counts (fst m)) = int (length (filter verdict items))
   \<and> ic_failed (tr_counts (fst m)) = int (length (filter (Not \<circ> verdict) items))
   \<and> mset (chunk_verdicts (snd m)) = mset (numbered verdict items)"

lemma chunk_verdicts_add:
  "mset (chunk_verdicts (adict_set d k ((case map_of d k of None \<Rightarrow> [] | Some xs \<Rightarrow> xs) @ [r])))
     = add_mset (tr_chunk r, ic_failed (tr_counts r)) (mset (chunk_verdicts d))"
  unfolding chunk_verdicts_def by (induction d) auto

lemma merge_one:
  assumes "judges net verdict" and "request_packet net [item] = Inr packet" and "answered net packet v"
    and "judged verdict items acc" and "merge_responses (int (length items)) 1 [(node, v)] acc = Inr acc'"
  shows "judged verdict (items @ [item]) acc'"
proof -
  obtain result details where acc: "acc = (result, details)" by fastforce
  from assms(5) obtain c where c: "parse_response v = Inr c"
    by (cases "parse_response v") (auto simp: acc add_response_def)
  have counts: "ic_processed c = (if verdict item then 1 else 0)" "ic_failed c = (if verdict item then 0 else 1)"
    using assms(1-3) c unfolding judges_def by blast+
  let ?one = "(new_response (int (length items) + 1))\<lparr>tr_counts := add_counts (tr_counts (new_response 1)) c\<rparr>"
  have acc': "acc' = (result\<lparr>tr_counts := add_counts (tr_counts result) c, tr_chunk := int (length items) + 1\<rparr>,
      adict_set details node ((case map_of details node of None \<Rightarrow> [] | Some rs \<Rightarrow> rs) @ [?one]))"
    using assms(5) by (simp add: acc add_response_def c new_response_def)
  have "mset (chunk_verdicts (snd acc'))
      = add_mset (int (length items) + 1, if verdict item then 0 else 1) (mset (chunk_verdicts details))"
    unfolding acc' snd_conv chunk_verdicts_add using counts by (simp add: new_response_def add_counts_def)
  then show ?thesis
    using assms(4) counts by (simp add: judged_def acc acc' add_counts_def)
qed

lemma merge_one_Inl: "merge_responses i 1 [(node, v)] acc = Inl e \<Longrightarrow> is_exception e"
  by (cases acc) (auto simp: add_response_def rbind_eq_Inl dest: parse_response_Inl)

lemma enumerate_split:
  assumes "enumerate 0 (map (\<lambda>x. [x]) items) = pre @ (i, chunk) # post"
  shows "i = length (concat (map snd pre)) \<and> (\<exists>item. chunk = [item])"
proof -
  let ?xs = "enumerate 0 (map (\<lambda>x. [x]) items)"
  have "length pre < length items" using arg_cong[OF assms, of length] by simp
  then have "(i, chunk) = (length pre, [items ! length pre])"
    using nth_enumerate_eq[of "length pre" "map (\<lambda>x. [x]) items" 0] assms by simp
  moreover have "\<forall>c \<in> set (map snd ?xs). length c = 1" by (subst map_snd_enumerate) auto
  then have "\<forall>c \<in> set (map snd pre). length c = 1" by (simp add: assms)
  then have "length (concat (map snd pre)) = length pre" by (induction pre) auto
  ultimately show ?thesis by simp
qed

lemma send_chunks_judged:
  assumes "raises_exceptions net" and "judges net verdict"
  shows "excepting (send_chunks net limit 1 items) (has_clusters 1) (\<lambda>m _. judged verdict items m)"
proof -
  define I where "I pre acc = (\<lambda>l :: 'a link. has_clusters 1 l \<and> judged verdict (concat (map snd pre)) acc)"
    for pre :: "(nat \<times> item_value list) list" and acc
  let ?xs = "enumerate 0 (map (\<lambda>x. [x]) items)"
  let ?f = "\<lambda>(i, chunk) acc. bindM (chunk_send net limit chunk) (\<lambda>by_node. lift (merge_responses (int i) 1 by_node acc))"
  have "excepting (foldM ?f ?xs (new_response 1, [])) (I [] (new_response 1, [])) (I ?xs)"
  proof (rule triple_foldM_prefix)
    fix pre :: "(nat \<times> item_value list) list" and x post acc assume split: "?xs = pre @ x # post"
    obtain i chunk where x: "x = (i, chunk)" by fastforce
    from enumerate_split[OF split[unfolded x]] obtain item
      where i: "i = length (concat (map snd pre))" and chunk: "chunk = [item]" by blast
    show "excepting (?f x acc) (I pre acc) (I (pre @ [x]))"
      unfolding x prod.case
    proof (rule triple_bind)
      show "excepting (chunk_send net limit chunk) (I pre acc) (\<lambda>rs l. I pre acc l \<and>
          (\<exists>node v packet. rs = [(node, v)] \<and> request_packet net chunk = Inr packet \<and> answered net packet v))"
        unfolding I_def by (rule triple_conseq[OF triple_pure[OF chunk_send_excepts[OF assms(1)],
                where J = "judged verdict (concat (map snd pre)) acc"]]) auto
      show "excepting (lift (merge_responses (int i) 1 rs acc)) (\<lambda>l. I pre acc l \<and>
          (\<exists>node v packet. rs = [(node, v)] \<and> request_packet net chunk = Inr packet \<and> answered net packet v))
        (I (pre @ [(i, chunk)]))" for rs
      proof (rule triple_lift)
        fix m l assume m: "merge_responses (int i) 1 rs acc = Inr m" and "I pre acc l \<and>
          (\<exists>node v packet. rs = [(node, v)] \<and> request_packet net chunk = Inr packet \<and> answered net packet v)"
        then show "I (pre @ [(i, chunk)]) m l"
          using m unfolding I_def i chunk by (auto simp del: merge_responses.simps intro: merge_one[OF assms(2)])
      qed (auto dest: merge_one_Inl)
    qed
  qed
  then have "excepting (foldM ?f ?xs (new_response 1, [])) (has_clusters 1) (\<lambda>m _. judged verdict items m)"
    by (rule triple_conseq)
      (auto simp: I_def map_snd_enumerate o_def judged_def new_response_def chunk_verdicts_def)
  then show ?thesis
    by (auto simp: send_chunks_def py_chunks_def chunks_one[simplified] intro!: triple_bind[where R = "\<lambda>cs l. has_clusters 1 l \<and> cs = map (\<lambda>x. [x]) items"] triple_lift)
qed

subsection \<open>The client on top of the library\<close>

lemma library_send_judged:
  assumes "raises_exceptions net" and "judges net verdict"
  shows "case fst (library_send net limit host port items w) of
      Inl e \<Rightarrow> is_exception e
    | Inr rsp \<Rightarrow> \<exists>m. rsp = library_response m \<and> judged verdict items m"
proof (cases "new_sender host port")
  case (Inl e)
  then show ?thesis using new_sender_Inl by (auto simp: library_send_def)
next
  case (Inr clusters)
  then obtain ns where ns: "clusters = [ns]"
    by (auto simp: new_sender_def rbind_def split: sum.splits)
  let ?start = "\<lparr>lk_clusters = clusters, lk_next = 1, lk_world = w\<rparr>"
  obtain r l where run: "send_chunks net limit 1 items ?start = (r, l)" by fastforce
  have start: "has_clusters 1 ?start" by (simp add: ns)
  note sent = send_chunks_judged[OF assms]
  have "case r of Inl e \<Rightarrow> is_exception e | Inr m \<Rightarrow> judged verdict items m"
    using triple_returns[OF sent start] triple_raises[OF sent start] run by (cases r) auto
  then show ?thesis using Inr run by (cases r) (auto simp: library_send_def)
qed

lemma length_verdicts: "length (filter verdict items) + length (filter (Not \<circ> verdict) items) = length items"
  using sum_length_filter_compl[of verdict items] by (simp add: o_def)

text \<open>
  C9: the library keeps the promise that the client's accounting rests on. Over a network and a server that
  behave as documented, whatever the library returns for a list of values accounts for every value, and
  whatever it raises is an exception the client catches; redirects, unreachable nodes, answers cut off or
  malformed included.
\<close>

theorem library_keeps_its_promise:
  assumes "raises_exceptions net" and "judges net verdict"
  shows "library_accounts (library_env net limit w timed_out)"
proof -
  note sent = library_send_judged[OF assms, where limit = limit and w = w]
  have "rsp_processed rsp + rsp_failed rsp = int (length items)"
    if "fst (library_send net limit host port items w) = Inr rsp" for host port items rsp
    using sent[where host = host and port = port and items = items] that length_verdicts[of verdict items]
    by (auto simp: library_response_def judged_def split: prod.splits)
  moreover have "is_exception e" if "fst (library_send net limit host port items w) = Inl e" for host port items e
    using sent[where host = host and port = port and items = items] that by simp
  ultimately show ?thesis by (simp add: library_accounts_def library_env_def)
qed

subsection \<open>Which values were refused\<close>

lemma filter_numbered:
  "filter (\<lambda>c. snd c \<noteq> 0) (numbered verdict items)
     = map (\<lambda>i. (int i + 1, 1)) (filter (\<lambda>i. \<not> verdict (items ! i)) [0..<length items])"
  by (simp add: numbered_def filter_map o_def cong: filter_cong)

lemma filter_zip_nth:
  "length xs = length ys \<Longrightarrow> map (\<lambda>i. xs ! i) (filter (\<lambda>i. P (ys ! i)) [0..<length ys])
     = map fst (filter (\<lambda>(x, y). P y) (zip xs ys))"
proof (induction xs ys rule: rev_induct2)
  case (4 x xs y ys)
  have 1: "filter (\<lambda>i. P ((ys @ [y]) ! i)) [0..<length ys] = filter (\<lambda>i. P (ys ! i)) [0..<length ys]"
    by (rule filter_cong) (auto simp: nth_append)
  have 2: "map (\<lambda>i. (xs @ [x]) ! i) (filter (\<lambda>i. P (ys ! i)) [0..<length ys])
      = map (\<lambda>i. xs ! i) (filter (\<lambda>i. P (ys ! i)) [0..<length ys])"
    by (rule map_cong) (use 4(2) in \<open>auto simp: nth_append\<close>)
  have 3: "(xs @ [x]) ! length ys = x" using 4(2) by (simp add: nth_append)
  from 4 have "length xs = length ys" by simp
  then show ?case by (simp add: 1 2 3 4(1))
qed auto

lemma rejected_named:
  assumes "judged verdict items m" and "length results = length items"
  shows "\<exists>rs. rejected_items (library_response m) results = Inr rs
    \<and> mset rs = mset (map fst (filter (\<lambda>(r, item). \<not> verdict item) (zip results items)))"
proof -
  let ?refused = "filter (\<lambda>c. snd c \<noteq> 0) (chunk_verdicts (snd m))"
  define pick where "pick c = results ! nat (fst c - 1)" for c :: "int \<times> int"
  have "mset ?refused = mset (filter (\<lambda>c. snd c \<noteq> 0) (numbered verdict items))"
    using assms(1) unfolding judged_def mset_filter by metis
  then have refused: "mset ?refused = mset (map (\<lambda>i. (int i + 1, 1)) (filter (\<lambda>i. \<not> verdict (items ! i)) [0..<length items]))"
    by (simp only: filter_numbered)
  have "py_index results (fst c - 1) = Inr (pick c)" if "c \<in> set ?refused" for c
  proof -
    have "c \<in> set (map (\<lambda>i. (int i + 1, 1)) (filter (\<lambda>i. \<not> verdict (items ! i)) [0..<length items]))"
      using that refused by (metis set_mset_mset)
    then obtain i where "c = (int i + 1, 1)" "i < length items" by auto
    then show ?thesis using assms(2) by (simp add: pick_def py_index_def)
  qed
  then have "rmapM (\<lambda>c. py_index results (fst c - 1)) ?refused = Inr (map pick ?refused)"
    by (rule rmapM_Inr_map)
  moreover have "concat (map snd (rsp_details (library_response m))) = chunk_verdicts (snd m)"
    by (auto simp: library_response_def chunk_verdicts_def map_concat o_def case_prod_beta split: prod.splits)
  ultimately have "rejected_items (library_response m) results = Inr (map pick ?refused)"
    by (simp add: rejected_items_def)
  moreover have "mset (map pick ?refused) = mset (map (\<lambda>i. results ! i) (filter (\<lambda>i. \<not> verdict (items ! i)) [0..<length items]))"
    using arg_cong[OF refused, of "image_mset pick"] unfolding mset_map image_mset.compositionality
    by (simp add: pick_def o_def)
  ultimately show ?thesis using filter_zip_nth[OF assms(2), of "\<lambda>i. \<not> verdict i"] by (metis (no_types, lifting))
qed

text \<open>
  C12: the warnings name the refused values. When a server answers, the client reports exactly the values that
  the server refused, each once, and their number; nothing is blamed on another value, whatever the order of
  the answers' details, and looking up the refused values does not fail.
\<close>

theorem rejections_are_named:
  assumes "raises_exceptions net" and "judges net verdict"
    and "library_send net limit host port (items_of cfg results) w = (Inr rsp, w')"
  shows "rsp_failed rsp = int (length (filter (\<lambda>item. \<not> verdict item) (items_of cfg results)))
    \<and> (\<exists>rs. rejected_items rsp results = Inr rs
        \<and> mset rs = mset (map fst (filter (\<lambda>(r, item). \<not> verdict item) (zip results (items_of cfg results)))))"
proof -
  from library_send_judged[OF assms(1,2), where limit = limit and host = host and port = port and items = "items_of cfg results" and w = w]
  obtain m where m: "rsp = library_response m" "judged verdict (items_of cfg results) m"
    unfolding assms(3) by auto
  then have "rsp_failed rsp = int (length (filter (\<lambda>item. \<not> verdict item) (items_of cfg results)))"
    by (auto simp: library_response_def judged_def o_def split: prod.splits)
  then show ?thesis using rejected_named[OF m(2), of results] m(1) by (simp add: items_of_def)
qed

subsection \<open>Addresses with a colon\<close>

lemma filter_dropWhile: "\<not> P c \<Longrightarrow> filter ((=) c) (dropWhile P s) = filter ((=) c) s"
  by (induction s) auto

lemma strip_keeps_colons: "filter ((=) CHR '':'') (py_strip s) = filter ((=) CHR '':'') s"
proof -
  have "\<not> py_isspace CHR '':''" by (simp add: py_isspace_def)
  then show ?thesis
    by (simp add: py_strip_def rstrip_by_def py_lstrip_def filter_dropWhile flip: rev_filter)
qed

lemma new_sender_colon: "CHR '':'' \<in> set host \<Longrightarrow> new_sender host port = Inl TypeError"
proof -
  assume colon: "CHR '':'' \<in> set host"
  let ?s = "py_strip (host @ '':'' @ str_int port)"
  have "host \<noteq> []" using colon by auto
  have "length (filter ((=) CHR '':'') ?s)
      = length (filter ((=) CHR '':'') host) + 1 + length (filter ((=) CHR '':'') (str_int port))"
    by (simp add: strip_keeps_colons)
  moreover have "length (filter ((=) CHR '':'') host) \<noteq> 0" using colon by (induction host) auto
  ultimately have two: "2 \<le> length (filter ((=) CHR '':'') ?s)" by linarith
  then have "3 \<le> length (split_on CHR '':'' ?s)" by (simp add: split_on_count)
  then have "node_of_parts 0 ?s = Inl TypeError"
    by (auto simp: node_of_parts_def split: list.splits)
  moreover have "CHR '':'' \<in> set ?s" using two by (metis (full_types) filter_False length_0_conv not_numeral_le_zero)
  ultimately show ?thesis
    using \<open>host \<noteq> []\<close> by (simp add: new_sender_def parse_ha_nodes_def parse_node_def Let_def)
qed

text \<open>
  C40: a server address with a colon is never contacted. An IPv6 address, or a host with a port, is accepted by
  the configuration, but the library splits \<open>host:port\<close> at every colon and raises \<open>TypeError\<close> before it opens
  a connection. The client takes that for an unreachable server: when all addresses are of this kind, every
  value is counted as failed and the network is never touched.
\<close>

theorem colon_addresses_are_never_contacted:
  assumes "\<forall>h \<in> set (z_server_hosts (cfg_zabbix cfg)). CHR '':'' \<in> set h"
  shows "fst (do_send (library_env net limit w timed_out) cfg results) = Inr (0, int (length results))
    \<and> (\<forall>h \<in> set (z_server_hosts (cfg_zabbix cfg)). \<forall>port items w. library_send net limit h port items w = (Inl TypeError, w))"
proof -
  have none: "library_send net limit h port items w = (Inl TypeError, w)" if "CHR '':'' \<in> set h" for h port items w
    using that by (simp add: library_send_def new_sender_colon)
  have "fst (try_hosts (library_env net limit w timed_out) port items results hosts) = Inr (0, int (length results))"
    if "\<forall>h \<in> set hosts. CHR '':'' \<in> set h" for hosts port items
    using that none by (induction hosts) (auto simp: library_env_def split: prod.splits)
  then show ?thesis using assms none by (auto simp: do_send_def)
qed

subsection \<open>A network\<close>

text \<open>The server refuses a packet with more than a hundred bytes; the world counts the packets.\<close>

definition counts_text :: "bool \<Rightarrow> string" where
  "counts_text ok = (if ok then ''processed: 1; failed: 0; total: 1; seconds spent: 0.000055''
     else ''processed: 0; failed: 1; total: 1; seconds spent: 0.000031'')"

definition example_net :: "nat net" where
  "example_net = \<lparr>net_dial = (\<lambda>_ _ w. (Connected, w)),
     net_exchange = (\<lambda>_ _ packet w. (Inr [Segment (ZABBIX_PROTOCOL @ [1, 1, 0]),
        Segment [0, 0, 0, 0, 0, 0, if length packet \<le> 100 then 1 else 0]], Suc w)),
     net_loads = (\<lambda>t. Inr (VDict [(VStr ''response'', VStr ''success''), (VStr ''info'', VStr (counts_text (t = [1])))])),
     net_deflate = id, net_inflate = Inr\<rparr>"

definition example_verdict :: "item_value \<Rightarrow> bool" where
  "example_verdict item = (case request_packet example_net [item] of Inr p \<Rightarrow> length p \<le> 100 | Inl e \<Rightarrow> True)"

lemma example_net_raises: "raises_exceptions example_net"
  by (simp add: raises_exceptions_def example_net_def)

lemma example_answers:
  "get_response example_net [Segment (ZABBIX_PROTOCOL @ [1, 1, 0]), Segment [0, 0, 0, 0, 0, 0, if ok then 1 else 0]]
     = Inr (VDict [(VStr ''response'', VStr ''success''), (VStr ''info'', VStr (counts_text ok))])"
  by (induct ok) code_simp+

lemma example_counts:
  "parse_response (VDict [(VStr ''response'', VStr ''success''), (VStr ''info'', VStr (counts_text ok))]) = Inr c \<Longrightarrow>
     ic_processed c = (if ok then 1 else 0) \<and> ic_failed c = (if ok then 0 else 1)"
proof -
  have "(case parse_response (VDict [(VStr ''response'', VStr ''success''), (VStr ''info'', VStr (counts_text ok))]) of
      Inr c \<Rightarrow> ic_processed c = (if ok then 1 else 0) \<and> ic_failed c = (if ok then 0 else 1) | Inl e \<Rightarrow> True)"
    by (induct ok) code_simp+
  then show "parse_response (VDict [(VStr ''response'', VStr ''success''), (VStr ''info'', VStr (counts_text ok))]) = Inr c \<Longrightarrow>
     ic_processed c = (if ok then 1 else 0) \<and> ic_failed c = (if ok then 0 else 1)" by simp
qed

lemma example_judges: "judges example_net example_verdict"
  unfolding judges_def
proof (intro allI impI)
  fix item packet v c
  assume packet: "request_packet example_net [item] = Inr packet" and "answered example_net packet v"
    and c: "parse_response v = Inr c"
  then have "get_response example_net [Segment (ZABBIX_PROTOCOL @ [1, 1, 0]),
      Segment [0, 0, 0, 0, 0, 0, if length packet \<le> 100 then 1 else 0]] = Inr v"
    by (auto simp: answered_def example_net_def)
  then have "v = VDict [(VStr ''response'', VStr ''success''), (VStr ''info'', VStr (counts_text (length packet \<le> 100)))]"
    by (simp only: example_answers sum.inject)
  then show "ic_processed c = (if example_verdict item then 1 else 0) \<and> ic_failed c = (if example_verdict item then 0 else 1)"
    using example_counts c packet by (simp add: example_verdict_def)
qed

theorem library_keeps_its_promise_witness:
  "library_accounts (library_env example_net 1 0 (\<lambda>_. False))"
  by (rule library_keeps_its_promise[OF example_net_raises example_judges])

definition example_results :: "metric_result list" where
  "example_results = [self_result 0 (''a'', ''1''), self_result 0 (''b'', ''a text that is much too long for this server''),
     self_result 0 (''c'', ''3'')]"

lemma example_sent:
  "fst (library_send example_net 1 ''zabbix'' 10051 (items_of default_client_config example_results) 0) = Inr
     \<lparr>rsp_processed = 2, rsp_failed = 1, rsp_total = 3, rsp_details = [(''zabbix:10051'', [(1, 0), (2, 1), (3, 0)])]\<rparr>"
  by code_simp

theorem rejections_are_named_witness:
  "rsp_failed \<lparr>rsp_processed = 2, rsp_failed = 1, rsp_total = 3, rsp_details = [(''zabbix:10051'', [(1, 0), (2, 1), (3, 0)])]\<rparr>
     = int (length (filter (\<lambda>item. \<not> example_verdict item) (items_of default_client_config example_results)))
   \<and> (\<exists>rs. rejected_items
        \<lparr>rsp_processed = 2, rsp_failed = 1, rsp_total = 3, rsp_details = [(''zabbix:10051'', [(1, 0), (2, 1), (3, 0)])]\<rparr>
        example_results = Inr rs
      \<and> mset rs = mset (map fst (filter (\<lambda>(r, item). \<not> example_verdict item)
          (zip example_results (items_of default_client_config example_results)))))"
  by (rule rejections_are_named[OF example_net_raises example_judges, of 1 "''zabbix''" 10051 default_client_config _ 0])
    (rule prod_eqI, unfold fst_conv snd_conv, rule example_sent, rule refl)

theorem colon_addresses_are_never_contacted_witness:
  "fst (do_send (library_env example_net 1 0 (\<lambda>_. False)) (default_client_config\<lparr>cfg_zabbix :=
      (cfg_zabbix default_client_config)\<lparr>z_server_hosts := [''::1'', ''zabbix:10051'']\<rparr>\<rparr>) example_results) = Inr (0, 3)
   \<and> (\<forall>port items w. library_send example_net 1 ''::1'' port items w = (Inl TypeError, w))
   \<and> (\<forall>port items w. library_send example_net 1 ''zabbix:10051'' port items w = (Inl TypeError, w))"
  using colon_addresses_are_never_contacted[of "default_client_config\<lparr>cfg_zabbix :=
      (cfg_zabbix default_client_config)\<lparr>z_server_hosts := [''::1'', ''zabbix:10051'']\<rparr>\<rparr>" example_net 1 0 "\<lambda>_. False" example_results]
  by (simp add: example_results_def)

end
