(* ===== verification/Regex.thy ===== *)
theory Regex
  imports Prelude
begin

section \<open>Regular expressions\<close>

text \<open>
  Regular expressions as data, with their language, for the patterns of the YAML library. They are matched by
  derivatives; \<open>py_match\<close> is what \<open>re.match\<close> does with a pattern between \<open>^(?:\<close> and \<open>)$\<close>, where \<open>$\<close> also
  matches before a line feed at the end of the text.
\<close>

subsection \<open>Expressions and their language\<close>

datatype rx = Never | Nil_rx | Class string | Or rx rx | Then rx rx | Many rx

definition opt_rx :: "rx \<Rightarrow> rx" where
  "opt_rx r = Or Nil_rx r"

definition some_rx :: "rx \<Rightarrow> rx" where
  "some_rx r = Then r (Many r)"

definition word_rx :: "string \<Rightarrow> rx" where
  "word_rx s = foldr (\<lambda>c r. Then (Class [c]) r) s Nil_rx"

definition any_rx :: "rx list \<Rightarrow> rx" where
  "any_rx rs = foldr Or rs Never"

definition seq_rx :: "rx list \<Rightarrow> rx" where
  "seq_rx rs = foldr Then rs Nil_rx"

primrec lang :: "rx \<Rightarrow> string set" where
  "lang Never = {}"
| "lang Nil_rx = {[]}"
| "lang (Class cs) = {[c] | c. c \<in> set cs}"
| "lang (Or r s) = lang r \<union> lang s"
| "lang (Then r s) = {x @ y | x y. x \<in> lang r \<and> y \<in> lang s}"
| "lang (Many r) = {concat xs | xs. set xs \<subseteq> lang r}"

lemma lang_opt_rx [simp]: "lang (opt_rx r) = insert [] (lang r)"
  by (simp add: opt_rx_def)

lemma lang_some_rx: "lang (some_rx r) = {x @ y | x y. x \<in> lang r \<and> y \<in> lang (Many r)}"
  by (simp add: some_rx_def)

lemma lang_word_rx [simp]: "lang (word_rx s) = {s}"
  by (induction s) (auto simp: word_rx_def)

lemma lang_any_rx [simp]: "lang (any_rx rs) = (\<Union>r \<in> set rs. lang r)"
  by (induction rs) (auto simp: any_rx_def)

lemma lang_many_class [simp]: "lang (Many (Class cs)) = {s. set s \<subseteq> set cs}"
proof (intro equalityI subsetI)
  fix s assume "s \<in> lang (Many (Class cs))"
  then show "s \<in> {s. set s \<subseteq> set cs}" by fastforce
next
  fix s assume "s \<in> {s. set s \<subseteq> set cs}"
  then have "set (map (\<lambda>c. [c]) s) \<subseteq> lang (Class cs)" by auto
  moreover have "concat (map (\<lambda>c. [c]) s) = s" by (induction s) auto
  ultimately show "s \<in> lang (Many (Class cs))" unfolding lang.simps(6) mem_Collect_eq by metis
qed

subsection \<open>Matching\<close>

primrec accepts_nil :: "rx \<Rightarrow> bool" where
  "accepts_nil Never = False"
| "accepts_nil Nil_rx = True"
| "accepts_nil (Class cs) = False"
| "accepts_nil (Or r s) = (accepts_nil r \<or> accepts_nil s)"
| "accepts_nil (Then r s) = (accepts_nil r \<and> accepts_nil s)"
| "accepts_nil (Many r) = True"

fun or_rx :: "rx \<Rightarrow> rx \<Rightarrow> rx" where
  "or_rx Never s = s"
| "or_rx r Never = r"
| "or_rx r s = (if r = s then r else Or r s)"

fun then_rx :: "rx \<Rightarrow> rx \<Rightarrow> rx" where
  "then_rx Never s = Never"
| "then_rx Nil_rx s = s"
| "then_rx r s = Then r s"

primrec deriv_rx :: "char \<Rightarrow> rx \<Rightarrow> rx" where
  "deriv_rx c Never = Never"
| "deriv_rx c Nil_rx = Never"
| "deriv_rx c (Class cs) = (if c \<in> set cs then Nil_rx else Never)"
| "deriv_rx c (Or r s) = or_rx (deriv_rx c r) (deriv_rx c s)"
| "deriv_rx c (Then r s) = (if accepts_nil r then or_rx (then_rx (deriv_rx c r) s) (deriv_rx c s)
     else then_rx (deriv_rx c r) s)"
| "deriv_rx c (Many r) = then_rx (deriv_rx c r) (Many r)"

primrec full_match :: "rx \<Rightarrow> string \<Rightarrow> bool" where
  "full_match r [] = accepts_nil r"
| "full_match r (c # s) = full_match (deriv_rx c r) s"

definition py_match :: "rx \<Rightarrow> string \<Rightarrow> bool" where
  "py_match r s \<longleftrightarrow> full_match r s \<or> (s \<noteq> [] \<and> last s = CHR 0x0A \<and> full_match r (butlast s))"

subsection \<open>The matcher decides the language\<close>

lemma accepts_nil_iff: "accepts_nil r \<longleftrightarrow> [] \<in> lang r"
proof (induction r)
  case (Many r)
  show ?case by (auto intro: exI[of _ "[]"])
qed auto

lemma lang_or_rx [simp]: "lang (or_rx r s) = lang r \<union> lang s"
  by (cases "(r, s)" rule: or_rx.cases) auto

lemma lang_then_rx [simp]: "lang (then_rx r s) = lang (Then r s)"
  by (cases "(r, s)" rule: then_rx.cases) auto

lemma Cons_concat_iff:
  "c # s = concat xs \<longleftrightarrow> (\<exists>y ys zs. xs = zs @ (c # y) # ys \<and> set zs \<subseteq> {[]} \<and> s = y @ concat ys)"
proof (induction xs)
  case (Cons x xs)
  show ?case
  proof (cases x)
    case Nil
    have "(\<exists>y ys zs. x # xs = zs @ (c # y) # ys \<and> set zs \<subseteq> {[]} \<and> s = y @ concat ys)
      \<longleftrightarrow> (\<exists>y ys zs. xs = zs @ (c # y) # ys \<and> set zs \<subseteq> {[]} \<and> s = y @ concat ys)" (is "?l \<longleftrightarrow> ?r")
    proof
      assume ?l
      then obtain y ys zs where "[] # xs = zs @ (c # y) # ys" "set zs \<subseteq> {[]}" "s = y @ concat ys"
        unfolding Nil by blast
      then show ?r by (cases zs) auto
    next
      assume ?r
      then obtain y ys zs where "x # xs = ([] # zs) @ (c # y) # ys" "set ([] # zs) \<subseteq> {[]}" "s = y @ concat ys"
        unfolding Nil by auto
      then show ?l by blast
    qed
    then show ?thesis using Cons Nil by simp
  next
    case (Cons d x')
    show ?thesis
    proof
      assume "c # s = concat (x # xs)"
      then show "\<exists>y ys zs. x # xs = zs @ (c # y) # ys \<and> set zs \<subseteq> {[]} \<and> s = y @ concat ys"
        using Cons by (intro exI[of _ x'] exI[of _ xs] exI[of _ "[]"]) simp
    qed (use Cons in \<open>auto simp: Cons_eq_append_conv\<close>)
  qed
qed simp

lemma lang_deriv_rx: "s \<in> lang (deriv_rx c r) \<longleftrightarrow> c # s \<in> lang r"
proof (induction r arbitrary: s)
  case (Then r1 r2)
  then show ?case by (auto simp: accepts_nil_iff Cons_eq_append_conv)
next
  case (Many r)
  show ?case
  proof
    assume "s \<in> lang (deriv_rx c (Many r))"
    then obtain x xs where "s = x @ concat xs" "c # x \<in> lang r" "set xs \<subseteq> lang r"
      using Many by auto
    then show "c # s \<in> lang (Many r)" by (auto intro!: exI[of _ "(c # x) # xs"])
  next
    assume "c # s \<in> lang (Many r)"
    then obtain xs where "c # s = concat xs" and r: "set xs \<subseteq> lang r" by auto
    then obtain y ys zs where "xs = zs @ (c # y) # ys" "s = y @ concat ys"
      unfolding Cons_concat_iff by blast
    then show "s \<in> lang (deriv_rx c (Many r))" using r Many by auto
  qed
qed auto

lemma lang_Class_Then: "c # s \<in> lang (Then (Class cs) r) \<longleftrightarrow> c \<in> set cs \<and> s \<in> lang r"
  by (simp del: lang.simps flip: lang_deriv_rx) simp

lemma full_match_iff: "full_match r s \<longleftrightarrow> s \<in> lang r"
  by (induction s arbitrary: r) (simp_all add: accepts_nil_iff lang_deriv_rx)

subsection \<open>Characters of the words\<close>

text \<open>\<open>needs c r\<close>: every word of \<open>r\<close> contains \<open>c\<close>; \<open>chars r\<close>: the characters that occur in words of \<open>r\<close>.\<close>

primrec needs :: "char \<Rightarrow> rx \<Rightarrow> bool" where
  "needs c Never = True"
| "needs c Nil_rx = False"
| "needs c (Class cs) = list_all (\<lambda>d. d = c) cs"
| "needs c (Or r s) = (needs c r \<and> needs c s)"
| "needs c (Then r s) = (needs c r \<or> needs c s)"
| "needs c (Many r) = False"

primrec chars :: "rx \<Rightarrow> string" where
  "chars Never = []"
| "chars Nil_rx = []"
| "chars (Class cs) = cs"
| "chars (Or r s) = chars r @ chars s"
| "chars (Then r s) = chars r @ chars s"
| "chars (Many r) = chars r"

lemma needs_sound: "needs c r \<Longrightarrow> s \<in> lang r \<Longrightarrow> c \<in> set s"
  by (induction r arbitrary: s) (auto simp: list_all_iff)

lemma chars_sound: "s \<in> lang r \<Longrightarrow> set s \<subseteq> set (chars r)"
proof (induction r arbitrary: s)
  case (Many r)
  then show ?case by fastforce
qed fastforce+

end
