(* ===== verification/YamlScalars.thy ===== *)
theory YamlScalars
  imports Regex PyPath PyValue
begin

section \<open>Scalars of the YAML library (\<open>yaml/resolver.py\<close>, \<open>yaml/constructor.py\<close>)\<close>

text \<open>
  What a scalar means: the resolver gives an untagged plain scalar a tag by the patterns of YAML 1.1, the
  \<open>SafeConstructor\<close> makes a value of the text. Path resolvers are not used by the client. Integers with more
  digits than Python's limit are left out.
\<close>

subsection \<open>Tags\<close>

definition yaml_tag :: "string \<Rightarrow> string" where
  "yaml_tag name = ''tag:yaml.org,2002:'' @ name"

definition DEFAULT_SCALAR_TAG :: string where "DEFAULT_SCALAR_TAG = yaml_tag ''str''"
definition DEFAULT_SEQUENCE_TAG :: string where "DEFAULT_SEQUENCE_TAG = yaml_tag ''seq''"
definition DEFAULT_MAPPING_TAG :: string where "DEFAULT_MAPPING_TAG = yaml_tag ''map''"

subsection \<open>The patterns\<close>

definition dec :: string where "dec = ''0123456789''"

definition sign_rx :: rx where "sign_rx = opt_rx (Class ''-+'')"
definition exponent_rx :: rx where
  "exponent_rx = opt_rx (seq_rx [Class ''eE'', Class ''-+'', some_rx (Class dec)])"
definition sixty_rx :: rx where
  \<comment> \<open>\<open>(?::[0-5]?[0-9])+\<close>\<close>
  "sixty_rx = some_rx (seq_rx [Class '':'', opt_rx (Class ''012345''), Class dec])"

definition bool_rx :: rx where
  "bool_rx = any_rx (map word_rx [''yes'', ''Yes'', ''YES'', ''no'', ''No'', ''NO'', ''true'', ''True'', ''TRUE'',
     ''false'', ''False'', ''FALSE'', ''on'', ''On'', ''ON'', ''off'', ''Off'', ''OFF''])"

definition float_rx :: rx where
  "float_rx = any_rx [
     seq_rx [sign_rx, Class dec, Many (Class (dec @ ''_'')), Class ''.'', Many (Class (dec @ ''_'')), exponent_rx],
     seq_rx [Class ''.'', Class dec, Many (Class (dec @ ''_'')), exponent_rx],
     seq_rx [sign_rx, Class dec, Many (Class (dec @ ''_'')), sixty_rx, Class ''.'', Many (Class (dec @ ''_''))],
     seq_rx [sign_rx, Class ''.'', any_rx (map word_rx [''inf'', ''Inf'', ''INF''])],
     seq_rx [Class ''.'', any_rx (map word_rx [''nan'', ''NaN'', ''NAN''])]]"

definition int_rx :: rx where
  "int_rx = any_rx [
     seq_rx [sign_rx, word_rx ''0b'', some_rx (Class ''01_'')],
     seq_rx [sign_rx, word_rx ''0'', some_rx (Class ''01234567_'')],
     seq_rx [sign_rx, Or (word_rx ''0'') (Then (Class ''123456789'') (Many (Class (dec @ ''_''))))],
     seq_rx [sign_rx, word_rx ''0x'', some_rx (Class (dec @ ''abcdefABCDEF_''))],
     seq_rx [sign_rx, Class ''123456789'', Many (Class (dec @ ''_'')), sixty_rx]]"

definition merge_rx :: rx where "merge_rx = word_rx ''<<''"
definition null_rx :: rx where "null_rx = any_rx (map word_rx [''~'', ''null'', ''Null'', ''NULL'', ''''])"
definition value_rx :: rx where "value_rx = word_rx ''=''"
definition yaml_rx :: rx where "yaml_rx = any_rx (map word_rx [''!'', ''&'', ''*''])"

definition timestamp_rx :: rx where
  "timestamp_rx = (let d = Class dec; blanks = Many (Class (CHR '' '' # [CHR 0x09])); dd = seq_rx [d, opt_rx d] in Or
     (seq_rx [d, d, d, d, Class ''-'', d, d, Class ''-'', d, d])
     (seq_rx [d, d, d, d, Class ''-'', dd, Class ''-'', dd,
        Or (Class ''Tt'') (some_rx (Class (CHR '' '' # [CHR 0x09]))), dd,
        Class '':'', d, d, Class '':'', d, d, opt_rx (Then (Class ''.'') (Many d)),
        opt_rx (Then blanks (Or (Class ''Z'') (seq_rx [Class ''-+'', dd, opt_rx (seq_rx [Class '':'', d, d])])))]))"

text \<open>The calls of \<open>add_implicit_resolver\<close>, in their order; the empty text has a list of its own (\<open>None\<close>).\<close>

definition implicit_resolvers :: "(string \<times> rx \<times> char option list) list" where
  "implicit_resolvers = [
     (yaml_tag ''bool'', bool_rx, map Some ''yYnNtTfFoO''),
     (yaml_tag ''float'', float_rx, map Some ''-+0123456789.''),
     (yaml_tag ''int'', int_rx, map Some ''-+0123456789''),
     (yaml_tag ''merge'', merge_rx, map Some ''<''),
     (yaml_tag ''null'', null_rx, [Some CHR ''~'', Some CHR ''n'', Some CHR ''N'', None]),
     (yaml_tag ''timestamp'', timestamp_rx, map Some ''0123456789''),
     (yaml_tag ''value'', value_rx, map Some ''=''),
     (yaml_tag ''yaml'', yaml_rx, map Some ''!&*'')]"

definition first_char :: "string \<Rightarrow> char option" where
  "first_char s = (case s of [] \<Rightarrow> None | c # _ \<Rightarrow> Some c)"

definition resolvers_for :: "string \<Rightarrow> (string \<times> rx) list" where
  "resolvers_for value = map (\<lambda>(tag, r, _). (tag, r)) (filter (\<lambda>(tag, r, first). first_char value \<in> set first) implicit_resolvers)"

text \<open>\<open>resolve(ScalarNode, value, implicit)\<close>: \<open>plain\<close> is the first component of \<open>implicit\<close>.\<close>

definition resolve_scalar :: "string \<Rightarrow> bool \<Rightarrow> string" where
  "resolve_scalar value plain = (if \<not> plain then DEFAULT_SCALAR_TAG
     else case List.find (\<lambda>(tag, r). py_match r value) (resolvers_for value) of
       Some (tag, _) \<Rightarrow> tag | None \<Rightarrow> DEFAULT_SCALAR_TAG)"

subsection \<open>Booleans and integers\<close>

definition bool_values :: "(string \<times> bool) list" where
  "bool_values = [(''yes'', True), (''no'', False), (''true'', True), (''false'', False), (''on'', True), (''off'', False)]"

definition construct_yaml_bool :: "string \<Rightarrow> pyval res" where
  "construct_yaml_bool value = (case map_of bool_values (py_lower value) of
     Some b \<Rightarrow> Inr (VBool b) | None \<Rightarrow> Inl KeyError)"

text \<open>\<open>int(text, base)\<close> of a text without underscores: blanks around it, a sign, and the prefix of the base.\<close>

definition digit_val :: "char \<Rightarrow> int option" where
  "digit_val c = (if is_dec c then Some (dec_val c)
     else let l = lower_char c in if 97 \<le> code l \<and> code l \<le> 122 then Some (int (code l) - 87) else None)"

fun base_digits :: "int \<Rightarrow> int \<Rightarrow> string \<Rightarrow> int option" where
  "base_digits b v [] = Some v"
| "base_digits b v (c # cs) = (case digit_val c of
     Some d \<Rightarrow> if d < b then base_digits b (b * v + d) cs else None | None \<Rightarrow> None)"

definition parse_base :: "int \<Rightarrow> string \<Rightarrow> string \<Rightarrow> int option" where
  "parse_base b prefix s = (let (neg, t) = split_sign (py_strip s);
       u = (if startswith (py_lower t) prefix then drop (length prefix) t else t) in
     if u = [] then None else map_option (\<lambda>n. if neg then - n else n) (base_digits b 0 u))"

definition int_res :: "int option \<Rightarrow> int res" where
  "int_res r = (case r of Some i \<Rightarrow> Inr i | None \<Rightarrow> Inl ValueError)"

text \<open>The sign and what follows it; the empty text has no first character.\<close>

definition strip_sign :: "string \<Rightarrow> (bool \<times> string) res" where
  "strip_sign value = (case value of [] \<Rightarrow> Inl IndexError
     | c # cs \<Rightarrow> Inr (c = CHR ''-'', if c = CHR ''+'' \<or> c = CHR ''-'' then cs else value))"

text \<open>The numbers of a sexagesimal notation, last first, in base sixty.\<close>

fun base_sixty :: "int \<Rightarrow> int list \<Rightarrow> int" where
  "base_sixty base [] = 0"
| "base_sixty base (d # ds) = d * base + base_sixty (base * 60) ds"

definition construct_yaml_int :: "string \<Rightarrow> pyval res" where
  "construct_yaml_int text = rbind (strip_sign (filter (\<lambda>c. c \<noteq> CHR ''_'') text)) (\<lambda>(neg, value).
     rbind (if value = ''0'' then Inr 0
       else if startswith value ''0b'' then int_res (parse_base 2 ''0b'' (drop 2 value))
       else if startswith value ''0x'' then int_res (parse_base 16 ''0x'' (drop 2 value))
       else if value = [] then Inl IndexError
       else if hd value = CHR ''0'' then int_res (parse_base 8 ''0o'' value)
       else if CHR '':'' \<in> set value then
         rbind (rmapM (\<lambda>p. int_res (parse_int p)) (split_on CHR '':'' value)) (\<lambda>ds. Inr (base_sixty 1 (rev ds)))
       else int_res (parse_int value)) (\<lambda>n. Inr (VInt (if neg then - n else n))))"

subsection \<open>Floats\<close>

definition float_res :: "pyfloat option \<Rightarrow> pyfloat res" where
  "float_res r = (case r of Some f \<Rightarrow> Inr f | None \<Rightarrow> Inl ValueError)"

fun float_sixty :: "int \<Rightarrow> pyfloat \<Rightarrow> pyfloat list \<Rightarrow> pyfloat res" where
  "float_sixty base value [] = Inr value"
| "float_sixty base value (d # ds) = rbind (float_of_int base) (\<lambda>b.
     float_sixty (base * 60) (f_add value (f_mul d b)) ds)"

definition construct_yaml_float :: "string \<Rightarrow> pyval res" where
  "construct_yaml_float text = rbind (strip_sign (py_lower (filter (\<lambda>c. c \<noteq> CHR ''_'') text))) (\<lambda>(neg, value).
     if value = ''.nan'' then Inr (VFloat NaN)
     else rbind (if value = ''.inf'' then Inr PInf
       else if CHR '':'' \<in> set value then
         rbind (rmapM (\<lambda>p. float_res (parse_float p)) (split_on CHR '':'' value)) (\<lambda>ds. float_sixty 1 (Fin 0) (rev ds))
       else float_res (parse_float value)) (\<lambda>f. Inr (VFloat (if neg then f_neg f else f))))"

subsection \<open>Timestamps\<close>

text \<open>The groups of \<open>timestamp_regexp\<close>; the pattern is deterministic and is matched by hand.\<close>

fun take_dec :: "nat \<Rightarrow> nat \<Rightarrow> string \<Rightarrow> (string \<times> string) option" where
  \<comment> \<open>at least \<open>lo\<close> and at most \<open>lo + more\<close> digits\<close>
  "take_dec lo more [] = (if lo = 0 then Some ([], []) else None)"
| "take_dec lo more (c # s) =
     (if is_dec c \<and> (lo > 0 \<or> more > 0)
      then map_option (\<lambda>(d, t). (c # d, t)) (take_dec (lo - 1) (if lo = 0 then more - 1 else more) s)
      else if lo = 0 then Some ([], c # s) else None)"

fun take_char :: "string \<Rightarrow> string \<Rightarrow> (char \<times> string) option" where
  "take_char cs [] = None"
| "take_char cs (c # s) = (if c \<in> set cs then Some (c, s) else None)"

definition skip_blanks :: "string \<Rightarrow> string" where
  "skip_blanks s = dropWhile (\<lambda>c. c = CHR '' '' \<or> c = CHR 0x09) s"

record clock_groups =
  g_hour :: string
  g_minute :: string
  g_second :: string
  g_fraction :: string
  g_tz :: "(char \<times> string \<times> string) option" \<comment> \<open>\<open>Z\<close>, or the sign with hours and minutes\<close>

definition tz_group :: "string \<Rightarrow> (char \<times> string \<times> string) option option" where
  "tz_group s = (if s = [] then Some None
     else Option.bind (take_char ''Z+-'' (skip_blanks s)) (\<lambda>(sign, s).
       if sign = CHR ''Z'' then (if s = [] then Some (Some (sign, [], [])) else None)
       else Option.bind (take_dec 1 1 s) (\<lambda>(h, s).
         if s = [] then Some (Some (sign, h, []))
         else Option.bind (take_char '':'' s) (\<lambda>(_, s). Option.bind (take_dec 2 0 s) (\<lambda>(m, s).
           if s = [] then Some (Some (sign, h, m)) else None)))))"

definition clock_group :: "string \<Rightarrow> clock_groups option" where
  "clock_group s = Option.bind (take_dec 1 1 s) (\<lambda>(h, s). Option.bind (take_char '':'' s) (\<lambda>(_, s).
     Option.bind (take_dec 2 0 s) (\<lambda>(m, s). Option.bind (take_char '':'' s) (\<lambda>(_, s).
     Option.bind (take_dec 2 0 s) (\<lambda>(sec, s). let (fraction, rest) = (case take_char ''.'' s of
         Some (_, t) \<Rightarrow> (takeWhile is_dec t, dropWhile is_dec t) | None \<Rightarrow> ([], s)) in
     map_option (\<lambda>tz. \<lparr>g_hour = h, g_minute = m, g_second = sec, g_fraction = fraction, g_tz = tz\<rparr>) (tz_group rest))))))"

definition timestamp_groups :: "string \<Rightarrow> (string \<times> string \<times> string \<times> clock_groups option) option" where
  "timestamp_groups s = Option.bind (take_dec 4 0 s) (\<lambda>(y, s). Option.bind (take_char ''-'' s) (\<lambda>(_, s).
     Option.bind (take_dec 1 1 s) (\<lambda>(m, s). Option.bind (take_char ''-'' s) (\<lambda>(_, s).
     Option.bind (take_dec 1 1 s) (\<lambda>(d, s).
       if s = [] then Some (y, m, d, None)
       else let t = (case take_char ''Tt'' s of Some (_, t) \<Rightarrow> t | None \<Rightarrow> skip_blanks s) in
         if t = s then None else map_option (\<lambda>c. (y, m, d, Some c)) (clock_group t))))))"

text \<open>Dates and times as \<open>str\<close> and \<open>repr\<close> show them.\<close>

definition leap_year :: "int \<Rightarrow> bool" where
  "leap_year y \<longleftrightarrow> y mod 4 = 0 \<and> (y mod 100 \<noteq> 0 \<or> y mod 400 = 0)"

definition month_days :: "int \<Rightarrow> int \<Rightarrow> int" where
  "month_days y m = (if m = 2 then (if leap_year y then 29 else 28) else if m \<in> {4, 6, 9, 11} then 30 else 31)"

definition date_ok :: "int \<Rightarrow> int \<Rightarrow> int \<Rightarrow> bool" where
  "date_ok y m d \<longleftrightarrow> 1 \<le> y \<and> 1 \<le> m \<and> m \<le> 12 \<and> 1 \<le> d \<and> d \<le> month_days y m"

definition date_text :: "int \<Rightarrow> int \<Rightarrow> int \<Rightarrow> string" where
  "date_text y m d = zfill 4 (str_int y) @ ''-'' @ zfill 2 (str_int m) @ ''-'' @ zfill 2 (str_int d)"

definition call_text :: "string \<Rightarrow> string list \<Rightarrow> string" where
  "call_text f args = f @ ''('' @ join_with '', '' args @ '')''"

definition offset_text :: "int \<Rightarrow> string" where
  "offset_text minutes = (let a = \<bar>minutes\<bar> in
     (if minutes < 0 then ''-'' else ''+'') @ zfill 2 (str_int (a div 60)) @ '':'' @ zfill 2 (str_int (a mod 60)))"

definition offset_repr :: "int \<Rightarrow> string" where
  "offset_repr minutes = (if minutes = 0 then ''datetime.timezone.utc'' else call_text ''datetime.timezone''
     [call_text ''datetime.timedelta''
       (if minutes < 0 then [''days=-1'', ''seconds='' @ str_int (86400 + 60 * minutes)] else [''seconds='' @ str_int (60 * minutes)])])"

definition datetime_value :: "int \<Rightarrow> int \<Rightarrow> int \<Rightarrow> int \<Rightarrow> int \<Rightarrow> int \<Rightarrow> int \<Rightarrow> int option \<Rightarrow> pyval" where
  "datetime_value y mo d h mi s us tz = VOpaque
     (date_text y mo d @ '' '' @ zfill 2 (str_int h) @ '':'' @ zfill 2 (str_int mi) @ '':'' @ zfill 2 (str_int s)
        @ (if us = 0 then [] else ''.'' @ zfill 6 (str_int us)) @ (case tz of None \<Rightarrow> [] | Some m \<Rightarrow> offset_text m))
     (call_text ''datetime.datetime'' (map str_int ([y, mo, d, h, mi] @ (if s = 0 \<and> us = 0 then [] else [s])
        @ (if us = 0 then [] else [us])) @ (case tz of None \<Rightarrow> [] | Some m \<Rightarrow> [''tzinfo='' @ offset_repr m])))"

definition digits_int :: "string \<Rightarrow> int" where
  "digits_int s = (case parse_int s of Some i \<Rightarrow> i | None \<Rightarrow> 0)"

definition fraction_micros :: "string \<Rightarrow> int" where
  "fraction_micros f = (if f = [] then 0 else digits_int (take 6 f @ replicate (6 - length f) CHR ''0''))"

definition tz_minutes :: "char \<times> string \<times> string \<Rightarrow> int res" where
  "tz_minutes tz = (case tz of (sign, h, m) \<Rightarrow>
     if sign = CHR ''Z'' then Inr 0
     else let delta = 60 * digits_int h + digits_int m in
       if 1440 \<le> delta then Inl ValueError else Inr (if sign = CHR ''-'' then - delta else delta))"

definition construct_yaml_timestamp :: "string \<Rightarrow> pyval res" where
  "construct_yaml_timestamp value = (case timestamp_groups value of
     None \<Rightarrow> Inl AttributeError
   | Some (ys, ms, ds, clock) \<Rightarrow> (let y = digits_int ys; m = digits_int ms; d = digits_int ds in
       case clock of
         None \<Rightarrow> if date_ok y m d
           then Inr (VOpaque (date_text y m d) (call_text ''datetime.date'' (map str_int [y, m, d])))
           else Inl ValueError
       | Some g \<Rightarrow>
           rbind (case g_tz g of None \<Rightarrow> Inr None | Some tz \<Rightarrow> rbind (tz_minutes tz) (\<lambda>t. Inr (Some t))) (\<lambda>tz.
           let h = digits_int (g_hour g); mi = digits_int (g_minute g); sec = digits_int (g_second g) in
           if date_ok y m d \<and> h \<le> 23 \<and> mi \<le> 59 \<and> sec \<le> 59
           then Inr (datetime_value y m d h mi sec (fraction_micros (g_fraction g)) tz)
           else Inl ValueError)))"

subsection \<open>A scalar by its tag\<close>

text \<open>
  The constructors of \<open>SafeConstructor\<close> for scalars; the tags of collections and of binary data are given to
  scalars by explicit tags only, and are not modelled here (\<open>None\<close>). Any other tag is an error.
\<close>

definition constructor_error :: exn where
  "constructor_error = YAMLError (Issue ''ConstructorError'' [])"

definition construct_scalar_tag :: "string \<Rightarrow> string \<Rightarrow> pyval res option" where
  "construct_scalar_tag tag value =
     (if tag = yaml_tag ''null'' then Some (Inr VNone)
      else if tag = yaml_tag ''bool'' then Some (construct_yaml_bool value)
      else if tag = yaml_tag ''int'' then Some (construct_yaml_int value)
      else if tag = yaml_tag ''float'' then Some (construct_yaml_float value)
      else if tag = yaml_tag ''timestamp'' then Some (construct_yaml_timestamp value)
      else if tag = yaml_tag ''str'' then Some (Inr (VStr value))
      else if tag \<in> {yaml_tag ''binary'', yaml_tag ''omap'', yaml_tag ''pairs'', yaml_tag ''set'', yaml_tag ''seq'', yaml_tag ''map''}
        then None
      else Some (Inl constructor_error))"

text \<open>A plain scalar without a tag, as it stands in a configuration file.\<close>

definition plain_scalar :: "string \<Rightarrow> pyval res" where
  "plain_scalar value = (case construct_scalar_tag (resolve_scalar value True) value of
     Some r \<Rightarrow> r | None \<Rightarrow> Inl constructor_error)"

subsection \<open>Languages of the patterns\<close>

lemma lang_seq_rx [simp]:
  "lang (seq_rx []) = {[]}" "lang (seq_rx (r # rs)) = {x @ y | x y. x \<in> lang r \<and> y \<in> lang (seq_rx rs)}"
  by (simp_all add: seq_rx_def)

lemma lang_some_class [simp]: "lang (some_rx (Class cs)) = {s. s \<noteq> [] \<and> set s \<subseteq> set cs}"
proof (intro equalityI subsetI)
  fix s assume "s \<in> lang (some_rx (Class cs))"
  then show "s \<in> {s. s \<noteq> [] \<and> set s \<subseteq> set cs}" by (auto simp: lang_some_rx simp del: lang.simps(6))
next
  fix s assume "s \<in> {s. s \<noteq> [] \<and> set s \<subseteq> set cs}"
  then obtain c t where "s = [c] @ t" "[c] \<in> lang (Class cs)" "t \<in> lang (Many (Class cs))"
    by (cases s) (auto simp del: lang.simps(6))
  then show "s \<in> lang (some_rx (Class cs))" unfolding lang_some_rx by blast
qed

declare lang.simps(6) [simp del]

lemma set_dec: "set dec = {c. is_dec c}"
proof -
  have "dec = map char_of [48..<58 :: nat]" by code_simp
  then have "set dec = char_of ` {48..<58 :: nat}" by (metis set_map set_upt)
  moreover have "c \<in> char_of ` {48..<58 :: nat}" if "is_dec c" for c
    using that by (intro image_eqI[of _ _ "code c"]) (auto simp: is_dec_def)
  ultimately show ?thesis by (auto simp: is_dec_def)
qed

lemma needs_dot: "needs CHR ''.'' float_rx"
  by code_simp

lemma needs_dash: "needs CHR ''-'' timestamp_rx"
  by code_simp

lemmas float_has_dot = needs_sound[OF needs_dot]
lemmas timestamp_has_dash = needs_sound[OF needs_dash]

lemma py_match_lang: "s = [] \<or> last s \<noteq> CHR 0x0A \<Longrightarrow> py_match r s \<longleftrightarrow> s \<in> lang r"
  by (auto simp: py_match_def full_match_iff)

lemma resolvers_for_dec:
  "is_dec c \<Longrightarrow> resolvers_for (c # s) = [(yaml_tag ''float'', float_rx), (yaml_tag ''int'', int_rx), (yaml_tag ''timestamp'', timestamp_rx)]"
proof -
  assume "is_dec c"
  then have "c \<in> set dec" by (simp add: set_dec)
  moreover have "list_all (\<lambda>c. map (\<lambda>(tag, r, _). (tag, r)) (filter (\<lambda>(tag, r, first). Some c \<in> set first) implicit_resolvers)
      = [(yaml_tag ''float'', float_rx), (yaml_tag ''int'', int_rx), (yaml_tag ''timestamp'', timestamp_rx)]) dec"
    by code_simp
  ultimately show ?thesis by (simp add: list_all_iff resolvers_for_def first_char_def)
qed

lemma resolvers_for_minus:
  "resolvers_for (CHR ''-'' # s) = [(yaml_tag ''float'', float_rx), (yaml_tag ''int'', int_rx)]"
  by (simp add: resolvers_for_def implicit_resolvers_def first_char_def)

subsection \<open>Texts of digits\<close>

abbreviation octal :: string where
  "octal \<equiv> ''01234567''"

lemma octal_dec: "c \<in> set octal \<Longrightarrow> is_dec c"
  by (auto simp: is_dec_def)

lemma nonzero_dec: "c \<in> set ''123456789'' \<longleftrightarrow> is_dec c \<and> c \<noteq> CHR ''0''"
proof -
  have "is_dec c \<longleftrightarrow> c \<in> set dec" by (simp add: set_dec)
  then show ?thesis by (auto simp: dec_def)
qed

lemma seq_rx_Cons: "lang (seq_rx (r # rs)) = lang (Then r (seq_rx rs))"
  by simp

lemma sign_step:
  "c \<noteq> CHR ''-'' \<Longrightarrow> c \<noteq> CHR ''+'' \<Longrightarrow> c # s \<in> lang (seq_rx (sign_rx # rs)) \<longleftrightarrow> c # s \<in> lang (seq_rx rs)"
  by (auto simp: sign_rx_def Cons_eq_append_conv)

lemma class_step: "c # s \<in> lang (seq_rx (Class cs # rs)) \<longleftrightarrow> c \<in> set cs \<and> s \<in> lang (seq_rx rs)"
  unfolding seq_rx_Cons by (rule lang_Class_Then)

lemma char_step: "c # s \<in> lang (seq_rx (word_rx [d] # rs)) \<longleftrightarrow> c = d \<and> s \<in> lang (seq_rx rs)"
  by auto

lemma last_step: "lang (seq_rx [r]) = lang r"
  by simp

lemmas seq_steps = sign_step class_step char_step last_step

text \<open>Which texts of digits are integers.\<close>

lemma int_rx_dec:
  assumes "list_all is_dec (c # s)"
  shows "c # s \<in> lang int_rx \<longleftrightarrow> c \<noteq> CHR ''0'' \<or> s = [] \<or> set s \<subseteq> set octal"
proof -
  have digits: "is_dec d" if "d \<in> set (c # s)" for d using assms that by (auto simp: list_all_iff)
  have "\<not> is_dec CHR ''b''" "\<not> is_dec CHR ''x''" "\<not> is_dec CHR '':''" "\<not> is_dec CHR ''-''" "\<not> is_dec CHR ''+''" "\<not> is_dec CHR ''_''"
    by (simp_all add: is_dec_def)
  then have no: "CHR ''b'' \<notin> set (c # s)" "CHR ''x'' \<notin> set (c # s)" "CHR '':'' \<notin> set (c # s)"
      "CHR ''-'' \<notin> set (c # s)" "CHR ''+'' \<notin> set (c # s)" "CHR ''_'' \<notin> set (c # s)"
    using digits by blast+
  have "needs CHR ''b'' (seq_rx [sign_rx, word_rx ''0b'', some_rx (Class ''01_'')])"
    and "needs CHR ''x'' (seq_rx [sign_rx, word_rx ''0x'', some_rx (Class (dec @ ''abcdefABCDEF_''))])"
    and "needs CHR '':'' (seq_rx [sign_rx, Class ''123456789'', Many (Class (dec @ ''_'')), sixty_rx])"
    by code_simp+
  with no(1-3) have 1: "c # s \<notin> lang (seq_rx [sign_rx, word_rx ''0b'', some_rx (Class ''01_'')])"
    and 4: "c # s \<notin> lang (seq_rx [sign_rx, word_rx ''0x'', some_rx (Class (dec @ ''abcdefABCDEF_''))])"
    and 5: "c # s \<notin> lang (seq_rx [sign_rx, Class ''123456789'', Many (Class (dec @ ''_'')), sixty_rx])"
    using needs_sound by blast+
  have 2: "c # s \<in> lang (seq_rx [sign_rx, word_rx ''0'', some_rx (Class ''01234567_'')])
      \<longleftrightarrow> c = CHR ''0'' \<and> s \<noteq> [] \<and> set s \<subseteq> set octal"
    using no(4-6) by (auto simp: seq_steps simp del: lang_seq_rx)
  have 3: "c # s \<in> lang (seq_rx [sign_rx, Or (word_rx ''0'') (Then (Class ''123456789'') (Many (Class (dec @ ''_''))))])
      \<longleftrightarrow> c = CHR ''0'' \<and> s = [] \<or> c \<noteq> CHR ''0''"
  proof -
    have "c # s \<in> lang (Then (Class ''123456789'') (Many (Class (dec @ ''_'')))) \<longleftrightarrow> c \<in> set ''123456789''"
    proof -
      have "set s \<subseteq> Collect is_dec" using digits by auto
      then show ?thesis unfolding lang_Class_Then by (auto simp: set_dec)
    qed
    moreover have "c # s \<in> lang (word_rx ''0'') \<longleftrightarrow> c = CHR ''0'' \<and> s = []" by auto
    moreover have "c \<in> set ''123456789'' \<longleftrightarrow> c \<noteq> CHR ''0''" using digits nonzero_dec[of c] by simp
    moreover have "c \<noteq> CHR ''-''" "c \<noteq> CHR ''+''" using no(4,5) by auto
    ultimately show ?thesis unfolding sign_step[OF \<open>c \<noteq> CHR ''-''\<close> \<open>c \<noteq> CHR ''+''\<close>] last_step lang.simps(4) Un_iff by blast
  qed
  show ?thesis
    using 1 2 3 4 5 unfolding int_rx_def lang_any_rx list.set UN_insert UN_empty Un_iff empty_iff by blast
qed

lemma dec_not:
  assumes "list_all is_dec s"
  shows "CHR ''_'' \<notin> set s" "CHR '':'' \<notin> set s" "CHR ''.'' \<notin> set s" "CHR ''-'' \<notin> set s" "CHR ''+'' \<notin> set s"
    "CHR 0x0A \<notin> set s" "CHR ''b'' \<notin> set s" "CHR ''x'' \<notin> set s" "CHR ''o'' \<notin> set s"
proof -
  have "is_dec c" if "c \<in> set s" for c using assms that by (auto simp: list_all_iff)
  moreover have "\<not> is_dec CHR ''_''" "\<not> is_dec CHR '':''" "\<not> is_dec CHR ''.''" "\<not> is_dec CHR ''-''" "\<not> is_dec CHR ''+''"
    "\<not> is_dec CHR 0x0A" "\<not> is_dec CHR ''b''" "\<not> is_dec CHR ''x''" "\<not> is_dec CHR ''o''"
    by (simp_all add: is_dec_def)
  ultimately show "CHR ''_'' \<notin> set s" "CHR '':'' \<notin> set s" "CHR ''.'' \<notin> set s" "CHR ''-'' \<notin> set s" "CHR ''+'' \<notin> set s"
    "CHR 0x0A \<notin> set s" "CHR ''b'' \<notin> set s" "CHR ''x'' \<notin> set s" "CHR ''o'' \<notin> set s" by blast+
qed

lemma resolve_dec:
  assumes "list_all is_dec s" and "s \<noteq> []"
  shows "resolve_scalar s True = (if s \<in> lang int_rx then yaml_tag ''int'' else yaml_tag ''str'')"
proof -
  obtain c t where s: "s = c # t" using assms(2) by (cases s) auto
  then have "is_dec c" using assms(1) by simp
  have "py_match r s \<longleftrightarrow> s \<in> lang r" for r
    using dec_not(6)[OF assms(1)] assms(2) by (intro py_match_lang) (metis last_in_set)
  moreover have "s \<notin> lang float_rx" "s \<notin> lang timestamp_rx"
    using float_has_dot timestamp_has_dash dec_not[OF assms(1)] by blast+
  moreover have "resolvers_for s = [(yaml_tag ''float'', float_rx), (yaml_tag ''int'', int_rx), (yaml_tag ''timestamp'', timestamp_rx)]"
    unfolding s by (rule resolvers_for_dec) fact
  ultimately show ?thesis
    by (simp add: resolve_scalar_def DEFAULT_SCALAR_TAG_def)
qed

lemma tag_neq [simp]: "yaml_tag a = yaml_tag b \<longleftrightarrow> a = b"
  by (simp add: yaml_tag_def)

text \<open>A text of digits that is no integer stays a text.\<close>

lemma plain_scalar_text:
  assumes "list_all is_dec (c # s)" and "\<not> (c \<noteq> CHR ''0'' \<or> s = [] \<or> set s \<subseteq> set octal)"
  shows "plain_scalar (c # s) = Inr (VStr (c # s))"
  using resolve_dec[OF assms(1)] int_rx_dec[OF assms(1)] assms(2)
  by (simp add: plain_scalar_def construct_scalar_tag_def)

lemma plain_scalar_int:
  assumes "list_all is_dec (c # s)" and "c \<noteq> CHR ''0'' \<or> s = [] \<or> set s \<subseteq> set octal"
  shows "plain_scalar (c # s) = construct_yaml_int (c # s)"
  using resolve_dec[OF assms(1)] int_rx_dec[OF assms(1)] assms(2)
  by (simp add: plain_scalar_def construct_scalar_tag_def)

text \<open>Decimal notation unless the text starts with a zero, octal notation then.\<close>

lemma strip_dec: "list_all is_dec s \<Longrightarrow> py_strip s = s"
  by (rule strip_no_space) (auto simp: list_all_iff dest: dec_not_space)

lemma lower_dec: "list_all is_dec s \<Longrightarrow> py_lower s = s"
  by (induction s) (auto simp: py_lower_def lower_char_def is_dec_def)

lemma base_digits_dec:
  "list_all (\<lambda>c. is_dec c \<and> dec_val c < b) s \<Longrightarrow> base_digits b v s = Some (foldl (\<lambda>a c. b * a + dec_val c) v s)"
  by (induction s arbitrary: v) (auto simp: digit_val_def)

lemma octal_digits: "set s \<subseteq> set octal \<Longrightarrow> list_all (\<lambda>c. is_dec c \<and> dec_val c < 8) s"
  by (auto simp: list_all_iff is_dec_def dec_val_def dest!: subsetD)

lemma no_prefix: "d \<notin> set s \<Longrightarrow> \<not> startswith s [c, d]"
  unfolding startswith_def by (metis in_set_takeD list.set_intros(1,2))

lemma construct_decimal:
  assumes "list_all is_dec (c # s)" and "c \<noteq> CHR ''0'' \<or> s = []"
  shows "construct_yaml_int (c # s) = Inr (VInt (foldl (\<lambda>a c. 10 * a + dec_val c) 0 (c # s)))"
proof -
  note no = dec_not[OF assms(1)]
  have "filter (\<lambda>c. c \<noteq> CHR ''_'') (c # s) = c # s" using no(1) by (auto simp: filter_id_conv)
  moreover have "strip_sign (c # s) = Inr (False, c # s)" using no(4,5) by (auto simp: strip_sign_def)
  moreover have "\<not> startswith (c # s) ''0b''" "\<not> startswith (c # s) ''0x''" using no(7,8) no_prefix by blast+
  moreover have "c # s = ''0'' \<or> c \<noteq> CHR ''0''" using assms(2) by auto
  ultimately show ?thesis
    using no(2) parse_int_dec[OF assms(1)] by (auto simp: construct_yaml_int_def int_res_def dec_val_def)
qed

lemma construct_octal:
  assumes "s \<noteq> []" and "set s \<subseteq> set octal"
  shows "construct_yaml_int (CHR ''0'' # s) = Inr (VInt (foldl (\<lambda>a c. 8 * a + dec_val c) 0 s))"
proof -
  let ?s = "CHR ''0'' # s"
  have digits: "list_all is_dec ?s" using assms(2) octal_dec by (auto simp: list_all_iff is_dec_def)
  note no = dec_not[OF digits]
  have "filter (\<lambda>c. c \<noteq> CHR ''_'') ?s = ?s" using no(1) by (auto simp: filter_id_conv)
  moreover have "strip_sign ?s = Inr (False, ?s)" by (simp add: strip_sign_def)
  moreover have "\<not> startswith ?s ''0b''" "\<not> startswith ?s ''0x''" "\<not> startswith ?s ''0o''"
    using no(7-9) no_prefix by blast+
  moreover have "base_digits 8 0 ?s = Some (foldl (\<lambda>a c. 8 * a + dec_val c) 0 ?s)"
    using octal_digits[OF assms(2)] by (intro base_digits_dec) (simp add: is_dec_def dec_val_def)
  ultimately show ?thesis
    using assms(1) strip_dec[OF digits] lower_dec[OF digits] split_sign_dec[OF digits]
    by (simp add: construct_yaml_int_def parse_base_def int_res_def dec_val_def Let_def)
qed

subsection \<open>Integers are read back\<close>

lemma str_nat_head: "0 < n \<Longrightarrow> hd (str_nat n) \<noteq> CHR ''0''"
proof (induction n rule: str_nat.induct)
  case (1 n)
  show ?case
  proof (cases "n < 10")
    case True
    then have "dec_val (digit_char n) = n" using "1.prems" by simp
    then have "digit_char n \<noteq> CHR ''0''" using "1.prems" by (auto simp: dec_val_def)
    then show ?thesis using True by (simp add: str_nat.simps[of n])
  next
    case False
    then have "hd (str_nat (n div 10)) \<noteq> CHR ''0''" using 1 by simp
    then show ?thesis using False by (subst str_nat.simps) (simp add: hd_append)
  qed
qed

lemma plain_nat: "0 \<le> n \<Longrightarrow> plain_scalar (str_nat n) = Inr (VInt n)"
proof -
  assume n: "0 \<le> n"
  obtain c t where s: "str_nat n = c # t" using str_nat_nonempty[of n] by (cases "str_nat n") auto
  have digits: "list_all is_dec (c # t)" using str_nat_dec[OF n] by (simp add: s)
  have "c \<noteq> CHR ''0'' \<or> t = []"
    using str_nat_head[of n] n by (cases "n = 0") (use s in \<open>auto simp: str_nat.simps[of 0]\<close>)
  then show ?thesis
    using plain_scalar_int[OF digits] construct_decimal[OF digits] foldl_str_nat[OF n] by (simp add: s)
qed

lemma plain_negative:
  assumes "list_all is_dec (c # s)" and "c \<noteq> CHR ''0''"
  shows "plain_scalar (CHR ''-'' # c # s) = Inr (VInt (- foldl (\<lambda>a c. 10 * a + dec_val c) 0 (c # s)))"
proof -
  let ?s = "CHR ''-'' # c # s"
  note no = dec_not[OF assms(1)]
  have "c # s \<in> lang (seq_rx [Or (word_rx ''0'') (Then (Class ''123456789'') (Many (Class (dec @ ''_''))))])"
  proof -
    have "c \<in> set ''123456789''" using assms nonzero_dec[of c] by simp
    moreover have "set s \<subseteq> Collect is_dec" using assms(1) by (auto simp: list_all_iff)
    ultimately show ?thesis unfolding last_step lang.simps(4) Un_iff lang_Class_Then by (auto simp: set_dec)
  qed
  moreover have "''-'' \<in> lang sign_rx" by (simp add: sign_rx_def)
  ultimately have "''-'' @ (c # s) \<in> lang (seq_rx [sign_rx, Or (word_rx ''0'') (Then (Class ''123456789'') (Many (Class (dec @ ''_''))))])"
    unfolding lang_seq_rx(2)[of sign_rx] by blast
  then have "?s \<in> lang int_rx" unfolding int_rx_def by simp
  moreover have "?s \<notin> lang float_rx" using float_has_dot[of ?s] no(3) by auto
  moreover have "py_match r ?s \<longleftrightarrow> ?s \<in> lang r" for r
    using no(6) last_in_set[of "c # s"] by (intro py_match_lang) auto
  ultimately have "resolve_scalar ?s True = yaml_tag ''int''"
    by (simp add: resolve_scalar_def resolvers_for_minus)
  then have "plain_scalar ?s = construct_yaml_int ?s"
    by (simp add: plain_scalar_def construct_scalar_tag_def)
  moreover have "filter (\<lambda>c. c \<noteq> CHR ''_'') ?s = ?s" using no(1) by (auto simp: filter_id_conv)
  moreover have "strip_sign ?s = Inr (True, c # s)" by (simp add: strip_sign_def)
  moreover have "\<not> startswith (c # s) ''0b''" "\<not> startswith (c # s) ''0x''" using no(7,8) no_prefix by blast+
  ultimately show ?thesis
    using no(2) assms(2) parse_int_dec[OF assms(1)] by (simp add: construct_yaml_int_def int_res_def)
qed

text \<open>
  Integers survive YAML. The decimal text of any integer, as it stands in a configuration file, is
  resolved as an integer and read as that integer.
\<close>

lemma integers_are_read_back: "plain_scalar (str_int n) = Inr (VInt n)"
proof (cases "n < 0")
  case True
  obtain c t where s: "str_nat (- n) = c # t" using str_nat_nonempty[of "- n"] by (cases "str_nat (- n)") auto
  have "list_all is_dec (c # t)" "c \<noteq> CHR ''0''"
    using str_nat_dec[of "- n"] str_nat_head[of "- n"] True by (simp_all add: s)
  from plain_negative[OF this] show ?thesis
    using True foldl_str_nat[of "- n"] by (simp add: str_int_def s)
qed (simp add: str_int_def plain_nat)

end
