(* ===== verification/YamlTimes.thy ===== *)
theory YamlTimes
  imports YamlScalars MetricsLoader
begin

section \<open>Times in a configuration file\<close>

text \<open>
  A time window is written as four digits, which YAML reads as an integer when they are not quoted. The loader
  restores the leading zeros (\<open>_parse_hhmm_field\<close> of \<open>config_loader.py\<close>), but YAML 1.1 takes digits after a zero for
  octal notation.
\<close>

definition clock_text :: "int \<Rightarrow> int \<Rightarrow> string" where
  "clock_text h m = map digit_char [h div 10, h mod 10, m div 10, m mod 10]"

lemma digit_facts:
  assumes "0 \<le> d" and "d < 10"
  shows "digit_char d \<in> set octal \<longleftrightarrow> d < 8" "digit_char d = CHR ''0'' \<longleftrightarrow> d = 0"
    "digit_char d \<noteq> CHR ''+''" "digit_char d \<noteq> CHR ''-''"
proof -
  have "list_all (\<lambda>d. (digit_char d \<in> set octal \<longleftrightarrow> d < 8) \<and> (digit_char d = CHR ''0'' \<longleftrightarrow> d = 0)
      \<and> digit_char d \<noteq> CHR ''+'' \<and> digit_char d \<noteq> CHR ''-'') [0..9]" by code_simp
  then have "\<forall>d \<in> {0..9}. (digit_char d \<in> set octal \<longleftrightarrow> d < 8) \<and> (digit_char d = CHR ''0'' \<longleftrightarrow> d = 0)
      \<and> digit_char d \<noteq> CHR ''+'' \<and> digit_char d \<noteq> CHR ''-''" unfolding list_all_iff set_upto .
  moreover have "d \<in> {0..9}" using assms by simp
  ultimately show "digit_char d \<in> set octal \<longleftrightarrow> d < 8" "digit_char d = CHR ''0'' \<longleftrightarrow> d = 0"
    "digit_char d \<noteq> CHR ''+''" "digit_char d \<noteq> CHR ''-''" by blast+
qed

text \<open>What YAML makes of the four digits.\<close>

lemma plain_clock_text:
  assumes "0 \<le> h" and "h < 24" and "0 \<le> m" and "m < 60"
  shows "plain_scalar (clock_text h m) = Inr
    (if 10 \<le> h then VInt (100 * h + m)
     else if 8 \<le> h \<or> 8 \<le> m mod 10 then VStr (clock_text h m)
     else VInt (64 * h + 8 * (m div 10) + m mod 10))"
proof -
  define a b c d where "a = h div 10" and "b = h mod 10" and "c = m div 10" and "d = m mod 10"
  note defs = a_def b_def c_def d_def
  have r: "0 \<le> a" "a < 10" "0 \<le> b" "b < 10" "0 \<le> c" "c < 6" "0 \<le> d" "d < 10" using assms unfolding defs by auto
  let ?t = "[digit_char b, digit_char c, digit_char d]"
  have t: "clock_text h m = digit_char a # ?t" by (simp add: clock_text_def defs)
  have digits: "list_all is_dec (digit_char a # ?t)" using r by simp
  show ?thesis
  proof (cases "10 \<le> h")
    case True
    then have "1 \<le> a" unfolding defs by simp
    then have "digit_char a \<noteq> CHR ''0''"
      using digit_facts(2)[of a] r by simp
    then have "plain_scalar (clock_text h m) = Inr (VInt (1000 * a + 100 * b + 10 * c + d))"
      using plain_scalar_int[OF digits] construct_decimal[OF digits] r by (simp add: t)
    moreover have "1000 * a + 100 * b + 10 * c + d = 100 * h + m" unfolding defs by presburger
    ultimately show ?thesis using True by simp
  next
    case False
    then have "a = 0" using assms unfolding defs by simp
    then have zero: "digit_char a = CHR ''0''" by (simp add: digit_facts(2))
    have "b = h" using False assms unfolding defs by simp
    have oct: "set ?t \<subseteq> set octal \<longleftrightarrow> b < 8 \<and> c < 8 \<and> d < 8"
      using r digit_facts(1)[of b] digit_facts(1)[of c] digit_facts(1)[of d] by (simp del: insert_iff)
    show ?thesis
    proof (cases "8 \<le> h \<or> 8 \<le> m mod 10")
      case True
      then have "\<not> (b < 8 \<and> c < 8 \<and> d < 8)" unfolding \<open>b = h\<close> d_def by linarith
      then have "\<not> set ?t \<subseteq> set octal" using oct by blast
      then show ?thesis using plain_scalar_text[OF digits] zero True False by (simp add: t)
    next
      case small: False
      then have "b < 8 \<and> c < 8 \<and> d < 8" using r unfolding \<open>b = h\<close> d_def by linarith
      then have o: "set ?t \<subseteq> set octal" using oct by blast
      have "plain_scalar (clock_text h m) = construct_yaml_int (digit_char a # ?t)"
        unfolding t by (rule plain_scalar_int[OF digits]) (use o in blast)
      also have "\<dots> = Inr (VInt (64 * b + 8 * c + d))"
        unfolding zero using construct_octal[OF _ o] r by simp
      finally show ?thesis using small False \<open>b = h\<close> by (simp add: c_def d_def)
    qed
  qed
qed

text \<open>The loader keeps a text exactly when it is the value with its zeros restored.\<close>

lemma zfill4:
  assumes "0 \<le> i" and "i < 10000"
  shows "zfill 4 (str_int i) = map digit_char [i div 1000, i div 100 mod 10, i div 10 mod 10, i mod 10]"
proof -
  have z: "digit_char 0 = CHR ''0''" by (simp add: digit_facts(2))
  have sgn: "digit_char d \<noteq> CHR ''+'' \<and> digit_char d \<noteq> CHR ''-''" if "0 \<le> d" "d < 10" for d
    using digit_facts(3,4)[OF that] by blast
  have small: "str_nat n = [digit_char n]" if "n < 10" for n using that by (simp add: str_nat.simps[of n])
  have large: "str_nat n = str_nat (n div 10) @ [digit_char (n mod 10)]" if "10 \<le> n" for n
    using that by (simp add: str_nat.simps[of n])
  have i: "str_int i = str_nat i" using assms by (simp add: str_int_def)
  have 10: "i div 10 div 10 = i div 100" "i div 100 div 10 = i div 1000" by simp_all
  consider "i < 10" | "10 \<le> i" "i < 100" | "100 \<le> i" "i < 1000" | "1000 \<le> i" by linarith
  then show ?thesis
  proof cases
    case 1
    then show ?thesis using assms sgn[of i] by (simp add: i small zfill_def z numeral_eq_Suc)
  next
    case 2
    then have "str_int i = [digit_char (i div 10), digit_char (i mod 10)]"
      by (simp add: i large[of i] small[of "i div 10"])
    moreover have "i div 10 mod 10 = i div 10" "i div 100 = 0" "i div 1000 = 0" using 2 by auto
    ultimately show ?thesis using 2 sgn[of "i div 10"] by (simp add: zfill_def z numeral_eq_Suc)
  next
    case 3
    then have d: "10 \<le> i div 10" "i div 100 < 10" "0 \<le> i div 100" "i div 1000 = 0" "i div 100 mod 10 = i div 100" by auto
    then have "str_int i = [digit_char (i div 100), digit_char (i div 10 mod 10), digit_char (i mod 10)]"
      using 3 unfolding i by (simp only: large[of i] large[of "i div 10"] 10 small append.simps)
    then show ?thesis using d sgn[of "i div 100"] by (simp add: zfill_def z numeral_eq_Suc)
  next
    case 4
    then have d: "10 \<le> i div 10" "10 \<le> i div 100" "i div 1000 < 10" "0 \<le> i div 1000" using assms by auto
    then have "str_int i = [digit_char (i div 1000), digit_char (i div 100 mod 10), digit_char (i div 10 mod 10), digit_char (i mod 10)]"
      using 4 unfolding i by (simp only: large[of i] large[of "i div 10"] large[of "i div 100"] 10 small append.simps)
    then show ?thesis using d sgn[of "i div 1000"] by (simp add: zfill_def)
  qed
qed

lemma clock_text_number:
  "0 \<le> h \<Longrightarrow> h < 24 \<Longrightarrow> 0 \<le> m \<Longrightarrow> m < 60 \<Longrightarrow> zfill 4 (str_int (100 * h + m)) = clock_text h m"
proof -
  assume r: "0 \<le> h" "h < 24" "0 \<le> m" "m < 60"
  have c: "0 \<le> m div 10" "m div 10 < 10" using r by auto
  have "(100 * h + m) div 100 = h + m div 100" using div_mult_self2[of 100 m h] by (simp only: add.commute)
  then have hundred: "(100 * h + m) div 100 = h" using r by simp
  then have "(100 * h + m) div 1000 = h div 10" using zdiv_zmult2_eq[of 10 "100 * h + m" 100] by simp
  moreover have "(100 * h + m) div 10 = 10 * h + m div 10"
    using div_mult_self2[of 10 m "10 * h"] by (simp add: add.commute)
  then have "(100 * h + m) div 10 mod 10 = m div 10"
    using c mod_mult_self2[of "m div 10" 10 h] mod_pos_pos_trivial[OF c] by (simp only: add.commute)
  moreover have "(100 * h + m) mod 10 = m mod 10"
    using mod_mult_self2[of m 10 "10 * h"] by (simp add: add.commute)
  ultimately have "map digit_char [(100 * h + m) div 1000, (100 * h + m) div 100 mod 10, (100 * h + m) div 10 mod 10, (100 * h + m) mod 10]
      = clock_text h m" unfolding clock_text_def hundred by (simp only:)
  moreover have "0 \<le> 100 * h + m" "100 * h + m < 10000" using r by auto
  ultimately show ?thesis using zfill4 by simp
qed

lemma four_digits: "1000 * (x div 1000) + 100 * (x div 100 mod 10) + 10 * (x div 10 mod 10) + x mod 10 = (x :: int)"
proof -
  have "1000 * t + 100 * c + 10 * b + a = x" if "x = 10 * q + a" "q = 10 * r + b" "r = 10 * t + c" for q r t a b c :: int
    using that by simp
  from this[of "x div 10" "x mod 10" "x div 10 div 10" "x div 10 mod 10" "x div 10 div 10 div 10" "x div 10 div 10 mod 10"]
  show ?thesis using zdiv_zmult2_eq[of 10 x 10] zdiv_zmult2_eq[of 10 x 100] zdiv_zmult2_eq[of 10 "x div 10" 10] by simp
qed

lemma clock_text_valid:
  assumes "0 \<le> h" and "h < 24" and "0 \<le> m" and "m < 60"
  shows "py_isdigit (clock_text h m)" "length (clock_text h m) = 4"
    "py_int (VStr (take 2 (clock_text h m))) = Inr h" "py_int (VStr (drop 2 (clock_text h m))) = Inr m"
proof -
  have d: "0 \<le> h div 10" "h div 10 < 10" "0 \<le> m div 10" "m div 10 < 10" using assms by auto
  have dec: "list_all is_dec (clock_text h m)" using d by (simp add: clock_text_def)
  then show "py_isdigit (clock_text h m)"
    by (auto simp: py_isdigit_def py_isdigit_char_def list_all_iff clock_text_def)
  show "length (clock_text h m) = 4" by (simp add: clock_text_def)
  have "py_int (VStr [digit_char a, digit_char b]) = Inr (10 * a + b)" if "0 \<le> a" "a < 10" "0 \<le> b" "b < 10" for a b
    using parse_int_dec[of "[digit_char a, digit_char b]"] that by simp
  from this[of "h div 10" "h mod 10"] this[of "m div 10" "m mod 10"]
  show "py_int (VStr (take 2 (clock_text h m))) = Inr h" "py_int (VStr (drop 2 (clock_text h m))) = Inr m"
    using d by (simp_all add: clock_text_def numeral_eq_Suc)
qed

lemma zfill_clock_text: "zfill 4 (clock_text h m) = clock_text h m"
  by (simp add: zfill_def clock_text_def split: list.splits)

lemma parse_hhmm_value_iff:
  assumes "0 \<le> h" and "h < 24" and "0 \<le> m" and "m < 60"
  shows "fst (parse_hhmm_value strict mid field v s) = Inr (Some (clock_text h m)) \<longleftrightarrow> zfill 4 (py_str v) = clock_text h m"
proof
  assume "zfill 4 (py_str v) = clock_text h m"
  then show "fst (parse_hhmm_value strict mid field v s) = Inr (Some (clock_text h m))"
    using clock_text_valid[OF assms] assms by (simp add: parse_hhmm_value_def Let_def del: py_int.simps)
next
  assume "fst (parse_hhmm_value strict mid field v s) = Inr (Some (clock_text h m))"
  then show "zfill 4 (py_str v) = clock_text h m"
    by (auto simp: parse_hhmm_value_def Let_def bindM_def simp del: py_int.simps split: if_splits sum.splits prod.splits)
qed

lemma zfill4_inj:
  assumes "0 \<le> j" and "j < 10000" and "0 \<le> k" and "k < 10000"
  shows "zfill 4 (str_int j) = zfill 4 (str_int k) \<longleftrightarrow> j = k"
proof
  assume eq: "zfill 4 (str_int j) = zfill 4 (str_int k)"
  have "foldl (\<lambda>a c. 10 * a + dec_val c) 0 (zfill 4 (str_int x)) = x" if "0 \<le> x" "x < 10000" for x
  proof -
    have "0 \<le> x div 1000" "x div 1000 < 10" using that by auto
    then have "foldl (\<lambda>a c. 10 * a + dec_val c) 0 (zfill 4 (str_int x))
        = 1000 * (x div 1000) + 100 * (x div 100 mod 10) + 10 * (x div 10 mod 10) + x mod 10"
      by (simp add: zfill4 that)
    then show ?thesis by (simp add: four_digits)
  qed
  then show "j = k" using eq assms by metis
qed simp

lemma parse_hhmm_field_value:
  "v \<noteq> VNone \<Longrightarrow> parse_hhmm_field [(VStr field, v)] mid field strict s = parse_hhmm_value strict mid field v s"
  by (simp add: parse_hhmm_field_def pget_def Let_def)

text \<open>An integer is read as the time with that decimal notation.\<close>

lemma parse_hhmm_integer:
  assumes "0 \<le> h" and "h < 24" and "0 \<le> m" and "m < 60" and "0 \<le> i" and "i < 10000"
  shows "fst (parse_hhmm_field [(VStr field, VInt i)] mid field strict s) = Inr (Some (clock_text h m)) \<longleftrightarrow> i = 100 * h + m"
proof -
  have "fst (parse_hhmm_field [(VStr field, VInt i)] mid field strict s) = Inr (Some (clock_text h m))
      \<longleftrightarrow> zfill 4 (str_int i) = zfill 4 (str_int (100 * h + m))"
    using parse_hhmm_value_iff[OF assms(1-4)] clock_text_number[OF assms(1-4)] by (simp add: parse_hhmm_field_value)
  also have "\<dots> \<longleftrightarrow> i = 100 * h + m" using assms by (intro zfill4_inj) auto
  finally show ?thesis .
qed

text \<open>
  C21: times need quotes. A time of the day in quotes is read as that time. Without quotes it is read as that
  time only from 08:00 on, when its last digit is 8 or 9, or before 00:08: all others are octal numbers
  for YAML, and the loader takes their decimal notation for another time, or rejects it.
\<close>

theorem unquoted_times_are_octal:
  assumes "0 \<le> h" and "h < 24" and "0 \<le> m" and "m < 60"
  shows "fst (parse_hhmm_field [(VStr field, VStr (clock_text h m))] mid field strict s) = Inr (Some (clock_text h m))
    \<and> (\<exists>v. plain_scalar (clock_text h m) = Inr v
        \<and> (fst (parse_hhmm_field [(VStr field, v)] mid field strict s) = Inr (Some (clock_text h m))
            \<longleftrightarrow> 8 \<le> h \<or> 8 \<le> m mod 10 \<or> h = 0 \<and> m < 8))"
proof -
  have quoted: "fst (parse_hhmm_field [(VStr field, VStr (clock_text h m))] mid field strict s) = Inr (Some (clock_text h m))"
    using parse_hhmm_value_iff[OF assms] by (simp add: parse_hhmm_field_value zfill_clock_text)
  show ?thesis
  proof (cases "10 \<le> h \<or> \<not> (8 \<le> h \<or> 8 \<le> m mod 10)")
    case False
    then show ?thesis using plain_clock_text[OF assms] quoted by auto
  next
    case True
    define i where "i = (if 10 \<le> h then 100 * h + m else 64 * h + 8 * (m div 10) + m mod 10)"
    have "plain_scalar (clock_text h m) = Inr (VInt i)"
      using plain_clock_text[OF assms] True by (auto simp: i_def)
    moreover have "0 \<le> i" "i < 10000" using assms by (auto simp: i_def)
    moreover have "i = 100 * h + m \<longleftrightarrow> 8 \<le> h \<or> 8 \<le> m mod 10 \<or> h = 0 \<and> m < 8"
    proof (cases "10 \<le> h")
      case False
      have "64 * h + 8 * c + d = 100 * h + (10 * c + d) \<longleftrightarrow> h = 0 \<and> 10 * c + d < 8" if "0 \<le> c" "0 \<le> d" "d < 8" for c d :: int
        using that assms(1) by auto
      from this[of "m div 10" "m mod 10"] show ?thesis using False True assms by (simp add: i_def)
    qed (simp add: i_def)
    ultimately show ?thesis using quoted parse_hhmm_integer[OF assms] by blast
  qed
qed

theorem unquoted_times_are_octal_witness:
  "fst (parse_hhmm_field [(VStr ''time_window_from'', VStr (clock_text 7 0))] (VStr ''cpu'') ''time_window_from'' True [])
     = Inr (Some (clock_text 7 0))
   \<and> (\<exists>v. plain_scalar (clock_text 7 0) = Inr v
        \<and> (fst (parse_hhmm_field [(VStr ''time_window_from'', v)] (VStr ''cpu'') ''time_window_from'' True []) = Inr (Some (clock_text 7 0))
            \<longleftrightarrow> 8 \<le> (7 :: int) \<or> 8 \<le> (0 :: int) mod 10 \<or> (7 :: int) = 0 \<and> (0 :: int) < 8))"
  by (rule unquoted_times_are_octal) simp_all

text \<open>For instance, seven o'clock without quotes is twelve minutes to five.\<close>

lemma seven_without_quotes:
  "rbind (plain_scalar ''0700'') (\<lambda>v. fst (parse_hhmm_field [(VStr ''time_window_from'', v)] (VStr ''cpu'') ''time_window_from'' True []))
     = Inr (Some ''0448'')"
  by code_simp

end
