(* ===== verification/YamlParser.thy ===== *)
theory YamlParser
  imports Triples PyValue
begin

section \<open>The parser of the YAML library (\<open>yaml/parser.py\<close>)\<close>

text \<open>
  The parser turns the tokens of the scanner into events. It is an automaton: \<open>state\<close> is the method that makes
  the next event, \<open>states\<close> the stack of methods to return to, and \<open>marks\<close> the stack of the places where open
  collections began, of which only the height matters here. Positions in the text, styles of scalars and
  collections, and the version in an event are left out. \<open>ps_error\<close> is what the scanner raises after the last token
  it delivers.
\<close>

subsection \<open>Tokens and events\<close>

datatype directive = YamlDirective int int | TagDirective string string | OtherDirective string

datatype token =
    StreamStartToken | StreamEndToken | DirectiveToken directive | DocumentStartToken | DocumentEndToken
  | BlockSequenceStartToken | BlockMappingStartToken | BlockEndToken
  | FlowSequenceStartToken | FlowMappingStartToken | FlowSequenceEndToken | FlowMappingEndToken
  | KeyToken | ValueToken | BlockEntryToken | FlowEntryToken
  | AliasToken string | AnchorToken string | TagToken "string option" string | ScalarToken string bool

datatype event =
    StreamStartEvent | StreamEndEvent | DocumentStartEvent bool | DocumentEndEvent bool
  | AliasEvent string | ScalarEvent "string option" "string option" "bool \<times> bool" string
  | SequenceStartEvent "string option" "string option" bool | SequenceEndEvent
  | MappingStartEvent "string option" "string option" bool | MappingEndEvent

fun is_directive :: "token \<Rightarrow> bool" where
  "is_directive (DirectiveToken d) = True"
| "is_directive t = False"

subsection \<open>The state of the parser\<close>

datatype pstate =
    Stream_start | Implicit_document_start | Document_start | Document_end | Document_content | Block_node
  | Block_sequence_first_entry | Block_sequence_entry | Indentless_sequence_entry
  | Block_mapping_first_key | Block_mapping_key | Block_mapping_value
  | Flow_sequence_first_entry | Flow_sequence_entry
  | Flow_sequence_entry_mapping_key | Flow_sequence_entry_mapping_value | Flow_sequence_entry_mapping_end
  | Flow_mapping_first_key | Flow_mapping_key | Flow_mapping_value | Flow_mapping_empty_value

record parser =
  ps_state :: "pstate option"
  ps_states :: "pstate list"
  ps_marks :: nat
  ps_version :: "(int \<times> int) option"
  ps_handles :: "(string \<times> string) list"
  ps_tokens :: "token list"
  ps_error :: "exn option"

type_synonym 'a parse = "(exn, parser, 'a) st"

definition DEFAULT_TAGS :: "(string \<times> string) list" where
  "DEFAULT_TAGS = [(''!'', ''!''), (''!!'', ''tag:yaml.org,2002:'')]"

definition parser_error :: exn where
  "parser_error = YAMLError (Issue ''ParserError'' [])"

definition new_parser :: "token list \<Rightarrow> exn option \<Rightarrow> parser" where
  "new_parser tokens error = \<lparr>ps_state = Some Stream_start, ps_states = [], ps_marks = 0, ps_version = None,
     ps_handles = [], ps_tokens = tokens, ps_error = error\<rparr>"

text \<open>The scanner: its error comes when more tokens are asked for; past the end of the stream there is none.\<close>

definition check_token :: "(token \<Rightarrow> bool) \<Rightarrow> bool parse" where
  "check_token p = (\<lambda>s. case ps_tokens s of
     t # _ \<Rightarrow> (Inr (p t), s)
   | [] \<Rightarrow> ((case ps_error s of Some e \<Rightarrow> Inl e | None \<Rightarrow> Inr False), s))"

definition peek_token :: "token parse" where
  "peek_token = (\<lambda>s. case ps_tokens s of
     t # _ \<Rightarrow> (Inr t, s)
   | [] \<Rightarrow> (Inl (case ps_error s of Some e \<Rightarrow> e | None \<Rightarrow> AttributeError), s))"

definition get_token :: "token parse" where
  "get_token = (\<lambda>s. case ps_tokens s of
     t # ts \<Rightarrow> (Inr t, s\<lparr>ps_tokens := ts\<rparr>)
   | [] \<Rightarrow> (Inl (case ps_error s of Some e \<Rightarrow> e | None \<Rightarrow> AttributeError), s))"

definition if_token :: "(token \<Rightarrow> bool) \<Rightarrow> 'a parse \<Rightarrow> 'a parse \<Rightarrow> 'a parse" where
  "if_token p m m' = bindM (check_token p) (\<lambda>b. if b then m else m')"

definition goto :: "pstate \<Rightarrow> unit parse" where
  "goto st = modifyM (\<lambda>s. s\<lparr>ps_state := Some st\<rparr>)"

definition push_state :: "pstate \<Rightarrow> unit parse" where
  "push_state st = modifyM (\<lambda>s. s\<lparr>ps_states := st # ps_states s\<rparr>)"

definition pop_state :: "unit parse" where
  "pop_state = (\<lambda>s. case ps_states s of
     [] \<Rightarrow> (Inl IndexError, s) | st # sts \<Rightarrow> (Inr (), s\<lparr>ps_state := Some st, ps_states := sts\<rparr>))"

definition push_mark :: "unit parse" where
  "push_mark = modifyM (\<lambda>s. s\<lparr>ps_marks := Suc (ps_marks s)\<rparr>)"

definition pop_mark :: "unit parse" where
  "pop_mark = (\<lambda>s. if ps_marks s = 0 then (Inl IndexError, s) else (Inr (), s\<lparr>ps_marks := ps_marks s - 1\<rparr>))"

text \<open>\<open>raise ParserError("while parsing ...", self.marks[-1], ..., token.start_mark)\<close>.\<close>

definition collection_error :: "'a parse" where
  "collection_error = bindM peek_token (\<lambda>_. bindM getM (\<lambda>s. raise (if ps_marks s = 0 then IndexError else parser_error)))"

definition process_empty_scalar :: "event parse" where
  "process_empty_scalar = ret (ScalarEvent None None (True, False) [])"

subsection \<open>Documents\<close>

fun directive_loop :: "token list \<Rightarrow> (int \<times> int) option \<Rightarrow> (string \<times> string) list
    \<Rightarrow> ((int \<times> int) option \<times> (string \<times> string) list) res \<times> token list" where
  "directive_loop (DirectiveToken d # ts) version handles = (case d of
     YamlDirective major minor \<Rightarrow>
       if version \<noteq> None \<or> major \<noteq> 1 then (Inl parser_error, ts) else directive_loop ts (Some (major, minor)) handles
   | TagDirective handle prefix \<Rightarrow>
       if handle \<in> fst ` set handles then (Inl parser_error, ts) else directive_loop ts version (handles @ [(handle, prefix)])
   | OtherDirective _ \<Rightarrow> directive_loop ts version handles)"
| "directive_loop ts version handles = (Inr (version, handles), ts)"

definition process_directives :: "unit parse" where
  "process_directives = (\<lambda>s. case directive_loop (ps_tokens s) None [] of
     (Inl e, ts) \<Rightarrow> (Inl e, s\<lparr>ps_tokens := ts\<rparr>)
   | (Inr (version, handles), ts) \<Rightarrow> (Inr (), s\<lparr>ps_tokens := ts, ps_version := version,
       ps_handles := handles @ filter (\<lambda>d. fst d \<notin> fst ` set handles) DEFAULT_TAGS\<rparr>))"

definition skip_document_ends :: "unit parse" where
  "skip_document_ends = modifyM (\<lambda>s. s\<lparr>ps_tokens := dropWhile (\<lambda>t. t = DocumentEndToken) (ps_tokens s)\<rparr>)"

definition assertion :: "bool \<Rightarrow> unit parse" where
  "assertion b = (if b then ret () else raise (OtherError ''AssertionError''))"

definition parse_stream_start :: "event parse" where
  "parse_stream_start = bindM get_token (\<lambda>_. bindM (goto Implicit_document_start) (\<lambda>_. ret StreamStartEvent))"

definition parse_document_start :: "event parse" where
  "parse_document_start = bindM skip_document_ends (\<lambda>_. if_token (\<lambda>t. t = StreamEndToken)
     (bindM get_token (\<lambda>_. bindM getM (\<lambda>s. bindM (assertion (ps_states s = [])) (\<lambda>_.
        bindM (assertion (ps_marks s = 0)) (\<lambda>_. bindM (modifyM (\<lambda>s. s\<lparr>ps_state := None\<rparr>)) (\<lambda>_. ret StreamEndEvent))))))
     (bindM peek_token (\<lambda>_. bindM process_directives (\<lambda>_. if_token (\<lambda>t. t = DocumentStartToken)
        (bindM get_token (\<lambda>_. bindM (push_state Document_end) (\<lambda>_. bindM (goto Document_content) (\<lambda>_.
           ret (DocumentStartEvent True)))))
        (bindM peek_token (\<lambda>_. raise parser_error))))))"

definition parse_implicit_document_start :: "event parse" where
  "parse_implicit_document_start = if_token (\<lambda>t. is_directive t \<or> t = DocumentStartToken \<or> t = StreamEndToken)
     parse_document_start
     (bindM (modifyM (\<lambda>s. s\<lparr>ps_handles := DEFAULT_TAGS\<rparr>)) (\<lambda>_. bindM peek_token (\<lambda>_.
      bindM (push_state Document_end) (\<lambda>_. bindM (goto Block_node) (\<lambda>_. ret (DocumentStartEvent False))))))"

definition parse_document_end :: "event parse" where
  "parse_document_end = bindM peek_token (\<lambda>_. bindM (if_token (\<lambda>t. t = DocumentEndToken)
     (bindM get_token (\<lambda>_. ret True)) (ret False)) (\<lambda>explicit.
     bindM (goto Document_start) (\<lambda>_. ret (DocumentEndEvent explicit))))"

subsection \<open>Nodes\<close>

text \<open>The properties before a node: an anchor and a tag in any order.\<close>

definition get_anchor :: "string option parse" where
  "get_anchor = (\<lambda>s. case ps_tokens s of AnchorToken a # ts \<Rightarrow> (Inr (Some a), s\<lparr>ps_tokens := ts\<rparr>)
     | _ \<Rightarrow> bindM (check_token (\<lambda>_. False)) (\<lambda>_. ret None) s)"

definition get_tag :: "(string option \<times> string) option parse" where
  "get_tag = (\<lambda>s. case ps_tokens s of TagToken h sfx # ts \<Rightarrow> (Inr (Some (h, sfx)), s\<lparr>ps_tokens := ts\<rparr>)
     | _ \<Rightarrow> bindM (check_token (\<lambda>_. False)) (\<lambda>_. ret None) s)"

definition node_properties :: "(string option \<times> (string option \<times> string) option) parse" where
  "node_properties = bindM get_anchor (\<lambda>a. case a of
     Some _ \<Rightarrow> bindM get_tag (\<lambda>t. ret (a, t))
   | None \<Rightarrow> bindM get_tag (\<lambda>t. case t of
       Some _ \<Rightarrow> bindM get_anchor (\<lambda>a. ret (a, t)) | None \<Rightarrow> ret (None, None)))"

definition full_tag :: "(string option \<times> string) option \<Rightarrow> string option parse" where
  "full_tag t = (case t of
     None \<Rightarrow> ret None
   | Some (None, sfx) \<Rightarrow> ret (Some sfx)
   | Some (Some h, sfx) \<Rightarrow> bindM getM (\<lambda>s. case map_of (ps_handles s) h of
       Some prefix \<Rightarrow> ret (Some (prefix @ sfx)) | None \<Rightarrow> raise parser_error))"

definition node_content :: "bool \<Rightarrow> bool \<Rightarrow> string option \<Rightarrow> string option \<Rightarrow> event parse" where
  "node_content block indentless anchor tag = (let implicit = (tag = None \<or> tag = Some ''!'') in
     bindM peek_token (\<lambda>token. case token of
       BlockEntryToken \<Rightarrow>
         if indentless then bindM (goto Indentless_sequence_entry) (\<lambda>_. ret (SequenceStartEvent anchor tag implicit))
         else if anchor \<noteq> None \<or> tag \<noteq> None then bindM pop_state (\<lambda>_. ret (ScalarEvent anchor tag (implicit, False) []))
         else raise parser_error
     | ScalarToken value plain \<Rightarrow> bindM get_token (\<lambda>_. bindM pop_state (\<lambda>_. ret (ScalarEvent anchor tag
         (if plain \<and> tag = None \<or> tag = Some ''!'' then (True, False)
          else if tag = None then (False, True) else (False, False)) value)))
     | FlowSequenceStartToken \<Rightarrow> bindM (goto Flow_sequence_first_entry) (\<lambda>_. ret (SequenceStartEvent anchor tag implicit))
     | FlowMappingStartToken \<Rightarrow> bindM (goto Flow_mapping_first_key) (\<lambda>_. ret (MappingStartEvent anchor tag implicit))
     | _ \<Rightarrow>
         if block \<and> token = BlockSequenceStartToken
         then bindM (goto Block_sequence_first_entry) (\<lambda>_. ret (SequenceStartEvent anchor tag implicit))
         else if block \<and> token = BlockMappingStartToken
         then bindM (goto Block_mapping_first_key) (\<lambda>_. ret (MappingStartEvent anchor tag implicit))
         else if anchor \<noteq> None \<or> tag \<noteq> None
         then bindM pop_state (\<lambda>_. ret (ScalarEvent anchor tag (implicit, False) []))
         else raise parser_error))"

definition parse_yaml_node :: "bool \<Rightarrow> bool \<Rightarrow> event parse" where
  "parse_yaml_node block indentless = (\<lambda>s. case ps_tokens s of
     AliasToken a # ts \<Rightarrow> bindM pop_state (\<lambda>_. ret (AliasEvent a)) (s\<lparr>ps_tokens := ts\<rparr>)
   | _ \<Rightarrow> bindM node_properties (\<lambda>(anchor, t). bindM (full_tag t) (\<lambda>tag. node_content block indentless anchor tag)) s)"

definition parse_block_node :: "event parse" where
  "parse_block_node = parse_yaml_node True False"

definition parse_flow_node :: "event parse" where
  "parse_flow_node = parse_yaml_node False False"

definition parse_block_node_or_indentless_sequence :: "event parse" where
  "parse_block_node_or_indentless_sequence = parse_yaml_node True True"

definition parse_document_content :: "event parse" where
  "parse_document_content =
     if_token (\<lambda>t. is_directive t \<or> t = DocumentStartToken \<or> t = DocumentEndToken \<or> t = StreamEndToken)
       (bindM peek_token (\<lambda>_. bindM pop_state (\<lambda>_. process_empty_scalar))) parse_block_node"

subsection \<open>Block collections\<close>

text \<open>
  The step they share: an empty scalar when the next token is one of those at which a node cannot begin, or a
  node with the given return state.
\<close>

definition node_or_empty :: "token list \<Rightarrow> pstate \<Rightarrow> event parse \<Rightarrow> event parse" where
  "node_or_empty stop next m = if_token (\<lambda>t. t \<in> set stop)
     (bindM (goto next) (\<lambda>_. process_empty_scalar)) (bindM (push_state next) (\<lambda>_. m))"

definition close_collection :: "event \<Rightarrow> event parse" where
  "close_collection e = bindM get_token (\<lambda>_. bindM pop_state (\<lambda>_. bindM pop_mark (\<lambda>_. ret e)))"

definition parse_block_sequence_entry :: "event parse" where
  "parse_block_sequence_entry = if_token (\<lambda>t. t = BlockEntryToken)
     (bindM get_token (\<lambda>_. node_or_empty [BlockEntryToken, BlockEndToken] Block_sequence_entry parse_block_node))
     (if_token (\<lambda>t. t = BlockEndToken) (close_collection SequenceEndEvent) collection_error)"

definition parse_block_sequence_first_entry :: "event parse" where
  "parse_block_sequence_first_entry = bindM get_token (\<lambda>_. bindM push_mark (\<lambda>_. parse_block_sequence_entry))"

definition parse_indentless_sequence_entry :: "event parse" where
  "parse_indentless_sequence_entry = if_token (\<lambda>t. t = BlockEntryToken)
     (bindM get_token (\<lambda>_. node_or_empty [BlockEntryToken, KeyToken, ValueToken, BlockEndToken]
        Indentless_sequence_entry parse_block_node))
     (bindM peek_token (\<lambda>_. bindM pop_state (\<lambda>_. ret SequenceEndEvent)))"

definition parse_block_mapping_key :: "event parse" where
  "parse_block_mapping_key = if_token (\<lambda>t. t = KeyToken)
     (bindM get_token (\<lambda>_. node_or_empty [KeyToken, ValueToken, BlockEndToken] Block_mapping_value
        parse_block_node_or_indentless_sequence))
     (if_token (\<lambda>t. t = BlockEndToken) (close_collection MappingEndEvent) collection_error)"

definition parse_block_mapping_first_key :: "event parse" where
  "parse_block_mapping_first_key = bindM get_token (\<lambda>_. bindM push_mark (\<lambda>_. parse_block_mapping_key))"

definition parse_block_mapping_value :: "event parse" where
  "parse_block_mapping_value = if_token (\<lambda>t. t = ValueToken)
     (bindM get_token (\<lambda>_. node_or_empty [KeyToken, ValueToken, BlockEndToken] Block_mapping_key
        parse_block_node_or_indentless_sequence))
     (bindM (goto Block_mapping_key) (\<lambda>_. bindM peek_token (\<lambda>_. process_empty_scalar)))"

subsection \<open>Flow collections\<close>

text \<open>The comma between two entries.\<close>

definition flow_separator :: "bool \<Rightarrow> unit parse" where
  "flow_separator first = (if first then ret ()
     else if_token (\<lambda>t. t = FlowEntryToken) (bindM get_token (\<lambda>_. ret ())) collection_error)"

definition parse_flow_sequence_entry :: "bool \<Rightarrow> event parse" where
  "parse_flow_sequence_entry first = if_token (\<lambda>t. t = FlowSequenceEndToken) (close_collection SequenceEndEvent)
     (bindM (flow_separator first) (\<lambda>_. if_token (\<lambda>t. t = KeyToken)
        (bindM (goto Flow_sequence_entry_mapping_key) (\<lambda>_. ret (MappingStartEvent None None True)))
        (if_token (\<lambda>t. t = FlowSequenceEndToken) (close_collection SequenceEndEvent)
           (bindM (push_state Flow_sequence_entry) (\<lambda>_. parse_flow_node)))))"

definition parse_flow_sequence_first_entry :: "event parse" where
  "parse_flow_sequence_first_entry = bindM get_token (\<lambda>_. bindM push_mark (\<lambda>_. parse_flow_sequence_entry True))"

definition parse_flow_sequence_entry_mapping_key :: "event parse" where
  "parse_flow_sequence_entry_mapping_key = bindM get_token (\<lambda>_.
     node_or_empty [ValueToken, FlowEntryToken, FlowSequenceEndToken] Flow_sequence_entry_mapping_value parse_flow_node)"

definition parse_flow_sequence_entry_mapping_value :: "event parse" where
  "parse_flow_sequence_entry_mapping_value = if_token (\<lambda>t. t = ValueToken)
     (bindM get_token (\<lambda>_. node_or_empty [FlowEntryToken, FlowSequenceEndToken] Flow_sequence_entry_mapping_end parse_flow_node))
     (bindM (goto Flow_sequence_entry_mapping_end) (\<lambda>_. bindM peek_token (\<lambda>_. process_empty_scalar)))"

definition parse_flow_sequence_entry_mapping_end :: "event parse" where
  "parse_flow_sequence_entry_mapping_end =
     bindM (goto Flow_sequence_entry) (\<lambda>_. bindM peek_token (\<lambda>_. ret MappingEndEvent))"

definition parse_flow_mapping_key :: "bool \<Rightarrow> event parse" where
  "parse_flow_mapping_key first = if_token (\<lambda>t. t = FlowMappingEndToken) (close_collection MappingEndEvent)
     (bindM (flow_separator first) (\<lambda>_. if_token (\<lambda>t. t = KeyToken)
        (bindM get_token (\<lambda>_. node_or_empty [ValueToken, FlowEntryToken, FlowMappingEndToken] Flow_mapping_value parse_flow_node))
        (if_token (\<lambda>t. t = FlowMappingEndToken) (close_collection MappingEndEvent)
           (bindM (push_state Flow_mapping_empty_value) (\<lambda>_. parse_flow_node)))))"

definition parse_flow_mapping_first_key :: "event parse" where
  "parse_flow_mapping_first_key = bindM get_token (\<lambda>_. bindM push_mark (\<lambda>_. parse_flow_mapping_key True))"

definition parse_flow_mapping_value :: "event parse" where
  "parse_flow_mapping_value = if_token (\<lambda>t. t = ValueToken)
     (bindM get_token (\<lambda>_. node_or_empty [FlowEntryToken, FlowMappingEndToken] Flow_mapping_key parse_flow_node))
     (bindM (goto Flow_mapping_key) (\<lambda>_. bindM peek_token (\<lambda>_. process_empty_scalar)))"

definition parse_flow_mapping_empty_value :: "event parse" where
  "parse_flow_mapping_empty_value = bindM (goto Flow_mapping_key) (\<lambda>_. bindM peek_token (\<lambda>_. process_empty_scalar))"

subsection \<open>All events\<close>

primrec parse_state :: "pstate \<Rightarrow> event parse" where
  "parse_state Stream_start = parse_stream_start"
| "parse_state Implicit_document_start = parse_implicit_document_start"
| "parse_state Document_start = parse_document_start"
| "parse_state Document_end = parse_document_end"
| "parse_state Document_content = parse_document_content"
| "parse_state Block_node = parse_block_node"
| "parse_state Block_sequence_first_entry = parse_block_sequence_first_entry"
| "parse_state Block_sequence_entry = parse_block_sequence_entry"
| "parse_state Indentless_sequence_entry = parse_indentless_sequence_entry"
| "parse_state Block_mapping_first_key = parse_block_mapping_first_key"
| "parse_state Block_mapping_key = parse_block_mapping_key"
| "parse_state Block_mapping_value = parse_block_mapping_value"
| "parse_state Flow_sequence_first_entry = parse_flow_sequence_first_entry"
| "parse_state Flow_sequence_entry = parse_flow_sequence_entry False"
| "parse_state Flow_sequence_entry_mapping_key = parse_flow_sequence_entry_mapping_key"
| "parse_state Flow_sequence_entry_mapping_value = parse_flow_sequence_entry_mapping_value"
| "parse_state Flow_sequence_entry_mapping_end = parse_flow_sequence_entry_mapping_end"
| "parse_state Flow_mapping_first_key = parse_flow_mapping_first_key"
| "parse_state Flow_mapping_key = parse_flow_mapping_key False"
| "parse_state Flow_mapping_value = parse_flow_mapping_value"
| "parse_state Flow_mapping_empty_value = parse_flow_mapping_empty_value"

text \<open>
  The events that \<open>get_event\<close> delivers until the end of the stream, or until an error. The fuel is an upper
  bound of their number (\<open>parser_ends\<close>).
\<close>

fun parse_events :: "nat \<Rightarrow> parser \<Rightarrow> event list \<times> exn option" where
  "parse_events 0 s = ([], Some (OtherError ''no fuel''))"
| "parse_events (Suc fuel) s = (case ps_state s of
     None \<Rightarrow> ([], None)
   | Some st \<Rightarrow> (case parse_state st s of
       (Inl e, _) \<Rightarrow> ([], Some e)
     | (Inr ev, t) \<Rightarrow> (case parse_events fuel t of (evs, r) \<Rightarrow> (ev # evs, r))))"

definition all_events :: "token list \<Rightarrow> exn option \<Rightarrow> event list \<times> exn option" where
  "all_events tokens error = parse_events (6 * length tokens + 6) (new_parser tokens error)"

end
