(* ===== verification/YamlGrammar.thy ===== *)
theory YamlGrammar
  imports YamlParser
begin

section \<open>What the YAML parser delivers\<close>

text \<open>
  The contract between \<open>parser.py\<close> and \<open>composer.py\<close>: the events of a stream are nested as a pushdown acceptor
  prescribes, and the parser ends. Every state stands for a list of goals of the acceptor, every step of the parser
  is a step of the acceptor, and a potential, six for every token and a few for every state on the stack, decreases.
\<close>

subsection \<open>The grammar of events\<close>

text \<open>
  The promise of the parser to the composer: the events of a stream, as a pushdown acceptor. A goal is what is still
  to come; \<open>GSeq\<close> and \<open>GMap\<close> are the rest of a sequence and of a mapping.
\<close>

datatype goal = GStream | GDocs | GDocEnd | GNode | GSeq | GMap

fun node_goals :: "event \<Rightarrow> goal list \<Rightarrow> goal list option" where
  "node_goals (AliasEvent a) gs = Some gs"
| "node_goals (ScalarEvent a t i v) gs = Some gs"
| "node_goals (SequenceStartEvent a t i) gs = Some (GSeq # gs)"
| "node_goals (MappingStartEvent a t i) gs = Some (GMap # gs)"
| "node_goals e gs = None"

fun expect :: "event \<Rightarrow> goal list \<Rightarrow> goal list option" where
  "expect StreamStartEvent (GStream # gs) = Some (GDocs # gs)"
| "expect StreamEndEvent (GDocs # gs) = Some gs"
| "expect (DocumentStartEvent b) (GDocs # gs) = Some (GNode # GDocEnd # GDocs # gs)"
| "expect (DocumentEndEvent b) (GDocEnd # gs) = Some gs"
| "expect SequenceEndEvent (GSeq # gs) = Some gs"
| "expect MappingEndEvent (GMap # gs) = Some gs"
| "expect e (GNode # gs) = node_goals e gs"
| "expect e (GSeq # gs) = node_goals e (GSeq # gs)"
| "expect e (GMap # gs) = node_goals e (GNode # GMap # gs)"
| "expect e gs = None"

subsection \<open>What the states stand for\<close>

primrec state_goals :: "pstate \<Rightarrow> goal list" where
  "state_goals Stream_start = [GStream]"
| "state_goals Implicit_document_start = [GDocs]"
| "state_goals Document_start = [GDocs]"
| "state_goals Document_end = [GDocEnd, GDocs]"
| "state_goals Document_content = [GNode]"
| "state_goals Block_node = [GNode]"
| "state_goals Block_sequence_first_entry = [GSeq]"
| "state_goals Block_sequence_entry = [GSeq]"
| "state_goals Indentless_sequence_entry = [GSeq]"
| "state_goals Block_mapping_first_key = [GMap]"
| "state_goals Block_mapping_key = [GMap]"
| "state_goals Block_mapping_value = [GNode, GMap]"
| "state_goals Flow_sequence_first_entry = [GSeq]"
| "state_goals Flow_sequence_entry = [GSeq]"
| "state_goals Flow_sequence_entry_mapping_key = [GMap, GSeq]"
| "state_goals Flow_sequence_entry_mapping_value = [GNode, GMap, GSeq]"
| "state_goals Flow_sequence_entry_mapping_end = [GMap, GSeq]"
| "state_goals Flow_mapping_first_key = [GMap]"
| "state_goals Flow_mapping_key = [GMap]"
| "state_goals Flow_mapping_value = [GNode, GMap]"
| "state_goals Flow_mapping_empty_value = [GNode, GMap]"

text \<open>How many events a state can produce without reading a token.\<close>

primrec state_weight :: "pstate \<Rightarrow> nat" where
  "state_weight Stream_start = 1"
| "state_weight Implicit_document_start = 5"
| "state_weight Document_start = 1"
| "state_weight Document_end = 2"
| "state_weight Document_content = 2"
| "state_weight Block_node = 2"
| "state_weight Block_sequence_first_entry = 1"
| "state_weight Block_sequence_entry = 1"
| "state_weight Indentless_sequence_entry = 1"
| "state_weight Block_mapping_first_key = 1"
| "state_weight Block_mapping_key = 1"
| "state_weight Block_mapping_value = 2"
| "state_weight Flow_sequence_first_entry = 1"
| "state_weight Flow_sequence_entry = 1"
| "state_weight Flow_sequence_entry_mapping_key = 4"
| "state_weight Flow_sequence_entry_mapping_value = 3"
| "state_weight Flow_sequence_entry_mapping_end = 2"
| "state_weight Flow_mapping_first_key = 1"
| "state_weight Flow_mapping_key = 1"
| "state_weight Flow_mapping_value = 2"
| "state_weight Flow_mapping_empty_value = 2"

text \<open>States in which a mark of their collection is kept, states that read a token without looking at it, and states under which nothing is stacked.\<close>

fun marked :: "pstate \<Rightarrow> bool" where
  "marked Block_sequence_entry = True"
| "marked Block_mapping_key = True"
| "marked Block_mapping_value = True"
| "marked Flow_sequence_entry = True"
| "marked Flow_sequence_entry_mapping_key = True"
| "marked Flow_sequence_entry_mapping_value = True"
| "marked Flow_sequence_entry_mapping_end = True"
| "marked Flow_mapping_key = True"
| "marked Flow_mapping_value = True"
| "marked Flow_mapping_empty_value = True"
| "marked _ = False"

fun reads_blindly :: "pstate \<Rightarrow> bool" where
  "reads_blindly Stream_start = True"
| "reads_blindly Block_sequence_first_entry = True"
| "reads_blindly Block_mapping_first_key = True"
| "reads_blindly Flow_sequence_first_entry = True"
| "reads_blindly Flow_mapping_first_key = True"
| "reads_blindly Flow_sequence_entry_mapping_key = True"
| "reads_blindly _ = False"

fun bottom :: "pstate \<Rightarrow> bool" where
  "bottom Stream_start = True"
| "bottom Implicit_document_start = True"
| "bottom Document_start = True"
| "bottom Document_end = True"
| "bottom _ = False"

fun stack_ok :: "pstate list \<Rightarrow> bool" where
  "stack_ok [] = True"
| "stack_ok (st # sts) = ((bottom st \<longleftrightarrow> sts = []) \<and> list_all (\<lambda>st. \<not> reads_blindly st) sts \<and> stack_ok sts)"

definition stack_of :: "parser \<Rightarrow> pstate list" where
  "stack_of s = (case ps_state s of None \<Rightarrow> [] | Some st \<Rightarrow> st # ps_states s)"

definition goals :: "parser \<Rightarrow> goal list" where
  "goals s = concat (map state_goals (stack_of s))"

definition potential :: "parser \<Rightarrow> nat" where
  "potential s = 6 * length (ps_tokens s) + sum_list (map state_weight (stack_of s))"

text \<open>The end of the stream is still to come, unless the scanner fails.\<close>

definition unread :: "parser \<Rightarrow> bool" where
  "unread s \<longleftrightarrow> (ps_error s = None \<longrightarrow> StreamEndToken \<in> set (ps_tokens s))"

definition marks_ok :: "parser \<Rightarrow> pstate list \<Rightarrow> bool" where
  "marks_ok s sts \<longleftrightarrow> ps_marks s = length (filter marked sts)"

definition parser_ok :: "parser \<Rightarrow> bool" where
  "parser_ok s \<longleftrightarrow> (case ps_state s of None \<Rightarrow> True | Some st \<Rightarrow>
     stack_ok (st # ps_states s) \<and> marks_ok s (st # ps_states s) \<and> unread s \<and>
     (reads_blindly st \<longrightarrow> ps_tokens s \<noteq> [] \<and> hd (ps_tokens s) \<noteq> StreamEndToken))"

text \<open>A step of the parser: an error it may raise, or an event the grammar allows.\<close>

definition step_ok :: "exn option \<Rightarrow> goal list \<Rightarrow> nat \<Rightarrow> event res \<times> parser \<Rightarrow> bool" where
  "step_ok error gs n r = (case r of
     (Inl e, _) \<Rightarrow> e = parser_error \<or> error = Some e
   | (Inr ev, t) \<Rightarrow> parser_ok t \<and> ps_error t = error \<and> potential t < n \<and> expect ev gs = Some (goals t))"

subsection \<open>Reading tokens\<close>

lemma unread_cases:
  assumes "unread s"
  obtains (more) t ts where "ps_tokens s = t # ts" | (failed) e where "ps_tokens s = []" "ps_error s = Some e"
  using assms by (cases "ps_tokens s"; cases "ps_error s") (auto simp: unread_def)

lemma token_steps [simp]:
  "ps_tokens s = t # ts \<Longrightarrow> check_token p s = (Inr (p t), s)"
  "ps_tokens s = t # ts \<Longrightarrow> peek_token s = (Inr t, s)"
  "ps_tokens s = t # ts \<Longrightarrow> get_token s = (Inr t, s\<lparr>ps_tokens := ts\<rparr>)"
  "ps_tokens s = t # ts \<Longrightarrow> if_token p m m' s = (if p t then m s else m' s)"
  "ps_tokens s = [] \<Longrightarrow> ps_error s = Some e \<Longrightarrow> check_token p s = (Inl e, s)"
  "ps_tokens s = [] \<Longrightarrow> ps_error s = Some e \<Longrightarrow> peek_token s = (Inl e, s)"
  "ps_tokens s = [] \<Longrightarrow> ps_error s = Some e \<Longrightarrow> get_token s = (Inl e, s)"
  "ps_tokens s = [] \<Longrightarrow> ps_error s = Some e \<Longrightarrow> if_token p m m' s = (Inl e, s)"
  by (simp_all add: check_token_def peek_token_def get_token_def if_token_def)

lemma state_steps [simp]:
  "goto st s = (Inr (), s\<lparr>ps_state := Some st\<rparr>)"
  "push_state st s = (Inr (), s\<lparr>ps_states := st # ps_states s\<rparr>)"
  "ps_states s = st # sts \<Longrightarrow> pop_state s = (Inr (), s\<lparr>ps_state := Some st, ps_states := sts\<rparr>)"
  "push_mark s = (Inr (), s\<lparr>ps_marks := Suc (ps_marks s)\<rparr>)"
  "ps_marks s \<noteq> 0 \<Longrightarrow> pop_mark s = (Inr (), s\<lparr>ps_marks := ps_marks s - 1\<rparr>)"
  by (simp_all add: goto_def push_state_def pop_state_def push_mark_def pop_mark_def)

lemma unread_rest:
  "unread s \<Longrightarrow> ps_tokens s = t # ts \<Longrightarrow> t \<noteq> StreamEndToken \<Longrightarrow> unread (s\<lparr>ps_tokens := ts\<rparr>)"
  by (simp add: unread_def)

text \<open>A stretch of reading, which changes nothing but the tokens.\<close>

definition reading :: "parser \<Rightarrow> parser \<Rightarrow> bool" where
  "reading s0 s \<longleftrightarrow> (\<exists>ts. s = s0\<lparr>ps_tokens := ts\<rparr> \<and> length ts \<le> length (ps_tokens s0)) \<and> unread s"

lemma reading_refl: "unread s \<Longrightarrow> reading s s"
  by (auto simp: reading_def intro: exI[of _ "ps_tokens s"])

lemma reading_next: "reading s0 s \<Longrightarrow> ps_tokens s = t # ts \<Longrightarrow> t \<noteq> StreamEndToken \<Longrightarrow> reading s0 (s\<lparr>ps_tokens := ts\<rparr>)"
  by (auto simp: reading_def unread_def)

abbreviation scan_error :: "parser \<Rightarrow> exn \<Rightarrow> parser \<Rightarrow> bool" where
  "scan_error s0 e s \<equiv> ps_error s0 = Some e"

lemma reading_unread: "reading s0 s \<Longrightarrow> unread s" "reading s0 s \<Longrightarrow> ps_error s = ps_error s0"
  by (auto simp: reading_def)

lemma reading_property:
  assumes "\<And>t ts s. ps_tokens s = t # ts \<Longrightarrow>
      m s = (if p t then (Inr (f t), s\<lparr>ps_tokens := ts\<rparr>) else (Inr d, s))"
    and "\<And>s e. ps_tokens s = [] \<Longrightarrow> ps_error s = Some e \<Longrightarrow> m s = (Inl e, s)" and "\<not> p StreamEndToken"
  shows "triple (reading s0) m (\<lambda>_. reading s0) (scan_error s0)"
proof (rule tripleI)
  fix s a t assume s: "reading s0 s" and m: "m s = (Inr a, t)"
  from s have "unread s" by (rule reading_unread)
  then show "reading s0 t"
  proof (cases rule: unread_cases)
    case (more x xs)
    with m assms(1)[OF more] assms(3) s show ?thesis by (auto split: if_splits intro: reading_next)
  next
    case (failed e)
    with m assms(2) show ?thesis by simp
  qed
next
  fix s e t assume s: "reading s0 s" and m: "m s = (Inl e, t)"
  from s have "unread s" by (rule reading_unread)
  then show "ps_error s0 = Some e"
    using m s assms(1,2) by (cases rule: unread_cases) (auto split: if_splits dest: reading_unread)
qed

lemma get_anchor_reads: "triple (reading s0) get_anchor (\<lambda>_. reading s0) (scan_error s0)"
  by (rule reading_property[where p = "\<lambda>t. \<exists>a. t = AnchorToken a" and d = None
      and f = "\<lambda>t. case t of AnchorToken a \<Rightarrow> Some a | _ \<Rightarrow> None"])
    (auto simp: get_anchor_def bindM_def split: token.splits)

lemma get_tag_reads: "triple (reading s0) get_tag (\<lambda>_. reading s0) (scan_error s0)"
  by (rule reading_property[where p = "\<lambda>t. \<exists>h x. t = TagToken h x" and d = None
      and f = "\<lambda>t. case t of TagToken h x \<Rightarrow> Some (h, x) | _ \<Rightarrow> None"])
    (auto simp: get_tag_def bindM_def split: token.splits)

lemma node_properties_reads: "triple (reading s0) node_properties (\<lambda>_. reading s0) (scan_error s0)"
  unfolding node_properties_def
  by (rule triple_bind[OF get_anchor_reads], simp split: option.split)
     (auto intro!: triple_intros triple_bind[OF get_tag_reads] triple_bind[OF get_anchor_reads] split: option.split)

lemma full_tag_reads: "triple (reading s0) (full_tag t) (\<lambda>_. reading s0) (\<lambda>e _. e = parser_error)"
  by (auto simp: full_tag_def triple_def bindM_def split: option.splits prod.splits)

subsection \<open>A node\<close>

text \<open>Where a node is expected: the states to return to, and what the events of the node do to the goals.\<close>

definition node_ready :: "nat \<Rightarrow> exn option \<Rightarrow> goal list \<Rightarrow> nat \<Rightarrow> parser \<Rightarrow> bool" where
  "node_ready k error gs n s \<longleftrightarrow> unread s \<and> ps_error s = error \<and> ps_states s \<noteq> [] \<and> stack_ok (ps_states s)
     \<and> list_all (\<lambda>st. \<not> reads_blindly st) (ps_states s) \<and> marks_ok s (ps_states s)
     \<and> 6 * length (ps_tokens s) + sum_list (map state_weight (ps_states s)) + k < n
     \<and> (\<forall>ev gs'. node_goals ev (concat (map state_goals (ps_states s))) = Some gs' \<longrightarrow> expect ev gs = Some gs')"

lemma node_ready_reading: "node_ready k error gs n s0 \<Longrightarrow> reading s0 s \<Longrightarrow> node_ready k error gs n s"
  by (auto simp: node_ready_def reading_def marks_ok_def)

text \<open>The node is a scalar or an alias: back to the state on the stack.\<close>

lemma leaf_step:
  assumes "node_ready k error gs n s" and "\<And>gs. node_goals ev gs = Some gs"
  shows "step_ok error gs n (bindM pop_state (\<lambda>_. ret ev) s)"
proof -
  obtain r rs where states: "ps_states s = r # rs" using assms(1) by (cases "ps_states s") (auto simp: node_ready_def)
  with assms show ?thesis
    by (simp add: node_ready_def step_ok_def parser_ok_def potential_def goals_def stack_of_def marks_ok_def unread_def)
qed

text \<open>The node is a collection: to the state that reads its first token.\<close>

lemma open_step:
  assumes "node_ready 1 error gs n s" and "ps_tokens s = t # ts" and "t \<noteq> StreamEndToken"
    and "\<And>gs. node_goals ev gs = Some (state_goals st @ gs)"
    and "state_weight st = 1" and "\<not> bottom st" and "\<not> marked st"
  shows "step_ok error gs n (Inr ev, s\<lparr>ps_state := Some st\<rparr>)"
  using assms by (simp add: node_ready_def step_ok_def parser_ok_def potential_def goals_def stack_of_def marks_ok_def unread_def)

lemma node_ready_next:
  "node_ready k error gs n s \<Longrightarrow> ps_tokens s = t # ts \<Longrightarrow> t \<noteq> StreamEndToken \<Longrightarrow> node_ready k error gs n (s\<lparr>ps_tokens := ts\<rparr>)"
  by (rule node_ready_reading, assumption) (auto intro: reading_next reading_refl simp: node_ready_def)

lemma step_ok_error [simp]: "step_ok error gs n (Inl e, t) \<longleftrightarrow> e = parser_error \<or> error = Some e"
  by (simp add: step_ok_def)

lemma node_content_step:
  assumes "node_ready 1 error gs n s"
  shows "step_ok error gs n (node_content block indentless anchor tag s)"
proof -
  from assms have "unread s" by (simp add: node_ready_def)
  then show ?thesis
  proof (cases rule: unread_cases)
    case (failed e)
    moreover from assms failed have "error = Some e" by (simp add: node_ready_def)
    ultimately show ?thesis by (simp add: node_content_def Let_def)
  next
    case (more t ts)
    note leaf = leaf_step[OF assms] leaf_step[OF node_ready_next[OF assms more]]
    note opens = open_step[OF assms more]
    show ?thesis
      by (cases t) (simp_all add: node_content_def more leaf opens Let_def)
  qed
qed

lemma triple_step_ok:
  assumes "triple P m (\<lambda>ev t. step_ok error gs n (Inr ev, t)) (\<lambda>e _. e = parser_error \<or> error = Some e)" and "P s"
  shows "step_ok error gs n (m s)"
proof -
  obtain r t where "m s = (r, t)" by fastforce
  with assms show ?thesis by (cases r) (auto dest: triple_returns triple_raises)
qed

lemma parse_node_step:
  assumes "node_ready 1 error gs n s"
  shows "step_ok error gs n (parse_yaml_node block indentless s)"
proof (cases "\<exists>a ts. ps_tokens s = AliasToken a # ts")
  case True
  then obtain a ts where ts: "ps_tokens s = AliasToken a # ts" by blast
  show ?thesis
    using leaf_step[OF node_ready_next[OF assms ts]] by (simp add: parse_yaml_node_def ts)
next
  case False
  let ?m = "bindM node_properties (\<lambda>(anchor, t). bindM (full_tag t) (\<lambda>tag. node_content block indentless anchor tag))"
  have "triple (reading s) ?m (\<lambda>ev t. step_ok error gs n (Inr ev, t)) (\<lambda>e _. e = parser_error \<or> ps_error s = Some e)"
  proof (rule triple_bind[where R = "\<lambda>_. reading s"], goal_cases)
    case 1
    show ?case by (rule triple_conseq[OF node_properties_reads]) auto
  next
    case (2 x)
    obtain anchor t where x: "x = (anchor, t)" by fastforce
    have content: "triple (reading s) (node_content block indentless anchor tag)
        (\<lambda>ev t. step_ok error gs n (Inr ev, t)) (\<lambda>e _. e = parser_error \<or> ps_error s = Some e)" for tag
    proof -
      have "ps_error s = error" using assms by (simp add: node_ready_def)
      then show ?thesis
        using node_content_step[OF node_ready_reading[OF assms]] by (intro tripleI) (metis step_ok_error)+
    qed
    show ?case
      unfolding x prod.case by (rule triple_bind[OF _ content], rule triple_conseq[OF full_tag_reads]) auto
  qed
  moreover have "parse_yaml_node block indentless s = ?m s"
    using False by (auto simp: parse_yaml_node_def split: list.splits token.splits)
  moreover have "reading s s" "ps_error s = error" using assms by (auto simp: node_ready_def intro: reading_refl)
  ultimately show ?thesis by (simp add: triple_step_ok[where P = "reading s"])
qed

lemma node_or_empty_step:
  assumes "node_ready 1 error gs n (s\<lparr>ps_states := next # ps_states s\<rparr>)"
  shows "step_ok error gs n (node_or_empty stop next (parse_yaml_node block indentless) s)"
proof -
  from assms have "unread s" by (simp add: node_ready_def unread_def)
  then show ?thesis
  proof (cases rule: unread_cases)
    case (failed e)
    moreover from assms failed have "error = Some e" by (simp add: node_ready_def)
    ultimately show ?thesis by (simp add: node_or_empty_def)
  next
    case (more t ts)
    have "step_ok error gs n (Inr (ScalarEvent None None (True, False) []), s\<lparr>ps_state := Some next\<rparr>)"
      using assms by (simp add: node_ready_def step_ok_def parser_ok_def potential_def goals_def stack_of_def marks_ok_def unread_def)
    then show ?thesis
      using more parse_node_step[OF assms] by (simp add: node_or_empty_def process_empty_scalar_def)
  qed
qed

lemma empty_step:
  assumes "node_ready 0 error gs n (s\<lparr>ps_states := next # ps_states s\<rparr>)"
  shows "step_ok error gs n (bindM (goto next) (\<lambda>_. bindM peek_token (\<lambda>_. process_empty_scalar)) s)"
proof -
  from assms have "unread s" by (simp add: node_ready_def unread_def)
  then show ?thesis
  proof (cases rule: unread_cases)
    case (failed e)
    moreover from assms failed have "error = Some e" by (simp add: node_ready_def)
    ultimately show ?thesis by simp
  next
    case (more t ts)
    with assms show ?thesis by (simp add: process_empty_scalar_def
      node_ready_def step_ok_def parser_ok_def potential_def goals_def stack_of_def marks_ok_def unread_def)
  qed
qed

text \<open>Inside a document: the parser is in state \<open>st\<close>, with at most \<open>n\<close> of its potential left.\<close>

definition inside :: "pstate \<Rightarrow> exn option \<Rightarrow> nat \<Rightarrow> parser \<Rightarrow> bool" where
  "inside st error n s \<longleftrightarrow> unread s \<and> ps_error s = error \<and> \<not> bottom st \<and> stack_ok (st # ps_states s)
     \<and> marks_ok s (st # ps_states s)
     \<and> 6 * length (ps_tokens s) + sum_list (map state_weight (st # ps_states s)) \<le> n"

definition goals_in :: "pstate \<Rightarrow> parser \<Rightarrow> goal list" where
  "goals_in st s = concat (map state_goals (st # ps_states s))"

text \<open>A node followed by the state \<open>next\<close> is what the state \<open>st\<close> stands for.\<close>

definition leads :: "pstate \<Rightarrow> pstate \<Rightarrow> bool" where
  "leads st next \<longleftrightarrow> marked st = marked next \<and> \<not> bottom next \<and> \<not> reads_blindly next \<and>
     (\<forall>ev gs gs'. node_goals ev (state_goals next @ gs) = Some gs' \<longrightarrow> expect ev (state_goals st @ gs) = Some gs')"

lemma expect_node:
  "node_goals ev gs = Some gs' \<Longrightarrow> expect ev (GNode # gs) = Some gs'"
  "node_goals ev (GSeq # gs) = Some gs' \<Longrightarrow> expect ev (GSeq # gs) = Some gs'"
  "node_goals ev (GNode # GMap # gs) = Some gs' \<Longrightarrow> expect ev (GMap # gs) = Some gs'"
  by (cases ev, auto)+

lemma leads_simps [simp]:
  "leads Block_sequence_entry Block_sequence_entry" "leads Indentless_sequence_entry Indentless_sequence_entry"
  "leads Block_mapping_key Block_mapping_value" "leads Block_mapping_value Block_mapping_key"
  "leads Flow_sequence_entry Flow_sequence_entry"
  "leads Flow_sequence_entry_mapping_key Flow_sequence_entry_mapping_value"
  "leads Flow_sequence_entry_mapping_value Flow_sequence_entry_mapping_end"
  "leads Flow_mapping_key Flow_mapping_value" "leads Flow_mapping_key Flow_mapping_empty_value"
  "leads Flow_mapping_value Flow_mapping_key" "leads Flow_mapping_empty_value Flow_mapping_key"
  by (auto simp: leads_def intro: expect_node)

lemma inside_unread: "inside st error n s \<Longrightarrow> unread s"
  by (simp add: inside_def)

lemma inside_mono: "inside st error n s \<Longrightarrow> n \<le> m \<Longrightarrow> inside st error m s"
  by (auto simp: inside_def)

lemma inside_failed [simp]: "inside st error n s \<Longrightarrow> ps_error s = Some e \<Longrightarrow> error = Some e"
  by (simp add: inside_def)

lemma state_weight_pos: "0 < state_weight st"
  by (cases st) simp_all

lemma inside_next:
  "inside st error n s \<Longrightarrow> ps_tokens s = t # ts \<Longrightarrow> t \<noteq> StreamEndToken \<Longrightarrow>
     inside st error (n - 6) (s\<lparr>ps_tokens := ts\<rparr>) \<and> 6 < n"
  using state_weight_pos[of st] by (auto simp: inside_def unread_def marks_ok_def)

lemma inside_ready:
  assumes "inside st error n s" and "leads st next" and "k + state_weight next < state_weight st + c"
  shows "node_ready k error (goals_in st s) (n + c) (s\<lparr>ps_states := next # ps_states s\<rparr>)"
  using assms by (auto simp: inside_def leads_def node_ready_def goals_in_def unread_def marks_ok_def)

lemma inside_ready_next:
  assumes "inside st error n s" and "ps_tokens s = t # ts" and "t \<noteq> StreamEndToken" and "leads st next"
    and "state_weight next < state_weight st + 5"
  shows "node_ready 1 error (goals_in st s) n (s\<lparr>ps_tokens := ts, ps_states := next # ps_states s\<rparr>)"
  using inside_ready[of st error "n - 6" "s\<lparr>ps_tokens := ts\<rparr>" "next" 1 6] inside_next[OF assms(1-3)] assms(4,5)
  by (simp add: goals_in_def)

lemma close_step:
  assumes "inside st error n s" and "ps_tokens s = t # ts" and "t \<noteq> StreamEndToken" and "marked st"
    and "\<And>gs. expect ev (state_goals st @ gs) = Some gs"
  shows "step_ok error (goals_in st s) n (close_collection ev s)"
proof -
  obtain r rs where "ps_states s = r # rs" using assms(1) by (cases "ps_states s") (auto simp: inside_def)
  with assms show ?thesis by (simp add: inside_def close_collection_def step_ok_def parser_ok_def
    potential_def goals_def goals_in_def stack_of_def marks_ok_def unread_def)
qed

lemma collection_error_step:
  assumes "inside st error n s" and "marked st"
  shows "step_ok error gs n (collection_error s)"
  using inside_unread[OF assms(1)]
proof (cases rule: unread_cases)
  case (failed e)
  with assms(1) show ?thesis by (simp add: collection_error_def)
next
  case (more t ts)
  with assms show ?thesis by (simp add: collection_error_def inside_def marks_ok_def)
qed

lemma empty_value_step:
  assumes "inside st error n s" and "leads st next" and "state_weight next < state_weight st"
  shows "step_ok error (goals_in st s) n (bindM (goto next) (\<lambda>_. bindM peek_token (\<lambda>_. process_empty_scalar)) s)"
  using empty_step[OF inside_ready[OF assms(1,2), of 0 0]] assms(3) by simp

lemma item_step:
  assumes "inside st error n s" and "ps_tokens s = t # ts" and "t \<noteq> StreamEndToken" and "leads st next"
    and "state_weight next < state_weight st + 5"
  shows "step_ok error (goals_in st s) n (node_or_empty stop next (parse_yaml_node block indentless) (s\<lparr>ps_tokens := ts\<rparr>))"
  using node_or_empty_step inside_ready_next[OF assms] by simp

lemma mark_step:
  assumes "inside first error n s" and "ps_tokens s = t # ts" and "t \<noteq> StreamEndToken"
    and "\<not> marked first" and "marked st" and "\<not> bottom st" and "state_weight st = state_weight first"
  shows "inside st error (n - 6) (s\<lparr>ps_tokens := ts, ps_marks := Suc (ps_marks s)\<rparr>) \<and> 6 < n"
  using inside_next[OF assms(1-3)] assms(4-) by (auto simp: inside_def marks_ok_def unread_def)

subsection \<open>Block collections\<close>

named_theorems parse_defs

lemmas node_defs [parse_defs] = parse_block_node_def parse_flow_node_def parse_block_node_or_indentless_sequence_def

lemma failed_step [simp]:
  "inside st error n s \<Longrightarrow> ps_tokens s = [] \<Longrightarrow> ps_error s = Some e \<Longrightarrow> step_ok error gs m (if_token p a b s)"
  "inside st error n s \<Longrightarrow> ps_tokens s = [] \<Longrightarrow> ps_error s = Some e \<Longrightarrow> step_ok error gs m (bindM get_token k s)"
  "inside st error n s \<Longrightarrow> ps_tokens s = [] \<Longrightarrow> ps_error s = Some e \<Longrightarrow> step_ok error gs m (bindM peek_token k' s)"
  by (simp_all del: inside_failed) (metis inside_failed)+

lemma block_sequence_entry_step:
  assumes "inside Block_sequence_entry error n s"
  shows "step_ok error (goals_in Block_sequence_entry s) n (parse_block_sequence_entry s)"
  using inside_unread[OF assms]
proof (cases rule: unread_cases)
  case (failed e)
  with assms show ?thesis by (simp add: parse_block_sequence_entry_def)
next
  case (more t ts)
  then show ?thesis
    using item_step[OF assms more] close_step[OF assms more] collection_error_step[OF assms]
    by (simp add: parse_block_sequence_entry_def parse_defs)
qed

lemma block_mapping_key_step:
  assumes "inside Block_mapping_key error n s"
  shows "step_ok error (goals_in Block_mapping_key s) n (parse_block_mapping_key s)"
  using inside_unread[OF assms]
proof (cases rule: unread_cases)
  case (failed e)
  with assms show ?thesis by (simp add: parse_block_mapping_key_def)
next
  case (more t ts)
  then show ?thesis
    using item_step[OF assms more] close_step[OF assms more] collection_error_step[OF assms]
    by (simp add: parse_block_mapping_key_def parse_defs)
qed

lemma block_mapping_value_step:
  assumes "inside Block_mapping_value error n s"
  shows "step_ok error (goals_in Block_mapping_value s) n (parse_block_mapping_value s)"
  using inside_unread[OF assms]
proof (cases rule: unread_cases)
  case (failed e)
  with assms show ?thesis by (simp add: parse_block_mapping_value_def)
next
  case (more t ts)
  then show ?thesis
    using item_step[OF assms more] empty_value_step[OF assms, of Block_mapping_key]
    by (simp add: parse_block_mapping_value_def parse_defs)
qed

lemma indentless_sequence_entry_step:
  assumes "inside Indentless_sequence_entry error n s"
  shows "step_ok error (goals_in Indentless_sequence_entry s) n (parse_indentless_sequence_entry s)"
  using inside_unread[OF assms]
proof (cases rule: unread_cases)
  case (failed e)
  with assms show ?thesis by (simp add: parse_indentless_sequence_entry_def)
next
  case (more t ts)
  obtain r rs where "ps_states s = r # rs" using assms by (cases "ps_states s") (auto simp: inside_def)
  with assms have "step_ok error (goals_in Indentless_sequence_entry s) n (bindM pop_state (\<lambda>_. ret SequenceEndEvent) s)"
    by (simp add: inside_def step_ok_def parser_ok_def potential_def goals_def goals_in_def stack_of_def marks_ok_def unread_def)
  with more show ?thesis
    using item_step[OF assms more] by (simp add: parse_indentless_sequence_entry_def parse_defs)
qed

text \<open>The states that first read the token the collection begins with.\<close>

lemma goals_in_update [simp]:
  "goals_in st (s\<lparr>ps_tokens := ts\<rparr>) = goals_in st s" "goals_in st (s\<lparr>ps_marks := m\<rparr>) = goals_in st s"
  by (simp_all add: goals_in_def)

lemma step_ok_mono: "step_ok error gs n r \<Longrightarrow> n \<le> m \<Longrightarrow> step_ok error gs m r"
  by (auto simp: step_ok_def split: prod.splits sum.splits)

lemma first_step:
  assumes "inside first error n s" and "ps_tokens s = t # ts" and "t \<noteq> StreamEndToken"
    and "\<not> marked first" and "marked st" and "\<not> bottom st" and "state_weight st = state_weight first"
    and "state_goals first = state_goals st"
    and "\<And>n s. inside st error n s \<Longrightarrow> step_ok error (goals_in st s) (n + 6) (m s)"
  shows "step_ok error (goals_in first s) n (bindM get_token (\<lambda>_. bindM push_mark (\<lambda>_. m)) s)"
  using assms(9)[of "n - 6" "s\<lparr>ps_tokens := ts, ps_marks := Suc (ps_marks s)\<rparr>"] mark_step[OF assms(1-7)] assms(2,8)
  by (simp add: goals_in_def)

subsection \<open>Flow collections\<close>

lemma flow_separator_step:
  assumes "inside st error n s" and "marked st"
    and "first \<Longrightarrow> step_ok error gs n (k () s)"
    and "\<And>ts. \<not> first \<Longrightarrow> ps_tokens s = FlowEntryToken # ts \<Longrightarrow> step_ok error gs n (k () (s\<lparr>ps_tokens := ts\<rparr>))"
  shows "step_ok error gs n (bindM (flow_separator first) k s)"
proof (cases first)
  case True
  with assms(3) show ?thesis by (simp add: flow_separator_def)
next
  case False
  from assms(1) have "unread s" by (rule inside_unread)
  then show ?thesis
  proof (cases rule: unread_cases)
    case (failed e)
    with False assms(1) show ?thesis by (simp add: flow_separator_def)
  next
    case (more t ts)
    have "(collection_error :: unit parse) s = (Inl (if ps_marks s = 0 then IndexError else parser_error), s)"
      by (simp add: collection_error_def more)
    moreover have "ps_marks s \<noteq> 0" using assms(1,2) by (simp add: inside_def marks_ok_def)
    ultimately show ?thesis
      using False more assms(4) by (cases "t = FlowEntryToken") (simp_all add: flow_separator_def)
  qed
qed

lemma separated_step:
  assumes "inside st error n s" and "marked st"
    and rest: "\<And>n s. inside st error n s \<Longrightarrow> step_ok error (goals_in st s) (n + 6) (m s)"
  shows "step_ok error (goals_in st s) (if first then n + 6 else n) (bindM (flow_separator first) (\<lambda>_. m) s)"
proof (rule flow_separator_step)
  show "inside st error (if first then n + 6 else n) s" using inside_mono[OF assms(1)] by simp
next
  fix us assume "\<not> first" and us: "ps_tokens s = FlowEntryToken # us"
  then show "step_ok error (goals_in st s) (if first then n + 6 else n) (m (s\<lparr>ps_tokens := us\<rparr>))"
    using rest[of "n - 6" "s\<lparr>ps_tokens := us\<rparr>"] inside_next[OF assms(1) us] by simp
qed (use assms in simp_all)

text \<open>An entry of a flow sequence, once the comma before it is read.\<close>

lemma push_state_bind [simp]: "bindM (push_state st) k s = k () (s\<lparr>ps_states := st # ps_states s\<rparr>)"
  by simp

lemma flow_sequence_rest:
  assumes "inside Flow_sequence_entry error n s"
  shows "step_ok error (goals_in Flow_sequence_entry s) (n + 6) (if_token (\<lambda>t. t = KeyToken)
        (bindM (goto Flow_sequence_entry_mapping_key) (\<lambda>_. ret (MappingStartEvent None None True)))
        (if_token (\<lambda>t. t = FlowSequenceEndToken) (close_collection SequenceEndEvent)
           (bindM (push_state Flow_sequence_entry) (\<lambda>_. parse_flow_node))) s)"
  using inside_unread[OF assms]
proof (cases rule: unread_cases)
  case (failed e)
  with assms show ?thesis by simp
next
  case (more t ts)
  have "step_ok error (goals_in Flow_sequence_entry s) (n + 6)
      (Inr (MappingStartEvent None None True), s\<lparr>ps_state := Some Flow_sequence_entry_mapping_key\<rparr>)" if "t = KeyToken"
    using assms more that by (auto simp: inside_def step_ok_def parser_ok_def potential_def goals_def goals_in_def
      stack_of_def marks_ok_def unread_def)
  with more show ?thesis
    using step_ok_mono[OF close_step[OF assms more], of _ "n + 6"]
      parse_node_step[OF inside_ready[OF assms, of Flow_sequence_entry 1 6]]
    by (simp add: parse_defs)
qed



lemma flow_sequence_entry_step:
  assumes "inside Flow_sequence_entry error n s"
  shows "step_ok error (goals_in Flow_sequence_entry s) (if first then n + 6 else n) (parse_flow_sequence_entry first s)"
  using inside_unread[OF assms]
proof (cases rule: unread_cases)
  case (failed e)
  with assms show ?thesis by (simp add: parse_flow_sequence_entry_def)
next
  case (more t ts)
  have "step_ok error (goals_in Flow_sequence_entry s) (if first then n + 6 else n) (close_collection SequenceEndEvent s)"
    if "t = FlowSequenceEndToken"
    by (rule step_ok_mono[OF close_step[OF assms more]]) (simp_all add: that)
  with more show ?thesis
    using separated_step[OF assms _ flow_sequence_rest, of first] by (simp add: parse_flow_sequence_entry_def)
qed

lemma flow_mapping_rest:
  assumes "inside Flow_mapping_key error n s"
  shows "step_ok error (goals_in Flow_mapping_key s) (n + 6) (if_token (\<lambda>t. t = KeyToken)
        (bindM get_token (\<lambda>_. node_or_empty [ValueToken, FlowEntryToken, FlowMappingEndToken] Flow_mapping_value parse_flow_node))
        (if_token (\<lambda>t. t = FlowMappingEndToken) (close_collection MappingEndEvent)
           (bindM (push_state Flow_mapping_empty_value) (\<lambda>_. parse_flow_node))) s)"
  using inside_unread[OF assms]
proof (cases rule: unread_cases)
  case (failed e)
  with assms show ?thesis by simp
next
  case (more t ts)
  with step_ok_mono[OF item_step[OF assms more], of Flow_mapping_value "n + 6"]
    step_ok_mono[OF close_step[OF assms more], of _ "n + 6"]
    parse_node_step[OF inside_ready[OF assms, of Flow_mapping_empty_value 1 6]]
  show ?thesis by (simp add: parse_defs)
qed

lemma flow_mapping_key_step:
  assumes "inside Flow_mapping_key error n s"
  shows "step_ok error (goals_in Flow_mapping_key s) (if first then n + 6 else n) (parse_flow_mapping_key first s)"
  using inside_unread[OF assms]
proof (cases rule: unread_cases)
  case (failed e)
  with assms show ?thesis by (simp add: parse_flow_mapping_key_def)
next
  case (more t ts)
  have "step_ok error (goals_in Flow_mapping_key s) (if first then n + 6 else n) (close_collection MappingEndEvent s)"
    if "t = FlowMappingEndToken"
    by (rule step_ok_mono[OF close_step[OF assms more]]) (simp_all add: that)
  with more show ?thesis
    using separated_step[OF assms _ flow_mapping_rest, of first] by (simp add: parse_flow_mapping_key_def)
qed

lemma flow_mapping_value_step:
  assumes "inside Flow_mapping_value error n s"
  shows "step_ok error (goals_in Flow_mapping_value s) n (parse_flow_mapping_value s)"
  using inside_unread[OF assms]
proof (cases rule: unread_cases)
  case (failed e)
  with assms show ?thesis by (simp add: parse_flow_mapping_value_def)
next
  case (more t ts)
  then show ?thesis
    using item_step[OF assms more] empty_value_step[OF assms, of Flow_mapping_key]
    by (simp add: parse_flow_mapping_value_def parse_defs)
qed

lemma flow_mapping_empty_value_step:
  "inside Flow_mapping_empty_value error n s \<Longrightarrow>
    step_ok error (goals_in Flow_mapping_empty_value s) n (parse_flow_mapping_empty_value s)"
  using empty_value_step[of Flow_mapping_empty_value error n s Flow_mapping_key]
  by (simp add: parse_flow_mapping_empty_value_def)

lemma flow_entry_mapping_steps:
  "inside Flow_sequence_entry_mapping_value error n s \<Longrightarrow>
    step_ok error (goals_in Flow_sequence_entry_mapping_value s) n (parse_flow_sequence_entry_mapping_value s)"
  "inside Flow_sequence_entry_mapping_key error n s \<Longrightarrow> ps_tokens s = t # ts \<Longrightarrow> t \<noteq> StreamEndToken \<Longrightarrow>
    step_ok error (goals_in Flow_sequence_entry_mapping_key s) n (parse_flow_sequence_entry_mapping_key s)"
  "inside Flow_sequence_entry_mapping_end error n s \<Longrightarrow>
    step_ok error (goals_in Flow_sequence_entry_mapping_end s) n (parse_flow_sequence_entry_mapping_end s)"
proof -
  assume inside: "inside Flow_sequence_entry_mapping_value error n s"
  from inside_unread[OF this]
  show "step_ok error (goals_in Flow_sequence_entry_mapping_value s) n (parse_flow_sequence_entry_mapping_value s)"
  proof (cases rule: unread_cases)
    case (failed e)
    with inside show ?thesis by (simp add: parse_flow_sequence_entry_mapping_value_def)
  next
    case (more t ts)
    then show ?thesis
      using item_step[OF inside more] empty_value_step[OF inside, of Flow_sequence_entry_mapping_end]
      by (simp add: parse_flow_sequence_entry_mapping_value_def parse_defs)
  qed
next
  assume "inside Flow_sequence_entry_mapping_key error n s" "ps_tokens s = t # ts" "t \<noteq> StreamEndToken"
  then show "step_ok error (goals_in Flow_sequence_entry_mapping_key s) n (parse_flow_sequence_entry_mapping_key s)"
    using item_step[of Flow_sequence_entry_mapping_key error n s t ts]
    by (simp add: parse_flow_sequence_entry_mapping_key_def parse_defs)
next
  assume inside: "inside Flow_sequence_entry_mapping_end error n s"
  from inside_unread[OF this]
  show "step_ok error (goals_in Flow_sequence_entry_mapping_end s) n (parse_flow_sequence_entry_mapping_end s)"
  proof (cases rule: unread_cases)
    case (failed e)
    with inside show ?thesis by (simp add: parse_flow_sequence_entry_mapping_end_def)
  next
    case (more t ts)
    with inside show ?thesis by (auto simp: parse_flow_sequence_entry_mapping_end_def inside_def step_ok_def parser_ok_def
      potential_def goals_def goals_in_def stack_of_def marks_ok_def unread_def)
  qed
qed

subsection \<open>Documents\<close>

lemma inside_node:
  assumes "inside st error n s" and "st = Block_node \<or> st = Document_content"
  shows "node_ready 1 error (goals_in st s) n s"
  using assms by (auto simp: inside_def node_ready_def goals_in_def expect_node marks_ok_def)

lemma document_content_step:
  assumes "inside Document_content error n s"
  shows "step_ok error (goals_in Document_content s) n (parse_document_content s)"
  using inside_unread[OF assms]
proof (cases rule: unread_cases)
  case (failed e)
  with assms show ?thesis by (simp add: parse_document_content_def)
next
  case (more t ts)
  with leaf_step[OF inside_node[OF assms], of "ScalarEvent None None (True, False) []"]
    parse_node_step[OF inside_node[OF assms]]
  show ?thesis by (simp add: parse_document_content_def process_empty_scalar_def parse_defs)
qed

text \<open>Between two documents.\<close>

definition between :: "exn option \<Rightarrow> nat \<Rightarrow> parser \<Rightarrow> bool" where
  "between error n s \<longleftrightarrow> unread s \<and> ps_error s = error \<and> ps_states s = [] \<and> ps_marks s = 0
     \<and> 6 * length (ps_tokens s) < n"

lemma directives_read:
  "directive_loop ts v hs = (r, us) \<Longrightarrow> length us \<le> length ts \<and> (StreamEndToken \<in> set ts \<longrightarrow> StreamEndToken \<in> set us)
     \<and> (\<forall>e. r = Inl e \<longrightarrow> e = parser_error)"
  by (induction ts v hs rule: directive_loop.induct)
    (fastforce split: directive.splits if_splits)+

lemma document_ends_read:
  assumes "between error n s"
  shows "between error n (s\<lparr>ps_tokens := dropWhile (\<lambda>t. t = DocumentEndToken) (ps_tokens s)\<rparr>)"
proof -
  have "StreamEndToken \<in> set ts \<Longrightarrow> StreamEndToken \<in> set (dropWhile (\<lambda>t. t = DocumentEndToken) ts)" for ts
    by (induction ts) auto
  with assms show ?thesis
    by (auto simp: between_def unread_def intro: le_less_trans[OF mult_le_mono2[OF length_dropWhile_le]])
qed

lemma process_directives_step:
  assumes "between error n s"
  shows "case process_directives s of (Inl e, t) \<Rightarrow> e = parser_error
    | (Inr _, t) \<Rightarrow> between error n t"
proof -
  obtain r us where run: "directive_loop (ps_tokens s) None [] = (r, us)" by fastforce
  from directives_read[OF run] assms show ?thesis
    by (auto simp: process_directives_def run between_def unread_def split: sum.split)
qed

lemma unread_between: "between error n s \<Longrightarrow> unread s"
  by (simp add: between_def)

lemma begin_document_step:
  assumes "between error n s"
  shows "step_ok error [GDocs] n (if_token (\<lambda>t. t = DocumentStartToken)
        (bindM get_token (\<lambda>_. bindM (push_state Document_end) (\<lambda>_. bindM (goto Document_content) (\<lambda>_.
           ret (DocumentStartEvent True)))))
        (bindM peek_token (\<lambda>_. raise parser_error)) s)"
  using unread_between[OF assms]
proof (cases rule: unread_cases)
  case (failed e)
  moreover from assms failed have "error = Some e" by (simp add: between_def)
  ultimately show ?thesis by simp
next
  case (more t ts)
  with assms show ?thesis
    by (auto simp: between_def step_ok_def parser_ok_def potential_def goals_def stack_of_def marks_ok_def unread_def)
qed

lemma document_start_step:
  assumes "between error n s"
  shows "step_ok error [GDocs] n (parse_document_start s)"
proof -
  define u where "u = s\<lparr>ps_tokens := dropWhile (\<lambda>t. t = DocumentEndToken) (ps_tokens s)\<rparr>"
  have u: "between error n u" unfolding u_def by (rule document_ends_read[OF assms])
  have skip: "skip_document_ends s = (Inr (), u)" by (simp add: skip_document_ends_def u_def)
  show ?thesis
    using unread_between[OF u]
  proof (cases rule: unread_cases)
    case (failed e)
    moreover from u failed have "error = Some e" by (simp add: between_def)
    ultimately show ?thesis by (simp add: parse_document_start_def skip)
  next
    case (more t ts)
    show ?thesis
    proof (cases "t = StreamEndToken")
      case True
      with more u show ?thesis by (simp add: parse_document_start_def skip assertion_def between_def step_ok_def
        parser_ok_def potential_def goals_def stack_of_def)
    next
      case False
      obtain r v where run: "process_directives u = (r, v)" by fastforce
      from process_directives_step[OF u] run False more begin_document_step[of error n v] show ?thesis
        by (cases r) (simp_all add: parse_document_start_def skip)
    qed
  qed
qed

lemma implicit_document_start_step:
  assumes "between error n s" and "6 * length (ps_tokens s) + 4 < n"
  shows "step_ok error [GDocs] n (parse_implicit_document_start s)"
  using unread_between[OF assms(1)]
proof (cases rule: unread_cases)
  case (failed e)
  moreover from assms failed have "error = Some e" by (simp add: between_def)
  ultimately show ?thesis by (simp add: parse_implicit_document_start_def)
next
  case (more t ts)
  with document_start_step[OF assms(1)] assms show ?thesis
    by (auto simp: parse_implicit_document_start_def between_def step_ok_def parser_ok_def potential_def goals_def
      stack_of_def marks_ok_def unread_def)
qed

lemma document_end_step:
  assumes "between error n s" and "6 * length (ps_tokens s) + 1 < n"
  shows "step_ok error [GDocEnd, GDocs] n (parse_document_end s)"
  using unread_between[OF assms(1)]
proof (cases rule: unread_cases)
  case (failed e)
  moreover from assms failed have "error = Some e" by (simp add: between_def)
  ultimately show ?thesis by (simp add: parse_document_end_def)
next
  case (more t ts)
  with assms show ?thesis
    by (cases "t = DocumentEndToken") (simp_all add: parse_document_end_def between_def step_ok_def parser_ok_def
      potential_def goals_def stack_of_def marks_ok_def unread_def)
qed

subsection \<open>Every step and every stream\<close>

lemma parser_ok_inside:
  assumes "parser_ok s" and "ps_state s = Some st" and "\<not> bottom st"
  shows "inside st (ps_error s) (potential s) s" and "goals s = goals_in st s"
  using assms by (auto simp: parser_ok_def inside_def potential_def goals_def goals_in_def stack_of_def)

lemma parser_ok_between:
  assumes "parser_ok s" and "ps_state s = Some st" and "bottom st"
  shows "between (ps_error s) (potential s) s" and "goals s = state_goals st"
    and "potential s = 6 * length (ps_tokens s) + state_weight st"
  using assms state_weight_pos[of st]
  by (cases st; auto simp: parser_ok_def between_def potential_def goals_def stack_of_def marks_ok_def)+

lemma parser_step:
  assumes "parser_ok s" and "ps_state s = Some st"
  shows "step_ok (ps_error s) (goals s) (potential s) (parse_state st s)"
proof (cases "bottom st")
  case True
  note between = parser_ok_between[OF assms True]
  have "step_ok (ps_error s) [GStream] (potential s) (parse_stream_start s)" if "st = Stream_start"
    using assms between that by (cases "ps_tokens s") (auto simp: parse_stream_start_def between_def step_ok_def
      parser_ok_def potential_def goals_def stack_of_def marks_ok_def unread_def)
  then show ?thesis
    using True document_start_step[OF between(1)] implicit_document_start_step[OF between(1)]
      document_end_step[OF between(1)] between(2,3) by (cases st) simp_all
next
  case False
  note inside = parser_ok_inside[OF assms False]
  show ?thesis
  proof (cases "reads_blindly st")
    case True
    with assms obtain t ts where more: "ps_tokens s = t # ts" "t \<noteq> StreamEndToken"
      by (cases "ps_tokens s") (auto simp: parser_ok_def)
    note first = first_step[OF _ more]
    show ?thesis
      using True False inside
        first[OF _ _ _ _ _ _ step_ok_mono[OF block_sequence_entry_step], of Block_sequence_first_entry]
        first[OF _ _ _ _ _ _ step_ok_mono[OF block_mapping_key_step], of Block_mapping_first_key]
        first[OF _ _ _ _ _ _ flow_sequence_entry_step[where first = True, simplified], of Flow_sequence_first_entry]
        first[OF _ _ _ _ _ _ flow_mapping_key_step[where first = True, simplified], of Flow_mapping_first_key]
        flow_entry_mapping_steps(2)[OF _ more]
      by (cases st) (simp_all add: parse_block_sequence_first_entry_def parse_block_mapping_first_key_def
        parse_flow_sequence_first_entry_def parse_flow_mapping_first_key_def)
  next
    case blind: False
    then show ?thesis
      using False inside parse_node_step[OF inside_node]
        block_sequence_entry_step block_mapping_key_step block_mapping_value_step indentless_sequence_entry_step
        flow_sequence_entry_step[where first = False, simplified] flow_mapping_key_step[where first = False, simplified]
        flow_mapping_value_step flow_mapping_empty_value_step flow_entry_mapping_steps(1,3) document_content_step
      by (cases st) (simp_all add: parse_defs)
  qed
qed

text \<open>The whole stream.\<close>

primrec accepts :: "goal list \<Rightarrow> event list \<Rightarrow> goal list option" where
  "accepts gs [] = Some gs"
| "accepts gs (e # es) = (case expect e gs of None \<Rightarrow> None | Some gs' \<Rightarrow> accepts gs' es)"

definition well_nested :: "event list \<Rightarrow> bool \<Rightarrow> bool" where
  "well_nested evs finished = (case accepts [GStream] evs of None \<Rightarrow> False | Some gs \<Rightarrow> finished \<longrightarrow> gs = [])"

lemma parse_events_step:
  assumes "parser_ok s" and "potential s < fuel" and "parse_events fuel s = (evs, r)"
  shows "(r = None \<or> r = Some parser_error \<or> r = ps_error s)
    \<and> (\<exists>gs. accepts (goals s) evs = Some gs \<and> (r = None \<longrightarrow> gs = []))"
  using assms
proof (induction fuel arbitrary: s evs r)
  case (Suc fuel)
  show ?case
  proof (cases "ps_state s")
    case None
    with Suc.prems show ?thesis by (auto simp: goals_def stack_of_def)
  next
    case (Some st)
    note step = parser_step[OF Suc.prems(1) Some]
    obtain x t where run: "parse_state st s = (x, t)" by fastforce
    show ?thesis
    proof (cases x)
      case (Inl e)
      with step run Suc.prems(3) Some show ?thesis by auto
    next
      case (Inr ev)
      obtain evs' where rest: "parse_events fuel t = (evs', r)" "evs = ev # evs'"
        using Suc.prems(3) Some run Inr by (auto split: prod.splits)
      from step run Inr have t: "parser_ok t" "potential t < potential s" "expect ev (goals s) = Some (goals t)"
        "ps_error t = ps_error s"
        by (simp_all add: step_ok_def)
      with Suc.IH[OF t(1) _ rest(1)] Suc.prems(2) rest(2) show ?thesis by simp
    qed
  qed
qed simp

lemma parser_delivers:
  assumes "tokens = StreamStartToken # rest" and "error = None \<longrightarrow> StreamEndToken \<in> set rest"
  shows "snd (all_events tokens error) \<in> {None, Some parser_error, error}
    \<and> well_nested (fst (all_events tokens error)) (snd (all_events tokens error) = None)"
proof -
  obtain evs r where run: "all_events tokens error = (evs, r)" by fastforce
  let ?s = "new_parser tokens error"
  have ok: "parser_ok ?s" using assms by (simp add: parser_ok_def new_parser_def marks_ok_def unread_def)
  have goals: "goals ?s = [GStream]" by (simp add: goals_def stack_of_def new_parser_def)
  have "potential ?s < 6 * length tokens + 6" by (simp add: potential_def stack_of_def new_parser_def)
  from parse_events_step[OF ok this run[unfolded all_events_def]] goals run
  show ?thesis
    by (auto simp: well_nested_def new_parser_def)
qed

text \<open>
  C20: The parser ends on every token stream: after at most six events per token it has reached the end of the stream,
  raised a ParserError or passed on the error of the scanner. It raises nothing else (no IndexError from its stacks,
  no AssertionError), and the events it delivered are nested as a composer expects them, completely so when it
  reached the end.
\<close>

theorem parser_delivers_documents:
  assumes "tokens = StreamStartToken # rest" and "error = None \<longrightarrow> StreamEndToken \<in> set rest"
  shows "snd (all_events tokens error) \<in> {None, Some parser_error, error}
    \<and> well_nested (fst (all_events tokens error)) (snd (all_events tokens error) = None)"
  using assms by (rule parser_delivers)

theorem parser_delivers_documents_witness:
  "snd (all_events [StreamStartToken, BlockMappingStartToken, KeyToken, ScalarToken ''a'' True, ValueToken,
      FlowSequenceStartToken, ScalarToken ''b'' True, FlowSequenceEndToken, BlockEndToken, StreamEndToken] None)
    \<in> {None, Some parser_error, None}
   \<and> well_nested (fst (all_events [StreamStartToken, BlockMappingStartToken, KeyToken, ScalarToken ''a'' True, ValueToken,
      FlowSequenceStartToken, ScalarToken ''b'' True, FlowSequenceEndToken, BlockEndToken, StreamEndToken] None))
    (snd (all_events [StreamStartToken, BlockMappingStartToken, KeyToken, ScalarToken ''a'' True, ValueToken,
      FlowSequenceStartToken, ScalarToken ''b'' True, FlowSequenceEndToken, BlockEndToken, StreamEndToken] None) = None)"
  by (rule parser_delivers_documents[OF refl]) simp

end
