(* ===== verification/YamlComposer.thy ===== *)
theory YamlComposer
  imports YamlGrammar YamlScalars
begin

section \<open>From events to values (\<open>yaml/composer.py\<close>, \<open>yaml/constructor.py\<close>)\<close>

text \<open>
  The composer builds nodes from the events, the constructor builds values from the nodes. Composing recurses over
  nested collections: \<open>limit\<close> is the depth at which Python raises RecursionError. An alias is replaced by a copy of
  its node, which differs from the code in two cases only: a node that contains itself is no tree
  (\<open>cyclic_node\<close> stands for the cyclic object the code builds), and values have no identity here.
\<close>

subsection \<open>Nodes\<close>

datatype yaml_node =
    ScalarNode (node_tag: string) (scalar_value: string)
  | SequenceNode (node_tag: string) (items: "yaml_node list")
  | MappingNode (node_tag: string) (pairs: "(yaml_node \<times> yaml_node) list")

definition composer_error :: exn where
  "composer_error = YAMLError (Issue ''ComposerError'' [])"

definition cyclic_node :: exn where
  "cyclic_node = OtherError ''cyclic node''"

text \<open>The anchors of a document; a collection that is still open has no node yet.\<close>

record composer =
  cs_events :: "event list"
  cs_end :: "exn option"
  cs_anchors :: "(string \<times> yaml_node option) list"

type_synonym 'a compose = "(exn, composer, 'a) st"

subsection \<open>The composer\<close>

text \<open>\<open>check_event\<close>, \<open>peek_event\<close> and \<open>get_event\<close>: the parser's error comes when the next event is asked for.\<close>

definition check_event :: "(event \<Rightarrow> bool) \<Rightarrow> bool compose" where
  "check_event p = (\<lambda>s. case cs_events s of
     e # _ \<Rightarrow> (Inr (p e), s)
   | [] \<Rightarrow> ((case cs_end s of Some e \<Rightarrow> Inl e | None \<Rightarrow> Inr False), s))"

definition peek_event :: "event compose" where
  "peek_event = (\<lambda>s. case cs_events s of
     e # _ \<Rightarrow> (Inr e, s)
   | [] \<Rightarrow> (Inl (case cs_end s of Some e \<Rightarrow> e | None \<Rightarrow> AttributeError), s))"

definition get_event :: "event compose" where
  "get_event = (\<lambda>s. case cs_events s of
     e # es \<Rightarrow> (Inr e, s\<lparr>cs_events := es\<rparr>)
   | [] \<Rightarrow> (Inl (case cs_end s of Some e \<Rightarrow> e | None \<Rightarrow> AttributeError), s))"

definition remember :: "string option \<Rightarrow> yaml_node option \<Rightarrow> unit compose" where
  "remember anchor n = (case anchor of None \<Rightarrow> ret ()
     | Some a \<Rightarrow> modifyM (\<lambda>s. s\<lparr>cs_anchors := adict_set (cs_anchors s) a n\<rparr>))"

definition fresh_anchor :: "string option \<Rightarrow> unit compose" where
  "fresh_anchor anchor = bindM getM (\<lambda>s. case anchor of
     Some a \<Rightarrow> if map_of (cs_anchors s) a \<noteq> None then raise composer_error else ret ()
   | None \<Rightarrow> ret ())"

definition untagged :: "string option \<Rightarrow> bool" where
  "untagged tag \<longleftrightarrow> tag = None \<or> tag = Some ''!''"

definition compose_alias :: "string \<Rightarrow> yaml_node compose" where
  "compose_alias anchor = bindM get_event (\<lambda>_. bindM getM (\<lambda>s. case map_of (cs_anchors s) anchor of
     None \<Rightarrow> raise composer_error | Some None \<Rightarrow> raise cyclic_node | Some (Some n) \<Rightarrow> ret n))"

definition compose_scalar_node :: "string option \<Rightarrow> string option \<Rightarrow> bool \<times> bool \<Rightarrow> string \<Rightarrow> yaml_node compose" where
  "compose_scalar_node anchor tag implicit value = bindM get_event (\<lambda>_.
     let n = ScalarNode (if untagged tag then resolve_scalar value (fst implicit) else the tag) value in
     bindM (remember anchor (Some n)) (\<lambda>_. ret n))"

text \<open>
  The loop of a collection asks for items until the end of the collection; every item takes an event at least, so
  the number of events that are left bounds the number of rounds (\<open>rounds\<close>).
\<close>

primrec compose_items :: "event \<Rightarrow> 'a compose \<Rightarrow> nat \<Rightarrow> 'a list compose" where
  "compose_items stop item 0 = raise (OtherError ''rounds'')"
| "compose_items stop item (Suc rounds) = bindM (check_event (\<lambda>e. e = stop)) (\<lambda>b.
     if b then bindM get_event (\<lambda>_. ret [])
     else bindM item (\<lambda>x. bindM (compose_items stop item rounds) (\<lambda>xs. ret (x # xs))))"

definition compose_all_items :: "event \<Rightarrow> 'a compose \<Rightarrow> 'a list compose" where
  "compose_all_items stop item = bindM getM (\<lambda>s. compose_items stop item (Suc (length (cs_events s))))"

definition compose_sequence_node :: "yaml_node compose \<Rightarrow> string option \<Rightarrow> string option \<Rightarrow> yaml_node compose" where
  "compose_sequence_node item anchor tag = bindM get_event (\<lambda>_. bindM (remember anchor None) (\<lambda>_.
     bindM (compose_all_items SequenceEndEvent item) (\<lambda>ns.
     let n = SequenceNode (if untagged tag then DEFAULT_SEQUENCE_TAG else the tag) ns in
     bindM (remember anchor (Some n)) (\<lambda>_. ret n))))"

definition compose_mapping_node :: "yaml_node compose \<Rightarrow> string option \<Rightarrow> string option \<Rightarrow> yaml_node compose" where
  "compose_mapping_node item anchor tag = bindM get_event (\<lambda>_. bindM (remember anchor None) (\<lambda>_.
     bindM (compose_all_items MappingEndEvent (bindM item (\<lambda>k. bindM item (\<lambda>v. ret (k, v))))) (\<lambda>ns.
     let n = MappingNode (if untagged tag then DEFAULT_MAPPING_TAG else the tag) ns in
     bindM (remember anchor (Some n)) (\<lambda>_. ret n))))"

primrec compose_node :: "nat \<Rightarrow> yaml_node compose" where
  "compose_node 0 = raise (OtherError ''RecursionError'')"
| "compose_node (Suc limit) = bindM peek_event (\<lambda>e. case e of
     AliasEvent a \<Rightarrow> compose_alias a
   | ScalarEvent anchor tag implicit value \<Rightarrow> bindM (fresh_anchor anchor) (\<lambda>_. compose_scalar_node anchor tag implicit value)
   | SequenceStartEvent anchor tag _ \<Rightarrow> bindM (fresh_anchor anchor) (\<lambda>_. compose_sequence_node (compose_node limit) anchor tag)
   | MappingStartEvent anchor tag _ \<Rightarrow> bindM (fresh_anchor anchor) (\<lambda>_. compose_mapping_node (compose_node limit) anchor tag)
   | _ \<Rightarrow> raise AttributeError)"

definition compose_document :: "nat \<Rightarrow> yaml_node compose" where
  "compose_document limit = bindM get_event (\<lambda>_. bindM (compose_node limit) (\<lambda>n. bindM get_event (\<lambda>_.
     bindM (modifyM (\<lambda>s. s\<lparr>cs_anchors := []\<rparr>)) (\<lambda>_. ret n))))"

definition get_single_node :: "nat \<Rightarrow> yaml_node option compose" where
  "get_single_node limit = bindM get_event (\<lambda>_. bindM (check_event (\<lambda>e. e = StreamEndEvent)) (\<lambda>empty.
     bindM (if empty then ret None else bindM (compose_document limit) (\<lambda>n. ret (Some n))) (\<lambda>document.
     bindM (check_event (\<lambda>e. e = StreamEndEvent)) (\<lambda>b. if b then bindM get_event (\<lambda>_. ret document)
       else bindM get_event (\<lambda>_. raise composer_error)))))"

subsection \<open>The constructor\<close>

text \<open>\<open>SafeConstructor.construct_scalar\<close>: the value of a scalar, or of the key \<open>=\<close> of a mapping.\<close>

fun construct_scalar :: "yaml_node \<Rightarrow> string res" and value_entry :: "(yaml_node \<times> yaml_node) list \<Rightarrow> string res" where
  "construct_scalar (ScalarNode t v) = Inr v"
| "construct_scalar (SequenceNode t ns) = Inl constructor_error"
| "construct_scalar (MappingNode t ps) = value_entry ps"
| "value_entry [] = Inl constructor_error"
| "value_entry ((k, v) # ps) = (if node_tag k = yaml_tag ''value'' then construct_scalar v else value_entry ps)"

text \<open>
  \<open>flatten_mapping\<close>: the entries merged in by \<open><<\<close>, and the other ones. Of a list of mappings the first counts most,
  so their entries are put in reverse order.
\<close>

definition retag_value :: "yaml_node \<Rightarrow> yaml_node" where
  "retag_value k = (case k of
     ScalarNode t v \<Rightarrow> if t = yaml_tag ''value'' then ScalarNode (yaml_tag ''str'') v else k
   | SequenceNode t ns \<Rightarrow> if t = yaml_tag ''value'' then SequenceNode (yaml_tag ''str'') ns else k
   | MappingNode t ps \<Rightarrow> if t = yaml_tag ''value'' then MappingNode (yaml_tag ''str'') ps else k)"

fun flatten_mapping :: "(yaml_node \<times> yaml_node) list \<Rightarrow> ((yaml_node \<times> yaml_node) list \<times> (yaml_node \<times> yaml_node) list) res"
  and flatten_all :: "yaml_node list \<Rightarrow> (yaml_node \<times> yaml_node) list list res" where
  "flatten_mapping [] = Inr ([], [])"
| "flatten_mapping ((k, v) # ps) =
     (if node_tag k = yaml_tag ''merge''
      then rbind (case v of
          MappingNode t qs \<Rightarrow> rbind (flatten_mapping qs) (\<lambda>(merged, own). Inr (merged @ own))
        | SequenceNode t ns \<Rightarrow> rbind (flatten_all ns) (\<lambda>qss. Inr (concat (rev qss)))
        | ScalarNode t s \<Rightarrow> Inl constructor_error) (\<lambda>new.
        rbind (flatten_mapping ps) (\<lambda>(merged, own). Inr (new @ merged, own)))
      else rbind (flatten_mapping ps) (\<lambda>(merged, own). Inr (merged, (retag_value k, v) # own)))"
| "flatten_all [] = Inr []"
| "flatten_all (n # ns) = (case n of
     MappingNode t qs \<Rightarrow> rbind (flatten_mapping qs) (\<lambda>(merged, own).
       rbind (flatten_all ns) (\<lambda>qss. Inr ((merged @ own) # qss)))
   | _ \<Rightarrow> Inl constructor_error)"

definition flattened :: "(yaml_node \<times> yaml_node) list \<Rightarrow> (yaml_node \<times> yaml_node) list res" where
  "flattened ps = rbind (flatten_mapping ps) (\<lambda>(merged, own). Inr (merged @ own))"

text \<open>
  A value that is no collection. The tags \<open>binary\<close>, \<open>omap\<close>, \<open>pairs\<close> and \<open>set\<close>, which can only be written
  explicitly, are not modelled: \<open>unsupported_tag\<close> stands for what the code does with them.
\<close>

definition unsupported_tag :: exn where
  "unsupported_tag = OtherError ''unsupported tag''"

definition construct_leaf :: "yaml_node \<Rightarrow> pyval res" where
  "construct_leaf n = rbind (construct_scalar n) (\<lambda>text. case construct_scalar_tag (node_tag n) text of
     Some r \<Rightarrow> (case n of
         MappingNode t ps \<Rightarrow> if t = yaml_tag ''timestamp'' then Inl TypeError else r
       | _ \<Rightarrow> r)
   | None \<Rightarrow> Inl unsupported_tag)"

definition is_collection :: "yaml_node \<Rightarrow> bool" where
  "is_collection n \<longleftrightarrow> node_tag n = yaml_tag ''seq'' \<or> node_tag n = yaml_tag ''map''"

text \<open>
  \<open>construct_object\<close> and \<open>construct_document\<close>: a collection is at first an empty object and is filled by a generator
  that runs later, so the nodes are visited level by level, and the error of the first level that has one is
  raised. \<open>visit\<close> is the visit of a node; it gives the collections whose generators are still to run.
\<close>

definition visit :: "yaml_node \<Rightarrow> yaml_node list res" where
  "visit n = (if is_collection n then Inr [n] else rbind (construct_leaf n) (\<lambda>_. Inr []))"

definition visit_pair :: "yaml_node \<times> yaml_node \<Rightarrow> yaml_node list res" where
  "visit_pair = (\<lambda>(k, v). if is_collection k then Inl constructor_error
     else rbind (construct_leaf k) (\<lambda>key. if hashable key then visit v else Inl constructor_error))"

definition run_generator :: "yaml_node \<Rightarrow> yaml_node list res" where
  "run_generator n = (if node_tag n = yaml_tag ''seq''
     then (case n of SequenceNode t ns \<Rightarrow> rbind (rmapM visit ns) (\<lambda>xs. Inr (concat xs)) | _ \<Rightarrow> Inl constructor_error)
     else (case n of MappingNode t ps \<Rightarrow> rbind (flattened ps) (\<lambda>ps. rbind (rmapM visit_pair ps) (\<lambda>xs. Inr (concat xs)))
       | _ \<Rightarrow> Inl constructor_error))"

primrec run_generators :: "nat \<Rightarrow> yaml_node list \<Rightarrow> unit res" where
  "run_generators 0 ns = Inl (OtherError ''rounds'')"
| "run_generators (Suc rounds) ns = (if ns = [] then Inr ()
     else rbind (rmapM run_generator ns) (\<lambda>xs. run_generators rounds (concat xs)))"

text \<open>The object that results when no generator raises.\<close>

definition leaf_value :: "yaml_node \<Rightarrow> pyval" where
  "leaf_value n = (case construct_leaf n of Inr v \<Rightarrow> v | Inl _ \<Rightarrow> VNone)"

primrec node_value :: "nat \<Rightarrow> yaml_node \<Rightarrow> pyval" where
  "node_value 0 n = VNone"
| "node_value (Suc depth) n = (case n of
     ScalarNode t v \<Rightarrow> leaf_value n
   | SequenceNode t ns \<Rightarrow> if t = yaml_tag ''seq'' then VList (map (node_value depth) ns) else leaf_value n
   | MappingNode t ps \<Rightarrow> if t = yaml_tag ''map''
       then VDict (foldl (\<lambda>d (k, v). key_set d (node_value depth k) (node_value depth v)) []
         (case flattened ps of Inr qs \<Rightarrow> qs | Inl _ \<Rightarrow> []))
       else leaf_value n)"

text \<open>The number of nodes bounds the number of levels (\<open>generators_end\<close>) and the depth of the value (\<open>node_value_enough\<close>).\<close>

fun node_count :: "yaml_node \<Rightarrow> nat" where
  "node_count (ScalarNode t v) = 1"
| "node_count (SequenceNode t ns) = Suc (sum_list (map node_count ns))"
| "node_count (MappingNode t ps) = Suc (sum_list (map (\<lambda>(k, v). node_count k + node_count v) ps))"

definition construct_document :: "yaml_node \<Rightarrow> pyval res" where
  "construct_document n = rbind (visit n) (\<lambda>ns.
     rbind (run_generators (Suc (node_count n)) ns) (\<lambda>_. Inr (node_value (node_count n) n)))"

text \<open>\<open>yaml.safe_load\<close>, from the tokens of the scanner and its error.\<close>

definition safe_load :: "nat \<Rightarrow> token list \<Rightarrow> exn option \<Rightarrow> pyval res" where
  "safe_load limit tokens error = (case all_events tokens error of (events, r) \<Rightarrow>
     rbind (fst (get_single_node limit \<lparr>cs_events = events, cs_end = r, cs_anchors = []\<rparr>)) (\<lambda>document.
       case document of None \<Rightarrow> Inr VNone | Some n \<Rightarrow> construct_document n))"

end
