(* ===== verification/YamlLoad.thy ===== *)
theory YamlLoad
  imports YamlComposer
begin

section \<open>Loading YAML never crashes\<close>

subsection \<open>The composer reads what the parser promises\<close>

text \<open>The events still to come fulfil the goals, up to an error.\<close>

definition promised :: "goal list \<Rightarrow> exn option \<Rightarrow> composer \<Rightarrow> bool" where
  "promised gs error s \<longleftrightarrow> cs_end s = error \<and>
     (\<exists>rest. accepts gs (cs_events s) = Some rest \<and> (error = None \<longrightarrow> rest = []))"

text \<open>The errors of the composer.\<close>

definition composing_error :: "exn option \<Rightarrow> exn \<Rightarrow> bool" where
  "composing_error error e \<longleftrightarrow> e \<in> {composer_error, cyclic_node, OtherError ''RecursionError''} \<or> error = Some e"

lemma promised_cases:
  assumes "promised (g # gs) error s"
  obtains (more) e es gs' where "cs_events s = e # es" "expect e (g # gs) = Some gs'"
      "promised gs' error (s\<lparr>cs_events := es\<rparr>)"
    | (failed) x where "cs_events s = []" "cs_end s = Some x" "error = Some x"
  using assms by (cases "cs_events s"; cases "cs_end s")
    (auto simp: promised_def split: option.splits)

lemma event_steps [simp]:
  "cs_events s = e # es \<Longrightarrow> check_event p s = (Inr (p e), s)"
  "cs_events s = e # es \<Longrightarrow> peek_event s = (Inr e, s)"
  "cs_events s = e # es \<Longrightarrow> get_event s = (Inr e, s\<lparr>cs_events := es\<rparr>)"
  "cs_events s = [] \<Longrightarrow> cs_end s = Some x \<Longrightarrow> check_event p s = (Inl x, s)"
  "cs_events s = [] \<Longrightarrow> cs_end s = Some x \<Longrightarrow> peek_event s = (Inl x, s)"
  "cs_events s = [] \<Longrightarrow> cs_end s = Some x \<Longrightarrow> get_event s = (Inl x, s)"
  by (simp_all add: check_event_def peek_event_def get_event_def)

lemma check_event_bind [simp]: "cs_events s = e # es \<Longrightarrow> bindM (check_event p) k s = k (p e) s"
  by (simp add: bindM_def)

lemma event_update_steps [simp]:
  "bindM (check_event p) k (s\<lparr>cs_events := e # es\<rparr>) = k (p e) (s\<lparr>cs_events := e # es\<rparr>)"
  "check_event p (s\<lparr>cs_events := e # es\<rparr>) = (Inr (p e), s\<lparr>cs_events := e # es\<rparr>)"
  "peek_event (s\<lparr>cs_events := e # es\<rparr>) = (Inr e, s\<lparr>cs_events := e # es\<rparr>)"
  "get_event (s\<lparr>cs_events := e # es\<rparr>) = (Inr e, s\<lparr>cs_events := es\<rparr>)"
  by simp_all

lemma promised_events: "promised gs error s \<Longrightarrow> cs_events t = cs_events s \<Longrightarrow> cs_end t = cs_end s \<Longrightarrow> promised gs error t"
  by (simp add: promised_def)

text \<open>Composing an item takes the events of one goal, at least one of them.\<close>

definition composes :: "goal list \<Rightarrow> 'a compose \<Rightarrow> bool" where
  "composes hs m \<longleftrightarrow> (\<forall>gs error s. promised (hs @ gs) error s \<longrightarrow> (case m s of
     (Inl e, t) \<Rightarrow> composing_error error e
   | (Inr _, t) \<Rightarrow> promised gs error t \<and> length (cs_events t) < length (cs_events s)))"

lemma composesI:
  assumes "\<And>gs error s e t. promised (hs @ gs) error s \<Longrightarrow> m s = (Inl e, t) \<Longrightarrow> composing_error error e"
    and "\<And>gs error s x t. promised (hs @ gs) error s \<Longrightarrow> m s = (Inr x, t) \<Longrightarrow>
      promised gs error t \<and> length (cs_events t) < length (cs_events s)"
  shows "composes hs m"
  using assms by (fastforce simp: composes_def split: prod.splits sum.splits)

lemma composes_raises: "composes hs m \<Longrightarrow> promised (hs @ gs) error s \<Longrightarrow> m s = (Inl e, t) \<Longrightarrow> composing_error error e"
  and composes_returns: "composes hs m \<Longrightarrow> promised (hs @ gs) error s \<Longrightarrow> m s = (Inr x, t) \<Longrightarrow>
     promised gs error t \<and> length (cs_events t) < length (cs_events s)"
  by (fastforce simp: composes_def)+

lemma expect_item: "expect e (GNode # gs) = node_goals e gs"
  by simp

lemma items_compose:
  assumes item: "composes hs item" and "g = GSeq \<and> stop = SequenceEndEvent \<and> hs = [GNode]
      \<or> g = GMap \<and> stop = MappingEndEvent \<and> hs = [GNode, GNode]"
    and "promised (g # gs) error s" and "length (cs_events s) < rounds"
  shows "case compose_items stop item rounds s of (Inl e, t) \<Rightarrow> composing_error error e
    | (Inr _, t) \<Rightarrow> promised gs error t \<and> length (cs_events t) < length (cs_events s)"
  using assms(3,4)
proof (induction rounds arbitrary: s)
  case (Suc rounds)
  from Suc.prems(1) show ?case
  proof (cases rule: promised_cases)
    case (failed x)
    then show ?thesis by (simp add: composing_error_def)
  next
    case (more e es gs')
    show ?thesis
    proof (cases "e = stop")
      case True
      with assms(2) more have "gs' = gs" by auto
      with more True show ?thesis by simp
    next
      case False
      have "expect e (g # gs) = node_goals e (tl hs @ g # gs)" using assms(2) False by (cases e) auto
      then have "promised (hs @ g # gs) error s"
        using Suc.prems(1) more(1) assms(2) by (auto simp: promised_def)
      note item = composes_raises[OF item this] composes_returns[OF item this]
      obtain r t where run: "item s = (r, t)" by fastforce
      show ?thesis
      proof (cases r)
        case (Inl x)
        with item(1) run more False show ?thesis by simp
      next
        case (Inr x)
        with item(2) run have t: "promised (g # gs) error t" "length (cs_events t) < length (cs_events s)" by auto
        from Suc.IH[OF t(1)] t(2) Suc.prems(2) run Inr more False show ?thesis
          by (auto simp: bindM_def split: prod.splits sum.splits)
      qed
    qed
  qed
qed simp

lemma remember_step:
  "remember anchor n s = (Inr (), s\<lparr>cs_anchors := (case anchor of None \<Rightarrow> cs_anchors s
     | Some a \<Rightarrow> adict_set (cs_anchors s) a n)\<rparr>)"
  by (cases anchor) (simp_all add: remember_def)

lemma promised_anchors [simp]: "promised gs error (s\<lparr>cs_anchors := a\<rparr>) = promised gs error s"
  by (simp add: promised_def)

lemma fresh_anchor_step: "fresh_anchor anchor s = (Inl composer_error, s) \<or> fresh_anchor anchor s = (Inr (), s)"
  by (cases anchor) (auto simp: fresh_anchor_def)

text \<open>The events of a node, after \<open>peek_event\<close> has seen the first of them.\<close>

lemma collection_composes:
  assumes "composes hs item" and "g = GSeq \<and> stop = SequenceEndEvent \<and> hs = [GNode]
      \<or> g = GMap \<and> stop = MappingEndEvent \<and> hs = [GNode, GNode]"
    and "cs_events s = e # es" and "promised (g # gs) error (s\<lparr>cs_events := es\<rparr>)"
    and "m = bindM get_event (\<lambda>_. bindM (remember anchor None) (\<lambda>_. bindM (compose_all_items stop item) (\<lambda>ns.
      bindM (remember anchor (Some (f ns))) (\<lambda>_. ret (f ns)))))"
  shows "case m s of (Inl e, t) \<Rightarrow> composing_error error e
    | (Inr _, t) \<Rightarrow> promised gs error t \<and> length (cs_events t) < length (cs_events s)"
proof -
  define u where "u = s\<lparr>cs_events := es, cs_anchors := (case anchor of None \<Rightarrow> cs_anchors s
     | Some a \<Rightarrow> adict_set (cs_anchors s) a None)\<rparr>"
  have u: "promised (g # gs) error u" "length (cs_events u) < length (cs_events s)"
    using assms(3,4) by (auto simp: u_def promised_def)
  have m: "m s = bindM (compose_all_items stop item) (\<lambda>ns. bindM (remember anchor (Some (f ns))) (\<lambda>_. ret (f ns))) u"
    using assms(3) by (cases anchor) (simp_all add: assms(5) remember_step u_def)
  from items_compose[OF assms(1,2) u(1), of "Suc (length (cs_events u))"] u(2) show ?thesis
    unfolding m by (auto simp: compose_all_items_def bindM_def remember_step split: prod.splits sum.splits)
qed

lemma pair_composes:
  assumes "composes [GNode] item"
  shows "composes [GNode, GNode] (bindM item (\<lambda>k. bindM item (\<lambda>v. ret (k, v))))"
proof (rule composesI)
  fix gs error s e t
  assume s: "promised ([GNode, GNode] @ gs) error s"
    and "bindM item (\<lambda>k. bindM item (\<lambda>v. ret (k, v))) s = (Inl e, t)"
  then show "composing_error error e"
    using composes_raises[OF assms, of "GNode # gs" error s] composes_returns[OF assms, of "GNode # gs" error s]
      composes_raises[OF assms, of gs error]
    by (fastforce elim!: bindM_InlE)
next
  fix gs error s x t
  assume s: "promised ([GNode, GNode] @ gs) error s"
    and "bindM item (\<lambda>k. bindM item (\<lambda>v. ret (k, v))) s = (Inr x, t)"
  then obtain k u v where "item s = (Inr k, u)" "item u = (Inr v, t)" by (auto elim!: bindM_InrE)
  moreover from s this(1) have "promised ([GNode] @ gs) error u \<and> length (cs_events u) < length (cs_events s)"
    using composes_returns[OF assms, of "GNode # gs" error s] by simp
  ultimately show "promised gs error t \<and> length (cs_events t) < length (cs_events s)"
    using composes_returns[OF assms] by fastforce
qed

lemma node_composes: "composes [GNode] (compose_node limit)"
proof (induction limit)
  case 0
  show ?case by (simp add: composes_def composing_error_def)
next
  case (Suc limit)
  show ?case
    unfolding composes_def
  proof (intro allI impI)
    fix gs error and s :: composer
    let ?ok = "\<lambda>r. case r of (Inl e, t) \<Rightarrow> composing_error error e
      | (Inr _, t) \<Rightarrow> promised gs error t \<and> length (cs_events t) < length (cs_events s)"
    assume s: "promised ([GNode] @ gs) error s"
    then have "promised (GNode # gs) error s" by simp
    then show "?ok (compose_node (Suc limit) s)"
    proof (cases rule: promised_cases)
      case (failed x)
      then show ?thesis by (simp add: composing_error_def)
    next
      case (more e es gs')
      have rest: "?ok (bindM (fresh_anchor anchor) (\<lambda>_. m) s)" if "?ok (m s)" for anchor m
        using fresh_anchor_step[of anchor s] that by (auto simp: composing_error_def)
      have seq: "?ok (compose_sequence_node (compose_node limit) anchor tag s)" if "gs' = GSeq # gs" for anchor tag
        using collection_composes[OF Suc.IH, of GSeq SequenceEndEvent s e es gs error _ anchor
            "\<lambda>ns. SequenceNode (if untagged tag then DEFAULT_SEQUENCE_TAG else the tag) ns"] more that
        by (simp add: compose_sequence_node_def Let_def)
      have map: "?ok (compose_mapping_node (compose_node limit) anchor tag s)" if "gs' = GMap # gs" for anchor tag
        using collection_composes[OF pair_composes[OF Suc.IH], of GMap MappingEndEvent s e es gs error _ anchor
            "\<lambda>ns. MappingNode (if untagged tag then DEFAULT_MAPPING_TAG else the tag) ns"] more that
        by (simp add: compose_mapping_node_def Let_def)
      have scalar: "?ok (compose_scalar_node anchor tag implicit v s)" if "gs' = gs" for anchor tag implicit v
        using more that by (simp add: compose_scalar_node_def remember_step Let_def)
      have copy: "?ok (compose_alias a s)" if "gs' = gs" for a
        using more that by (simp add: compose_alias_def composing_error_def split: option.split)
      show ?thesis
      proof (cases e)
        case (AliasEvent a)
        with more copy show ?thesis by simp
      next
        case (ScalarEvent anchor tag implicit v)
        with more rest[of "compose_scalar_node anchor tag implicit v" anchor] scalar show ?thesis by simp
      next
        case (SequenceStartEvent anchor tag b)
        with more rest[of "compose_sequence_node (compose_node limit) anchor tag" anchor] seq show ?thesis by simp
      next
        case (MappingStartEvent anchor tag b)
        with more rest[of "compose_mapping_node (compose_node limit) anchor tag" anchor] map show ?thesis by simp
      qed (use more in simp_all)
    qed
  qed
qed

lemma document_composes:
  assumes "promised (GDocs # gs) error s" and "cs_events s = DocumentStartEvent b # es"
  shows "case compose_document limit s of (Inl e, t) \<Rightarrow> composing_error error e
    | (Inr _, t) \<Rightarrow> promised (GDocs # gs) error t"
proof -
  let ?s = "s\<lparr>cs_events := es\<rparr>"
  have s: "promised ([GNode] @ GDocEnd # GDocs # gs) error ?s" using assms by (simp add: promised_def)
  obtain r t where run: "compose_node limit ?s = (r, t)" by fastforce
  show ?thesis
  proof (cases r)
    case (Inl e)
    with composes_raises[OF node_composes s] run show ?thesis by (simp add: compose_document_def assms(2))
  next
    case (Inr n)
    with composes_returns[OF node_composes s] run have "promised (GDocEnd # GDocs # gs) error t" by auto
    then show ?thesis
    proof (cases rule: promised_cases)
      case (failed x)
      with run Inr show ?thesis by (simp add: compose_document_def assms(2) composing_error_def)
    next
      case (more e es gs')
      then have "gs' = GDocs # gs" by (cases e) simp_all
      with run Inr more show ?thesis by (simp add: compose_document_def assms(2) promised_def)
    qed
  qed
qed

lemma single_node_composes:
  assumes "promised [GStream] error s"
  shows "case get_single_node limit s of (Inl e, t) \<Rightarrow> composing_error error e | (Inr _, t) \<Rightarrow> True"
  using assms
proof (cases rule: promised_cases)
  case (failed x)
  then show ?thesis by (simp add: get_single_node_def composing_error_def)
next
  case (more e es gs')
  then have docs: "promised [GDocs] error (s\<lparr>cs_events := es\<rparr>)" by (cases e) simp_all
  have rest: "case bindM (check_event (\<lambda>e. e = StreamEndEvent)) (\<lambda>b. if b then bindM get_event (\<lambda>_. ret d)
       else bindM get_event (\<lambda>_. raise composer_error)) t of (Inl e, t) \<Rightarrow> composing_error error e | (Inr _, t) \<Rightarrow> True"
    if "promised [GDocs] error t" for d :: "yaml_node option" and t
    using that
  proof (cases rule: promised_cases)
    case (failed x)
    then show ?thesis by (simp add: composing_error_def)
  next
    case (more e es gs')
    then show ?thesis by (cases "e = StreamEndEvent") (simp_all add: composing_error_def)
  qed
  from docs show ?thesis
  proof (cases rule: promised_cases)
    case (failed x)
    with more show ?thesis by (simp add: get_single_node_def composing_error_def)
  next
    case next_one: (more e2 es2 gs2)
    then consider "e2 = StreamEndEvent" | b where "e2 = DocumentStartEvent b" by (cases e2) simp_all
    then show ?thesis
    proof cases
      case 1
      with more next_one show ?thesis by (simp add: get_single_node_def)
    next
      case 2
      obtain r t where run: "compose_document limit (s\<lparr>cs_events := es\<rparr>) = (r, t)" by fastforce
      from document_composes[OF docs, of b es2 limit] 2 next_one run
      show ?thesis using more rest[of t] by (cases r) (simp_all add: get_single_node_def)
    qed
  qed
qed

subsection \<open>The constructor visits every node once\<close>

abbreviation pairs_count :: "(yaml_node \<times> yaml_node) list \<Rightarrow> nat" where
  "pairs_count ps \<equiv> sum_list (map (\<lambda>(k, v). node_count k + node_count v) ps)"

definition small_pairs :: "nat \<Rightarrow> (yaml_node \<times> yaml_node) list \<Rightarrow> bool" where
  "small_pairs c ps \<longleftrightarrow> (\<forall>(k, v) \<in> set ps. node_count k \<le> c \<and> node_count v \<le> c)"

lemma small_pairs_simps [simp]:
  "small_pairs c []" "small_pairs c ((k, v) # ps) \<longleftrightarrow> node_count k \<le> c \<and> node_count v \<le> c \<and> small_pairs c ps"
  "small_pairs c (ps @ qs) \<longleftrightarrow> small_pairs c ps \<and> small_pairs c qs"
  "small_pairs c (concat pss) \<longleftrightarrow> (\<forall>ps \<in> set pss. small_pairs c ps)"
  by (auto simp: small_pairs_def)

lemma small_pairs_mono: "small_pairs c ps \<Longrightarrow> c \<le> d \<Longrightarrow> small_pairs d ps"
  by (fastforce simp: small_pairs_def)

lemma node_count_retag [simp]: "node_count (retag_value k) = node_count k"
  by (simp add: retag_value_def split: yaml_node.split)

lemma flatten_small:
  "flatten_mapping ps = Inr (m, own) \<Longrightarrow> small_pairs (pairs_count ps) (m @ own)"
  "flatten_all ns = Inr qss \<Longrightarrow> \<forall>qs \<in> set qss. small_pairs (sum_list (map node_count ns)) qs"
proof (induction ps and ns arbitrary: m own and qss rule: flatten_mapping_flatten_all.induct)
  case (2 k v ps)
  let ?c = "pairs_count ((k, v) # ps)"
  have ps: "flatten_mapping ps = Inr (m', own') \<Longrightarrow> small_pairs (pairs_count ps) (m' @ own')" for m' own'
    using "2.IH"(3,4) by (cases "node_tag k = yaml_tag ''merge''") simp_all
  show ?case
  proof (cases "node_tag k = yaml_tag ''merge''")
    case False
    with "2.prems" obtain own' where own: "flatten_mapping ps = Inr (m, own')" "own = (retag_value k, v) # own'"
      by auto
    with ps[OF own(1)] show ?thesis by (auto intro: small_pairs_mono)
  next
    case merge: True
    have new: "small_pairs (node_count v) new" if "(case v of
          MappingNode t qs \<Rightarrow> rbind (flatten_mapping qs) (\<lambda>(merged, own). Inr (merged @ own))
        | SequenceNode t ns \<Rightarrow> rbind (flatten_all ns) (\<lambda>qss. Inr (concat (rev qss)))
        | ScalarNode t s \<Rightarrow> Inl constructor_error) = Inr new" for new
    proof (cases v)
      case (SequenceNode t ns)
      with that obtain qss where "flatten_all ns = Inr qss" "new = concat (rev qss)" by auto
      with "2.IH"(1)[OF merge SequenceNode] have "small_pairs (sum_list (map node_count ns)) new" by simp
      then show ?thesis by (rule small_pairs_mono) (simp add: SequenceNode)
    next
      case (MappingNode t qs)
      with that obtain m own where "flatten_mapping qs = Inr (m, own)" "new = m @ own" by auto
      with "2.IH"(2)[OF merge MappingNode] have "small_pairs (pairs_count qs) new" by simp
      then show ?thesis by (rule small_pairs_mono) (simp add: MappingNode)
    qed (use that in simp)
    from "2.prems" merge obtain new m' where parts: "(case v of
          MappingNode t qs \<Rightarrow> rbind (flatten_mapping qs) (\<lambda>(merged, own). Inr (merged @ own))
        | SequenceNode t ns \<Rightarrow> rbind (flatten_all ns) (\<lambda>qss. Inr (concat (rev qss)))
        | ScalarNode t s \<Rightarrow> Inl constructor_error) = Inr new" "flatten_mapping ps = Inr (m', own)" "m = new @ m'"
      by (auto split del: yaml_node.split)
    with new[OF parts(1)] ps[OF parts(2)] show ?thesis by (auto intro: small_pairs_mono)
  qed
next
  case (4 n ns)
  show ?case
  proof (cases n)
    case (MappingNode t qs)
    with "4.prems" obtain m own rest where parts: "flatten_mapping qs = Inr (m, own)" "flatten_all ns = Inr rest"
      "qss = (m @ own) # rest"
      by auto
    with "4.IH"(1)[OF MappingNode parts(1)] "4.IH"(2)[OF MappingNode parts(2)] MappingNode show ?thesis
      by (auto intro: small_pairs_mono)
  qed (use "4.prems" in simp_all)
qed simp_all

lemma flattened_small: "flattened ps = Inr qs \<Longrightarrow> small_pairs (pairs_count ps) qs"
  using flatten_small(1) by (fastforce simp: flattened_def)

lemma visit_small: "visit n = Inr xs \<Longrightarrow> x \<in> set xs \<Longrightarrow> x = n"
  by (auto simp: visit_def split: if_splits)

lemma rmapM_element: "rmapM f xs = Inr ys \<Longrightarrow> y \<in> set ys \<Longrightarrow> \<exists>x \<in> set xs. f x = Inr y"
  by (induction xs arbitrary: ys) auto

lemma run_generator_small:
  assumes "run_generator n = Inr xs" and "x \<in> set xs"
  shows "node_count x < node_count n"
proof (cases n)
  case (ScalarNode t v)
  with assms show ?thesis by (simp add: run_generator_def split: if_splits)
next
  case (SequenceNode t ns)
  with assms obtain yss where "rmapM visit ns = Inr yss" "xs = concat yss"
    by (auto simp: run_generator_def split: if_splits)
  with assms(2) have "x \<in> set ns" by (auto dest!: rmapM_element dest: visit_small)
  then show ?thesis using member_le_sum_list[of "node_count x" "map node_count ns"] SequenceNode by simp
next
  case (MappingNode t ps)
  with assms obtain qs yss where qs: "flattened ps = Inr qs" "rmapM visit_pair qs = Inr yss" "xs = concat yss"
    by (auto simp: run_generator_def split: if_splits)
  with assms(2) obtain q ys where "q \<in> set qs" "visit_pair q = Inr ys" "x \<in> set ys"
    by (auto dest!: rmapM_element)
  then have "x = snd q" by (auto simp: visit_pair_def split: if_splits prod.splits dest: visit_small)
  with flattened_small[OF qs(1)] \<open>q \<in> set qs\<close> MappingNode show ?thesis by (auto simp: small_pairs_def)
qed

subsection \<open>The errors of scalars\<close>

definition scalar_error :: "exn \<Rightarrow> bool" where
  "scalar_error e \<longleftrightarrow> e \<in> {constructor_error, unsupported_tag, KeyError, IndexError, ValueError, OverflowError,
     TypeError, AttributeError}"

lemma scalar_errors [simp]:
  "scalar_error constructor_error" "scalar_error unsupported_tag" "scalar_error KeyError" "scalar_error IndexError"
  "scalar_error ValueError" "scalar_error OverflowError" "scalar_error TypeError" "scalar_error AttributeError"
  by (simp_all add: scalar_error_def)

lemma rmapM_error: "rmapM f xs = Inl e \<Longrightarrow> \<exists>x \<in> set xs. f x = Inl e"
  by (induction xs) (auto simp: rbind_eq_Inl)

lemma construct_scalar_errors:
  "construct_scalar n = Inl e \<Longrightarrow> scalar_error e" "value_entry ps = Inl e \<Longrightarrow> scalar_error e"
  by (induction n and ps rule: construct_scalar_value_entry.induct) (auto split: if_splits)

lemma int_res_error: "int_res r = Inl e \<Longrightarrow> scalar_error e"
  by (auto simp: int_res_def split: option.splits)

lemma float_res_error: "float_res r = Inl e \<Longrightarrow> scalar_error e"
  by (auto simp: float_res_def split: option.splits)

lemma strip_sign_error: "strip_sign s = Inl e \<Longrightarrow> scalar_error e"
  by (auto simp: strip_sign_def split: if_splits list.splits)

lemma construct_yaml_bool_error: "construct_yaml_bool s = Inl e \<Longrightarrow> scalar_error e"
  by (auto simp: construct_yaml_bool_def split: option.splits)

lemma construct_yaml_int_error: "construct_yaml_int s = Inl e \<Longrightarrow> scalar_error e"
  by (auto simp: construct_yaml_int_def rbind_eq_Inl dest!: strip_sign_error int_res_error rmapM_error split: if_splits)

lemma float_of_int_error: "float_of_int i = Inl e \<Longrightarrow> scalar_error e"
  by (auto simp: float_of_int_def split: option.splits pyfloat.splits if_splits)

lemma float_sixty_error: "float_sixty base v ds = Inl e \<Longrightarrow> scalar_error e"
  by (induction base v ds rule: float_sixty.induct) (auto simp: rbind_eq_Inl dest: float_of_int_error)

lemma construct_yaml_float_error: "construct_yaml_float s = Inl e \<Longrightarrow> scalar_error e"
  by (auto simp: construct_yaml_float_def rbind_eq_Inl split: if_splits
    dest!: strip_sign_error float_res_error rmapM_error float_sixty_error)

lemma construct_yaml_timestamp_error: "construct_yaml_timestamp s = Inl e \<Longrightarrow> scalar_error e"
  by (auto simp: construct_yaml_timestamp_def tz_minutes_def rbind_eq_Inl Let_def split: option.splits if_splits prod.splits)

lemma construct_leaf_error: "construct_leaf n = Inl e \<Longrightarrow> scalar_error e"
  by (auto simp: construct_leaf_def construct_scalar_tag_def rbind_eq_Inl split: if_splits yaml_node.splits option.splits
    dest: construct_scalar_errors construct_yaml_bool_error construct_yaml_int_error construct_yaml_float_error
      construct_yaml_timestamp_error)

lemma visit_error: "visit n = Inl e \<Longrightarrow> scalar_error e"
  by (auto simp: visit_def rbind_eq_Inl split: if_splits dest: construct_leaf_error)

lemma flatten_error:
  "flatten_mapping ps = Inl e \<Longrightarrow> e = constructor_error" "flatten_all ns = Inl e \<Longrightarrow> e = constructor_error"
  by (induction ps and ns rule: flatten_mapping_flatten_all.induct) (auto simp: rbind_eq_Inl split: if_splits yaml_node.splits)

lemma visit_pair_error: "visit_pair p = Inl e \<Longrightarrow> scalar_error e"
  by (auto simp: visit_pair_def rbind_eq_Inl split: if_splits prod.splits dest: construct_leaf_error visit_error)

lemma run_generator_error: "run_generator n = Inl e \<Longrightarrow> scalar_error e"
  by (auto simp: run_generator_def flattened_def rbind_eq_Inl split: if_splits yaml_node.splits
    dest!: rmapM_error flatten_error dest: visit_error visit_pair_error)

lemma node_count_pos: "0 < node_count n"
  by (cases n) simp_all

lemma generators_end:
  assumes "\<forall>n \<in> set ns. node_count n < rounds" and "run_generators rounds ns = Inl e" and "0 < rounds"
  shows "scalar_error e"
  using assms
proof (induction rounds arbitrary: ns)
  case (Suc rounds)
  from Suc.prems(2) consider "rmapM run_generator ns = Inl e"
    | xss where "rmapM run_generator ns = Inr xss" "run_generators rounds (concat xss) = Inl e" "ns \<noteq> []"
    by (auto simp: rbind_eq_Inl split: if_splits)
  then show ?case
  proof cases
    case 1
    then show ?thesis by (auto dest!: rmapM_error run_generator_error)
  next
    case 2
    have small: "\<forall>n \<in> set (concat xss). node_count n < rounds"
    proof
      fix x assume "x \<in> set (concat xss)"
      then obtain xs where "xs \<in> set xss" "x \<in> set xs" by auto
      with rmapM_element[OF 2(1)] obtain n where "n \<in> set ns" "run_generator n = Inr xs" by blast
      with run_generator_small[OF this(2) \<open>x \<in> set xs\<close>] Suc.prems(1) show "node_count x < rounds" by fastforce
    qed
    moreover have "0 < rounds"
    proof -
      have "hd ns \<in> set ns" using 2(3) by simp
      with Suc.prems(1) have "node_count (hd ns) < Suc rounds" by blast
      with node_count_pos[of "hd ns"] show ?thesis by simp
    qed
    ultimately show ?thesis using Suc.IH 2(2) by blast
  qed
qed simp

lemma construct_document_error:
  assumes "construct_document n = Inl e"
  shows "scalar_error e"
proof -
  from assms consider "visit n = Inl e" | ns where "visit n = Inr ns" "run_generators (Suc (node_count n)) ns = Inl e"
    unfolding construct_document_def rbind_eq_Inl by blast
  then show ?thesis
  proof cases
    case 2
    have "\<forall>m \<in> set ns. node_count m < Suc (node_count n)" using visit_small[OF 2(1)] by auto
    then show ?thesis using 2(2) by (rule generators_end) simp
  qed (rule visit_error)
qed

text \<open>The depth given to \<open>node_value\<close> does not matter when it is large enough.\<close>

lemma node_value_enough:
  "node_count n \<le> d \<Longrightarrow> node_count n \<le> d' \<Longrightarrow> node_value d n = node_value d' n"
proof (induction d arbitrary: n d')
  case 0
  then show ?case by (cases n) auto
next
  case (Suc d)
  have "0 < d'" using Suc.prems(2) node_count_pos[of n] by simp
  then obtain d2 where d': "d' = Suc d2" by (cases d') auto
  have smaller: "node_value d m = node_value d2 m" if "node_count m < node_count n" for m
    using Suc.IH[of m d2] that Suc.prems d' by simp
  have step: "foldl (\<lambda>m (k, v). key_set m (node_value d k) (node_value d v)) a qs
      = foldl (\<lambda>m (k, v). key_set m (node_value d2 k) (node_value d2 v)) a qs"
    if "small_pairs c qs" "c < node_count n" for a c qs
    using that by (induction qs arbitrary: a) (auto simp: smaller)
  show ?case
  proof (cases n)
    case (ScalarNode t v)
    then show ?thesis by (simp add: d')
  next
    case (SequenceNode t ns)
    then have "node_count m < node_count n" if "m \<in> set ns" for m
      using member_le_sum_list[of "node_count m" "map node_count ns"] that by simp
    then show ?thesis using SequenceNode smaller by (simp add: d')
  next
    case (MappingNode t ps)
    then show ?thesis using step[OF flattened_small[of ps]] by (simp add: d' split: sum.split)
  qed
qed



end
