(* ===== verification/YamlDocs.thy ===== *)
theory YamlDocs
  imports YamlLoad
begin

section \<open>Documents and what they mean\<close>

text \<open>
  A document as one writes it: scalars, plain or quoted, sequences and mappings, in block or in flow style. The
  theory gives the tokens of a document and its value, and shows that loading the tokens gives the value: the
  parser, the composer and the constructor together read what is written.
\<close>

subsection \<open>Documents\<close>

datatype doc = DScalar string bool | DSeq bool "doc list" | DMap bool "(doc \<times> doc) list"

text \<open>A plain scalar without characters (a key without a value, say) has no token.\<close>

definition empty_doc :: doc where
  "empty_doc = DScalar [] True"

fun commas :: "token list list \<Rightarrow> token list" where
  "commas [] = []"
| "commas [x] = x"
| "commas (x # y # xs) = x @ FlowEntryToken # commas (y # xs)"

fun doc_tokens :: "doc \<Rightarrow> token list" where
  "doc_tokens (DScalar v plain) = (if v = [] \<and> plain then [] else [ScalarToken v plain])"
| "doc_tokens (DSeq flow ds) = (if flow
     then FlowSequenceStartToken # commas (map doc_tokens ds) @ [FlowSequenceEndToken]
     else BlockSequenceStartToken # concat (map (\<lambda>d. BlockEntryToken # doc_tokens d) ds) @ [BlockEndToken])"
| "doc_tokens (DMap flow ps) = (if flow
     then FlowMappingStartToken # commas (map (\<lambda>(k, v). KeyToken # doc_tokens k @ ValueToken # doc_tokens v) ps)
       @ [FlowMappingEndToken]
     else BlockMappingStartToken # concat (map (\<lambda>(k, v). KeyToken # doc_tokens k @ ValueToken # doc_tokens v) ps)
       @ [BlockEndToken])"

text \<open>Flow style contains flow style only, and only the values of mappings and the entries of block sequences may be missing.\<close>

fun doc_ok :: "bool \<Rightarrow> doc \<Rightarrow> bool" where
  "doc_ok flow (DScalar v plain) = (v \<noteq> [] \<or> \<not> plain)"
| "doc_ok flow (DSeq f ds) = ((flow \<longrightarrow> f) \<and> (\<forall>d \<in> set ds. doc_ok f d \<or> \<not> f \<and> d = empty_doc))"
| "doc_ok flow (DMap f ps) = ((flow \<longrightarrow> f) \<and> (\<forall>(k, v) \<in> set ps. doc_ok f k \<and> (doc_ok f v \<or> v = empty_doc)))"

fun doc_events :: "doc \<Rightarrow> event list" where
  "doc_events (DScalar v plain) = [ScalarEvent None None (plain, \<not> plain) v]"
| "doc_events (DSeq flow ds) = SequenceStartEvent None None True # concat (map doc_events ds) @ [SequenceEndEvent]"
| "doc_events (DMap flow ps) = MappingStartEvent None None True
     # concat (map (\<lambda>(k, v). doc_events k @ doc_events v) ps) @ [MappingEndEvent]"

subsection \<open>Runs of the parser\<close>

inductive parse_run :: "parser \<Rightarrow> event list \<Rightarrow> parser \<Rightarrow> bool" where
  parse_run_end: "parse_run s [] s"
| parse_run_step: "ps_state s = Some st \<Longrightarrow> parse_state st s = (Inr e, u) \<Longrightarrow> parse_run u es t \<Longrightarrow> parse_run s (e # es) t"

text \<open>The computation \<open>m\<close> makes the first event, the states that follow make the others.\<close>

definition delivers :: "event parse \<Rightarrow> parser \<Rightarrow> event list \<Rightarrow> parser \<Rightarrow> bool" where
  "delivers m s es t \<longleftrightarrow> (\<exists>e u es'. es = e # es' \<and> m s = (Inr e, u) \<and> parse_run u es' t)"

lemma delivers_one: "m s = (Inr e, t) \<Longrightarrow> delivers m s [e] t"
  by (auto simp: delivers_def intro: parse_run_end)

lemma parse_run_append: "parse_run s es u \<Longrightarrow> parse_run u es' t \<Longrightarrow> parse_run s (es @ es') t"
  by (induction rule: parse_run.induct) (auto intro: parse_run_step)

lemma delivers_run: "delivers (parse_state st) s es t \<Longrightarrow> ps_state s = Some st \<Longrightarrow> parse_run s es t"
  by (auto simp: delivers_def intro: parse_run_step)

lemma delivers_next:
  "delivers m s es u \<Longrightarrow> ps_state u = Some st \<Longrightarrow> delivers (parse_state st) u es' t \<Longrightarrow> delivers m s (es @ es') t"
  using delivers_run[of st u es' t] by (fastforce simp: delivers_def intro: parse_run_append)

lemma delivers_first:
  "m s = (Inr e, u) \<Longrightarrow> ps_state u = Some st \<Longrightarrow> delivers (parse_state st) u es t \<Longrightarrow> delivers m s (e # es) t"
  using delivers_next[OF delivers_one] by fastforce

lemma delivers_eq: "m s = m' s' \<Longrightarrow> delivers m' s' es t \<Longrightarrow> delivers m s es t"
  by (simp add: delivers_def)

text \<open>The end of a node: back to the state on the stack.\<close>

definition returned :: "parser \<Rightarrow> token list \<Rightarrow> parser" where
  "returned s rest = s\<lparr>ps_state := Some (hd (ps_states s)), ps_states := tl (ps_states s), ps_tokens := rest\<rparr>"

definition node_delivers :: "doc \<Rightarrow> bool \<Rightarrow> bool" where
  "node_delivers d block \<longleftrightarrow> (\<forall>s rest indentless. ps_tokens s = doc_tokens d @ rest \<longrightarrow> ps_states s \<noteq> [] \<longrightarrow>
     delivers (parse_yaml_node block indentless) s (doc_events d) (returned s rest))"

definition starts_node :: "token \<Rightarrow> bool" where
  "starts_node t \<longleftrightarrow> (\<exists>v plain. t = ScalarToken v plain) \<or> t \<in> {BlockSequenceStartToken, BlockMappingStartToken,
     FlowSequenceStartToken, FlowMappingStartToken}"

lemma doc_tokens_start: "doc_ok flow d \<Longrightarrow> \<exists>t ts. doc_tokens d = t # ts \<and> starts_node t"
  by (cases d) (auto simp: starts_node_def)

lemma plain_node:
  assumes "ps_tokens s = t # ts" and "starts_node t"
  shows "parse_yaml_node block indentless s = node_content block indentless None None s"
  using assms by (auto simp: parse_yaml_node_def node_properties_def get_anchor_def get_tag_def full_tag_def bindM_def
    starts_node_def split: token.split)

lemma scalar_delivers:
  assumes "doc_ok flow (DScalar v plain)"
  shows "node_delivers (DScalar v plain) block"
  unfolding node_delivers_def
proof (intro allI impI)
  fix s :: parser and rest indentless
  assume s: "ps_tokens s = doc_tokens (DScalar v plain) @ rest" "ps_states s \<noteq> []"
  then obtain r rs where states: "ps_states s = r # rs" by (cases "ps_states s") auto
  have tokens: "ps_tokens s = ScalarToken v plain # rest" using s(1) assms by auto
  have "parse_yaml_node block indentless s = node_content block indentless None None s"
    by (rule plain_node[OF tokens]) (simp add: starts_node_def)
  with states tokens show "delivers (parse_yaml_node block indentless) s (doc_events (DScalar v plain)) (returned s rest)"
    by (cases plain) (simp_all add: delivers_one node_content_def returned_def Let_def)
qed

lemma item_delivers:
  assumes "doc_ok flow d \<and> node_delivers d block \<or> d = empty_doc \<and> hd rest \<in> set stop"
    and "ps_tokens s = doc_tokens d @ rest" and "rest \<noteq> []" and "\<forall>t \<in> set stop. \<not> starts_node t"
  shows "delivers (node_or_empty stop next (parse_yaml_node block indentless)) s (doc_events d)
     (s\<lparr>ps_state := Some next, ps_tokens := rest\<rparr>)"
proof (cases "d = empty_doc \<and> hd rest \<in> set stop")
  case True
  with assms(2,3) obtain t ts where "rest = t # ts" "t \<in> set stop" by (cases rest) auto
  with assms(2) True show ?thesis
    by (auto intro!: delivers_one simp: node_or_empty_def process_empty_scalar_def empty_doc_def)
next
  case False
  with assms(1) have d: "doc_ok flow d" "node_delivers d block" by auto
  then obtain t ts where start: "doc_tokens d = t # ts" "starts_node t" using doc_tokens_start by blast
  with assms(2,4) have "node_or_empty stop next (parse_yaml_node block indentless) s
      = parse_yaml_node block indentless (s\<lparr>ps_states := next # ps_states s\<rparr>)"
    by (auto simp: node_or_empty_def)
  moreover have "delivers (parse_yaml_node block indentless) (s\<lparr>ps_states := next # ps_states s\<rparr>) (doc_events d)
      (returned (s\<lparr>ps_states := next # ps_states s\<rparr>) rest)"
    using d(2) assms(2) by (simp add: node_delivers_def)
  ultimately show ?thesis by (auto simp: returned_def intro: delivers_eq)
qed

subsection \<open>Collections in block style\<close>

text \<open>The state after a collection, whose mark is gone.\<close>

definition closed :: "parser \<Rightarrow> token list \<Rightarrow> parser" where
  "closed s rest = (returned s rest)\<lparr>ps_marks := ps_marks s - 1\<rparr>"

lemma closed_update [simp]:
  "closed (s\<lparr>ps_tokens := ts\<rparr>) rest = closed s rest" "closed (s\<lparr>ps_state := st\<rparr>) rest = closed s rest"
  by (simp_all add: closed_def returned_def)

lemma close_delivers:
  assumes "ps_tokens s = t # rest" and "ps_states s \<noteq> []" and "ps_marks s \<noteq> 0"
  shows "delivers (close_collection e) s [e] (closed s rest)"
proof -
  obtain r rs where "ps_states s = r # rs" using assms(2) by (cases "ps_states s") auto
  with assms show ?thesis by (simp add: delivers_one close_collection_def closed_def returned_def)
qed

lemma block_sequence_delivers:
  assumes "\<forall>d \<in> set ds. doc_ok False d \<and> node_delivers d True \<or> d = empty_doc"
    and "ps_tokens s = concat (map (\<lambda>d. BlockEntryToken # doc_tokens d) ds) @ BlockEndToken # rest"
    and "ps_states s \<noteq> []" and "ps_marks s \<noteq> 0"
  shows "delivers parse_block_sequence_entry s (concat (map doc_events ds) @ [SequenceEndEvent]) (closed s rest)"
  using assms
proof (induction ds arbitrary: s)
  case Nil
  then have "parse_block_sequence_entry s = close_collection SequenceEndEvent s"
    by (simp add: parse_block_sequence_entry_def)
  with Nil close_delivers[of s] show ?case by (auto intro: delivers_eq)
next
  case (Cons d ds)
  let ?more = "concat (map (\<lambda>d. BlockEntryToken # doc_tokens d) ds) @ BlockEndToken # rest"
  let ?s = "s\<lparr>ps_tokens := doc_tokens d @ ?more\<rparr>" and ?u = "s\<lparr>ps_state := Some Block_sequence_entry, ps_tokens := ?more\<rparr>"
  have "hd ?more \<in> set [BlockEntryToken, BlockEndToken]" "?more \<noteq> []" by (cases ds; simp)+
  with item_delivers[of False d True ?more "[BlockEntryToken, BlockEndToken]" ?s Block_sequence_entry False] Cons.prems(1)
  have "delivers (node_or_empty [BlockEntryToken, BlockEndToken] Block_sequence_entry parse_block_node) ?s (doc_events d) ?u"
    by (auto simp: starts_node_def parse_block_node_def)
  moreover have "parse_block_sequence_entry s
      = node_or_empty [BlockEntryToken, BlockEndToken] Block_sequence_entry parse_block_node ?s"
    using Cons.prems(2) by (simp add: parse_block_sequence_entry_def)
  ultimately have "delivers parse_block_sequence_entry s (doc_events d) ?u" by (rule delivers_eq[rotated])
  moreover have "delivers parse_block_sequence_entry ?u (concat (map doc_events ds) @ [SequenceEndEvent]) (closed ?u rest)"
    by (rule Cons.IH) (use Cons.prems in auto)
  ultimately show ?case using delivers_next[of parse_block_sequence_entry s "doc_events d" ?u Block_sequence_entry] by simp
qed

lemma block_mapping_delivers:
  assumes "\<forall>(k, v) \<in> set ps. doc_ok False k \<and> node_delivers k True \<and> (doc_ok False v \<and> node_delivers v True \<or> v = empty_doc)"
    and "ps_tokens s = concat (map (\<lambda>(k, v). KeyToken # doc_tokens k @ ValueToken # doc_tokens v) ps) @ BlockEndToken # rest"
    and "ps_states s \<noteq> []" and "ps_marks s \<noteq> 0"
  shows "delivers parse_block_mapping_key s (concat (map (\<lambda>(k, v). doc_events k @ doc_events v) ps) @ [MappingEndEvent])
    (closed s rest)"
  using assms
proof (induction ps arbitrary: s)
  case Nil
  then have "parse_block_mapping_key s = close_collection MappingEndEvent s"
    by (simp add: parse_block_mapping_key_def)
  with Nil close_delivers[of s] show ?case by (auto intro: delivers_eq)
next
  case (Cons p ps)
  obtain k v where p: "p = (k, v)" by fastforce
  let ?more = "concat (map (\<lambda>(k, v). KeyToken # doc_tokens k @ ValueToken # doc_tokens v) ps) @ BlockEndToken # rest"
  let ?stop = "[KeyToken, ValueToken, BlockEndToken]"
  let ?val = "doc_tokens v @ ?more"
  let ?s = "s\<lparr>ps_tokens := doc_tokens k @ ValueToken # ?val\<rparr>"
  let ?u = "s\<lparr>ps_state := Some Block_mapping_value, ps_tokens := ValueToken # ?val\<rparr>"
  let ?u' = "s\<lparr>ps_state := Some Block_mapping_value, ps_tokens := ?val\<rparr>"
  let ?w = "s\<lparr>ps_state := Some Block_mapping_key, ps_tokens := ?more\<rparr>"
  have more: "hd ?more \<in> set ?stop" "?more \<noteq> []" by (cases ps; auto)+
  have key: "delivers (node_or_empty ?stop Block_mapping_value parse_block_node_or_indentless_sequence) ?s (doc_events k) ?u"
    using item_delivers[of False k True "ValueToken # ?val" ?stop ?s Block_mapping_value True] Cons.prems(1) p
    by (auto simp: starts_node_def parse_block_node_or_indentless_sequence_def)
  moreover have "parse_block_mapping_key s = node_or_empty ?stop Block_mapping_value parse_block_node_or_indentless_sequence ?s"
    using Cons.prems(2) p by (simp add: parse_block_mapping_key_def)
  ultimately have key: "delivers parse_block_mapping_key s (doc_events k) ?u" by (rule delivers_eq[rotated])
  have "delivers (node_or_empty ?stop Block_mapping_key parse_block_node_or_indentless_sequence) ?u' (doc_events v) ?w"
    using item_delivers[of False v True ?more ?stop ?u' Block_mapping_key True] Cons.prems(1) p more
    by (auto simp: starts_node_def parse_block_node_or_indentless_sequence_def)
  moreover have "parse_block_mapping_value ?u = node_or_empty ?stop Block_mapping_key parse_block_node_or_indentless_sequence ?u'"
    by (simp add: parse_block_mapping_value_def)
  ultimately have "delivers parse_block_mapping_value ?u (doc_events v) ?w" by (rule delivers_eq[rotated])
  moreover have "delivers parse_block_mapping_key ?w
      (concat (map (\<lambda>(k, v). doc_events k @ doc_events v) ps) @ [MappingEndEvent]) (closed ?w rest)"
    by (rule Cons.IH) (use Cons.prems in auto)
  ultimately have "delivers parse_block_mapping_value ?u
      (doc_events v @ concat (map (\<lambda>(k, v). doc_events k @ doc_events v) ps) @ [MappingEndEvent]) (closed s rest)"
    using delivers_next[of parse_block_mapping_value ?u "doc_events v" ?w Block_mapping_key] by simp
  with key show ?case using delivers_next[of parse_block_mapping_key s "doc_events k" ?u Block_mapping_value] p by simp
qed

subsection \<open>Collections in flow style\<close>

definition comma_before :: "bool \<Rightarrow> 'a list \<Rightarrow> token list" where
  "comma_before first xs = (if first \<or> xs = [] then [] else [FlowEntryToken])"

lemma commas_Cons: "commas (x # xs) = x @ comma_before False xs @ commas xs"
  by (cases xs) (simp_all add: comma_before_def)

lemma comma_before_map [simp]: "comma_before first (map f xs) = comma_before first xs"
  by (simp add: comma_before_def)

lemma flow_separator_read:
  "ps_tokens s = comma_before first (x # xs) @ ts \<Longrightarrow> bindM (flow_separator first) k s = k () (s\<lparr>ps_tokens := ts\<rparr>)"
  by (cases first; cases s) (auto simp: flow_separator_def comma_before_def bindM_def)

lemma flow_sequence_delivers:
  assumes "\<forall>d \<in> set ds. doc_ok True d \<and> node_delivers d False"
    and "ps_tokens s = comma_before first ds @ commas (map doc_tokens ds) @ FlowSequenceEndToken # rest"
    and "ps_states s \<noteq> []" and "ps_marks s \<noteq> 0"
  shows "delivers (parse_flow_sequence_entry first) s (concat (map doc_events ds) @ [SequenceEndEvent]) (closed s rest)"
  using assms
proof (induction ds arbitrary: s first)
  case Nil
  then have "parse_flow_sequence_entry first s = close_collection SequenceEndEvent s"
    by (simp add: parse_flow_sequence_entry_def comma_before_def)
  with Nil close_delivers[of s] show ?case by (auto simp: comma_before_def intro: delivers_eq)
next
  case (Cons d ds)
  let ?more = "comma_before False ds @ commas (map doc_tokens ds) @ FlowSequenceEndToken # rest"
  let ?s = "s\<lparr>ps_tokens := doc_tokens d @ ?more, ps_states := Flow_sequence_entry # ps_states s\<rparr>"
  let ?u = "s\<lparr>ps_state := Some Flow_sequence_entry, ps_tokens := ?more\<rparr>"
  obtain t ts where start: "doc_tokens d = t # ts" "starts_node t" using Cons.prems(1) doc_tokens_start by force
  have tokens: "ps_tokens s = comma_before first (d # ds) @ doc_tokens d @ ?more"
    using Cons.prems(2) by (simp add: commas_Cons)
  then have "\<exists>t ts. ps_tokens s = t # ts \<and> t \<noteq> FlowSequenceEndToken"
    using start by (auto simp: comma_before_def starts_node_def)
  with start have "parse_flow_sequence_entry first s = parse_flow_node ?s"
    by (auto simp: parse_flow_sequence_entry_def flow_separator_read[OF tokens] starts_node_def)
  moreover have "delivers parse_flow_node ?s (doc_events d) ?u"
  proof -
    have "node_delivers d False" using Cons.prems(1) by simp
    then have "delivers (parse_yaml_node False False) ?s (doc_events d) (returned ?s ?more)" by (simp add: node_delivers_def)
    then show ?thesis by (simp add: parse_flow_node_def returned_def)
  qed
  ultimately have "delivers (parse_flow_sequence_entry first) s (doc_events d) ?u" by (rule delivers_eq)
  moreover have "delivers (parse_flow_sequence_entry False) ?u (concat (map doc_events ds) @ [SequenceEndEvent]) (closed ?u rest)"
    by (rule Cons.IH) (use Cons.prems in auto)
  ultimately show ?case
    using delivers_next[of "parse_flow_sequence_entry first" s "doc_events d" ?u Flow_sequence_entry] by simp
qed

lemma flow_mapping_delivers:
  assumes "\<forall>(k, v) \<in> set ps. doc_ok True k \<and> node_delivers k False \<and> (doc_ok True v \<and> node_delivers v False \<or> v = empty_doc)"
    and "ps_tokens s = comma_before first ps @ commas (map (\<lambda>(k, v). KeyToken # doc_tokens k @ ValueToken # doc_tokens v) ps)
      @ FlowMappingEndToken # rest"
    and "ps_states s \<noteq> []" and "ps_marks s \<noteq> 0"
  shows "delivers (parse_flow_mapping_key first) s (concat (map (\<lambda>(k, v). doc_events k @ doc_events v) ps) @ [MappingEndEvent])
    (closed s rest)"
  using assms
proof (induction ps arbitrary: s first)
  case Nil
  then have "parse_flow_mapping_key first s = close_collection MappingEndEvent s"
    by (simp add: parse_flow_mapping_key_def comma_before_def)
  with Nil close_delivers[of s] show ?case by (auto simp: comma_before_def intro: delivers_eq)
next
  case (Cons p ps)
  obtain k v where p: "p = (k, v)" by fastforce
  let ?more = "comma_before False ps @ commas (map (\<lambda>(k, v). KeyToken # doc_tokens k @ ValueToken # doc_tokens v) ps)
      @ FlowMappingEndToken # rest"
  let ?stop = "[ValueToken, FlowEntryToken, FlowMappingEndToken]" and ?ends = "[FlowEntryToken, FlowMappingEndToken]"
  let ?val = "doc_tokens v @ ?more"
  let ?s = "s\<lparr>ps_tokens := doc_tokens k @ ValueToken # ?val\<rparr>"
  let ?u = "s\<lparr>ps_state := Some Flow_mapping_value, ps_tokens := ValueToken # ?val\<rparr>"
  let ?u' = "s\<lparr>ps_state := Some Flow_mapping_value, ps_tokens := ?val\<rparr>"
  let ?w = "s\<lparr>ps_state := Some Flow_mapping_key, ps_tokens := ?more\<rparr>"
  have more: "hd ?more \<in> set ?ends" "?more \<noteq> []" by (cases ps; auto simp: comma_before_def)+
  have tokens: "ps_tokens s = comma_before first (p # ps) @ KeyToken # doc_tokens k @ ValueToken # ?val"
    using Cons.prems(2) p by (simp add: commas_Cons)
  then have "\<exists>t ts. ps_tokens s = t # ts \<and> t \<noteq> FlowMappingEndToken" by (auto simp: comma_before_def)
  then have "parse_flow_mapping_key first s = node_or_empty ?stop Flow_mapping_value parse_flow_node ?s"
    by (auto simp: parse_flow_mapping_key_def flow_separator_read[OF tokens])
  moreover have "delivers (node_or_empty ?stop Flow_mapping_value parse_flow_node) ?s (doc_events k) ?u"
    using item_delivers[of True k False "ValueToken # ?val" ?stop ?s Flow_mapping_value False] Cons.prems(1) p
    by (auto simp: starts_node_def parse_flow_node_def)
  ultimately have key: "delivers (parse_flow_mapping_key first) s (doc_events k) ?u" by (rule delivers_eq)
  have "delivers (node_or_empty ?ends Flow_mapping_key parse_flow_node) ?u' (doc_events v) ?w"
    using item_delivers[of True v False ?more ?ends ?u' Flow_mapping_key False] Cons.prems(1) p more
    by (auto simp: starts_node_def parse_flow_node_def)
  moreover have "parse_flow_mapping_value ?u = node_or_empty ?ends Flow_mapping_key parse_flow_node ?u'"
    by (simp add: parse_flow_mapping_value_def)
  ultimately have "delivers parse_flow_mapping_value ?u (doc_events v) ?w" by (rule delivers_eq[rotated])
  moreover have "delivers (parse_flow_mapping_key False) ?w
      (concat (map (\<lambda>(k, v). doc_events k @ doc_events v) ps) @ [MappingEndEvent]) (closed ?w rest)"
    by (rule Cons.IH) (use Cons.prems in auto)
  ultimately have "delivers parse_flow_mapping_value ?u
      (doc_events v @ concat (map (\<lambda>(k, v). doc_events k @ doc_events v) ps) @ [MappingEndEvent]) (closed s rest)"
    using delivers_next[of parse_flow_mapping_value ?u "doc_events v" ?w Flow_mapping_key] by simp
  with key show ?case using delivers_next[of "parse_flow_mapping_key first" s "doc_events k" ?u Flow_mapping_value] p by simp
qed

subsection \<open>A whole document\<close>

text \<open>The state that reads the first token of a collection.\<close>

lemma first_delivers:
  assumes "ps_tokens s = t # ts" and "starts_node t" and "ps_states s \<noteq> []"
    and "node_content block indentless None None s = (Inr e, s\<lparr>ps_state := Some first\<rparr>)"
    and "parse_state first = bindM get_token (\<lambda>_. bindM push_mark (\<lambda>_. m))"
    and "\<And>s'. ps_tokens s' = ts \<Longrightarrow> ps_states s' \<noteq> [] \<Longrightarrow> ps_marks s' \<noteq> 0 \<Longrightarrow> delivers m s' es (closed s' rest)"
  shows "delivers (parse_yaml_node block indentless) s (e # es) (returned s rest)"
proof -
  let ?u = "s\<lparr>ps_state := Some first\<rparr>"
  let ?s = "?u\<lparr>ps_tokens := ts, ps_marks := Suc (ps_marks s)\<rparr>"
  have "delivers m ?s es (closed ?s rest)" using assms(3,6) by simp
  moreover have "closed ?s rest = returned s rest" by (simp add: closed_def returned_def)
  moreover have "parse_state first ?u = m ?s" using assms(1,5) by simp
  ultimately have "delivers (parse_state first) ?u es (returned s rest)" by (auto intro: delivers_eq)
  moreover have "parse_yaml_node block indentless s = (Inr e, ?u)"
    using plain_node[OF assms(1,2)] assms(4) by simp
  ultimately show ?thesis by (auto intro: delivers_first)
qed

lemma doc_delivers: "doc_ok (\<not> block) d \<Longrightarrow> node_delivers d block"
proof (induction d arbitrary: block)
  case (DScalar v plain)
  then show ?case by (rule scalar_delivers)
next
  case (DSeq flow ds)
  show ?case
    unfolding node_delivers_def
  proof (intro allI impI)
    fix s :: parser and rest indentless
    assume s: "ps_tokens s = doc_tokens (DSeq flow ds) @ rest" "ps_states s \<noteq> []"
    show "delivers (parse_yaml_node block indentless) s (doc_events (DSeq flow ds)) (returned s rest)"
    proof (cases flow)
      case True
      then have items: "\<forall>d \<in> set ds. doc_ok True d \<and> node_delivers d False" using DSeq by auto
      show ?thesis
        using s True
        by (auto intro!: first_delivers[where first = Flow_sequence_first_entry and m = "parse_flow_sequence_entry True"]
            flow_sequence_delivers[OF items]
          simp: starts_node_def node_content_def comma_before_def parse_flow_sequence_first_entry_def Let_def)
    next
      case False
      with DSeq.prems have block by simp
      with DSeq False have items: "\<forall>d \<in> set ds. doc_ok False d \<and> node_delivers d True \<or> d = empty_doc" by auto
      show ?thesis
        using s False \<open>block\<close>
        by (auto intro!: first_delivers[where first = Block_sequence_first_entry and m = parse_block_sequence_entry]
            block_sequence_delivers[OF items]
          simp: starts_node_def node_content_def parse_block_sequence_first_entry_def Let_def)
    qed
  qed
next
  case (DMap flow ps)
  show ?case
    unfolding node_delivers_def
  proof (intro allI impI)
    fix s :: parser and rest indentless
    assume s: "ps_tokens s = doc_tokens (DMap flow ps) @ rest" "ps_states s \<noteq> []"
    show "delivers (parse_yaml_node block indentless) s (doc_events (DMap flow ps)) (returned s rest)"
    proof (cases flow)
      case True
      then have items: "\<forall>(k, v) \<in> set ps. doc_ok True k \<and> node_delivers k False
          \<and> (doc_ok True v \<and> node_delivers v False \<or> v = empty_doc)" using DMap by fastforce
      show ?thesis
        using s True
        by (auto intro!: first_delivers[where first = Flow_mapping_first_key and m = "parse_flow_mapping_key True"]
            flow_mapping_delivers[OF items]
          simp: starts_node_def node_content_def comma_before_def parse_flow_mapping_first_key_def Let_def)
    next
      case False
      with DMap.prems have block by simp
      with DMap False have items: "\<forall>(k, v) \<in> set ps. doc_ok False k \<and> node_delivers k True
          \<and> (doc_ok False v \<and> node_delivers v True \<or> v = empty_doc)" by fastforce
      show ?thesis
        using s False \<open>block\<close>
        by (auto intro!: first_delivers[where first = Block_mapping_first_key and m = parse_block_mapping_key]
            block_mapping_delivers[OF items]
          simp: starts_node_def node_content_def parse_block_mapping_first_key_def Let_def)
    qed
  qed
qed

subsection \<open>The stream of one document\<close>

lemma parse_run_events: "parse_run s es t \<Longrightarrow> ps_state t = None \<Longrightarrow> length es < fuel \<Longrightarrow> parse_events fuel s = (es, None)"
proof (induction arbitrary: fuel rule: parse_run.induct)
  case (parse_run_end s)
  then show ?case by (cases fuel) simp_all
next
  case (parse_run_step s st e u es t)
  then obtain n where "fuel = Suc n" "length es < n" by (cases fuel) auto
  with parse_run_step show ?case by simp
qed

lemma parse_run_potential: "parse_run s es t \<Longrightarrow> parser_ok s \<Longrightarrow> length es + potential t \<le> potential s"
proof (induction rule: parse_run.induct)
  case (parse_run_step s st e u es t)
  with parser_step[of s st] show ?case by (simp add: step_ok_def)
qed simp

definition stream_tokens :: "doc \<Rightarrow> token list" where
  "stream_tokens d = StreamStartToken # doc_tokens d @ [StreamEndToken]"

definition stream_events :: "doc \<Rightarrow> event list" where
  "stream_events d = StreamStartEvent # DocumentStartEvent False # doc_events d @ [DocumentEndEvent False, StreamEndEvent]"

lemma stream_parsed:
  assumes "doc_ok False d"
  shows "all_events (stream_tokens d) None = (stream_events d, None)"
proof -
  let ?s = "new_parser (stream_tokens d) None"
  let ?s1 = "?s\<lparr>ps_state := Some Implicit_document_start, ps_tokens := doc_tokens d @ [StreamEndToken]\<rparr>"
  let ?s2 = "?s1\<lparr>ps_state := Some Block_node, ps_states := [Document_end], ps_handles := DEFAULT_TAGS\<rparr>"
  let ?s3 = "?s2\<lparr>ps_state := Some Document_end, ps_states := [], ps_tokens := [StreamEndToken]\<rparr>"
  let ?s4 = "?s3\<lparr>ps_state := Some Document_start\<rparr>"
  let ?s5 = "?s4\<lparr>ps_state := None, ps_tokens := []\<rparr>"
  obtain t ts where start: "doc_tokens d = t # ts" "starts_node t" using doc_tokens_start[OF assms] by blast
  have 1: "parse_state Stream_start ?s = (Inr StreamStartEvent, ?s1)"
    by (simp add: parse_stream_start_def new_parser_def stream_tokens_def)
  have 2: "parse_state Implicit_document_start ?s1 = (Inr (DocumentStartEvent False), ?s2)"
    using start by (auto simp: parse_implicit_document_start_def starts_node_def new_parser_def)
  have "node_delivers d True" using doc_delivers[of True d] assms by simp
  then have "delivers (parse_yaml_node True False) ?s2 (doc_events d) (returned ?s2 [StreamEndToken])"
    by (simp add: node_delivers_def)
  moreover have "returned ?s2 [StreamEndToken] = ?s3" by (simp add: returned_def new_parser_def)
  ultimately have 3: "delivers (parse_state Block_node) ?s2 (doc_events d) ?s3"
    by (simp add: parse_block_node_def)
  have 4: "parse_state Document_end ?s3 = (Inr (DocumentEndEvent False), ?s4)"
    by (simp add: parse_document_end_def bindM_eq)
  have 5: "parse_state Document_start ?s4 = (Inr StreamEndEvent, ?s5)"
    by (simp add: parse_document_start_def skip_document_ends_def assertion_def new_parser_def)
  have "parse_run ?s3 [DocumentEndEvent False, StreamEndEvent] ?s5"
    by (rule parse_run_step[OF _ 4], simp, rule parse_run_step[OF _ 5], simp, rule parse_run_end)
  with delivers_run[OF 3] have "parse_run ?s2 (doc_events d @ [DocumentEndEvent False, StreamEndEvent]) ?s5"
    by (auto intro: parse_run_append)
  then have parse_run: "parse_run ?s (stream_events d) ?s5"
    unfolding stream_events_def
    by (intro parse_run_step[OF _ 1] parse_run_step[OF _ 2]) (simp_all add: new_parser_def)
  have ok: "parser_ok ?s" by (simp add: parser_ok_def new_parser_def stream_tokens_def marks_ok_def unread_def)
  have "potential ?s < 6 * length (stream_tokens d) + 6" by (simp add: potential_def stack_of_def new_parser_def)
  with parse_run_potential[OF parse_run ok] have "length (stream_events d) < 6 * length (stream_tokens d) + 6" by linarith
  with parse_run_events[OF parse_run] show ?thesis by (simp add: all_events_def)
qed

subsection \<open>The nodes of a document\<close>

fun node_of :: "doc \<Rightarrow> yaml_node" where
  "node_of (DScalar v plain) = ScalarNode (resolve_scalar v plain) v"
| "node_of (DSeq flow ds) = SequenceNode DEFAULT_SEQUENCE_TAG (map node_of ds)"
| "node_of (DMap flow ps) = MappingNode DEFAULT_MAPPING_TAG (map (\<lambda>(k, v). (node_of k, node_of v)) ps)"

fun doc_depth :: "doc \<Rightarrow> nat" where
  "doc_depth (DScalar v plain) = 1"
| "doc_depth (DSeq flow ds) = Suc (fold max (map doc_depth ds) 0)"
| "doc_depth (DMap flow ps) = Suc (fold max (map (\<lambda>(k, v). max (doc_depth k) (doc_depth v)) ps) 0)"

lemma fold_max_le: "fold max xs (a :: nat) \<le> n \<longleftrightarrow> a \<le> n \<and> (\<forall>x \<in> set xs. x \<le> n)"
  by (induction xs arbitrary: a) auto

text \<open>The composer reads the events of a document.\<close>

definition composed :: "yaml_node compose \<Rightarrow> doc \<Rightarrow> bool" where
  "composed m d \<longleftrightarrow> (\<forall>s rest. cs_events s = doc_events d @ rest \<longrightarrow> m s = (Inr (node_of d), s\<lparr>cs_events := rest\<rparr>))"

lemma doc_events_start: "\<exists>e es. doc_events d = e # es \<and> e \<noteq> SequenceEndEvent \<and> e \<noteq> MappingEndEvent"
  by (cases d) auto

lemma sequence_composed:
  assumes "\<forall>d \<in> set ds. composed m d" and "cs_events s = concat (map doc_events ds) @ SequenceEndEvent # rest"
    and "length ds < rounds"
  shows "compose_items SequenceEndEvent m rounds s = (Inr (map node_of ds), s\<lparr>cs_events := rest\<rparr>)"
  using assms
proof (induction ds arbitrary: s rounds)
  case Nil
  then obtain n where "rounds = Suc n" by (cases rounds) auto
  with Nil show ?case by simp
next
  case (Cons d ds)
  then obtain n where n: "rounds = Suc n" "length ds < n" by (cases rounds) auto
  let ?u = "s\<lparr>cs_events := concat (map doc_events ds) @ SequenceEndEvent # rest\<rparr>"
  obtain e es where e: "doc_events d = e # es" "e \<noteq> SequenceEndEvent" using doc_events_start by blast
  have "m s = (Inr (node_of d), ?u)" using Cons.prems(1,2) by (simp add: composed_def)
  moreover have "compose_items SequenceEndEvent m n ?u = (Inr (map node_of ds), ?u\<lparr>cs_events := rest\<rparr>)"
    by (rule Cons.IH) (use Cons.prems(1) n(2) in auto)
  ultimately show ?case using e Cons.prems(2) n(1) by simp
qed

lemma mapping_composed:
  assumes "item = bindM m (\<lambda>k. bindM m (\<lambda>v. ret (k, v)))" and "\<forall>(k, v) \<in> set ps. composed m k \<and> composed m v"
    and "cs_events s = concat (map (\<lambda>(k, v). doc_events k @ doc_events v) ps) @ MappingEndEvent # rest"
    and "length ps < rounds"
  shows "compose_items MappingEndEvent item rounds s
    = (Inr (map (\<lambda>(k, v). (node_of k, node_of v)) ps), s\<lparr>cs_events := rest\<rparr>)"
  using assms(2-)
proof (induction ps arbitrary: s rounds)
  case Nil
  then obtain n where "rounds = Suc n" by (cases rounds) auto
  with Nil show ?case by simp
next
  case (Cons p ps)
  then obtain n where n: "rounds = Suc n" "length ps < n" by (cases rounds) auto
  obtain k v where p: "p = (k, v)" by fastforce
  let ?more = "concat (map (\<lambda>(k, v). doc_events k @ doc_events v) ps) @ MappingEndEvent # rest"
  obtain e es where e: "doc_events k = e # es" "e \<noteq> MappingEndEvent" using doc_events_start by blast
  have "m s = (Inr (node_of k), s\<lparr>cs_events := doc_events v @ ?more\<rparr>)"
    using Cons.prems(1,2) p by (simp add: composed_def)
  moreover have "m (s\<lparr>cs_events := doc_events v @ ?more\<rparr>) = (Inr (node_of v), s\<lparr>cs_events := ?more\<rparr>)"
    using Cons.prems(1) p by (simp add: composed_def)
  ultimately have "item s = (Inr (node_of k, node_of v), s\<lparr>cs_events := ?more\<rparr>)" by (simp add: assms(1))
  moreover have "compose_items MappingEndEvent item n (s\<lparr>cs_events := ?more\<rparr>)
      = (Inr (map (\<lambda>(k, v). (node_of k, node_of v)) ps), s\<lparr>cs_events := ?more\<rparr>\<lparr>cs_events := rest\<rparr>)"
    by (rule Cons.IH) (use Cons.prems(1) n(2) in auto)
  ultimately show ?case using e Cons.prems(2) n(1) p by simp
qed

lemma doc_composed: "doc_depth d \<le> limit \<Longrightarrow> composed (compose_node limit) d"
proof (induction limit arbitrary: d)
  case 0
  then show ?case by (cases d) simp_all
next
  case (Suc limit)
  show ?case
    unfolding composed_def
  proof (intro allI impI)
    fix s :: composer and rest assume s: "cs_events s = doc_events d @ rest"
    show "compose_node (Suc limit) s = (Inr (node_of d), s\<lparr>cs_events := rest\<rparr>)"
    proof (cases d)
      case (DScalar v plain)
      with s show ?thesis
        by (simp add: fresh_anchor_def compose_scalar_node_def remember_step untagged_def Let_def)
    next
      case (DSeq flow ds)
      with Suc have items: "\<forall>d \<in> set ds. composed (compose_node limit) d" by (auto simp: fold_max_le)
      let ?s = "s\<lparr>cs_events := concat (map doc_events ds) @ SequenceEndEvent # rest\<rparr>"
      have "length ds \<le> length (concat (map doc_events ds))"
      proof (induction ds)
        case (Cons d ds)
        then show ?case using doc_events_start[of d] by auto
      qed simp
      then have "compose_all_items SequenceEndEvent (compose_node limit) ?s = (Inr (map node_of ds), ?s\<lparr>cs_events := rest\<rparr>)"
        unfolding compose_all_items_def by (simp add: sequence_composed[OF items] del: compose_items.simps)
      with s DSeq show ?thesis
        by (simp add: fresh_anchor_def compose_sequence_node_def remember_step untagged_def Let_def)
    next
      case (DMap flow ps)
      with Suc have items: "\<forall>(k, v) \<in> set ps. composed (compose_node limit) k \<and> composed (compose_node limit) v"
        by (fastforce simp: fold_max_le)
      let ?s = "s\<lparr>cs_events := concat (map (\<lambda>(k, v). doc_events k @ doc_events v) ps) @ MappingEndEvent # rest\<rparr>"
      define item where "item = bindM (compose_node limit) (\<lambda>k. bindM (compose_node limit) (\<lambda>v. ret (k, v)))"
      have "length ps \<le> length (concat (map (\<lambda>(k, v). doc_events k @ doc_events v) ps))"
      proof (induction ps)
        case (Cons p ps)
        then show ?case using doc_events_start[of "fst p"] by (cases p) auto
      qed simp
      then have "compose_all_items MappingEndEvent item ?s
          = (Inr (map (\<lambda>(k, v). (node_of k, node_of v)) ps), ?s\<lparr>cs_events := rest\<rparr>)"
        unfolding compose_all_items_def by (simp add: mapping_composed[OF item_def items] del: compose_items.simps)
      with s DMap show ?thesis
        by (simp add: fresh_anchor_def compose_mapping_node_def item_def[symmetric] remember_step untagged_def Let_def)
    qed
  qed
qed

lemma stream_composed:
  assumes "doc_depth d \<le> limit"
  shows "fst (get_single_node limit \<lparr>cs_events = stream_events d, cs_end = None, cs_anchors = []\<rparr>) = Inr (Some (node_of d))"
proof -
  have "composed (compose_node limit) d" using assms by (rule doc_composed)
  then show ?thesis
    by (simp add: get_single_node_def stream_events_def compose_document_def composed_def)
qed

subsection \<open>The value of a document\<close>

text \<open>What a document says: its plain scalars are read by their form, and a later key replaces an earlier one.\<close>

definition scalar_ok :: "string \<Rightarrow> bool \<Rightarrow> bool" where
  "scalar_ok v plain \<longleftrightarrow> (plain \<longrightarrow> (case plain_scalar v of Inr _ \<Rightarrow> True | Inl _ \<Rightarrow> False))"

fun is_scalar :: "doc \<Rightarrow> bool" where
  "is_scalar (DScalar v plain) = True"
| "is_scalar d = False"

fun doc_readable :: "doc \<Rightarrow> bool" where
  "doc_readable (DScalar v plain) = scalar_ok v plain"
| "doc_readable (DSeq flow ds) = (\<forall>d \<in> set ds. doc_readable d)"
| "doc_readable (DMap flow ps) = (\<forall>(k, v) \<in> set ps. is_scalar k \<and> doc_readable k \<and> doc_readable v)"

fun doc_value :: "doc \<Rightarrow> pyval" where
  "doc_value (DScalar v plain) = (if plain then (case plain_scalar v of Inr x \<Rightarrow> x | Inl _ \<Rightarrow> VNone) else VStr v)"
| "doc_value (DSeq flow ds) = VList (map doc_value ds)"
| "doc_value (DMap flow ps) = VDict (foldl (\<lambda>m (k, v). key_set m (doc_value k) (doc_value v)) [] ps)"

lemma resolve_quoted [simp]: "resolve_scalar v False = yaml_tag ''str''"
  by (simp add: resolve_scalar_def DEFAULT_SCALAR_TAG_def)

lemma construct_scalar_tag_hashable: "construct_scalar_tag t v = Some (Inr x) \<Longrightarrow> hashable x"
  by (auto simp: construct_scalar_tag_def construct_yaml_bool_def construct_yaml_int_def construct_yaml_float_def
    construct_yaml_timestamp_def datetime_value_def Let_def split: if_splits option.splits prod.splits)

lemma scalar_tag:
  assumes "scalar_ok v plain"
  shows "construct_scalar_tag (resolve_scalar v plain) v = Some (Inr (doc_value (DScalar v plain)))"
proof (cases plain)
  case True
  with assms obtain x where "plain_scalar v = Inr x" by (auto simp: scalar_ok_def split: sum.splits)
  with True show ?thesis by (auto simp: plain_scalar_def split: option.splits)
next
  case False
  then show ?thesis by (simp add: construct_scalar_tag_def)
qed

lemma good_tag:
  "construct_scalar_tag t v = Some (Inr x) \<Longrightarrow>
     t \<notin> {yaml_tag ''seq'', yaml_tag ''map'', yaml_tag ''merge'', yaml_tag ''value''}"
  by (auto simp: construct_scalar_tag_def)

lemma scalar_constructed:
  assumes "scalar_ok v plain"
  shows "construct_leaf (node_of (DScalar v plain)) = Inr (doc_value (DScalar v plain))"
    and "\<not> is_collection (node_of (DScalar v plain))" and "hashable (doc_value (DScalar v plain))"
    and "node_tag (node_of (DScalar v plain)) \<noteq> yaml_tag ''merge''"
    and "node_tag (node_of (DScalar v plain)) \<noteq> yaml_tag ''value''"
  using scalar_tag[OF assms] good_tag[OF scalar_tag[OF assms]] construct_scalar_tag_hashable[OF scalar_tag[OF assms]]
  by (simp_all add: construct_leaf_def is_collection_def)

lemma collection_tag:
  "\<not> is_scalar d \<Longrightarrow> is_collection (node_of d)"
  by (cases d) (simp_all add: is_collection_def DEFAULT_SEQUENCE_TAG_def DEFAULT_MAPPING_TAG_def)

definition collections :: "doc list \<Rightarrow> doc list" where
  "collections = filter (\<lambda>d. \<not> is_scalar d)"

lemma visit_doc: "doc_readable d \<Longrightarrow> visit (node_of d) = Inr (map node_of (collections [d]))"
proof (cases "is_scalar d")
  case True
  assume "doc_readable d"
  moreover from True obtain v plain where "d = DScalar v plain" by (cases d) auto
  ultimately show ?thesis using scalar_constructed[of v plain] by (simp add: visit_def collections_def)
next
  case False
  then show ?thesis by (simp add: visit_def collection_tag collections_def)
qed

lemma visit_docs:
  "\<forall>d \<in> set ds. doc_readable d \<Longrightarrow> rbind (rmapM visit (map node_of ds)) (\<lambda>xs. Inr (concat xs)) = Inr (map node_of (collections ds))"
proof -
  assume "\<forall>d \<in> set ds. doc_readable d"
  then have "rmapM visit (map node_of ds) = Inr (map (\<lambda>d. map node_of (collections [d])) ds)"
    by (induction ds) (simp_all add: visit_doc)
  moreover have "concat (map (\<lambda>d. map node_of (collections [d])) ds) = map node_of (collections ds)"
    by (induction ds) (simp_all add: collections_def)
  ultimately show ?thesis by simp
qed

lemma flatten_doc:
  assumes "\<forall>(k, v) \<in> set ps. is_scalar k \<and> doc_readable k"
  shows "flattened (map (\<lambda>(k, v). (node_of k, node_of v)) ps) = Inr (map (\<lambda>(k, v). (node_of k, node_of v)) ps)"
proof -
  have "flatten_mapping (map (\<lambda>(k, v). (node_of k, node_of v)) ps) = Inr ([], map (\<lambda>(k, v). (node_of k, node_of v)) ps)"
    using assms
  proof (induction ps)
    case (Cons p ps)
    obtain k v where p: "p = (k, v)" by fastforce
    with Cons.prems obtain s plain where k: "k = DScalar s plain" "scalar_ok s plain" by (cases k) auto
    with Cons p scalar_constructed(4,5)[OF k(2)] show ?case by (simp add: retag_value_def)
  qed simp
  then show ?thesis by (simp add: flattened_def)
qed

lemma visit_pairs:
  assumes "\<forall>(k, v) \<in> set ps. is_scalar k \<and> doc_readable k \<and> doc_readable v"
  shows "rbind (rmapM visit_pair (map (\<lambda>(k, v). (node_of k, node_of v)) ps)) (\<lambda>xs. Inr (concat xs))
    = Inr (map node_of (collections (map snd ps)))"
proof -
  have "visit_pair (node_of k, node_of v) = visit (node_of v)" if "(k, v) \<in> set ps" for k v
  proof -
    from assms that obtain s plain where k: "k = DScalar s plain" "scalar_ok s plain" by (cases k) auto
    with scalar_constructed(1-3)[OF k(2)] show ?thesis by (simp add: visit_pair_def)
  qed
  with assms have "rmapM visit_pair (map (\<lambda>(k, v). (node_of k, node_of v)) ps) = rmapM visit (map node_of (map snd ps))"
    by (induction ps) (auto simp: rbind_def)
  moreover have "\<forall>d \<in> set (map snd ps). doc_readable d" using assms by fastforce
  ultimately show ?thesis using visit_docs[of "map snd ps"] by simp
qed

fun children :: "doc \<Rightarrow> doc list" where
  "children (DScalar v plain) = []"
| "children (DSeq flow ds) = ds"
| "children (DMap flow ps) = map snd ps"

lemma run_generator_doc:
  assumes "doc_readable d" and "\<not> is_scalar d"
  shows "run_generator (node_of d) = Inr (map node_of (collections (children d)))"
proof (cases d)
  case (DScalar v plain)
  with assms show ?thesis by simp
next
  case (DSeq flow ds)
  with assms visit_docs[of ds] show ?thesis by (simp add: run_generator_def DEFAULT_SEQUENCE_TAG_def)
next
  case (DMap flow ps)
  with assms have "\<forall>(k, v) \<in> set ps. is_scalar k \<and> doc_readable k" by auto
  with DMap assms visit_pairs[of ps] flatten_doc[of ps] show ?thesis
    by (simp add: run_generator_def DEFAULT_MAPPING_TAG_def)
qed

lemma run_generators_doc:
  assumes "\<forall>d \<in> set ds. doc_readable d \<and> \<not> is_scalar d \<and> node_count (node_of d) < rounds" and "0 < rounds"
  shows "run_generators rounds (map node_of ds) = Inr ()"
  using assms
proof (induction rounds arbitrary: ds)
  case (Suc rounds)
  show ?case
  proof (cases "ds = []")
    case False
    have gens: "rmapM run_generator (map node_of ds) = Inr (map (\<lambda>d. map node_of (collections (children d))) ds)"
      using Suc.prems by (induction ds) (simp_all add: run_generator_doc)
    have next_level: "concat (map (\<lambda>d. map node_of (collections (children d))) ds)
        = map node_of (concat (map (\<lambda>d. collections (children d)) ds))"
      by (induction ds) simp_all
    have "doc_readable c \<and> \<not> is_scalar c \<and> node_count (node_of c) < rounds"
      if "d \<in> set ds" "c \<in> set (collections (children d))" for c d
    proof -
      have d: "doc_readable d" "\<not> is_scalar d" "node_count (node_of d) < Suc rounds" using Suc.prems that by auto
      have "node_of c \<in> set (map node_of (collections (children d)))" using that(2) by simp
      with run_generator_small[OF run_generator_doc[OF d(1,2)]] d(3) have "node_count (node_of c) < rounds" by fastforce
      moreover have "doc_readable c \<and> \<not> is_scalar c"
        using that(2) d(1) by (cases d) (auto simp: collections_def)
      ultimately show ?thesis by simp
    qed
    then have "\<forall>d \<in> set (concat (map (\<lambda>d. collections (children d)) ds)).
        doc_readable d \<and> \<not> is_scalar d \<and> node_count (node_of d) < rounds" by auto
    moreover have "0 < rounds"
    proof -
      have "hd ds \<in> set ds" using False by simp
      with Suc.prems(1) have "node_count (node_of (hd ds)) < Suc rounds" by blast
      with node_count_pos[of "node_of (hd ds)"] show ?thesis by simp
    qed
    ultimately show ?thesis using Suc.IH False by (simp add: gens next_level)
  qed simp
qed simp

lemma node_value_doc:
  assumes "doc_readable d" and "node_count (node_of d) \<le> depth"
  shows "node_value depth (node_of d) = doc_value d"
  using assms
proof (induction depth arbitrary: d)
  case 0
  with node_count_pos[of "node_of d"] show ?case by simp
next
  case (Suc depth)
  show ?case
  proof (cases d)
    case (DScalar v plain)
    with Suc.prems(1) scalar_constructed(1)[of v plain] show ?thesis by (simp add: leaf_value_def)
  next
    case (DSeq flow ds)
    have "node_value depth (node_of c) = doc_value c" if "c \<in> set ds" for c
      using Suc.IH[of c] Suc.prems DSeq that member_le_sum_list[of "node_count (node_of c)" "map node_count (map node_of ds)"]
      by auto
    then show ?thesis by (simp add: DSeq DEFAULT_SEQUENCE_TAG_def)
  next
    case (DMap flow ps)
    let ?pairs = "map (\<lambda>(k, v). (node_of k, node_of v)) ps"
    have "node_value depth (node_of k) = doc_value k \<and> node_value depth (node_of v) = doc_value v" if "(k, v) \<in> set ps" for k v
    proof -
      have "node_count (node_of k) + node_count (node_of v) \<le> pairs_count ?pairs"
        using that by (intro member_le_sum_list) (force simp: image_iff)+
      with Suc.prems DMap that Suc.IH[of k] Suc.IH[of v] show ?thesis by auto
    qed
    then have "\<forall>p \<in> set ps. node_value depth (node_of (fst p)) = doc_value (fst p)
        \<and> node_value depth (node_of (snd p)) = doc_value (snd p)" by auto
    then have "foldl (\<lambda>m (k, v). key_set m (node_value depth k) (node_value depth v)) a ?pairs
        = foldl (\<lambda>m (k, v). key_set m (doc_value k) (doc_value v)) a ps" for a
      by (induction ps arbitrary: a) (auto simp: case_prod_unfold)
    moreover have "flattened ?pairs = Inr ?pairs" by (rule flatten_doc) (use Suc.prems DMap in auto)
    ultimately show ?thesis by (simp add: DMap DEFAULT_MAPPING_TAG_def)
  qed
qed

lemma document_constructed:
  assumes "doc_readable d"
  shows "construct_document (node_of d) = Inr (doc_value d)"
proof -
  have "run_generators (Suc (node_count (node_of d))) (map node_of (collections [d])) = Inr ()"
    by (rule run_generators_doc) (use assms in \<open>auto simp: collections_def\<close>)
  then show ?thesis using assms by (simp add: construct_document_def visit_doc node_value_doc del: run_generators.simps)
qed

lemma document_loaded:
  assumes "doc_ok False d" and "doc_readable d" and "doc_depth d \<le> limit"
  shows "safe_load limit (stream_tokens d) None = Inr (doc_value d)"
  using stream_parsed[OF assms(1)] stream_composed[OF assms(3)] document_constructed[OF assms(2)]
  by (simp add: safe_load_def)


definition example_doc :: doc where
  "example_doc = DMap False [(DScalar ''metrics'' True, DSeq False
     [DMap False [(DScalar ''id'' True, DScalar ''cpu'' False), (DScalar ''timeout'' True, DScalar ''1:30'' True),
        (DScalar ''params'' True, DMap True [(DScalar ''cpus'' True, DSeq True [DScalar ''0'' True, DScalar ''1'' True])]),
        (DScalar ''host'' True, empty_doc)]])]"


end
