(* ===== verification/YamlValues.thy ===== *)
theory YamlValues
  imports YamlDocs ConfigLoader DbLoader
begin

section \<open>Configuration files written and read back\<close>

text \<open>
  What the library means for the files of the client: a value written as YAML, with quoted texts and plain numbers,
  is what the loaders get; a file with a malformed scalar makes them raise an exception they do not handle.
\<close>

subsection \<open>Writing values\<close>

fun doc_of :: "pyval \<Rightarrow> doc" where
  "doc_of (VBool b) = DScalar (if b then ''true'' else ''false'') True"
| "doc_of (VInt i) = DScalar (str_int i) True"
| "doc_of (VStr s) = DScalar s False"
| "doc_of (VList vs) = DSeq False (map doc_of vs)"
| "doc_of (VDict ps) = DMap False (map (\<lambda>(k, v). (doc_of k, doc_of v)) ps)"
| "doc_of v = DScalar ''null'' True"

fun writable :: "pyval \<Rightarrow> bool" where
  "writable VNone = True"
| "writable (VBool b) = True"
| "writable (VInt i) = True"
| "writable (VStr s) = True"
| "writable (VList vs) = (\<forall>v \<in> set vs. writable v)"
| "writable (VDict ps) = ((\<forall>(k, v) \<in> set ps. (\<exists>s. k = VStr s) \<and> writable v) \<and> distinct (map fst ps))"
| "writable v = False"

lemma plain_words:
  "plain_scalar ''null'' = Inr VNone" "plain_scalar ''true'' = Inr (VBool True)" "plain_scalar ''false'' = Inr (VBool False)"
  by code_simp+

lemma str_int_nonempty: "str_int i \<noteq> []"
  using str_nat_nonempty by (simp add: str_int_def)

lemma key_set_texts:
  "\<forall>(k, v) \<in> set ps. \<exists>s. k = VStr s \<Longrightarrow> VStr s \<notin> fst ` set ps \<Longrightarrow> key_set ps (VStr s) v = ps @ [(VStr s, v)]"
  by (induction ps) auto

lemma foldl_key_set:
  assumes "\<forall>(k, v) \<in> set (qs @ ps). \<exists>s. k = VStr s" and "distinct (map fst (qs @ ps))"
  shows "foldl (\<lambda>m (k, v). key_set m k v) qs ps = qs @ ps"
  using assms
proof (induction ps arbitrary: qs)
  case (Cons p ps)
  from Cons.prems(1) obtain s v where p: "p = (VStr s, v)" by (cases p) auto
  with Cons.prems have "key_set qs (VStr s) v = qs @ [p]" by (auto intro!: key_set_texts)
  with Cons.IH[of "qs @ [p]"] Cons.prems p show ?case by simp
qed simp

lemma doc_of_correct:
  "writable v \<Longrightarrow> doc_ok False (doc_of v) \<and> doc_readable (doc_of v) \<and> doc_value (doc_of v) = v"
proof (induction v rule: doc_of.induct)
  case (4 vs)
  then show ?case by (auto simp: map_idI)
next
  case (5 ps)
  have parts: "(\<exists>s. k = VStr s) \<and> doc_ok False (doc_of v) \<and> doc_readable (doc_of v) \<and> doc_value (doc_of v) = v"
    if "(k, v) \<in> set ps" for k v
    using that "5.prems" "5.IH"(2)[OF that refl] by auto
  then have pairs: "\<forall>p \<in> set ps. doc_value (doc_of (fst p)) = fst p \<and> doc_value (doc_of (snd p)) = snd p" by force
  then have "foldl (\<lambda>m (k, v). key_set m (doc_value k) (doc_value v)) a (map (\<lambda>(k, v). (doc_of k, doc_of v)) ps)
      = foldl (\<lambda>m (k, v). key_set m k v) a ps" for a
    by (induction ps arbitrary: a) (auto simp: case_prod_unfold)
  moreover have "foldl (\<lambda>m (k, v). key_set m k v) [] ps = ps"
    using foldl_key_set[of "[]" ps] parts "5.prems" by auto
  ultimately have "doc_value (doc_of (VDict ps)) = VDict ps" by simp
  moreover have "doc_ok False (doc_of (VDict ps)) \<and> doc_readable (doc_of (VDict ps))"
    using parts by (fastforce simp: scalar_ok_def)
  ultimately show ?case by blast
qed (simp_all add: plain_words scalar_ok_def integers_are_read_back str_int_nonempty)

lemma written_value_loaded:
  "writable v \<Longrightarrow> doc_depth (doc_of v) \<le> limit \<Longrightarrow> safe_load limit (stream_tokens (doc_of v)) None = Inr v"
  using document_loaded[of "doc_of v"] doc_of_correct by metis



text \<open>So a configuration that is written to a file is the one that is loaded.\<close>

lemma written_config_read:
  assumes "writable (VDict d)" and "doc_depth (doc_of (VDict d)) \<le> limit"
    and "ce_read env path = Some (safe_load limit (stream_tokens (doc_of (VDict d))) None)"
  shows "read_yaml env path = Inr d"
  using written_value_loaded[OF assms(1,2)] assms(3) by (simp add: read_yaml_def)

subsection \<open>A malformed scalar\<close>

text \<open>
  An unquoted text that looks like a date but is none raises ValueError, which is not the YAMLError the loaders
  handle: it leaves \<open>_read_yaml\<close> of \<open>db_loader.py\<close>, and \<open>main.py\<close> expects DatabaseConfigError there.
\<close>

definition dated_password :: doc where
  "dated_password = DMap False [(DScalar ''password'' True, DScalar ''2024-02-30'' True)]"

lemma dated_password_raises: "safe_load 5 (stream_tokens dated_password) None = Inl ValueError"
  by code_simp

lemma malformed_scalar_escapes:
  "dl_read env path = Some (safe_load 5 (stream_tokens dated_password) None) \<Longrightarrow> read_db_yaml env path = Inl ValueError"
  by (simp add: read_db_yaml_def dated_password_raises)

end
